(* ===== verification/Prelude.thy ===== *)
theory Prelude
  imports Main "HOL-Library.Word" "HOL-Library.Multiset" "HOL-Library.Finite_Map" "HOL-Library.List_Lexorder" "HOL-Library.Char_ord"
begin

text \<open>
  Shared vocabulary of the development: results of fallible Go functions, the pieces of the Go
  standard library that several components use (decimal printing and reading, trimming,
  splitting, sorting), reachability of step relations and the invariant rule.

  Go strings are byte strings and are modelled by HOL strings (lists of 8-bit characters),
  compared bytewise as Go compares them.  Go's \<open>int\<close> is \<open>int\<close> here; where its 64-bit width
  can be observed the definitions say so.
\<close>

named_theorems guards \<open>case rules of the guards an operation checks\<close>
named_theorems opdefs \<open>definitions unfolded by the preservation proofs\<close>

type_synonym ('e, 'a) result = "'e + 'a"
type_synonym go_time = int
type_synonym duration = int
type_synonym vni = "32 word"

section \<open>Results\<close>

definition bind_result :: "('e, 'a) result \<Rightarrow> ('a \<Rightarrow> ('e, 'b) result) \<Rightarrow> ('e, 'b) result" where
  "bind_result r f = (case r of Inl e \<Rightarrow> Inl e | Inr a \<Rightarrow> f a)"

lemma bind_result_simps [simp]:
  "bind_result (Inl e) f = Inl e"
  "bind_result (Inr a) f = f a"
  by (simp_all add: bind_result_def)

lemma bind_result_Inr_iff: "bind_result r f = Inr b \<longleftrightarrow> (\<exists>a. r = Inr a \<and> f a = Inr b)"
  by (cases r) simp_all

definition map_error :: "('e \<Rightarrow> 'f) \<Rightarrow> ('e, 'a) result \<Rightarrow> ('f, 'a) result" where
  "map_error g r = (case r of Inl e \<Rightarrow> Inl (g e) | Inr a \<Rightarrow> Inr a)"

lemma map_error_simps [simp]:
  "map_error g (Inl e) = Inl (g e)"
  "map_error g (Inr a) = Inr a"
  by (simp_all add: map_error_def)

lemma map_error_Inr_iff [simp]: "map_error g r = Inr a \<longleftrightarrow> r = Inr a"
  by (cases r) simp_all

definition is_ok :: "('e, 'a) result \<Rightarrow> bool" where
  "is_ok r = (case r of Inl _ \<Rightarrow> False | Inr _ \<Rightarrow> True)"

lemma is_ok_simps [simp]: "is_ok (Inr a)" "\<not> is_ok (Inl e)"
  by (simp_all add: is_ok_def)

lemma is_ok_iff: "is_ok r \<longleftrightarrow> (\<exists>a. r = Inr a)"
  by (cases r) simp_all

section \<open>Reachability and invariants\<close>

inductive reach :: "('s \<Rightarrow> bool) \<Rightarrow> ('s \<Rightarrow> 's \<Rightarrow> bool) \<Rightarrow> 's \<Rightarrow> bool"
  for init :: "'s \<Rightarrow> bool" and step :: "'s \<Rightarrow> 's \<Rightarrow> bool" where
  reach_init: "init s \<Longrightarrow> reach init step s"
| reach_step: "reach init step s \<Longrightarrow> step s t \<Longrightarrow> reach init step t"

locale inductive_invariant =
  fixes init :: "'s \<Rightarrow> bool" and step :: "'s \<Rightarrow> 's \<Rightarrow> bool" and inv :: "'s \<Rightarrow> bool"
  assumes inv_init: "init s \<Longrightarrow> inv s"
    and inv_step: "inv s \<Longrightarrow> step s t \<Longrightarrow> inv t"
begin

lemma inv_reach: "reach init step s \<Longrightarrow> inv s"
  by (induction rule: reach.induct) (auto intro: inv_init inv_step)

lemma inv_steps: "step\<^sup>*\<^sup>* s t \<Longrightarrow> inv s \<Longrightarrow> inv t"
  by (induction rule: rtranclp_induct) (auto intro: inv_step)

end

section \<open>Sorting\<close>

text \<open>The inner loop of an insertion sort walks a new element left over the sorted prefix;
  the prefix is kept reversed, so that its last element is at the head.\<close>

fun sink :: "'a::linorder \<Rightarrow> 'a list \<Rightarrow> 'a list" where
  "sink x [] = [x]"
| "sink x (y # ys) = (if x < y then y # sink x ys else x # y # ys)"

lemma mset_sink [simp]: "mset (sink x ys) = add_mset x (mset ys)"
  by (induction ys) auto

lemma set_sink [simp]: "set (sink x ys) = insert x (set ys)"
  by (induction ys) auto

lemma sorted_sink: "sorted (rev ys) \<Longrightarrow> sorted (rev (sink x ys))"
  by (induction ys) (auto simp: sorted_append)

lemma foldl_sink:
  assumes "sorted (rev acc)"
  shows "sorted (rev (foldl (\<lambda>a x. sink x a) acc xs))"
    and "mset (foldl (\<lambda>a x. sink x a) acc xs) = mset acc + mset xs"
  using assms by (induction xs arbitrary: acc) (auto simp: sorted_sink)

section \<open>Injective maps\<close>

definition inj_map :: "('a \<rightharpoonup> 'b) \<Rightarrow> bool" where
  "inj_map m \<longleftrightarrow> (\<forall>k l v. m k = Some v \<longrightarrow> m l = Some v \<longrightarrow> k = l)"

lemma inj_map_empty [simp]: "inj_map Map.empty"
  by (simp add: inj_map_def)

lemma inj_map_single [simp]: "inj_map [k \<mapsto> v]"
  by (simp add: inj_map_def)

lemma map_of_single: "map_of [(k, v)] = [k \<mapsto> v]"
  by simp

lemma inj_mapD: "inj_map m \<Longrightarrow> m k = Some v \<Longrightarrow> m l = Some v \<Longrightarrow> k = l"
  by (simp add: inj_map_def)

lemma inj_map_upd: "inj_map m \<Longrightarrow> (\<And>l. l \<noteq> k \<Longrightarrow> m l \<noteq> Some v) \<Longrightarrow> inj_map (m(k \<mapsto> v))"
  by (auto simp: inj_map_def)

lemma ran_upd_subset: "ran (m(k \<mapsto> v)) \<subseteq> insert v (ran m)"
  by (auto simp: ran_def)

section \<open>Finite maps\<close>

text \<open>A Go map is a finite map.  Reading an absent key gives the zero value, which the caller
  names; a loop over a map that deletes or inspects entries is \<open>fm_keep\<close> or \<open>fm_exists\<close>, whose
  results do not depend on the order of iteration.\<close>

definition get_or :: "'v \<Rightarrow> ('k, 'v) fmap \<Rightarrow> 'k \<Rightarrow> 'v" where
  "get_or z m k = (case fmlookup m k of None \<Rightarrow> z | Some v \<Rightarrow> v)"

definition fm_keep :: "('k \<Rightarrow> 'v \<Rightarrow> bool) \<Rightarrow> ('k, 'v) fmap \<Rightarrow> ('k, 'v) fmap" where
  "fm_keep P m = fmfilter (\<lambda>k. P k (the (fmlookup m k))) m"

definition fm_exists :: "('k \<Rightarrow> 'v \<Rightarrow> bool) \<Rightarrow> ('k, 'v) fmap \<Rightarrow> bool" where
  "fm_exists P m = fBex (fmdom m) (\<lambda>k. P k (the (fmlookup m k)))"

definition fm_keys :: "('k::linorder, 'v) fmap \<Rightarrow> 'k list" where
  "fm_keys m = sorted_list_of_fset (fmdom m)"

lemma get_or_simps [simp]:
  "fmlookup m k = None \<Longrightarrow> get_or z m k = z"
  "fmlookup m k = Some v \<Longrightarrow> get_or z m k = v"
  "get_or z fmempty k = z"
  by (simp_all add: get_or_def)

lemma get_or_fmupd [simp]: "get_or z (fmupd k v m) j = (if k = j then v else get_or z m j)"
  by (simp add: get_or_def)

lemma get_or_fmdrop [simp]: "get_or z (fmdrop k m) j = (if k = j then z else get_or z m j)"
  by (simp add: get_or_def)

lemma fmlookup_fm_keep:
  "fmlookup (fm_keep P m) k =
     (case fmlookup m k of None \<Rightarrow> None | Some v \<Rightarrow> if P k v then Some v else None)"
  by (simp add: fm_keep_def split: option.splits)

lemma fmlookup_fm_keep_Some [simp]:
  "fmlookup (fm_keep P m) k = Some v \<longleftrightarrow> fmlookup m k = Some v \<and> P k v"
  by (auto simp: fmlookup_fm_keep split: option.splits)

lemma fmlookup_fm_keep_None:
  "fmlookup (fm_keep P m) k = None \<longleftrightarrow> (\<forall>v. fmlookup m k = Some v \<longrightarrow> \<not> P k v)"
  by (auto simp: fmlookup_fm_keep split: option.splits)

lemma fm_exists_iff: "fm_exists P m \<longleftrightarrow> (\<exists>k v. fmlookup m k = Some v \<and> P k v)"
  by (force simp: fm_exists_def fmlookup_dom_iff)

lemma fm_keep_id: "\<not> fm_exists (\<lambda>k v. \<not> P k v) m \<Longrightarrow> fm_keep P m = m"
  by (rule fmap_ext) (auto simp: fm_exists_iff fmlookup_fm_keep split: option.splits)

text \<open>Undoing an update.\<close>

lemma fmupd_undo:
  "fmlookup m k = Some v \<Longrightarrow> fmupd k v (fmupd k w m) = m"
  "fmlookup m k = Some v \<Longrightarrow> fmupd k v (fmdrop k m) = m"
  "fmlookup m k = None \<Longrightarrow> fmdrop k (fmupd k w m) = m"
  "fmlookup m k = None \<Longrightarrow> fmdrop k m = m"
  "fmlookup m k = Some v \<Longrightarrow> fmupd k v m = m"
  by (auto intro!: fmap_ext)

lemma set_fm_keys [simp]: "set (fm_keys m) = {k. \<exists>v. fmlookup m k = Some v}"
  by (auto simp: fm_keys_def fmlookup_dom_iff)

section \<open>Decimal numbers, as fmt and strconv write and read them\<close>

fun digit_of :: "nat \<Rightarrow> char" where
  "digit_of d = char_of (48 + d)"

fun digits :: "nat \<Rightarrow> string" where
  "digits n = (if n < 10 then [digit_of n] else digits (n div 10) @ [digit_of (n mod 10)])"

declare digits.simps [simp del]

definition is_digit :: "char \<Rightarrow> bool" where
  "is_digit c \<longleftrightarrow> 48 \<le> (of_char c :: nat) \<and> (of_char c :: nat) \<le> 57"

definition digits_val :: "string \<Rightarrow> nat" where
  "digits_val s = foldl (\<lambda>n c. n * 10 + (of_char c - 48)) 0 s"

definition show_int :: "int \<Rightarrow> string" where
  "show_int i = (if i < 0 then CHR ''-'' # digits (nat (- i)) else digits (nat i))"

text \<open>\<open>strconv.Atoi\<close>: an optional sign, decimal digits only, and a range error outside the
  64-bit \<open>int\<close>.\<close>

definition atoi_nat :: "string \<Rightarrow> nat option" where
  "atoi_nat s = (if s = [] \<or> \<not> list_all is_digit s then None else Some (digits_val s))"

definition atoi :: "string \<Rightarrow> int option" where
  "atoi s =
     (case s of [] \<Rightarrow> None
      | c # cs \<Rightarrow>
          (if c = CHR ''-''
           then (case atoi_nat cs of None \<Rightarrow> None
                 | Some n \<Rightarrow> if n \<le> 2 ^ 63 then Some (- int n) else None)
           else (case atoi_nat (if c = CHR ''+'' then cs else s) of None \<Rightarrow> None
                 | Some n \<Rightarrow> if n < 2 ^ 63 then Some (int n) else None)))"

lemma of_char_digit_of [simp]: "d < 10 \<Longrightarrow> (of_char (digit_of d) :: nat) = 48 + d"
  by (simp add: of_char_of)

lemma is_digit_digit_of [simp]: "d < 10 \<Longrightarrow> is_digit (digit_of d)"
  by (simp add: is_digit_def del: digit_of.simps)

lemma digits_all_digit: "list_all is_digit (digits n)"
  by (induction n rule: digits.induct) (subst digits.simps, simp del: digit_of.simps)

lemma digits_not_Nil [simp]: "digits n \<noteq> []"
  by (subst digits.simps) simp

lemma digits_val_snoc: "digits_val (s @ [c]) = digits_val s * 10 + (of_char c - 48)"
  by (simp add: digits_val_def)

lemma digits_val_digits [simp]: "digits_val (digits n) = n"
proof (induction n rule: digits.induct)
  case (1 n)
  show ?case
  proof (cases "n < 10")
    case True
    then show ?thesis
      by (subst digits.simps) (simp add: digits_val_def del: digit_of.simps)
  next
    case False
    then show ?thesis
      by (subst digits.simps) (simp add: digits_val_snoc 1 del: digit_of.simps)
  qed
qed

lemma digits_inject [simp]: "digits m = digits n \<longleftrightarrow> m = n"
  by (metis digits_val_digits)

lemma atoi_nat_digits [simp]: "atoi_nat (digits n) = Some n"
  by (simp add: atoi_nat_def digits_all_digit)

lemma not_digit_sign: "\<not> is_digit CHR ''-''" "\<not> is_digit CHR ''+''" "\<not> is_digit CHR ''.''"
  "\<not> is_digit CHR ''v''"
  by (simp_all add: is_digit_def)

lemma atoi_digits: "n < 2 ^ 63 \<Longrightarrow> atoi (digits n) = Some (int n)"
proof -
  assume "n < 2 ^ 63"
  moreover obtain c cs where c: "digits n = c # cs"
    by (cases "digits n") simp_all
  moreover have "is_digit c"
    using digits_all_digit [of n] c by simp
  then have "c \<noteq> CHR ''-''" "c \<noteq> CHR ''+''"
    using not_digit_sign by auto
  moreover have "atoi_nat (c # cs) = Some n"
    using atoi_nat_digits [of n] c by simp
  ultimately show ?thesis
    by (simp add: atoi_def)
qed

section \<open>Trimming and splitting strings\<close>

text \<open>The white space of \<open>unicode.IsSpace\<close>, each rune in its UTF-8 encoding: the six ASCII
  characters, U+0085, U+00A0, U+1680, U+2000 to U+200A, U+2028, U+2029, U+202F, U+205F and
  U+3000.\<close>

definition space_runes :: "string list" where
  "space_runes =
     [[CHR 0x09], [CHR 0x0A], [CHR 0x0B], [CHR 0x0C], [CHR 0x0D], [CHR 0x20], [CHR 0xC2, CHR 0x85],
      [CHR 0xC2, CHR 0xA0], [CHR 0xE1, CHR 0x9A, CHR 0x80], [CHR 0xE2, CHR 0x80, CHR 0x80],
      [CHR 0xE2, CHR 0x80, CHR 0x81], [CHR 0xE2, CHR 0x80, CHR 0x82], [CHR 0xE2, CHR 0x80, CHR 0x83],
      [CHR 0xE2, CHR 0x80, CHR 0x84], [CHR 0xE2, CHR 0x80, CHR 0x85], [CHR 0xE2, CHR 0x80, CHR 0x86],
      [CHR 0xE2, CHR 0x80, CHR 0x87], [CHR 0xE2, CHR 0x80, CHR 0x88], [CHR 0xE2, CHR 0x80, CHR 0x89],
      [CHR 0xE2, CHR 0x80, CHR 0x8A], [CHR 0xE2, CHR 0x80, CHR 0xA8], [CHR 0xE2, CHR 0x80, CHR 0xA9],
      [CHR 0xE2, CHR 0x80, CHR 0xAF], [CHR 0xE2, CHR 0x81, CHR 0x9F], [CHR 0xE3, CHR 0x80, CHR 0x80]]"

definition strip_one :: "string list \<Rightarrow> string \<Rightarrow> string option" where
  "strip_one ps s =
     (case filter (\<lambda>p. p \<noteq> [] \<and> take (length p) s = p) ps of
        [] \<Rightarrow> None | p # _ \<Rightarrow> Some (drop (length p) s))"

lemma strip_one_shorter: "strip_one ps s = Some t \<Longrightarrow> length t < length s"
proof -
  assume a: "strip_one ps s = Some t"
  then obtain p qs where f: "filter (\<lambda>p. p \<noteq> [] \<and> take (length p) s = p) ps = p # qs"
    and t: "t = drop (length p) s"
    by (auto simp: strip_one_def split: list.splits)
  have "p \<in> set (filter (\<lambda>p. p \<noteq> [] \<and> take (length p) s = p) ps)"
    by (simp add: f)
  then have "p \<noteq> []" "take (length p) s = p"
    by auto
  then have "0 < length p" "length p \<le> length s"
    by (auto, metis length_take min.cobounded1)
  then show ?thesis
    unfolding t length_drop by linarith
qed

function strip_all :: "string list \<Rightarrow> string \<Rightarrow> string" where
  "strip_all ps s = (case strip_one ps s of None \<Rightarrow> s | Some t \<Rightarrow> strip_all ps t)"
  by auto
termination
  by (relation "measure (\<lambda>(ps, s). length s)") (auto simp: strip_one_shorter)

declare strip_all.simps [simp del]

text \<open>A character that occurs in no trimmed piece stops the trimming.\<close>

lemma strip_one_barrier:
  assumes "\<forall>p\<in>set ps. c \<notin> set p"
  shows "strip_one ps (xs @ c # ys) = map_option (\<lambda>t. t @ c # ys) (strip_one ps xs)"
proof -
  have "(take (length p) (xs @ c # ys) = p) = (take (length p) xs = p)" if "p \<in> set ps" for p
  proof (cases "length p \<le> length xs")
    case False
    then have "c \<in> set (take (length p) (xs @ c # ys))"
      by (simp add: take_Cons')
    moreover from False have "length (take (length p) xs) \<noteq> length p"
      by simp
    ultimately show ?thesis
      using assms that by metis
  qed simp
  then have "filter (\<lambda>p. p \<noteq> [] \<and> take (length p) (xs @ c # ys) = p) ps =
      filter (\<lambda>p. p \<noteq> [] \<and> take (length p) xs = p) ps"
    by (auto intro: filter_cong)
  moreover have "length p \<le> length xs"
    if "filter (\<lambda>p. p \<noteq> [] \<and> take (length p) xs = p) ps = p # qs" for p qs
  proof -
    have "p \<in> set (filter (\<lambda>p. p \<noteq> [] \<and> take (length p) xs = p) ps)"
      by (simp add: that)
    then show ?thesis
      by (auto, metis length_take min.cobounded1)
  qed
  ultimately show ?thesis
    by (auto simp: strip_one_def split: list.splits)
qed

lemma strip_all_barrier:
  assumes "\<forall>p\<in>set ps. c \<notin> set p"
  shows "strip_all ps (xs @ c # ys) = strip_all ps xs @ c # ys"
proof (induction xs rule: length_induct)
  case (1 xs)
  show ?case
  proof (cases "strip_one ps xs")
    case None
    then show ?thesis
      by (simp add: strip_all.simps [of ps "xs @ c # ys"] strip_all.simps [of ps xs]
          strip_one_barrier [OF assms])
  next
    case (Some t)
    then show ?thesis
      using 1 strip_one_shorter [OF Some]
      by (simp add: strip_all.simps [of ps "xs @ c # ys"] strip_all.simps [of ps xs]
          strip_one_barrier [OF assms])
  qed
qed

definition trim_space :: "string \<Rightarrow> string" where
  "trim_space s = rev (strip_all (map rev space_runes) (rev (strip_all space_runes s)))"

lemma space_runes_bytes:
  "list_all (list_all (\<lambda>c. (of_char c :: nat) < 45 \<or> 128 \<le> (of_char c :: nat))) space_runes"
  by code_simp

lemma space_runes_free:
  assumes "45 \<le> (of_char c :: nat) \<and> (of_char c :: nat) < 128"
  shows "\<forall>p\<in>set space_runes. c \<notin> set p"
  using assms space_runes_bytes unfolding list_all_iff by (metis linorder_not_le)

lemma space_runes_rev_free:
  "45 \<le> (of_char c :: nat) \<and> (of_char c :: nat) < 128 \<Longrightarrow> \<forall>p\<in>set (map rev space_runes). c \<notin> set p"
  using space_runes_free [of c] by simp

lemma strip_all_Nil [simp]: "strip_all ps [] = []"
proof -
  have "filter (\<lambda>p. p \<noteq> [] \<and> [] = p) ps = []"
    by (auto simp: filter_empty_conv)
  then show ?thesis
    by (subst strip_all.simps) (simp add: strip_one_def)
qed

lemma trim_space_id:
  assumes "45 \<le> (of_char c :: nat) \<and> (of_char c :: nat) < 128"
    and "45 \<le> (of_char d :: nat) \<and> (of_char d :: nat) < 128"
    and "s = c # cs" "s = ds @ [d]"
  shows "trim_space s = s"
proof -
  have "strip_all space_runes s = s"
    using strip_all_barrier [OF space_runes_free [OF assms(1)], of "[]" cs] assms(3) by simp
  moreover have "strip_all (map rev space_runes) (rev s) = rev s"
    using strip_all_barrier [OF space_runes_rev_free [OF assms(2)], of "[]" "rev ds"] assms(4) by simp
  ultimately show ?thesis
    by (simp add: trim_space_def)
qed

definition trim_prefix :: "string \<Rightarrow> string \<Rightarrow> string" where
  "trim_prefix p s = (if take (length p) s = p then drop (length p) s else s)"

fun split_on :: "char \<Rightarrow> string \<Rightarrow> string list" where
  "split_on c [] = [[]]"
| "split_on c (x # xs) =
     (if x = c then [] # split_on c xs
      else (case split_on c xs of [] \<Rightarrow> [[x]] | p # ps \<Rightarrow> (x # p) # ps))"

lemma split_on_not_Nil [simp]: "split_on c s \<noteq> []"
  by (induction s) (auto split: list.splits)

lemma split_on_no_sep: "c \<notin> set s \<Longrightarrow> split_on c s = [s]"
  by (induction s) auto

lemma split_on_append: "c \<notin> set s \<Longrightarrow> split_on c (s @ c # t) = s # split_on c t"
  by (induction s) auto

text \<open>\<open>strings.ToLower\<close> on the ASCII letters.  No letter outside ASCII lowers to a letter of the
  two mode names it is compared with, so this is all the callers can observe.\<close>

definition to_lower :: "string \<Rightarrow> string" where
  "to_lower s = map (\<lambda>c. let n = of_char c :: nat in if 65 \<le> n \<and> n \<le> 90 then char_of (n + 32) else c) s"

definition has_prefix :: "string \<Rightarrow> string \<Rightarrow> bool" where
  "has_prefix s p \<longleftrightarrow> take (length p) s = p"

definition has_suffix :: "string \<Rightarrow> string \<Rightarrow> bool" where
  "has_suffix s suf \<longleftrightarrow> length suf \<le> length s \<and> drop (length s - length suf) s = suf"

end
