(* ===== verification/Contract.thy ===== *)
theory Contract
  imports Prelude
begin

text \<open>
  Compatibility contracts, \<open>internal/contract/version.go\<close>: dotted versions, the inclusive range
  a participant advertises, and the check that a controller and a node make before a rolling
  deployment mutates a lab.
\<close>

section \<open>Definitions\<close>

record Range =
  Current :: string
  MinCompatible :: string
  MaxCompatible :: string

record Set =
  Protocol :: Range
  Renderer :: Range
  State :: Range

datatype version = Version (major: int) (minor: int) (patch: int)

datatype parse_error = EmptyVersion | TooManyComponents | EmptyComponent | NotDotted

datatype range_error =
    CurrentError parse_error
  | MinimumError parse_error
  | MaximumError parse_error
  | MinimumExceedsMaximum
  | CurrentOutside

datatype set_error = ContractInvalid string range_error | ContractIncompatible string

fun parse_parts :: "string list \<Rightarrow> (parse_error, int list) result" where
  "parse_parts [] = Inr []"
| "parse_parts (part # parts) =
     (if part = [] then Inl EmptyComponent
      else (case atoi part of
              None \<Rightarrow> Inl NotDotted
            | Some n \<Rightarrow>
                if n < 0 then Inl NotDotted
                else (case parse_parts parts of Inl e \<Rightarrow> Inl e | Inr ns \<Rightarrow> Inr (n # ns))))"

definition version_of_values :: "int list \<Rightarrow> version" where
  "version_of_values ns =
     (let values = ns @ replicate 3 0 in Version (values ! 0) (values ! 1) (values ! 2))"

definition parse :: "string \<Rightarrow> (parse_error, version) result" where
  "parse value0 =
     (let value = trim_prefix ''v'' (trim_space value0) in
      if value = [] then Inl EmptyVersion
      else
        let core = takeWhile (\<lambda>c. c \<noteq> CHR ''-'') value;
            parts = split_on CHR ''.'' core
        in if length parts > 3 then Inl TooManyComponents
           else (case parse_parts parts of Inl e \<Rightarrow> Inl e | Inr ns \<Rightarrow> Inr (version_of_values ns)))"

definition compareInt :: "int \<Rightarrow> int \<Rightarrow> int" where
  "compareInt a b = (if a < b then -1 else if a > b then 1 else 0)"

definition version_compare :: "version \<Rightarrow> version \<Rightarrow> int" where
  "version_compare v w =
     (if major v \<noteq> major w then compareInt (major v) (major w)
      else if minor v \<noteq> minor w then compareInt (minor v) (minor w)
      else compareInt (patch v) (patch w))"

definition version_in :: "version \<Rightarrow> version \<Rightarrow> version \<Rightarrow> bool" where
  "version_in v lo hi \<longleftrightarrow> version_compare v lo \<ge> 0 \<and> version_compare v hi \<le> 0"

definition Range_Validate :: "Range \<Rightarrow> (range_error, unit) result" where
  "Range_Validate r =
     (case parse (Current r) of Inl e \<Rightarrow> Inl (CurrentError e)
      | Inr cur \<Rightarrow>
        (case parse (MinCompatible r) of Inl e \<Rightarrow> Inl (MinimumError e)
         | Inr lo \<Rightarrow>
           (case parse (MaxCompatible r) of Inl e \<Rightarrow> Inl (MaximumError e)
            | Inr hi \<Rightarrow>
                if version_compare lo hi > 0 then Inl MinimumExceedsMaximum
                else if \<not> version_in cur lo hi then Inl CurrentOutside
                else Inr ())))"

text \<open>A failed \<open>parse\<close> returns the zero version beside its error; \<open>parsed\<close> is the value the
  caller sees when it ignores the error.\<close>

definition parsed :: "string \<Rightarrow> version" where
  "parsed s = (case parse s of Inl _ \<Rightarrow> Version 0 0 0 | Inr v \<Rightarrow> v)"

definition Range_Compatible :: "Range \<Rightarrow> Range \<Rightarrow> (range_error, bool) result" where
  "Range_Compatible r other =
     (case Range_Validate r of Inl e \<Rightarrow> Inl e
      | Inr _ \<Rightarrow>
        (case Range_Validate other of Inl e \<Rightarrow> Inl e
         | Inr _ \<Rightarrow>
             Inr (version_in (parsed (Current r)) (parsed (MinCompatible other)) (parsed (MaxCompatible other))
                \<and> version_in (parsed (Current other)) (parsed (MinCompatible r)) (parsed (MaxCompatible r)))))"

definition Set_Empty :: "Set \<Rightarrow> bool" where
  "Set_Empty s \<longleftrightarrow> Current (Protocol s) = [] \<and> Current (Renderer s) = [] \<and> Current (State s) = []"

fun check_parts :: "(string \<times> Range \<times> Range) list \<Rightarrow> (set_error, unit) result" where
  "check_parts [] = Inr ()"
| "check_parts ((name, a, b) # parts) =
     (case Range_Compatible a b of
        Inl e \<Rightarrow> Inl (ContractInvalid name e)
      | Inr ok \<Rightarrow> if ok then check_parts parts else Inl (ContractIncompatible name))"

definition Set_Compatible :: "Set \<Rightarrow> Set \<Rightarrow> (set_error, unit) result" where
  "Set_Compatible s other =
     check_parts
       [(''protocol'', Protocol s, Protocol other),
        (''renderer'', Renderer s, Renderer other),
        (''state'', State s, State other)]"

section \<open>Versions are linearly ordered by compare\<close>

instantiation version :: linorder
begin

definition less_eq_version :: "version \<Rightarrow> version \<Rightarrow> bool" where
  "v \<le> w \<longleftrightarrow> version_compare v w \<le> 0"

definition less_version :: "version \<Rightarrow> version \<Rightarrow> bool" where
  "v < w \<longleftrightarrow> version_compare v w < 0"

instance
  by standard
    (auto simp: less_eq_version_def less_version_def version_compare_def compareInt_def
      split: if_splits intro: version.expand)

end

lemma version_compare_flip: "version_compare v w = - version_compare w v"
  by (simp add: version_compare_def compareInt_def)

lemma version_compare_le: "version_compare v w \<le> 0 \<longleftrightarrow> v \<le> w"
  and version_compare_ge: "version_compare v w \<ge> 0 \<longleftrightarrow> w \<le> v"
  and version_compare_gt: "version_compare v w > 0 \<longleftrightarrow> w < v"
  and version_compare_zero: "version_compare v w = 0 \<longleftrightarrow> v = w"
proof -
  show "version_compare v w \<le> 0 \<longleftrightarrow> v \<le> w"
    by (simp add: less_eq_version_def)
  show ge: "version_compare v w \<ge> 0 \<longleftrightarrow> w \<le> v"
    unfolding less_eq_version_def version_compare_flip [of w v] by simp
  show "version_compare v w > 0 \<longleftrightarrow> w < v"
    unfolding less_version_def version_compare_flip [of w v] by simp
  show "version_compare v w = 0 \<longleftrightarrow> v = w"
    using ge less_eq_version_def [of v w] by (metis antisym order_refl)
qed

lemmas version_order = version_compare_le version_compare_ge version_compare_gt

lemma version_in_iff: "version_in v lo hi \<longleftrightarrow> lo \<le> v \<and> v \<le> hi"
  by (simp add: version_in_def version_order)

section \<open>Ranges\<close>

text \<open>What a valid range says of its three versions.\<close>

definition valid_range :: "Range \<Rightarrow> bool" where
  "valid_range r \<longleftrightarrow>
     (\<exists>c lo hi. parse (Current r) = Inr c \<and> parse (MinCompatible r) = Inr lo \<and>
        parse (MaxCompatible r) = Inr hi \<and> lo \<le> c \<and> c \<le> hi)"

lemma Range_Validate_ok: "Range_Validate r = Inr () \<longleftrightarrow> valid_range r"
  by (auto simp: Range_Validate_def valid_range_def version_in_iff version_order
      split: sum.splits)

lemma Range_Validate_cases [guards]:
  obtains (ok) "Range_Validate r = Inr ()" "valid_range r"
  | (bad) e where "Range_Validate r = Inl e" "\<not> valid_range r"
  by (metis (full_types) Range_Validate_ok old.unit.exhaust sumE)

definition accepts :: "Range \<Rightarrow> version \<Rightarrow> bool" where
  "accepts r v \<longleftrightarrow> parsed (MinCompatible r) \<le> v \<and> v \<le> parsed (MaxCompatible r)"

definition mutually_accepting :: "Range \<Rightarrow> Range \<Rightarrow> bool" where
  "mutually_accepting r s \<longleftrightarrow>
     valid_range r \<and> valid_range s \<and>
     accepts s (parsed (Current r)) \<and> accepts r (parsed (Current s))"

lemma valid_range_accepts_itself: "valid_range r \<Longrightarrow> accepts r (parsed (Current r))"
  by (auto simp: valid_range_def accepts_def parsed_def)

lemma Range_Compatible_ok:
  "Range_Compatible r s = Inr b \<longleftrightarrow>
     valid_range r \<and> valid_range s \<and>
     b = (accepts s (parsed (Current r)) \<and> accepts r (parsed (Current s)))"
  by (rule Range_Validate_cases [of r]; rule Range_Validate_cases [of s])
    (auto simp: Range_Compatible_def accepts_def version_in_iff)

lemma Range_Compatible_sym: "Range_Compatible r s = Inr b \<longleftrightarrow> Range_Compatible s r = Inr b"
  by (auto simp: Range_Compatible_ok)

lemma check_parts_ok:
  "check_parts ps = Inr () \<longleftrightarrow> (\<forall>(n, a, b) \<in> set ps. Range_Compatible a b = Inr True)"
  by (induction ps rule: check_parts.induct) (auto split: sum.splits if_splits)

lemma Set_Compatible_ok:
  "Set_Compatible s t = Inr () \<longleftrightarrow>
     Range_Compatible (Protocol s) (Protocol t) = Inr True \<and>
     Range_Compatible (Renderer s) (Renderer t) = Inr True \<and>
     Range_Compatible (State s) (State t) = Inr True"
  by (simp add: Set_Compatible_def check_parts_ok del: check_parts.simps)

section \<open>Reading a dotted version\<close>

definition dotted :: "nat \<Rightarrow> nat \<Rightarrow> nat \<Rightarrow> string" where
  "dotted a b c = digits a @ CHR ''.'' # digits b @ CHR ''.'' # digits c"

lemma digits_free: "\<not> is_digit c \<Longrightarrow> c \<notin> set (digits n)"
  using digits_all_digit [of n] by (auto simp: list_all_iff)

lemma split_on_dotted: "split_on CHR ''.'' (dotted a b c) = [digits a, digits b, digits c]"
  by (simp add: dotted_def split_on_append split_on_no_sep digits_free not_digit_sign)

lemma parse_parts_dotted:
  "a < 2 ^ 63 \<Longrightarrow> b < 2 ^ 63 \<Longrightarrow> c < 2 ^ 63 \<Longrightarrow>
     parse_parts [digits a, digits b, digits c] = Inr [int a, int b, int c]"
  by (simp add: atoi_digits)

lemma is_digit_bounds: "is_digit c \<Longrightarrow> 45 \<le> (of_char c :: nat) \<and> (of_char c :: nat) < 128"
  by (auto simp: is_digit_def)

lemma dotted_ends:
  obtains c cs d ds where "dotted a b e = c # cs" "is_digit c" "dotted a b e = ds @ [d]" "is_digit d"
proof -
  obtain c cs where c: "digits a = c # cs" by (cases "digits a") simp_all
  obtain d ds where d: "digits e = ds @ [d]" by (cases "digits e" rule: rev_cases) simp_all
  have "is_digit c" "is_digit d"
    using digits_all_digit [of a] digits_all_digit [of e] c d by simp_all
  then show thesis
    using that [of c "cs @ CHR ''.'' # digits b @ CHR ''.'' # digits e"
        "digits a @ CHR ''.'' # digits b @ CHR ''.'' # ds" d]
    by (simp add: dotted_def c d)
qed

lemma trim_space_dotted:
  assumes ws: "strip_all space_runes ws = []" and pre: "pre = [] \<or> hd pre = CHR ''-''"
  shows "\<exists>pre'. (pre' = [] \<or> hd pre' = CHR ''-'') \<and>
    trim_space (ws @ (if v then ''v'' else []) @ dotted a b c @ pre) =
      (if v then ''v'' else []) @ dotted a b c @ pre'"
proof -
  let ?v = "if v then ''v'' else []"
  obtain h hs l ls where ends: "dotted a b c = h # hs" "is_digit h" "dotted a b c = ls @ [l]" "is_digit l"
    by (rule dotted_ends)
  have front: "strip_all space_runes (ws @ ?v @ dotted a b c @ pre) = ?v @ dotted a b c @ pre"
    using strip_all_barrier [OF space_runes_free, of h ws "hs @ pre"]
      strip_all_barrier [OF space_runes_free, of "CHR ''v''" ws "dotted a b c @ pre"] ws is_digit_bounds [OF ends(2)]
    by (cases v) (simp_all add: ends(1))
  show ?thesis
  proof (cases pre)
    case Nil
    have "strip_all (map rev space_runes) (rev (?v @ dotted a b c)) = rev (?v @ dotted a b c)"
      using strip_all_barrier [OF space_runes_rev_free, of l "[]" "rev (?v @ ls)"] is_digit_bounds [OF ends(4)]
      by (simp add: ends(3))
    with front Nil show ?thesis
      by (intro exI [of _ "[]"]) (simp add: trim_space_def)
  next
    case (Cons x xs)
    with pre have x: "x = CHR ''-''" by simp
    let ?s = "strip_all (map rev space_runes) (rev xs)"
    have "strip_all (map rev space_runes) (rev (?v @ dotted a b c @ pre)) =
        ?s @ x # rev (?v @ dotted a b c)"
      using strip_all_barrier [OF space_runes_rev_free, of x "rev xs" "rev (?v @ dotted a b c)"]
        Cons x by simp
    with front Cons x show ?thesis
      by (intro exI [of _ "CHR ''-'' # rev ?s"]) (simp add: trim_space_def)
  qed
qed

lemma trim_prefix_v_dotted: "trim_prefix ''v'' ((if v then ''v'' else []) @ dotted a b c @ pre) = dotted a b c @ pre"
proof -
  obtain h hs where "dotted a b c = h # hs" "is_digit h"
    by (rule dotted_ends)
  moreover from this have "h \<noteq> CHR ''v''"
    using not_digit_sign by auto
  ultimately show ?thesis
    by (simp add: trim_prefix_def)
qed

lemma takeWhile_dotted:
  assumes "pre = [] \<or> hd pre = CHR ''-''"
  shows "takeWhile (\<lambda>c. c \<noteq> CHR ''-'') (dotted a b c @ pre) = dotted a b c"
proof -
  have "\<forall>x\<in>set (dotted a b c). x \<noteq> CHR ''-''"
    using digits_free [of "CHR ''-''"] not_digit_sign by (auto simp: dotted_def)
  then show ?thesis
    using assms by (cases pre) (simp_all add: takeWhile_append2)
qed

lemma version_of_three: "version_of_values [a, b, c] = Version a b c"
  by (simp add: version_of_values_def)

lemma dotted_not_Nil [simp]: "dotted a b c \<noteq> []"
  by (simp add: dotted_def)

text \<open>\<open>parse\<close> reads back every dotted version whose components fit Go's \<open>int\<close>, whatever white
  space surrounds it, with or without the leading \<open>v\<close> and with any pre-release suffix that
  starts with a dash.\<close>

theorem parse_dotted:
  assumes "a < 2 ^ 63" "b < 2 ^ 63" "c < 2 ^ 63"
    and "strip_all space_runes ws = []" and "pre = [] \<or> hd pre = CHR ''-''"
  shows "parse (ws @ (if v then ''v'' else []) @ dotted a b c @ pre) = Inr (Version (int a) (int b) (int c))"
proof -
  obtain pre' where "pre' = [] \<or> hd pre' = CHR ''-''"
    and "trim_space (ws @ (if v then ''v'' else []) @ dotted a b c @ pre) =
      (if v then ''v'' else []) @ dotted a b c @ pre'"
    using trim_space_dotted [OF assms(4,5), of v a b c] by (elim exE conjE)
  then show ?thesis
    using parse_parts_dotted [OF assms(1-3)]
    by (simp add: parse_def trim_prefix_v_dotted takeWhile_dotted split_on_dotted
        version_of_three del: parse_parts.simps)
qed

theorem parse_dotted_witness:
  "parse ('' '' @ ''v'' @ dotted 1 24 3 @ ''-rc1 '') = Inr (Version 1 24 3)"
proof -
  have "strip_all space_runes '' '' = []"
    by code_simp
  then show ?thesis
    using parse_dotted [of 1 24 3 "'' ''" "''-rc1 ''" True] by (simp del: append.simps)
qed

text \<open>two contract sets are compatible exactly when all six advertised ranges are well formed
  (each parses, and its current revision lies between its bounds) and, for each of protocol,
  renderer and state, each side's current revision lies in the interval the other side accepts.
  In particular the check does not depend on which side runs it.\<close>

theorem Set_Compatible_iff:
  "(Set_Compatible s t = Inr () \<longleftrightarrow>
     mutually_accepting (Protocol s) (Protocol t) \<and>
     mutually_accepting (Renderer s) (Renderer t) \<and>
     mutually_accepting (State s) (State t))
   \<and> (Set_Compatible s t = Inr () \<longleftrightarrow> Set_Compatible t s = Inr ())"
  by (auto simp: Set_Compatible_ok Range_Compatible_ok mutually_accepting_def)

end
