(* ===== verification/Alloc.thy ===== *)
theory Alloc
  imports Prelude
begin

text \<open>
  Derived identifiers, \<open>internal/alloc/alloc.go\<close>: VXLAN network identifiers hashed from the lab
  and link names, their assignment within a lab, the reassignment of identifiers another lab
  uses, and the names of the kernel objects that carry them.

  \<open>hash/fnv\<close> is modelled byte by byte on 64-bit words.  A loop \<open>for salt := ...; ; salt++\<close> has no
  bound in the source: it is the partial function \<open>probe\<close>, whose value is \<open>None\<close> when the loop
  never finds a free identifier, and whose salt wraps around as Go's 64-bit \<open>int\<close> does.
\<close>

unbundle bit_operations_syntax

section \<open>Definitions\<close>

definition vniMin :: nat where "vniMin = 4096"
definition vniMax :: nat where "vniMax = 16000000"

definition fnv64a :: "string \<Rightarrow> 64 word" where
  "fnv64a s = foldl (\<lambda>h c. (h XOR of_nat (of_char c)) * 1099511628211) 14695981039346656037 s"

text \<open>Byte \<open>i\<close> of a word, counted from the least significant one, and the big-endian layouts
  of \<open>encoding/binary\<close>.\<close>

definition byte_at :: "nat \<Rightarrow> 'a::len word \<Rightarrow> nat" where
  "byte_at i w = unat w div 256 ^ i mod 256"

definition PutUint32 :: "32 word \<Rightarrow> string" where
  "PutUint32 w = map (\<lambda>i. char_of (byte_at i w)) [3, 2, 1, 0]"

definition VNI :: "string \<Rightarrow> string \<Rightarrow> 64 word \<Rightarrow> vni" where
  "VNI lab linkID salt =
     (let sum = fnv64a (lab @ [CHR 0x00] @ linkID @
                  (if 0 < sint salt then CHR 0x00 # PutUint32 (ucast salt) else []))
      in ucast (sum mod of_nat (vniMax - vniMin)) + of_nat vniMin)"

partial_function (option) probe :: "(64 word \<Rightarrow> 'v) \<Rightarrow> ('v \<Rightarrow> bool) \<Rightarrow> 64 word \<Rightarrow> 'v option" where
  "probe cand free salt = (if free (cand salt) then Some (cand salt) else probe cand free (salt + 1))"

definition sortStrings :: "string list \<Rightarrow> string list" where
  "sortStrings s = rev (foldl (\<lambda>a x. sink x a) [] s)"

fun assign_loop :: "string \<Rightarrow> string list \<Rightarrow> vni set \<Rightarrow> (string \<rightharpoonup> vni) \<Rightarrow> (string \<rightharpoonup> vni) option" where
  "assign_loop lab [] used out = Some out"
| "assign_loop lab (l # ids) used out =
     (case probe (VNI lab l) (\<lambda>v. v \<notin> used) 0 of
        None \<Rightarrow> None
      | Some v \<Rightarrow> assign_loop lab ids (insert v used) (out(l \<mapsto> v)))"

definition AssignVNIs :: "string \<Rightarrow> string list \<Rightarrow> (string \<rightharpoonup> vni) option" where
  "AssignVNIs lab linkIDs = assign_loop lab (sortStrings linkIDs) {} Map.empty"

text \<open>The maps that \<open>Deconflict\<close> ranges over are association lists with distinct keys.
  \<open>inUse[v]\<close> reads the empty string for an absent key, as a Go map does.\<close>

type_synonym use_map = "(vni \<times> string) list"

definition owner_of :: "use_map \<Rightarrow> vni \<Rightarrow> string" where
  "owner_of inUse v = (case map_of inUse v of None \<Rightarrow> [] | Some w \<Rightarrow> w)"

definition clashes :: "string \<Rightarrow> use_map \<Rightarrow> vni \<Rightarrow> bool" where
  "clashes lab inUse v \<longleftrightarrow>
     (case map_of inUse v of None \<Rightarrow> False | Some w \<Rightarrow> \<not> (w = lab \<or> w = []))"

definition free_for :: "string \<Rightarrow> use_map \<Rightarrow> vni set \<Rightarrow> vni \<Rightarrow> bool" where
  "free_for lab inUse taken v \<longleftrightarrow>
     v \<notin> taken \<and> (owner_of inUse v = [] \<or> owner_of inUse v = lab)"

fun deconflict_loop ::
    "string \<Rightarrow> use_map \<Rightarrow> string list \<Rightarrow> vni set \<Rightarrow> (string \<rightharpoonup> vni) \<Rightarrow> nat
      \<Rightarrow> ((string \<rightharpoonup> vni) \<times> nat) option" where
  "deconflict_loop lab inUse [] taken assigned moved = Some (assigned, moved)"
| "deconflict_loop lab inUse (l # ids) taken assigned moved =
     (let v = the (assigned l) in
      if \<not> clashes lab inUse v then deconflict_loop lab inUse ids taken assigned moved
      else
        (case probe (VNI lab l) (free_for lab inUse (taken - {v})) 1 of
           None \<Rightarrow> None
         | Some cand \<Rightarrow>
             deconflict_loop lab inUse ids (insert cand (taken - {v})) (assigned(l \<mapsto> cand)) (moved + 1)))"

definition taken_at_start :: "string \<Rightarrow> (string \<times> vni) list \<Rightarrow> use_map \<Rightarrow> vni set" where
  "taken_at_start lab assigned inUse =
     set (map fst (filter (\<lambda>(v, w). w \<noteq> lab) inUse)) \<union> set (map snd assigned)"

definition Deconflict ::
    "string \<Rightarrow> (string \<times> vni) list \<Rightarrow> use_map \<Rightarrow> ((string \<rightharpoonup> vni) \<times> nat) option" where
  "Deconflict lab assigned inUse =
     deconflict_loop lab inUse (sortStrings (map fst assigned))
       (taken_at_start lab assigned inUse) (map_of assigned) 0"

text \<open>Hexadecimal printing: \<open>hex\<close> is \<open>%x\<close>, \<open>hex_pad w\<close> is \<open>%0wx\<close>.\<close>

definition hex_digit :: "nat \<Rightarrow> char" where
  "hex_digit d = (if d < 10 then char_of (48 + d) else char_of (87 + d))"

fun hex :: "nat \<Rightarrow> string" where
  "hex n = (if n < 16 then [hex_digit n] else hex (n div 16) @ [hex_digit (n mod 16)])"

declare hex.simps [simp del]

definition hex_pad :: "nat \<Rightarrow> nat \<Rightarrow> string" where
  "hex_pad w n = replicate (w - length (hex n)) CHR ''0'' @ hex n"

definition MAC :: "string \<Rightarrow> string \<Rightarrow> string \<Rightarrow> string" where
  "MAC lab deviceID iface =
     (let sum = fnv64a (lab @ [CHR 0x00] @ deviceID @ [CHR 0x00] @ iface)
      in ''02'' @ concat (map (\<lambda>i. CHR '':'' # hex_pad 2 (byte_at i sum)) [7, 6, 5, 4, 3]))"

definition LinkAltname :: "string \<Rightarrow> string \<Rightarrow> string" where
  "LinkAltname lab linkID = ''tw-'' @ hex (unat (fnv64a (lab @ [CHR 0x00] @ linkID)))"

text \<open>\<open>%c\<close> of a byte prints the rune of that number, two bytes from 128 on.\<close>

definition rune_of_byte :: "8 word \<Rightarrow> string" where
  "rune_of_byte b =
     (let n = unat b in
      if n < 128 then [char_of n] else [char_of (192 + n div 64), char_of (128 + n mod 64)])"

definition TempIfName :: "string \<Rightarrow> string \<Rightarrow> 8 word \<Rightarrow> string" where
  "TempIfName lab linkID side =
     ''tw'' @ hex_pad 11 (unat (fnv64a (lab @ [CHR 0x00] @ linkID) AND 0xFFFFFFFFFFF))
       @ rune_of_byte side"

definition BridgeName :: "vni \<Rightarrow> string" where
  "BridgeName v = ''twbr'' @ digits (unat v)"

definition VxlanName :: "vni \<Rightarrow> string" where
  "VxlanName v = ''twvx'' @ digits (unat v)"

definition LegacyPort :: "64 word \<Rightarrow> 64 word \<Rightarrow> 64 word" where
  "LegacyPort base asn = base + asn"

section \<open>The probe loop\<close>

lemma probe_Some:
  assumes "probe cand free s = Some v"
  shows "free v \<and> (\<exists>n. v = cand (s + of_nat n) \<and> (\<forall>m<n. \<not> free (cand (s + of_nat m))))"
  using assms
proof (rule probe.raw_induct [rotated])
  fix p cand free s v
  assume IH: "\<And>cand free s v. p cand free s = Some v \<Longrightarrow>
      free v \<and> (\<exists>n. v = cand (s + of_nat n) \<and> (\<forall>m<n. \<not> free (cand (s + of_nat m))))"
    and run: "(if free (cand s) then Some (cand s) else p cand free (s + 1)) = Some v"
  show "free v \<and> (\<exists>n. v = cand (s + of_nat n) \<and> (\<forall>m<n. \<not> free (cand (s + of_nat m))))"
  proof (cases "free (cand s)")
    case True
    with run show ?thesis
      by (auto intro: exI [of _ 0])
  next
    case False
    with run IH obtain n where "free v" "v = cand (s + 1 + of_nat n)"
      and n: "\<And>m. m < n \<Longrightarrow> \<not> free (cand (s + 1 + of_nat m))"
      by fastforce
    moreover have "\<not> free (cand (s + of_nat m))" if "m < Suc n" for m
      using that False n by (cases m) (auto simp: add.assoc)
    ultimately show ?thesis
      by (auto intro!: exI [of _ "Suc n"] simp: add.assoc)
  qed
qed

lemma probe_free: "probe cand free s = Some v \<Longrightarrow> free v"
  using probe_Some [of cand free s v] by simp

lemma probe_range: "probe cand free s = Some v \<Longrightarrow> v \<in> range cand"
  using probe_Some [of cand free s v] by auto

lemma probe_returns: "free (cand (s + of_nat n)) \<Longrightarrow> \<exists>v. probe cand free s = Some v"
proof (induction n arbitrary: s)
  case 0
  then show ?case
    by (simp add: probe.simps)
next
  case (Suc n)
  from Suc.prems have "free (cand (s + 1 + of_nat n))"
    by (simp add: add.assoc)
  with Suc.IH [of "s + 1"] show ?case
    by (subst probe.simps) auto
qed

text \<open>The loop ends exactly when some salt gives a free candidate: the salts wrap around, so
  every one of them is tried.\<close>

lemma probe_returns_iff: "(\<exists>v. probe cand free s = Some v) \<longleftrightarrow> (\<exists>t. free (cand t))"
proof
  assume "\<exists>t. free (cand t)"
  then obtain t where "free (cand t)" ..
  then have "free (cand (s + of_nat (unat (t - s))))"
    by simp
  then show "\<exists>v. probe cand free s = Some v"
    by (rule probe_returns)
next
  assume "\<exists>v. probe cand free s = Some v"
  then obtain v where "probe cand free s = Some v" ..
  then show "\<exists>t. free (cand t)"
    using probe_Some [of cand free s v] by auto
qed

lemma probe_returns_card:
  assumes "finite bad" "card bad < card (range cand)" "\<And>v. v \<notin> bad \<Longrightarrow> free v"
  shows "\<exists>v. probe cand free s = Some v"
proof -
  have "\<not> range cand \<subseteq> bad"
    using assms(1,2) card_mono linorder_not_le by blast
  then show ?thesis
    using assms(3) by (auto simp: probe_returns_iff)
qed

section \<open>Sorting and the identifier range\<close>

lemma sortStrings_sort: "sortStrings s = sort s"
  using foldl_sink [of "[]" s] by (simp add: sortStrings_def properties_for_sort [symmetric])

lemma VNI_range: "vniMin \<le> unat (VNI lab l s)" "unat (VNI lab l s) < vniMax"
proof -
  let ?sum = "fnv64a (lab @ [CHR 0x00] @ l @
    (if 0 < sint s then CHR 0x00 # PutUint32 (ucast s) else []))"
  let ?m = "?sum mod 15995904"
  have "unat ?m < 15995904"
    by (simp add: unat_mod)
  moreover from this have "unat (ucast ?m + 4096 :: 32 word) = unat ?m + 4096"
    by (simp add: unat_word_ariths unsigned_ucast_eq take_bit_nat_eq_self)
  ultimately show "vniMin \<le> unat (VNI lab l s)" "unat (VNI lab l s) < vniMax"
    by (simp_all add: VNI_def vniMin_def vniMax_def Let_def)
qed

lemma VNI_eval:
  "VNI lab l s = ucast (fnv64a (lab @ [CHR 0x00] @ l @
     (if 0 < sint s then CHR 0x00 # PutUint32 (ucast s) else [])) mod 15995904) + 4096"
  by (simp add: VNI_def vniMin_def vniMax_def Let_def)

section \<open>Assignment within a lab\<close>

lemma assign_loop_ok:
  assumes "assign_loop lab ids used out = Some r" "inj_map out" "ran out \<subseteq> used"
  shows "inj_map r \<and> dom r = dom out \<union> set ids \<and>
    (\<forall>l v. r l = Some v \<longrightarrow> out l = Some v \<or> v \<in> range (VNI lab l))"
  using assms
proof (induction ids arbitrary: used out)
  case (Cons l ids)
  then obtain v where v: "probe (VNI lab l) (\<lambda>v. v \<notin> used) 0 = Some v"
    and rest: "assign_loop lab ids (insert v used) (out(l \<mapsto> v)) = Some r"
    by (auto split: option.splits)
  have fresh: "v \<notin> used" and rng: "v \<in> range (VNI lab l)"
    using probe_free [OF v] probe_range [OF v] by simp_all
  have "inj_map (out(l \<mapsto> v))"
    using Cons.prems(2,3) fresh by (intro inj_map_upd) (auto intro: ranI)
  moreover have "ran (out(l \<mapsto> v)) \<subseteq> insert v used"
    using Cons.prems(3) ran_upd_subset [of out l v] by blast
  ultimately have *: "inj_map r \<and> dom r = dom (out(l \<mapsto> v)) \<union> set ids \<and>
      (\<forall>k w. r k = Some w \<longrightarrow> (out(l \<mapsto> v)) k = Some w \<or> w \<in> range (VNI lab k))"
    by (rule Cons.IH [OF rest])
  have "out k = Some w \<or> w \<in> range (VNI lab k)" if "r k = Some w" for k w
  proof -
    from * that have "(out(l \<mapsto> v)) k = Some w \<or> w \<in> range (VNI lab k)"
      by blast
    with rng show ?thesis
      by (cases "k = l") auto
  qed
  with * show ?case
    by simp
qed simp

lemma assign_loop_returns:
  assumes "finite used" "\<forall>l\<in>set ids. card used + length ids \<le> card (range (VNI lab l))"
  shows "\<exists>r. assign_loop lab ids used out = Some r"
  using assms
proof (induction ids arbitrary: used out)
  case (Cons l ids)
  then obtain v where v: "probe (VNI lab l) (\<lambda>v. v \<notin> used) 0 = Some v"
    using probe_returns_card [of used "VNI lab l" "\<lambda>v. v \<notin> used" 0] by fastforce
  then have "v \<notin> used"
    using probe_free [OF v] by simp
  then have "\<exists>r. assign_loop lab ids (insert v used) (out(l \<mapsto> v)) = Some r"
    using Cons.prems by (intro Cons.IH) auto
  with v show ?case
    by (auto simp del: fun_upd_apply)
qed simp

lemma AssignVNIs_ok:
  assumes "AssignVNIs lab ids = Some out"
  shows "inj_map out" "dom out = set ids" "out l = Some v \<Longrightarrow> v \<in> range (VNI lab l)"
  using assign_loop_ok [of lab "sortStrings ids" "{}" Map.empty out] assms
  by (simp_all add: AssignVNIs_def sortStrings_sort)

lemma AssignVNIs_range:
  assumes "AssignVNIs lab ids = Some out" "out l = Some v"
  shows "vniMin \<le> unat v" "unat v < vniMax"
  using AssignVNIs_ok(3) [OF assms] VNI_range [of lab l] by auto

text \<open>C24: the identifiers of one lab are pairwise distinct, every link gets one and nothing else
  does, and all lie between 4096 and 15,999,999; the order in which the links are listed does
  not matter.\<close>

theorem AssignVNIs_distinct:
  assumes "AssignVNIs lab ids = Some out"
  shows "inj_map out \<and> dom out = set ids \<and>
    (\<forall>l v. out l = Some v \<longrightarrow> 4096 \<le> unat v \<and> unat v < 16000000) \<and>
    (\<forall>ids'. mset ids' = mset ids \<longrightarrow> AssignVNIs lab ids' = Some out)"
proof (intro conjI allI impI)
  fix ids' :: "string list"
  assume "mset ids' = mset ids"
  then have "sort ids' = sort ids"
    by (metis mset_sort properties_for_sort sorted_sort)
  then show "AssignVNIs lab ids' = Some out"
    using assms by (simp add: AssignVNIs_def sortStrings_sort)
qed (use AssignVNIs_ok [OF assms] AssignVNIs_range [OF assms] in \<open>auto simp: vniMin_def vniMax_def\<close>)

text \<open>Concrete candidates of two links, for the examples below.\<close>

lemma VNI_lab_a:
  "VNI ''lab'' ''a'' 0 = 7099175" "VNI ''lab'' ''a'' 1 = 1944674"
  "VNI ''lab'' ''a'' 2 = 769711" "VNI ''lab'' ''a'' 3 = 15590652"
  by (simp_all add: VNI_eval fnv64a_def PutUint32_def byte_at_def)

lemma VNI_lab_b: "VNI ''lab'' ''b'' 0 = 8274138" "VNI ''lab'' ''b'' 1 = 6837761"
  by (simp_all add: VNI_eval fnv64a_def PutUint32_def byte_at_def)

lemma AssignVNIs_example:
  "AssignVNIs ''lab'' [''b'', ''a''] = Some [''a'' \<mapsto> 7099175, ''b'' \<mapsto> 8274138]"
  by (simp add: AssignVNIs_def sortStrings_def probe.simps VNI_lab_a VNI_lab_b)

theorem AssignVNIs_distinct_witness:
  "\<exists>out. AssignVNIs ''lab'' [''b'', ''a''] = Some out \<and> inj_map out \<and> dom out = {''a'', ''b''} \<and>
     AssignVNIs ''lab'' [''a'', ''b''] = Some out"
  using AssignVNIs_distinct [OF AssignVNIs_example] AssignVNIs_example by fastforce

text \<open>the assignment loop returns whenever each link has at least as many distinct candidates
  as there are links to place.\<close>

theorem AssignVNIs_returns:
  assumes "\<forall>l\<in>set ids. length ids \<le> card (range (VNI lab l))"
  shows "\<exists>out. AssignVNIs lab ids = Some out"
  using assign_loop_returns [of "{}" "sortStrings ids" lab Map.empty] assms
  by (simp add: AssignVNIs_def sortStrings_sort)

lemma card_range_ge: "finite A \<Longrightarrow> A \<subseteq> range f \<Longrightarrow> card A \<le> card (range (f :: 64 word \<Rightarrow> vni))"
  by (simp add: card_mono)

lemma VNI_lab_a_card: "4 \<le> card (range (VNI ''lab'' ''a''))"
proof -
  have "card {VNI ''lab'' ''a'' 0, VNI ''lab'' ''a'' 1, VNI ''lab'' ''a'' 2, VNI ''lab'' ''a'' 3} = 4"
    unfolding VNI_lab_a by simp
  then show ?thesis
    using card_range_ge [of "VNI ''lab'' ''a'' ` {0, 1, 2, 3}" "VNI ''lab'' ''a''"] by auto
qed

lemma VNI_lab_b_card: "2 \<le> card (range (VNI ''lab'' ''b''))"
proof -
  have "card {VNI ''lab'' ''b'' 0, VNI ''lab'' ''b'' 1} = 2"
    unfolding VNI_lab_b by simp
  then show ?thesis
    using card_range_ge [of "VNI ''lab'' ''b'' ` {0, 1}" "VNI ''lab'' ''b''"] by auto
qed

theorem AssignVNIs_returns_witness: "\<exists>out. AssignVNIs ''lab'' [''b'', ''a''] = Some out"
  using AssignVNIs_returns [of "[''b'', ''a'']" "''lab''"] VNI_lab_a_card VNI_lab_b_card by simp

section \<open>Reassignment across labs\<close>

lemma free_for_not_clash: "free_for lab inUse taken v \<Longrightarrow> \<not> clashes lab inUse v"
  by (auto simp: free_for_def clashes_def owner_of_def split: option.splits)

lemma not_clash_free_for: "\<not> clashes lab inUse v \<Longrightarrow> v \<notin> taken \<Longrightarrow> free_for lab inUse taken v"
  by (auto simp: free_for_def clashes_def owner_of_def split: option.splits)

text \<open>What the loop keeps: the assignment stays injective and inside \<open>taken\<close>.\<close>

definition deconflict_inv :: "vni set \<Rightarrow> (string \<rightharpoonup> vni) \<Rightarrow> bool" where
  "deconflict_inv taken assigned \<longleftrightarrow> inj_map assigned \<and> ran assigned \<subseteq> taken"

lemma deconflict_inv_step:
  assumes "deconflict_inv taken assigned" "assigned l = Some v" "cand \<notin> taken - {v}"
  shows "deconflict_inv (insert cand (taken - {v})) (assigned(l \<mapsto> cand))"
proof -
  have "assigned k \<noteq> Some cand" if "k \<noteq> l" for k
    using assms that by (auto simp: deconflict_inv_def inj_map_def intro: ranI)
  moreover have "ran (assigned(l \<mapsto> cand)) \<subseteq> insert cand (taken - {v})"
    using assms(1,2) by (auto simp: deconflict_inv_def ran_def inj_map_def split: if_splits)
  ultimately show ?thesis
    using assms(1) by (simp add: deconflict_inv_def inj_map_upd del: fun_upd_apply)
qed

definition deconflicted ::
    "string \<Rightarrow> use_map \<Rightarrow> string set \<Rightarrow> (string \<rightharpoonup> vni) \<Rightarrow> (string \<rightharpoonup> vni) \<Rightarrow> bool" where
  "deconflicted lab inUse todo before after \<longleftrightarrow>
     inj_map after \<and> dom after = dom before \<and>
     (\<forall>l. l \<notin> todo \<or> \<not> clashes lab inUse (the (before l)) \<longrightarrow> after l = before l) \<and>
     (\<forall>l\<in>todo. \<not> clashes lab inUse (the (after l)))"

lemma deconflict_loop_ok:
  assumes "deconflict_loop lab inUse ids taken assigned moved = Some (r, n)"
    and "deconflict_inv taken assigned" "distinct ids" "set ids \<subseteq> dom assigned"
  shows "deconflicted lab inUse (set ids) assigned r \<and>
    n = moved + length (filter (\<lambda>l. clashes lab inUse (the (assigned l))) ids)"
  using assms
proof (induction ids arbitrary: taken assigned moved)
  case Nil
  then show ?case
    by (simp add: deconflicted_def deconflict_inv_def)
next
  case (Cons l ids)
  then obtain v where v: "assigned l = Some v"
    by auto
  show ?case
  proof (cases "clashes lab inUse v")
    case False
    with Cons v show ?thesis
      by (fastforce simp: deconflicted_def)
  next
    case True
    with Cons.prems v obtain c
      where c: "probe (VNI lab l) (free_for lab inUse (taken - {v})) 1 = Some c"
        and rest: "deconflict_loop lab inUse ids (insert c (taken - {v})) (assigned(l \<mapsto> c)) (moved + 1)
            = Some (r, n)"
      by (auto split: option.splits)
    have free: "free_for lab inUse (taken - {v}) c"
      by (rule probe_free [OF c])
    have len: "filter (\<lambda>k. clashes lab inUse (the ((assigned(l \<mapsto> c)) k))) ids =
        filter (\<lambda>k. clashes lab inUse (the (assigned k))) ids"
      using Cons.prems(3) by (intro filter_cong) auto
    have "deconflicted lab inUse (set ids) (assigned(l \<mapsto> c)) r \<and>
        n = moved + 1 + length (filter (\<lambda>k. clashes lab inUse (the (assigned k))) ids)"
      unfolding len [symmetric]
      using Cons.prems v free
      by (intro Cons.IH [OF rest] deconflict_inv_step) (auto simp: free_for_def)
    then show ?thesis
      using Cons.prems(3) v True free_for_not_clash [OF free]
      by (auto simp: deconflicted_def split: if_splits)
  qed
qed

lemma deconflict_loop_returns:
  assumes "finite taken" "card taken \<le> N" "{v. clashes lab inUse v} \<subseteq> K" "finite K"
    and "\<forall>l\<in>set ids. N + card K < card (range (VNI lab l))" "set ids \<subseteq> dom assigned"
    and "ran assigned \<subseteq> taken" "inj_map assigned"
  shows "\<exists>r n. deconflict_loop lab inUse ids taken assigned moved = Some (r, n)"
  using assms
proof (induction ids arbitrary: taken assigned moved)
  case (Cons l ids)
  then obtain v where v: "assigned l = Some v"
    by auto
  then have vt: "v \<in> taken"
    using Cons.prems(7) by (auto simp: ran_def)
  have "card ((taken - {v}) \<union> K) < card (range (VNI lab l))"
    using card_Un_le [of "taken - {v}" K] card_Diff1_le [of taken v] Cons.prems by fastforce
  then obtain c where c: "probe (VNI lab l) (free_for lab inUse (taken - {v})) 1 = Some c"
    using probe_returns_card [of "(taken - {v}) \<union> K" "VNI lab l" "free_for lab inUse (taken - {v})" 1]
      not_clash_free_for [of lab inUse _ "taken - {v}"] Cons.prems(1,3,4) by blast
  have "c \<notin> taken - {v}"
    using probe_free [OF c] by (simp add: free_for_def)
  then have "deconflict_inv (insert c (taken - {v})) (assigned(l \<mapsto> c))"
    using Cons.prems(7,8) v by (intro deconflict_inv_step) (auto simp: deconflict_inv_def)
  moreover have "card (insert c (taken - {v})) \<le> N"
    using Cons.prems(1,2) vt card_insert_le_m1 [of N "taken - {v}" c] by (cases N) auto
  ultimately have "\<exists>r n. deconflict_loop lab inUse ids (insert c (taken - {v})) (assigned(l \<mapsto> c)) (moved + 1)
      = Some (r, n)"
    using Cons.prems by (intro Cons.IH) (auto simp: deconflict_inv_def simp del: fun_upd_apply)
  then show ?case
    using Cons.IH [OF Cons.prems(1-4)] Cons.prems v c by (auto simp del: fun_upd_apply)
qed simp

text \<open>The call itself, on maps with distinct keys.\<close>

lemma ran_map_of_subset: "ran (map_of xs) \<subseteq> set (map snd xs)"
  by (force simp: ran_def dest: map_of_SomeD)

lemma Deconflict_ok:
  assumes "Deconflict lab assigned inUse = Some (out, n)"
    and "distinct (map fst assigned)" "inj_map (map_of assigned)"
  shows "deconflicted lab inUse (set (map fst assigned)) (map_of assigned) out"
    and "n = length (filter (\<lambda>(l, v). clashes lab inUse v) assigned)"
proof -
  let ?t = "taken_at_start lab assigned inUse"
  have inv: "deconflict_inv ?t (map_of assigned)"
    using ran_map_of_subset [of assigned] assms(3) by (auto simp: deconflict_inv_def taken_at_start_def)
  have *: "deconflicted lab inUse (set (sort (map fst assigned))) (map_of assigned) out \<and>
      n = 0 + length (filter (\<lambda>l. clashes lab inUse (the (map_of assigned l))) (sort (map fst assigned)))"
    using assms(2) by (intro deconflict_loop_ok [OF assms(1) [unfolded Deconflict_def sortStrings_sort] inv])
      (simp_all add: dom_map_of_conv_image_fst)
  then show "deconflicted lab inUse (set (map fst assigned)) (map_of assigned) out"
    by simp
  have "length (filter (\<lambda>l. clashes lab inUse (the (map_of assigned l))) (sort (map fst assigned))) =
      length (filter (\<lambda>l. clashes lab inUse (the (map_of assigned l))) (map fst assigned))"
    by (intro mset_eq_length) simp
  also have "\<dots> = length (filter (\<lambda>(l, v). clashes lab inUse v) assigned)"
  proof -
    have "filter ((\<lambda>l. clashes lab inUse (the (map_of assigned l))) \<circ> fst) assigned =
        filter (\<lambda>(l, v). clashes lab inUse v) assigned"
      using assms(2) by (intro filter_cong) auto
    then show ?thesis
      by (simp add: filter_map)
  qed
  finally show "n = length (filter (\<lambda>(l, v). clashes lab inUse v) assigned)"
    using * by simp
qed

lemma deconflicted_no_clash:
  assumes "deconflicted lab inUse (set (map fst assigned)) (map_of assigned) out" "out l = Some v"
  shows "\<not> clashes lab inUse v"
proof -
  have "dom out = set (map fst assigned)"
    using assms(1) by (simp add: deconflicted_def dom_map_of_conv_image_fst)
  with assms(2) have "l \<in> set (map fst assigned)"
    by blast
  then have "\<not> clashes lab inUse (the (out l))"
    using assms(1) unfolding deconflicted_def by blast
  then show ?thesis
    by (simp add: assms(2))
qed

text \<open>C25: after \<open>Deconflict\<close> no link of the lab carries an identifier that another lab uses, the
  identifiers are still pairwise distinct, no link is lost, a link that did not clash keeps its
  identifier, and the second result counts the links that were moved.\<close>

theorem Deconflict_separates_labs:
  assumes "Deconflict lab assigned inUse = Some (out, moved)"
    and "distinct (map fst assigned)" "inj_map (map_of assigned)"
  shows "inj_map out \<and> dom out = set (map fst assigned) \<and>
    (\<forall>l v w. out l = Some v \<and> map_of inUse v = Some w \<longrightarrow> w = lab \<or> w = []) \<and>
    (\<forall>l v. map_of assigned l = Some v \<and> \<not> clashes lab inUse v \<longrightarrow> out l = Some v) \<and>
    moved = length (filter (\<lambda>(l, v). clashes lab inUse v) assigned)"
proof -
  note d = Deconflict_ok [OF assms]
  note nc = deconflicted_no_clash [OF d(1)]
  have "w = lab \<or> w = []" if "out l = Some v" "map_of inUse v = Some w" for l v w
    using nc [OF that(1)] that(2) by (auto simp: clashes_def)
  with d show ?thesis
    by (auto simp: deconflicted_def dom_map_of_conv_image_fst)
qed

lemma Deconflict_example:
  "Deconflict ''lab'' [(''a'', 7099175)] [(7099175, ''other'')] = Some ([''a'' \<mapsto> 1944674], 1)"
  by (simp add: Deconflict_def sortStrings_def probe.simps VNI_lab_a taken_at_start_def
      clashes_def free_for_def owner_of_def)

theorem Deconflict_separates_labs_witness:
  "\<exists>out. Deconflict ''lab'' [(''a'', 7099175)] [(7099175, ''other'')] = Some (out, 1) \<and> inj_map out \<and>
     out ''a'' \<noteq> Some 7099175"
proof -
  have "distinct (map fst [(''a'', 7099175 :: vni)])" "inj_map (map_of [(''a'', 7099175 :: vni)])"
    by simp_all
  from Deconflict_separates_labs [OF Deconflict_example this] have "inj_map [''a'' \<mapsto> 1944674 :: vni]"
    by blast
  with Deconflict_example show ?thesis
    by fastforce
qed



text \<open>Recording the outcome and running again.\<close>

lemma clashes_recorded:
  assumes "\<And>l v. out l = Some v \<Longrightarrow> \<not> clashes lab inUse v"
    and "map_of inUse' = (\<lambda>v. if v \<in> ran out then Some lab else map_of inUse v)"
  shows "clashes lab inUse' = clashes lab inUse"
proof
  fix v
  show "clashes lab inUse' v = clashes lab inUse v"
    using assms(1) [of _ v] by (cases "v \<in> ran out") (auto simp: clashes_def assms(2) ran_def)
qed

lemma free_for_iff: "free_for lab inUse taken = (\<lambda>v. v \<notin> taken \<and> \<not> clashes lab inUse v)"
  using free_for_not_clash not_clash_free_for by (fastforce simp: free_for_def)

lemma deconflict_loop_cong:
  "clashes lab inUse' = clashes lab inUse \<Longrightarrow>
     deconflict_loop lab inUse' ids taken assigned moved = deconflict_loop lab inUse ids taken assigned moved"
  by (induction ids arbitrary: taken assigned moved) (simp_all add: free_for_iff Let_def cong: option.case_cong)

lemma taken_at_start_clashes:
  assumes "distinct (map fst inUse)" "\<forall>p\<in>set inUse. snd p \<noteq> []"
  shows "taken_at_start lab assigned inUse = {v. clashes lab inUse v} \<union> set (map snd assigned)"
proof -
  have "(v, w) \<in> set inUse \<longleftrightarrow> map_of inUse v = Some w" for v w
    using assms(1) by (auto dest: map_of_SomeD)
  moreover from this have "w \<noteq> []" if "map_of inUse v = Some w" for v w
    using that assms(2) by (metis snd_conv)
  ultimately show ?thesis
    unfolding taken_at_start_def clashes_def by (auto simp: image_iff split: option.splits)
qed

text \<open>a redeployment changes nothing.  Once the identifiers a deployment chose are recorded as
  the lab's own, reassigning from the same starting point chooses the same identifiers again, so
  no tunnel is rebuilt.\<close>

theorem Deconflict_stable:
  assumes "Deconflict lab assigned inUse = Some (out, moved)"
    and "distinct (map fst assigned)" "inj_map (map_of assigned)"
    and "distinct (map fst inUse)" "\<forall>p\<in>set inUse. snd p \<noteq> []"
    and "distinct (map fst inUse')" "\<forall>p\<in>set inUse'. snd p \<noteq> []"
    and recorded: "map_of inUse' = (\<lambda>v. if v \<in> ran out then Some lab else map_of inUse v)"
  shows "Deconflict lab assigned inUse' = Some (out, moved)"
proof -
  have "\<not> clashes lab inUse v" if "out l = Some v" for l v
    using Deconflict_ok(1) [OF assms(1-3)] that by (rule deconflicted_no_clash)
  then have "clashes lab inUse' = clashes lab inUse"
    using recorded by (rule clashes_recorded)
  moreover from this have "taken_at_start lab assigned inUse' = taken_at_start lab assigned inUse"
    by (simp add: taken_at_start_clashes [OF assms(4,5)] taken_at_start_clashes [OF assms(6,7)])
  ultimately show ?thesis
    using assms(1) deconflict_loop_cong [of lab inUse' inUse] by (simp add: Deconflict_def)
qed

theorem Deconflict_stable_witness:
  "Deconflict ''lab'' [(''a'', 7099175)] [(7099175, ''other''), (1944674, ''lab'')] = Some ([''a'' \<mapsto> 1944674], 1)"
  by (rule Deconflict_stable [OF Deconflict_example]) auto

section \<open>Names of kernel objects\<close>

lemma length_digits_le: "n < 10 ^ k \<Longrightarrow> 0 < k \<Longrightarrow> length (digits n) \<le> k"
proof (induction k arbitrary: n)
  case (Suc k)
  show ?case
  proof (cases "n < 10")
    case False
    with Suc.prems have "n div 10 < 10 ^ k" "0 < k"
      by (auto simp: less_mult_imp_div_less mult.commute intro: gr0I)
    with Suc.IH False show ?thesis
      by (subst digits.simps) simp
  qed (simp add: digits.simps [of n])
qed simp

lemma length_hex_le: "n < 16 ^ k \<Longrightarrow> 0 < k \<Longrightarrow> length (hex n) \<le> k"
proof (induction k arbitrary: n)
  case (Suc k)
  show ?case
  proof (cases "n < 16")
    case False
    with Suc.prems have "n div 16 < 16 ^ k" "0 < k"
      by (auto simp: less_mult_imp_div_less mult.commute intro: gr0I)
    with Suc.IH False show ?thesis
      by (subst hex.simps) simp
  qed (simp add: hex.simps [of n])
qed simp

lemma length_hex_pad: "n < 16 ^ w \<Longrightarrow> 0 < w \<Longrightarrow> length (hex_pad w n) = w"
  using length_hex_le [of n w] by (simp add: hex_pad_def)

lemma length_rune_of_byte: "length (rune_of_byte b) \<le> 2"
  by (simp add: rune_of_byte_def Let_def)

lemma unat_and_mask44: "unat ((h :: 64 word) AND 0xFFFFFFFFFFF) < 16 ^ 11"
proof -
  have "h AND 0xFFFFFFFFFFF \<le> 0xFFFFFFFFFFF"
    by (rule word_and_le1)
  then have "unat (h AND 0xFFFFFFFFFFF) \<le> unat (0xFFFFFFFFFFF :: 64 word)"
    by (simp add: word_le_nat_alt)
  then show ?thesis
    by simp
qed

lemma length_digits_vni: "length (digits (unat (v :: vni))) \<le> 10"
proof -
  have "unat v < 2 ^ 32"
    using unsigned_less [of v, where ?'a = nat] by simp
  then show ?thesis
    by (intro length_digits_le) simp_all
qed

lemma BridgeName_inject [simp]: "BridgeName v = BridgeName w \<longleftrightarrow> v = w"
  and VxlanName_inject [simp]: "VxlanName v = VxlanName w \<longleftrightarrow> v = w"
  and Bridge_not_Vxlan [simp]: "BridgeName v \<noteq> VxlanName w"
  by (auto simp: BridgeName_def VxlanName_def word_unat_eq_iff)

text \<open>every derived interface name fits the kernel's limit of 15 bytes (\<open>IFNAMSIZ\<close> less the
  terminator), for every input; different identifiers give different bridge and tunnel names,
  and no bridge is named like a tunnel.\<close>

theorem interface_names_fit:
  "length (TempIfName lab linkID side) \<le> 15 \<and> length (BridgeName v) \<le> 15 \<and>
   length (VxlanName v) \<le> 15 \<and> inj BridgeName \<and> inj VxlanName \<and>
   range BridgeName \<inter> range VxlanName = {} \<and> length (MAC lab deviceID iface) = 17"
proof (intro conjI)
  show "length (TempIfName lab linkID side) \<le> 15"
    using length_hex_pad [OF unat_and_mask44] length_rune_of_byte [of side]
    by (simp add: TempIfName_def)
  show "length (BridgeName v) \<le> 15" "length (VxlanName v) \<le> 15"
    using length_digits_vni [of v] by (simp_all add: BridgeName_def VxlanName_def)
  have "length (hex_pad 2 (byte_at i w)) = 2" for i and w :: "64 word"
    by (rule length_hex_pad) (simp_all add: byte_at_def)
  then show "length (MAC lab deviceID iface) = 17"
    by (simp add: MAC_def Let_def)
qed (auto simp: inj_def)

section \<open>The allocator as an interface\<close>

text \<open>What the code that wires a lab relies on: one identifier per link, no two alike, all in the
  reserved range.\<close>

locale vni_allocator =
  fixes assign :: "string \<Rightarrow> string list \<Rightarrow> (string \<rightharpoonup> vni) option"
  assumes assign_dom: "assign lab ids = Some out \<Longrightarrow> dom out = set ids"
    and assign_inj: "assign lab ids = Some out \<Longrightarrow> inj_map out"
    and assign_range: "assign lab ids = Some out \<Longrightarrow> out l = Some v \<Longrightarrow>
      vniMin \<le> unat v \<and> unat v < vniMax"
begin

lemma assigned_link:
  assumes "assign lab ids = Some out" "l \<in> set ids"
  obtains v where "out l = Some v"
  using assms assign_dom by blast

lemma tunnels_distinct:
  assumes "assign lab ids = Some out" "l \<in> set ids" "k \<in> set ids" "l \<noteq> k"
  shows "BridgeName (the (out l)) \<noteq> BridgeName (the (out k))"
    and "VxlanName (the (out l)) \<noteq> VxlanName (the (out k))"
proof -
  obtain v w where "out l = Some v" "out k = Some w"
    using assigned_link assms by meson
  moreover from this have "v \<noteq> w"
    using assign_inj [OF assms(1)] assms(4) inj_mapD by metis
  ultimately show "BridgeName (the (out l)) \<noteq> BridgeName (the (out k))"
    and "VxlanName (the (out l)) \<noteq> VxlanName (the (out k))"
    by simp_all
qed

lemma tunnel_not_vlan:
  assumes "assign lab ids = Some out" "l \<in> set ids"
  shows "4095 < unat (the (out l))"
proof -
  obtain v where "out l = Some v"
    using assigned_link [OF assms] by blast
  with assign_range [OF assms(1), of l v] show ?thesis
    by (simp add: vniMin_def)
qed

end

interpretation lab_vnis: vni_allocator AssignVNIs
  by unfold_locales (auto simp: AssignVNIs_ok AssignVNIs_range)

end
