(* ===== verification/Agent_State.thy ===== *)
theory Agent_State
  imports Prelude
begin

text \<open>
  The state of one node agent, \<open>internal/agent\<close>: the records that \<open>coordination.go\<close>, \<open>agent.go\<close>,
  \<open>ephemeral.go\<close>, \<open>hold.go\<close> and \<open>exempt.go\<close> keep under the server's mutex, the journal they write,
  and the outcome of writing it.

  Every operation of the agent theories is one critical section of that mutex: a function from
  the state before it, and from what its environment answers (the clock, the random token, the
  outcome of a journal write, the kernel's overlay table), to a result and the state after it.

  A time is the number of nanoseconds since Go's zero time, so that \<open>IsZero\<close> is \<open>= 0\<close>.  A map
  of Go is a finite map; reading an absent key gives the zero value, which \<open>get_or\<close> spells out.
  A JSON document is represented by what decoding it gives.
\<close>

definition second :: duration where "second = 1000000000"
definition minute :: duration where "minute = 60 * second"
definition hour :: duration where "hour = 60 * minute"

lemma second_pos [simp]: "0 < second" "0 \<le> second"
  by (simp_all add: second_def)

section \<open>Fences, leases and overlay claims\<close>

type_synonym fence_gen = "64 word"

record Fence =
  Token :: string
  Generation :: fence_gen

record clusterLease =
  lease_holder :: string
  lease_fence :: Fence
  lease_until :: go_time

record overlayClaim =
  claim_lab :: string
  claim_generation :: fence_gen
  claim_until :: go_time
  claim_live :: bool

record generationState =
  committed :: string
  prepared :: string
  ancestors :: "string list"

definition no_claim :: overlayClaim where
  "no_claim = \<lparr>claim_lab = [], claim_generation = 0, claim_until = 0, claim_live = False\<rparr>"

definition no_generation :: generationState where
  "no_generation = \<lparr>committed = [], prepared = [], ancestors = []\<rparr>"

section \<open>Topologies and wires\<close>

text \<open>\<open>wire_topology\<close> is what \<open>Rehydrate\<close> makes of the wire's devices and links, \<open>None\<close> when it
  refuses them.  Of a link the agent's coordination reads its identifier and the nodes of its two ends; an
  end without an interface or a device has none.\<close>

record TopoLink =
  link_vni :: vni
  link_a :: "string option"
  link_b :: "string option"

record Topology =
  top_name :: string
  top_hash :: string
  top_ephemeral :: bool
  top_ephemeral_ttl :: int
  top_links :: "TopoLink list"
  top_devices :: "(string \<times> string) list"

record Wire =
  wire_generation :: string
  wire_mode :: string
  wire_ungraded :: int
  wire_ephemeral :: bool
  wire_ephemeral_ttl :: int
  wire_peers :: "(string \<times> string) list option"
  wire_topology :: "Topology option"

datatype RawMessage = NoMessage | Malformed | Encoded Wire

definition raw_empty :: "RawMessage \<Rightarrow> bool" where
  "raw_empty r \<longleftrightarrow> r = NoMessage"

definition unmarshal :: "RawMessage \<Rightarrow> Wire option" where
  "unmarshal r = (case r of Encoded w \<Rightarrow> Some w | _ \<Rightarrow> None)"

section \<open>Transactions\<close>

datatype transactionPhase =
    NoPhase
  | Prepared
  | Applying
  | Applied
  | RollbackNeeded
  | Recovering
  | RollbackFailed
  | Committed

record transactionContainer =
  tc_name :: string
  tc_device :: string
  tc_spec :: string
  tc_generation :: string
  tc_state :: string

record transactionSnapshot =
  ts_device :: string
  ts_kind :: string
  ts_digest :: string

record LogicalBinding =
  lb_vni :: vni
  lb_vlan :: "16 word"
  lb_peer :: string
  lb_mtu :: int
  lb_port :: int
  lb_nodeA :: string
  lb_nodeB :: string
  lb_legacy :: bool

record PhysicalTrunk =
  pt_bridge :: string
  pt_vxlan :: string
  pt_mtu :: int
  pt_port :: int
  pt_nodeA :: string
  pt_nodeB :: string
  pt_legacy :: bool

record transactionInventory =
  inv_schema :: int
  inv_topology_hash :: string
  inv_generation :: string
  inv_containers :: "transactionContainer list"
  inv_vnis :: "vni list"
  inv_bindings :: "LogicalBinding list"
  inv_trunks :: "PhysicalTrunk list"
  inv_captured_at :: go_time
  inv_state_safe :: bool
  inv_snapshots :: "transactionSnapshot list"

definition no_inventory :: transactionInventory where
  "no_inventory = \<lparr>inv_schema = 0, inv_topology_hash = [], inv_generation = [], inv_containers = [],
     inv_vnis = [], inv_bindings = [], inv_trunks = [], inv_captured_at = 0, inv_state_safe = False,
     inv_snapshots = []\<rparr>"

record OrphanPreservation =
  op_container :: string
  op_device :: string
  op_stored :: bool
  op_detail :: string

record solveTransition =
  sv_lab :: string
  sv_node :: string
  sv_generation :: string
  sv_fence :: fence_gen
  sv_topology :: string
  sv_mode :: string
  sv_ungraded :: int
  sv_prune :: bool
  sv_replicated :: bool
  sv_preserved :: "OrphanPreservation list"
  sv_recorded :: go_time

record applyTransaction =
  tx_generation :: string
  tx_expected :: string
  tx_fence_generation :: fence_gen
  tx_requested :: RawMessage
  tx_previous :: RawMessage
  tx_previous_gen :: string
  tx_previous_mode :: string
  tx_previous_ungraded :: int
  tx_mode :: string
  tx_ungraded :: int
  tx_peer_underlay :: "(string \<times> string) list"
  tx_prune :: bool
  tx_only_steps :: "string list"
  tx_state_proofs :: "string list"
  tx_solve :: "solveTransition option"
  tx_dirty :: "string list"
  tx_dirty_known :: bool
  tx_semantic :: "string list"
  tx_semantic_known :: bool
  tx_touched :: "string list"
  tx_touched_vnis :: "vni list"
  tx_touched_known :: bool
  tx_state_verified :: bool
  tx_phase :: transactionPhase
  tx_prestate :: transactionInventory
  tx_failure :: string
  tx_attempts :: int
  tx_last_recovery :: go_time
  tx_next_recovery :: go_time
  tx_recovery_owner :: string
  tx_recovery_strategy :: string
  tx_recovery_started :: go_time
  tx_recovery_progress :: go_time
  tx_recovery_deadline :: go_time
  tx_recovery_total :: go_time
  tx_recovery_target :: string
  tx_forward_ack :: bool
  tx_forward_phase :: string
  tx_forward_loss :: "string list"
  tx_applied :: bool
  tx_committed :: bool

section \<open>Lifetimes, holds, exemptions and local operations\<close>

record ephemeralLease =
  eph_lab :: string
  eph_owner :: string
  eph_ttl :: int
  eph_generation :: string
  eph_created :: go_time
  eph_expires :: go_time
  eph_hard :: go_time
  eph_restored :: bool

record hold =
  hold_holder :: string
  hold_token :: string
  hold_until :: go_time

type_synonym exemptions = "(string, string list) fmap"

text \<open>A local operation can be cancelled exactly when it was started with a cancel function,
  which is when it has a done channel.\<close>

record op_lease =
  op_id :: "64 word"
  op_kind :: string
  op_at :: go_time
  op_deadline :: go_time
  op_cancellable :: bool

section \<open>Errors\<close>

text \<open>One constructor per error an operation can return; what the message interpolates and a
  caller can act on is an argument.\<close>

datatype agent_error =
    MutationNeedsLab
  | FenceRequired
  | LeaseExpiredOrReleased
  | FenceStale
  | LabNameRequired
  | TokenUnavailable
  | AlreadyLeased string
  | RecoveryHoldsLease string string string
  | NotPersisted
  | VNIZero
  | OwnersUnavailable
  | VNICollected vni
  | OwnerlessUnproven vni
  | VNIOwnedBy vni string
  | VNIClaimedBy vni string
  | VNIOlderFence vni
  | AdoptionFailed vni
  | VNINotReserved vni
  | VNIReservationExpired vni
  | NoTopology
  | GenerationRequired
  | BadMode string
  | NegativeUngraded
  | BadWire
  | ModeMismatch
  | UnfinishedTransaction string
  | CompareAndSwapFailed string string
  | NotPreparedByFence
  | NotAppliedByFence
  | StateNotVerified
  | NotAwaitingFinalization
  | SolveRecordRequired
  | NoRecoveryTransaction
  | FinalizedGeneration
  | PrestateUnsafe
  | NoPreviousGeneration
  | OtherStrategyRunning string
  | RecoveryInProgress
  | DeadlineExceeded
  | ForwardNotAcknowledged
  | NotEphemeral
  | HeldByOther string
  | EphemeralExpired
  | OperationRunning string
  | DidNotYield string
  | UnrelatedGeneration string
  | InventoryMismatch

section \<open>The journal and the server\<close>

record coordinationState =
  FenceHighWater :: "(string, fence_gen) fmap"
  Overlays :: "(vni, overlayClaim) fmap"
  Generations :: "(string, generationState) fmap"
  Transactions :: "(string, applyTransaction) fmap"
  Inventories :: "(string, transactionInventory) fmap"
  OverlayLineage :: "(string, (vni, string) fmap) fmap"
  Ephemeral :: "(string, ephemeralLease) fmap"

record Store =
  st_coordination :: "coordinationState option"
  st_topology :: "(string, RawMessage) fmap"
  st_holds :: "(string, hold option) fmap"
  st_exempt :: "(string, exemptions) fmap"

record Server =
  cfg_node :: string
  store :: "Store option"
  current :: "(string, Topology) fmap"
  modes :: "(string, string) fmap"
  ungraded :: "(string, int) fmap"
  peers :: "(string, (string \<times> string) list) fmap"
  ops :: "(string, op_lease) fmap"
  mutations :: "(string, clusterLease) fmap"
  fenceHighWater :: "(string, fence_gen) fmap"
  overlayClaims :: "(vni, overlayClaim) fmap"
  generations :: "(string, generationState) fmap"
  transactions :: "(string, applyTransaction) fmap"
  inventories :: "(string, transactionInventory) fmap"
  overlayLineage :: "(string, (vni, string) fmap) fmap"
  ephemeral :: "(string, ephemeralLease) fmap"
  gcCollecting :: "vni set"
  opSequence :: "64 word"
  holds :: "(string, hold) fmap"
  repairFails :: "(string, int) fmap"
  repairNext :: "(string, go_time) fmap"
  semanticCycles :: "(string, int) fmap"
  repairTerminal :: "(string, string) fmap"
  semanticGraceUntil :: "(string, go_time) fmap"
  exempt :: "(string, exemptions) fmap"
  partial :: "(string, int) fmap"
  gcSeen :: "(string, go_time) fmap"

text \<open>What \<open>saveCoordinationLocked\<close> writes, and what it leaves behind.  Without a store nothing
  is written and nothing can fail.  \<open>ok\<close> is the outcome of encoding and writing: the store
  writes a temporary file and renames it over the journal, so a failed write leaves the old
  journal in place.\<close>

definition journal_of :: "Server \<Rightarrow> coordinationState" where
  "journal_of s = \<lparr>FenceHighWater = fenceHighWater s, Overlays = overlayClaims s,
     Generations = generations s, Transactions = transactions s, Inventories = inventories s,
     OverlayLineage = overlayLineage s, Ephemeral = ephemeral s\<rparr>"

definition saveCoordinationLocked :: "bool \<Rightarrow> Server \<Rightarrow> bool \<times> Server" where
  "saveCoordinationLocked ok s =
     (case store s of
        None \<Rightarrow> (True, s)
      | Some st \<Rightarrow>
          if ok then (True, s\<lparr>store := Some (st\<lparr>st_coordination := Some (journal_of s)\<rparr>)\<rparr>)
          else (False, s))"

lemma saveCoordinationLocked_cases [guards]:
  obtains (skipped) "store s = None" "saveCoordinationLocked ok s = (True, s)"
  | (written) st where "store s = Some st" "ok"
      "saveCoordinationLocked ok s = (True, s\<lparr>store := Some (st\<lparr>st_coordination := Some (journal_of s)\<rparr>)\<rparr>)"
  | (failed) st where "store s = Some st" "\<not> ok" "saveCoordinationLocked ok s = (False, s)"
proof (cases "store s")
  case None
  then show ?thesis
    using skipped by (simp add: saveCoordinationLocked_def)
next
  case (Some st)
  then show ?thesis
    using written failed by (cases ok) (simp_all add: saveCoordinationLocked_def)
qed

text \<open>The modes of \<open>render/renderer.go\<close> and their validation in \<open>agent.go\<close>.\<close>

definition ModePlatform :: string where "ModePlatform = ''platform''"
definition ModeSolve :: string where "ModeSolve = ''solve''"

definition RequireTransactionMode :: "string \<Rightarrow> (agent_error, string) result" where
  "RequireTransactionMode mode =
     (let m = to_lower (trim_space mode) in
      if m = ModePlatform then Inr ModePlatform
      else if m = ModeSolve then Inr ModeSolve
      else Inl (BadMode mode))"

definition canonicalMode :: "string \<Rightarrow> string" where
  "canonicalMode mode = (if mode = [] then ModePlatform else mode)"

definition modeToPersist :: "bool \<Rightarrow> string \<Rightarrow> int \<Rightarrow> string \<Rightarrow> int \<Rightarrow> string \<times> int" where
  "modeToPersist authoritative mode ug prevMode prevUngraded =
     (if authoritative then (mode, ug) else (prevMode, prevUngraded))"

definition needsStudentReset :: "string \<Rightarrow> string \<Rightarrow> bool" where
  "needsStudentReset previous desired \<longleftrightarrow> canonicalMode previous = ModeSolve \<and> desired \<noteq> ModeSolve"

lemma RequireTransactionMode_Inr:
  "RequireTransactionMode m = Inr m' \<Longrightarrow> m' = ModePlatform \<or> m' = ModeSolve"
  by (auto simp: RequireTransactionMode_def Let_def split: if_splits)

lemma RequireTransactionMode_idem:
  "RequireTransactionMode ModePlatform = Inr ModePlatform"
  "RequireTransactionMode ModeSolve = Inr ModeSolve"
proof -
  have "trim_space ''platform'' = ''platform''"
    by (rule trim_space_id [of "CHR ''p''" "CHR ''m''" _ "''latform''" "''platfor''"]) simp_all
  moreover have "trim_space ''solve'' = ''solve''"
    by (rule trim_space_id [of "CHR ''s''" "CHR ''e''" _ "''olve''" "''solv''"]) simp_all
  ultimately show "RequireTransactionMode ModePlatform = Inr ModePlatform"
    "RequireTransactionMode ModeSolve = Inr ModeSolve"
    by (simp_all add: RequireTransactionMode_def ModePlatform_def ModeSolve_def to_lower_def Let_def)
qed

lemma RequireTransactionMode_not_empty: "RequireTransactionMode [] = Inl (BadMode [])"
  by (simp add: RequireTransactionMode_def trim_space_def to_lower_def ModePlatform_def ModeSolve_def)

end
