(* ===== verification/Leases.thy ===== *)
theory Leases
  imports Agent_State
begin

text \<open>
  Mutation leases and their fences, \<open>internal/agent/coordination.go\<close> and the recovery fence of
  \<open>recovery.go\<close>: issuing, checking, renewing, releasing and expiring a lease, and what a restart
  reads back from the journal.

  The clock is an argument (\<open>t\<close>), as are the random token (\<open>None\<close> when the source of randomness
  fails) and the outcome of each journal write (\<open>ok\<close>).
\<close>

section \<open>Definitions\<close>

record LeaseAcquireRequest =
  acq_lab :: string
  acq_holder :: string
  acq_ttl :: int

record LeaseRenewRequest =
  ren_lab :: string
  ren_fence :: Fence
  ren_ttl :: int

record LeaseReleaseRequest =
  rel_lab :: string
  rel_fence :: Fence

record LeaseResponse =
  resp_lab :: string
  resp_fence :: Fence
  resp_expires :: go_time

definition defaultMutationLeaseSeconds :: int where "defaultMutationLeaseSeconds = 90"
definition maxMutationLeaseSeconds :: int where "maxMutationLeaseSeconds = 600"

definition leaseTTL :: "int \<Rightarrow> duration" where
  "leaseTTL seconds0 =
     (let seconds = (if seconds0 \<le> 0 then defaultMutationLeaseSeconds else seconds0);
          seconds = (if seconds > maxMutationLeaseSeconds then maxMutationLeaseSeconds else seconds)
      in seconds * second)"

definition claim_expired :: "go_time \<Rightarrow> overlayClaim \<Rightarrow> bool" where
  "claim_expired t c \<longleftrightarrow> \<not> claim_live c \<and> claim_until c \<noteq> 0 \<and> \<not> t < claim_until c"

definition expireCoordinationLocked :: "go_time \<Rightarrow> Server \<Rightarrow> bool \<times> Server" where
  "expireCoordinationLocked t s =
     (fm_exists (\<lambda>_ l. \<not> t < lease_until l) (mutations s)
        \<or> fm_exists (\<lambda>_ c. claim_expired t c) (overlayClaims s),
      s\<lparr>mutations := fm_keep (\<lambda>_ l. t < lease_until l) (mutations s),
        overlayClaims := fm_keep (\<lambda>_ c. \<not> claim_expired t c) (overlayClaims s)\<rparr>)"

definition fenceErrorLocked :: "string \<Rightarrow> Fence \<Rightarrow> go_time \<Rightarrow> Server \<Rightarrow> agent_error option" where
  "fenceErrorLocked lab f t s =
     (if lab = [] then Some MutationNeedsLab
      else if Token f = [] \<or> Generation f = 0 then Some FenceRequired
      else (case fmlookup (mutations s) lab of
              None \<Rightarrow> Some LeaseExpiredOrReleased
            | Some l \<Rightarrow>
                if \<not> t < lease_until l then Some LeaseExpiredOrReleased
                else if Generation (lease_fence l) \<noteq> Generation f
                       \<or> Token (lease_fence l) \<noteq> Token f then Some FenceStale
                else None))"

text \<open>The clock is read twice, once for the expiry and once for the check.\<close>

definition requireMutationFence ::
    "bool \<Rightarrow> string \<Rightarrow> Fence \<Rightarrow> go_time \<Rightarrow> go_time \<Rightarrow> Server \<Rightarrow> (agent_error, unit) result \<times> Server" where
  "requireMutationFence ok lab f t t' s =
     (let (changed, s1) = expireCoordinationLocked t s;
          (saved, s2) = (if changed then saveCoordinationLocked ok s1 else (True, s1))
      in if \<not> saved then (Inl NotPersisted, s2)
         else (case fenceErrorLocked lab f t' s2 of
                 Some e \<Rightarrow> (Inl e, s2)
               | None \<Rightarrow> (Inr (), s2)))"

definition issue_lease ::
    "string \<Rightarrow> string \<Rightarrow> string \<Rightarrow> go_time \<Rightarrow> Server \<Rightarrow> Fence \<times> Server" where
  "issue_lease lab holder tok until s =
     (let f = \<lparr>Token = tok, Generation = get_or 0 (fenceHighWater s) lab + 1\<rparr>
      in (f, s\<lparr>fenceHighWater := fmupd lab (Generation f) (fenceHighWater s),
               mutations := fmupd lab \<lparr>lease_holder = holder, lease_fence = f, lease_until = until\<rparr>
                              (mutations s)\<rparr>))"

definition drop_lease :: "string \<Rightarrow> Server \<Rightarrow> Server" where
  "drop_lease lab s = s\<lparr>mutations := fmdrop lab (mutations s)\<rparr>"

definition lease_conflict :: "string \<Rightarrow> clusterLease \<Rightarrow> Server \<Rightarrow> agent_error" where
  "lease_conflict lab held s =
     (case fmlookup (transactions s) lab of
        Some tx \<Rightarrow>
          if tx_phase tx = Recovering
          then RecoveryHoldsLease (lease_holder held) (tx_recovery_strategy tx) (tx_recovery_target tx)
          else AlreadyLeased (lease_holder held)
      | None \<Rightarrow> AlreadyLeased (lease_holder held))"

definition acquireMutationLease ::
    "bool \<Rightarrow> LeaseAcquireRequest \<Rightarrow> string option \<Rightarrow> go_time \<Rightarrow> Server
      \<Rightarrow> (agent_error, LeaseResponse) result \<times> Server" where
  "acquireMutationLease ok req token t s =
     (if acq_lab req = [] then (Inl LabNameRequired, s)
      else (case token of
              None \<Rightarrow> (Inl TokenUnavailable, s)
            | Some tok \<Rightarrow>
                let (changed, s1) = expireCoordinationLocked t s in
                (case fmlookup (mutations s1) (acq_lab req) of
                   Some held \<Rightarrow> (Inl (lease_conflict (acq_lab req) held s1), s1)
                 | None \<Rightarrow>
                     let until = t + leaseTTL (acq_ttl req);
                         (f, s2) = issue_lease (acq_lab req) (acq_holder req) tok until s1;
                         (saved, s3) = (if changed \<or> store s2 \<noteq> None
                                        then saveCoordinationLocked ok s2 else (True, s2))
                     in if \<not> saved then (Inl NotPersisted, drop_lease (acq_lab req) s3)
                        else (Inr \<lparr>resp_lab = acq_lab req, resp_fence = f, resp_expires = until\<rparr>, s3))))"

text \<open>\<open>limit\<close> is the configured recovery lease lifetime.\<close>

definition acquireRecoveryFence ::
    "bool \<Rightarrow> bool \<Rightarrow> duration \<Rightarrow> string \<Rightarrow> string option \<Rightarrow> go_time \<Rightarrow> Server
      \<Rightarrow> (agent_error, Fence) result \<times> Server" where
  "acquireRecoveryFence ok ok' limit lab token t s =
     (let (changed, s1) = expireCoordinationLocked t s;
          (saved, s2) = (if changed then saveCoordinationLocked ok s1 else (True, s1))
      in if \<not> saved then (Inl NotPersisted, s2)
         else (case fmlookup (mutations s2) lab of
                 Some held \<Rightarrow> (Inl (AlreadyLeased (lease_holder held)), s2)
               | None \<Rightarrow>
                   (case token of
                      None \<Rightarrow> (Inl TokenUnavailable, s2)
                    | Some tok \<Rightarrow>
                        let (f, s3) = issue_lease lab ''agent recovery'' tok (t + limit) s2;
                            (saved', s4) = saveCoordinationLocked ok' s3
                        in if \<not> saved' then (Inl NotPersisted, drop_lease lab s4)
                           else (Inr f, s4))))"

definition reserved_by :: "string \<Rightarrow> fence_gen \<Rightarrow> overlayClaim \<Rightarrow> bool" where
  "reserved_by lab g c \<longleftrightarrow> \<not> claim_live c \<and> claim_lab c = lab \<and> claim_generation c = g"

definition extend_claims :: "string \<Rightarrow> fence_gen \<Rightarrow> go_time \<Rightarrow> (vni, overlayClaim) fmap \<Rightarrow> (vni, overlayClaim) fmap" where
  "extend_claims lab g until m =
     fmmap (\<lambda>c. if reserved_by lab g c then c\<lparr>claim_until := until\<rparr> else c) m"

text \<open>The caller has already expired the state; a failed check saves what expired and ignores
  whether that was written.\<close>

definition refuse ::
    "bool \<Rightarrow> bool \<Rightarrow> agent_error \<Rightarrow> Server \<Rightarrow> (agent_error, 'a) result \<times> Server" where
  "refuse ok changed e s =
     (Inl e, if changed then snd (saveCoordinationLocked ok s) else s)"

definition renewMutationLease ::
    "bool \<Rightarrow> LeaseRenewRequest \<Rightarrow> go_time \<Rightarrow> Server \<Rightarrow> (agent_error, LeaseResponse) result \<times> Server" where
  "renewMutationLease ok req t s =
     (let (changed, s1) = expireCoordinationLocked t s in
      case fenceErrorLocked (ren_lab req) (ren_fence req) t s1 of
        Some e \<Rightarrow> refuse ok changed e s1
      | None \<Rightarrow>
          let l = the (fmlookup (mutations s1) (ren_lab req));
              until = t + leaseTTL (ren_ttl req);
              l' = l\<lparr>lease_until := until\<rparr>;
              g = Generation (ren_fence req);
              changed' = (changed \<or> fm_exists (\<lambda>_ c. reserved_by (ren_lab req) g c) (overlayClaims s1));
              s2 = s1\<lparr>mutations := fmupd (ren_lab req) l' (mutations s1),
                      overlayClaims := extend_claims (ren_lab req) g until (overlayClaims s1)\<rparr>;
              (saved, s3) = (if changed' then saveCoordinationLocked ok s2 else (True, s2))
          in if \<not> saved then (Inl NotPersisted, s3)
             else (Inr \<lparr>resp_lab = ren_lab req, resp_fence = lease_fence l', resp_expires = until\<rparr>, s3))"

definition releaseMutationLease ::
    "bool \<Rightarrow> LeaseReleaseRequest \<Rightarrow> go_time \<Rightarrow> Server \<Rightarrow> (agent_error, unit) result \<times> Server" where
  "releaseMutationLease ok req t s =
     (let (changed, s1) = expireCoordinationLocked t s in
      case fenceErrorLocked (rel_lab req) (rel_fence req) t s1 of
        Some e \<Rightarrow> refuse ok changed e s1
      | None \<Rightarrow>
          let g = Generation (rel_fence req);
              changed' = (changed \<or> fm_exists (\<lambda>_ c. reserved_by (rel_lab req) g c) (overlayClaims s1));
              s2 = s1\<lparr>mutations := fmdrop (rel_lab req) (mutations s1),
                      overlayClaims := fm_keep (\<lambda>_ c. \<not> reserved_by (rel_lab req) g c) (overlayClaims s1)\<rparr>;
              (saved, s3) = (if changed' then saveCoordinationLocked ok s2 else (True, s2))
          in if \<not> saved then (Inl NotPersisted, s3) else (Inr (), s3))"

definition mutationLeaseHolder :: "string \<Rightarrow> go_time \<Rightarrow> Server \<Rightarrow> string \<times> Server" where
  "mutationLeaseHolder lab t s =
     (let s1 = snd (expireCoordinationLocked t s) in
      (case fmlookup (mutations s1) lab of
         None \<Rightarrow> []
       | Some l \<Rightarrow> if lease_holder l \<noteq> [] then lease_holder l else ''a fenced cluster operation'',
       s1))"

section \<open>The lease bound\<close>

lemma leaseTTL_bounds: "0 < leaseTTL n" "leaseTTL n \<le> 600 * second"
  by (auto simp: leaseTTL_def Let_def defaultMutationLeaseSeconds_def maxMutationLeaseSeconds_def second_def)

section \<open>Saving and expiring\<close>

lemma save_components [simp]:
  "mutations (snd (saveCoordinationLocked ok s)) = mutations s"
  "fenceHighWater (snd (saveCoordinationLocked ok s)) = fenceHighWater s"
  "overlayClaims (snd (saveCoordinationLocked ok s)) = overlayClaims s"
  "generations (snd (saveCoordinationLocked ok s)) = generations s"
  "transactions (snd (saveCoordinationLocked ok s)) = transactions s"
  "inventories (snd (saveCoordinationLocked ok s)) = inventories s"
  "overlayLineage (snd (saveCoordinationLocked ok s)) = overlayLineage s"
  "ephemeral (snd (saveCoordinationLocked ok s)) = ephemeral s"
  "gcCollecting (snd (saveCoordinationLocked ok s)) = gcCollecting s"
  "ops (snd (saveCoordinationLocked ok s)) = ops s"
  "opSequence (snd (saveCoordinationLocked ok s)) = opSequence s"
  "holds (snd (saveCoordinationLocked ok s)) = holds s"
  "current (snd (saveCoordinationLocked ok s)) = current s"
  "cfg_node (snd (saveCoordinationLocked ok s)) = cfg_node s"
  by (auto simp: saveCoordinationLocked_def split: option.splits)

lemma save_store_None [simp]: "(store (snd (saveCoordinationLocked ok s)) = None) = (store s = None)"
  by (auto simp: saveCoordinationLocked_def split: option.splits)

lemma expire_components [simp]:
  "mutations (snd (expireCoordinationLocked t s)) = fm_keep (\<lambda>_ l. t < lease_until l) (mutations s)"
  "overlayClaims (snd (expireCoordinationLocked t s)) = fm_keep (\<lambda>_ c. \<not> claim_expired t c) (overlayClaims s)"
  "fenceHighWater (snd (expireCoordinationLocked t s)) = fenceHighWater s"
  "generations (snd (expireCoordinationLocked t s)) = generations s"
  "transactions (snd (expireCoordinationLocked t s)) = transactions s"
  "inventories (snd (expireCoordinationLocked t s)) = inventories s"
  "overlayLineage (snd (expireCoordinationLocked t s)) = overlayLineage s"
  "ephemeral (snd (expireCoordinationLocked t s)) = ephemeral s"
  "gcCollecting (snd (expireCoordinationLocked t s)) = gcCollecting s"
  "ops (snd (expireCoordinationLocked t s)) = ops s"
  "opSequence (snd (expireCoordinationLocked t s)) = opSequence s"
  "holds (snd (expireCoordinationLocked t s)) = holds s"
  "current (snd (expireCoordinationLocked t s)) = current s"
  "cfg_node (snd (expireCoordinationLocked t s)) = cfg_node s"
  "store (snd (expireCoordinationLocked t s)) = store s"
  by (simp_all add: expireCoordinationLocked_def)

text \<open>Dropping what has expired does not change which fences are accepted at that time or later.\<close>

lemma fenceErrorLocked_None_iff:
  "fenceErrorLocked lab f t s = None \<longleftrightarrow>
     lab \<noteq> [] \<and> Token f \<noteq> [] \<and> Generation f \<noteq> 0 \<and>
     (\<exists>l. fmlookup (mutations s) lab = Some l \<and> t < lease_until l \<and> lease_fence l = f)"
  by (auto simp: fenceErrorLocked_def split: option.splits)

lemma fenceErrorLocked_expire:
  assumes "t0 \<le> t"
  shows "fenceErrorLocked lab f t (snd (expireCoordinationLocked t0 s)) = fenceErrorLocked lab f t s"
  using assms by (auto simp: fenceErrorLocked_def fmlookup_fm_keep split: option.splits)

lemma fenceErrorLocked_save [simp]:
  "fenceErrorLocked lab f t (snd (saveCoordinationLocked ok s)) = fenceErrorLocked lab f t s"
  by (simp add: fenceErrorLocked_def)

section \<open>Steps that issue no fence\<close>

text \<open>The high-water marks on disk; without a journal there are none.\<close>

definition journal_high_water :: "Server \<Rightarrow> (string, fence_gen) fmap" where
  "journal_high_water s =
     (case store s of
        None \<Rightarrow> fmempty
      | Some st \<Rightarrow> (case st_coordination st of None \<Rightarrow> fmempty | Some d \<Rightarrow> FenceHighWater d))"

text \<open>A step that issues no fence keeps the marks in memory, leaves every lease it does not drop
  with its fence, and changes the marks on disk at most to those in memory.\<close>

definition quiet :: "Server \<Rightarrow> Server \<Rightarrow> bool" where
  "quiet s s' \<longleftrightarrow>
     fenceHighWater s' = fenceHighWater s \<and>
     (\<forall>lab l'. fmlookup (mutations s') lab = Some l' \<longrightarrow>
        (\<exists>l. fmlookup (mutations s) lab = Some l \<and> lease_fence l' = lease_fence l)) \<and>
     (store s' = None \<longleftrightarrow> store s = None) \<and>
     (journal_high_water s' = journal_high_water s \<or> journal_high_water s' = fenceHighWater s)"

lemma quiet_refl [simp]: "quiet s s"
  by (auto simp: quiet_def)

lemma quiet_trans:
  assumes "quiet s s'" "quiet s' s''"
  shows "quiet s s''"
  using assms unfolding quiet_def by metis

lemma journal_high_water_save:
  "journal_high_water (snd (saveCoordinationLocked ok s)) =
     (if store s \<noteq> None \<and> ok then fenceHighWater s else journal_high_water s)"
  by (auto simp: saveCoordinationLocked_def journal_high_water_def journal_of_def split: option.splits)

lemma quiet_save [simp]: "quiet s s' \<Longrightarrow> quiet s (snd (saveCoordinationLocked ok s'))"
  by (auto simp: quiet_def journal_high_water_save)

lemma quiet_expire [simp]: "quiet s s' \<Longrightarrow> quiet s (snd (expireCoordinationLocked t s'))"
  by (fastforce simp: quiet_def journal_high_water_def)

lemma quiet_fields [simp]:
  "quiet s (s'\<lparr>overlayClaims := a\<rparr>) = quiet s s'"
  "quiet s (s'\<lparr>generations := b\<rparr>) = quiet s s'"
  "quiet s (s'\<lparr>transactions := c\<rparr>) = quiet s s'"
  "quiet s (s'\<lparr>inventories := d\<rparr>) = quiet s s'"
  "quiet s (s'\<lparr>overlayLineage := e\<rparr>) = quiet s s'"
  "quiet s (s'\<lparr>ephemeral := f\<rparr>) = quiet s s'"
  "quiet s (s'\<lparr>gcCollecting := g\<rparr>) = quiet s s'"
  "quiet s (s'\<lparr>ops := h\<rparr>) = quiet s s'"
  "quiet s (s'\<lparr>opSequence := i\<rparr>) = quiet s s'"
  "quiet s (s'\<lparr>holds := j\<rparr>) = quiet s s'"
  "quiet s (s'\<lparr>repairFails := k\<rparr>) = quiet s s'"
  "quiet s (s'\<lparr>repairNext := m\<rparr>) = quiet s s'"
  "quiet s (s'\<lparr>semanticCycles := n\<rparr>) = quiet s s'"
  "quiet s (s'\<lparr>repairTerminal := p\<rparr>) = quiet s s'"
  "quiet s (s'\<lparr>semanticGraceUntil := q\<rparr>) = quiet s s'"
  "quiet s (s'\<lparr>exempt := r\<rparr>) = quiet s s'"
  "quiet s (s'\<lparr>partial := u\<rparr>) = quiet s s'"
  "quiet s (s'\<lparr>gcSeen := v\<rparr>) = quiet s s'"
  "quiet s (s'\<lparr>current := w\<rparr>) = quiet s s'"
  "quiet s (s'\<lparr>modes := x\<rparr>) = quiet s s'"
  "quiet s (s'\<lparr>ungraded := y\<rparr>) = quiet s s'"
  "quiet s (s'\<lparr>peers := z\<rparr>) = quiet s s'"
  by (simp_all add: quiet_def journal_high_water_def)

lemma quiet_drop_lease [simp]: "quiet s s' \<Longrightarrow> quiet s (s'\<lparr>mutations := fmdrop lab (mutations s')\<rparr>)"
  by (auto simp: quiet_def journal_high_water_def split: if_splits)

lemma quiet_other_file [simp]:
  assumes "store s' = Some st" "st_coordination st' = st_coordination st"
  shows "quiet s (s'\<lparr>store := Some st'\<rparr>) = quiet s s'"
  using assms by (simp add: quiet_def journal_high_water_def)

lemma quiet_renew_lease:
  assumes "quiet s s'" "fmlookup (mutations s') lab = Some l"
  shows "quiet s (s'\<lparr>mutations := fmupd lab (l\<lparr>lease_until := u\<rparr>) (mutations s')\<rparr>)"
  using assms by (auto simp: quiet_def journal_high_water_def)

section \<open>Issuing a fence\<close>

lemma save_True:
  "fst (saveCoordinationLocked ok s) \<Longrightarrow> saveCoordinationLocked ok s = (True, snd (saveCoordinationLocked True s))"
  by (auto simp: saveCoordinationLocked_def split: option.splits if_splits)

lemma save_False:
  "\<not> fst (saveCoordinationLocked ok s) \<Longrightarrow> saveCoordinationLocked ok s = (False, s)"
  by (auto simp: saveCoordinationLocked_def split: option.splits if_splits)

lemma issue_lease_store [simp]: "store (snd (issue_lease lab h tok u s)) = store s"
  by (simp add: issue_lease_def Let_def)

lemma save_skipped: "store s = None \<Longrightarrow> snd (saveCoordinationLocked ok s) = s"
  by (simp add: saveCoordinationLocked_def)

lemma acquireMutationLease_cases:
  assumes "acquireMutationLease ok req token t s = (r, s')"
  obtains (refused) e where "r = Inl e" "quiet s s'"
  | (lost) s1 h tok u where "quiet s s1" "r = Inl NotPersisted"
      "s' = drop_lease (acq_lab req) (snd (issue_lease (acq_lab req) h tok u s1))"
  | (issued) s1 h tok u resp where "quiet s s1" "r = Inr resp"
      "resp_lab resp = acq_lab req" "resp_fence resp = fst (issue_lease (acq_lab req) h tok u s1)"
      "s' = snd (saveCoordinationLocked True (snd (issue_lease (acq_lab req) h tok u s1)))"
proof -
  define s1 where "s1 = snd (expireCoordinationLocked t s)"
  define c where "c = fst (expireCoordinationLocked t s)"
  have q: "quiet s s1"
    by (simp add: s1_def)
  have e: "expireCoordinationLocked t s = (c, s1)"
    by (simp add: c_def s1_def)
  show thesis
  proof (cases "acq_lab req = [] \<or> token = None \<or> fmlookup (mutations s1) (acq_lab req) \<noteq> None")
    case True
    then show thesis
      using assms q by (auto simp: acquireMutationLease_def e split: option.splits if_splits intro: refused)
  next
    case False
    then obtain tok where tok: "token = Some tok" "acq_lab req \<noteq> []" "fmlookup (mutations s1) (acq_lab req) = None"
      by auto
    define u where "u = t + leaseTTL (acq_ttl req)"
    define s2 where "s2 = snd (issue_lease (acq_lab req) (acq_holder req) tok u s1)"
    define f where "f = fst (issue_lease (acq_lab req) (acq_holder req) tok u s1)"
    have i: "issue_lease (acq_lab req) (acq_holder req) tok (t + leaseTTL (acq_ttl req)) s1 = (f, s2)"
      by (simp add: f_def s2_def u_def)
    have unsaved: "snd (saveCoordinationLocked True s2) = s2" if "store s2 = None"
      using that by (rule save_skipped)
    have "r = Inl NotPersisted \<and> s' = drop_lease (acq_lab req) s2 \<or>
        (\<exists>resp. r = Inr resp \<and> resp_lab resp = acq_lab req \<and> resp_fence resp = f
           \<and> s' = snd (saveCoordinationLocked True s2))"
      using assms tok unsaved save_True [of ok s2] save_False [of ok s2]
      by (cases "fst (saveCoordinationLocked ok s2)")
        (auto simp: acquireMutationLease_def e i Let_def split: if_splits)
    then show thesis
      using lost [OF q, of "acq_holder req" tok u] issued [OF q, of _ "acq_holder req" tok u]
      by (auto simp: s2_def f_def)
  qed
qed

lemma acquireRecoveryFence_cases:
  assumes "acquireRecoveryFence ok ok' limit lab token t s = (r, s')"
  obtains (refused) e where "r = Inl e" "quiet s s'"
  | (lost) s1 h tok u where "quiet s s1" "r = Inl NotPersisted"
      "s' = drop_lease lab (snd (issue_lease lab h tok u s1))"
  | (issued) s1 h tok u where "quiet s s1" "r = Inr (fst (issue_lease lab h tok u s1))"
      "s' = snd (saveCoordinationLocked True (snd (issue_lease lab h tok u s1)))"
proof -
  define s1 where "s1 = snd (expireCoordinationLocked t s)"
  define c where "c = fst (expireCoordinationLocked t s)"
  define s2 where "s2 = snd (if c then saveCoordinationLocked ok s1 else (True, s1))"
  define sv where "sv = fst (if c then saveCoordinationLocked ok s1 else (True, s1))"
  have q: "quiet s s2"
    by (simp add: s1_def s2_def)
  have e: "expireCoordinationLocked t s = (c, s1)" "(if c then saveCoordinationLocked ok s1 else (True, s1)) = (sv, s2)"
    by (simp_all add: c_def s1_def sv_def s2_def)
  show thesis
  proof (cases "\<not> sv \<or> token = None \<or> fmlookup (mutations s2) lab \<noteq> None")
    case True
    then show thesis
      using assms q by (auto simp: acquireRecoveryFence_def e split: option.splits if_splits intro: refused)
  next
    case False
    then obtain tok where tok: "token = Some tok" "sv" "fmlookup (mutations s2) lab = None"
      by auto
    define s3 where "s3 = snd (issue_lease lab ''agent recovery'' tok (t + limit) s2)"
    define f where "f = fst (issue_lease lab ''agent recovery'' tok (t + limit) s2)"
    have i: "issue_lease lab ''agent recovery'' tok (t + limit) s2 = (f, s3)"
      by (simp add: f_def s3_def)
    have "r = Inl NotPersisted \<and> s' = drop_lease lab s3 \<or> r = Inr f \<and> s' = snd (saveCoordinationLocked True s3)"
      using assms tok save_True [of ok' s3] save_False [of ok' s3]
      by (cases "fst (saveCoordinationLocked ok' s3)")
        (auto simp: acquireRecoveryFence_def e i split: if_splits)
    then show thesis
      using lost [OF q, of "''agent recovery''" tok "t + limit"] issued [OF q, of "''agent recovery''" tok "t + limit"]
      by (auto simp: s3_def f_def)
  qed
qed

section \<open>The contract of a fenced operation\<close>

text \<open>Memory and journal agree.\<close>

definition persisted :: "Server \<Rightarrow> bool" where
  "persisted s \<longleftrightarrow> (case store s of None \<Rightarrow> True | Some st \<Rightarrow> st_coordination st = Some (journal_of s))"

lemma persisted_save [simp]:
  "fst (saveCoordinationLocked ok s) \<Longrightarrow> persisted (snd (saveCoordinationLocked ok s))"
  by (auto simp: persisted_def saveCoordinationLocked_def journal_of_def split: option.splits if_splits)

text \<open>What a caller may rely on: an operation whose fence is not accepted changes nothing, and
  none of them issues a fence.\<close>

locale fenced_op =
  fixes op :: "string \<Rightarrow> Fence \<Rightarrow> go_time \<Rightarrow> Server \<Rightarrow> (agent_error, 'r) result \<times> Server"
  assumes refuses: "fenceErrorLocked lab f t s = Some e \<Longrightarrow> \<exists>e'. op lab f t s = (Inl e', s)"
    and silent: "quiet s (snd (op lab f t s))"
begin

lemma acked_fence:
  assumes "op lab f t s = (Inr r, s')"
  shows "fenceErrorLocked lab f t s = None"
  using assms refuses [of lab f t s] by (cases "fenceErrorLocked lab f t s") auto

lemma change_fence:
  assumes "snd (op lab f t s) \<noteq> s"
  shows "fenceErrorLocked lab f t s = None"
  using assms refuses [of lab f t s] by (cases "fenceErrorLocked lab f t s") auto

end

text \<open>An operation that answers only once its effect is in the journal.\<close>

locale journalled_op = fenced_op +
  assumes durable: "op lab f t s = (Inr r, s') \<Longrightarrow> persisted s' \<or> s' = s"
begin

lemma keeps_persisted:
  assumes "persisted s" "op lab f t s = (Inr r, s')"
  shows "persisted s'"
  using durable [OF assms(2)] assms(1) by auto

end

end
