(* ===== verification/Journal.thy ===== *)
theory Journal
  imports Leases
begin

text \<open>
  What a starting agent reads back: \<open>loadCoordination\<close> with its migration of legacy transaction
  modes (\<open>internal/agent/coordination.go\<close>), and the fresh server that \<open>New\<close> builds before it
  (\<open>internal/agent/agent.go\<close>).
\<close>

section \<open>Definitions\<close>

definition maxEphemeralLifetime :: duration where "maxEphemeralLifetime = 8 * hour"

text \<open>The updated record, whether it changed, and the error if the modes are ambiguous.\<close>

definition migrate_desired_mode :: "applyTransaction \<Rightarrow> (agent_error, applyTransaction \<times> bool) result" where
  "migrate_desired_mode tx =
     (if tx_mode tx \<noteq> [] then Inr (tx, False)
      else (case unmarshal (tx_requested tx) of
              None \<Rightarrow> Inl BadWire
            | Some w \<Rightarrow>
                if wire_mode w = [] then Inr (tx\<lparr>tx_mode := ModePlatform, tx_ungraded := 0\<rparr>, True)
                else (case RequireTransactionMode (wire_mode w) of
                        Inl e \<Rightarrow> Inl e
                      | Inr m \<Rightarrow> Inr (tx\<lparr>tx_mode := m, tx_ungraded := wire_ungraded w\<rparr>, True))))"

definition migrate_previous_mode :: "applyTransaction \<Rightarrow> (agent_error, applyTransaction \<times> bool) result" where
  "migrate_previous_mode tx =
     (if tx_previous_mode tx \<noteq> [] then Inr (tx, False)
      else (case unmarshal (tx_previous tx) of
              Some w \<Rightarrow>
                if wire_mode w \<noteq> []
                then (case RequireTransactionMode (wire_mode w) of
                        Inl e \<Rightarrow> Inl e
                      | Inr m \<Rightarrow> Inr (tx\<lparr>tx_previous_mode := m, tx_previous_ungraded := wire_ungraded w\<rparr>, True))
                else Inr (tx\<lparr>tx_previous_mode := ModePlatform, tx_previous_ungraded := 0\<rparr>, True)
            | None \<Rightarrow> Inr (tx\<lparr>tx_previous_mode := ModePlatform, tx_previous_ungraded := 0\<rparr>, True)))"

definition migrateLegacyTransactionModes ::
    "applyTransaction \<Rightarrow> applyTransaction \<times> bool \<times> agent_error option" where
  "migrateLegacyTransactionModes tx =
     (case migrate_desired_mode tx of
        Inl e \<Rightarrow> (tx, False, Some e)
      | Inr (tx1, c1) \<Rightarrow>
          (case RequireTransactionMode (tx_mode tx1) of
             Inl e \<Rightarrow> (tx1, False, Some e)
           | Inr _ \<Rightarrow>
               (case migrate_previous_mode tx1 of
                  Inl e \<Rightarrow> (tx1, False, Some e)
                | Inr (tx2, c2) \<Rightarrow>
                    (case RequireTransactionMode (tx_previous_mode tx2) of
                       Inl e \<Rightarrow> (tx2, False, Some e)
                     | Inr _ \<Rightarrow> (tx2, c1 \<or> c2, None)))))"

text \<open>The recorded failure is the fixed part of the message.\<close>

definition load_transaction :: "applyTransaction \<Rightarrow> applyTransaction \<times> bool" where
  "load_transaction tx0 =
     (let tx = (if tx_phase tx0 = NoPhase then tx0\<lparr>tx_phase := RollbackNeeded\<rparr> else tx0) in
      case migrateLegacyTransactionModes tx of
        (updated, changed, None) \<Rightarrow> (updated, changed)
      | (updated, changed, Some e) \<Rightarrow>
          (updated\<lparr>tx_phase := RollbackFailed,
             tx_failure := ''legacy transaction mode migration refused''\<rparr>, True))"

definition load_ephemeral :: "go_time \<Rightarrow> string \<Rightarrow> ephemeralLease \<Rightarrow> ephemeralLease \<times> bool" where
  "load_ephemeral t lab l0 =
     (let l = (if eph_lab l0 = [] then l0\<lparr>eph_lab := lab\<rparr> else l0) in
      if eph_hard l = 0
      then (let anchor = (if eph_created l = 0 then t else eph_created l)
            in (l\<lparr>eph_hard := anchor + maxEphemeralLifetime\<rparr>, True))
      else (l, False))"

definition merge_high_water ::
    "(string, fence_gen) fmap \<Rightarrow> (string, fence_gen) fmap \<Rightarrow> (string, fence_gen) fmap" where
  "merge_high_water mem disk = mem ++\<^sub>f fm_keep (\<lambda>lab g. g > get_or 0 mem lab) disk"

definition load_journal :: "go_time \<Rightarrow> coordinationState \<Rightarrow> Server \<Rightarrow> bool \<times> Server" where
  "load_journal t disk s =
     (fm_exists (\<lambda>_ tx. snd (load_transaction tx)) (Transactions disk)
        \<or> fm_exists (\<lambda>lab l. snd (load_ephemeral t lab l)) (Ephemeral disk),
      s\<lparr>fenceHighWater := merge_high_water (fenceHighWater s) (FenceHighWater disk),
        overlayClaims := overlayClaims s ++\<^sub>f Overlays disk,
        generations := generations s ++\<^sub>f Generations disk,
        transactions := transactions s ++\<^sub>f fmmap (\<lambda>tx. fst (load_transaction tx)) (Transactions disk),
        inventories := inventories s ++\<^sub>f Inventories disk,
        overlayLineage := overlayLineage s ++\<^sub>f OverlayLineage disk,
        ephemeral := ephemeral s ++\<^sub>f fmmap_keys (\<lambda>lab l. fst (load_ephemeral t lab l)) (Ephemeral disk)\<rparr>)"

text \<open>A journal that is missing or cannot be read leaves the server as it is; \<open>t\<close> is the clock
  while reading and \<open>t'\<close> when the state is expired.\<close>

definition loadCoordination :: "bool \<Rightarrow> go_time \<Rightarrow> go_time \<Rightarrow> Server \<Rightarrow> Server" where
  "loadCoordination ok t t' s =
     (case store s of
        None \<Rightarrow> s
      | Some st \<Rightarrow>
          (case st_coordination st of
             None \<Rightarrow> s
           | Some disk \<Rightarrow>
               let (migrated, s1) = load_journal t disk s;
                   s2 = snd (expireCoordinationLocked t' s1)
               in if migrated then snd (saveCoordinationLocked ok s2) else s2))"

definition fresh_server :: "string \<Rightarrow> Store option \<Rightarrow> Server" where
  "fresh_server node st =
     \<lparr>cfg_node = node, store = st, current = fmempty, modes = fmempty, ungraded = fmempty,
      peers = fmempty, ops = fmempty, mutations = fmempty, fenceHighWater = fmempty,
      overlayClaims = fmempty, generations = fmempty, transactions = fmempty,
      inventories = fmempty, overlayLineage = fmempty, ephemeral = fmempty, gcCollecting = {},
      opSequence = 0, holds = fmempty, repairFails = fmempty, repairNext = fmempty,
      semanticCycles = fmempty, repairTerminal = fmempty, semanticGraceUntil = fmempty,
      exempt = fmempty, partial = fmempty, gcSeen = fmempty\<rparr>"

text \<open>A restart keeps what is on disk and nothing else.\<close>

definition reload :: "bool \<Rightarrow> go_time \<Rightarrow> go_time \<Rightarrow> Server \<Rightarrow> Server" where
  "reload ok t t' s = loadCoordination ok t t' (fresh_server (cfg_node s) (store s))"

end
