(* ===== verification/Generations.thy ===== *)
theory Generations
  imports Leases
begin

text \<open>
  The durable deployment transaction of a lab on one node, \<open>internal/agent/coordination.go\<close>:
  prepare (a compare-and-swap on the committed generation), apply, commit, finalize, recover and
  destroy.  Every operation checks the mutation fence first and journals its outcome.
\<close>

section \<open>Definitions\<close>

text \<open>The prologue every operation shares.\<close>

definition fenced ::
    "string \<Rightarrow> Fence \<Rightarrow> go_time \<Rightarrow> Server \<Rightarrow> (agent_error, 'a) result \<times> Server
      \<Rightarrow> (agent_error, 'a) result \<times> Server" where
  "fenced lab f t s k = (case fenceErrorLocked lab f t s of Some e \<Rightarrow> (Inl e, s) | None \<Rightarrow> k)"

definition prepared_tx :: "string \<Rightarrow> Fence \<Rightarrow> string \<Rightarrow> Server \<Rightarrow> applyTransaction option" where
  "prepared_tx lab f g s =
     (case fmlookup (transactions s) lab of
        None \<Rightarrow> None
      | Some tx \<Rightarrow>
          if tx_generation tx \<noteq> g \<or> tx_fence_generation tx \<noteq> Generation f then None else Some tx)"

definition put_tx :: "bool \<Rightarrow> string \<Rightarrow> applyTransaction \<Rightarrow> Server \<Rightarrow> (agent_error, unit) result \<times> Server" where
  "put_tx ok lab tx s =
     (let (saved, s1) = saveCoordinationLocked ok (s\<lparr>transactions := fmupd lab tx (transactions s)\<rparr>)
      in if saved then (Inr (), s1) else (Inl NotPersisted, s1))"

text \<open>\<open>Serialise\<close> leaves the mode and the generation of the wire unset.\<close>

definition serialise :: "Topology \<Rightarrow> Wire" where
  "serialise tp = \<lparr>wire_generation = [], wire_mode = [], wire_ungraded = 0,
     wire_ephemeral = top_ephemeral tp, wire_ephemeral_ttl = top_ephemeral_ttl tp,
     wire_peers = None, wire_topology = Some tp\<rparr>"

definition previous_topology :: "string \<Rightarrow> Server \<Rightarrow> RawMessage" where
  "previous_topology lab s =
     (let stored = (case store s of
                      None \<Rightarrow> NoMessage
                    | Some st \<Rightarrow> (case fmlookup (st_topology st) lab of None \<Rightarrow> NoMessage | Some raw \<Rightarrow> raw))
      in if raw_empty stored
         then (case fmlookup (current s) lab of None \<Rightarrow> NoMessage | Some tp \<Rightarrow> Encoded (serialise tp))
         else stored)"

record prepare_request =
  pr_expected :: string
  pr_generation :: string
  pr_requested :: RawMessage
  pr_mode :: string
  pr_ungraded :: int
  pr_peers :: "(string \<times> string) list"
  pr_prune :: bool
  pr_only :: "string list"
  pr_proofs :: "string list"
  pr_prestate :: "transactionInventory option"

text \<open>The checks on the request alone; the result is the canonical desired mode.\<close>

definition validate_prepare :: "prepare_request \<Rightarrow> (agent_error, string) result" where
  "validate_prepare req =
     (if pr_generation req = [] then Inl GenerationRequired
      else (case RequireTransactionMode (pr_mode req) of
              Inl e \<Rightarrow> Inl e
            | Inr desired \<Rightarrow>
                if pr_ungraded req < 0 then Inl NegativeUngraded
                else (case unmarshal (pr_requested req) of
                        None \<Rightarrow> Inl BadWire
                      | Some w \<Rightarrow>
                          (case RequireTransactionMode (wire_mode w) of
                             Inl e \<Rightarrow> Inl e
                           | Inr rmode \<Rightarrow>
                               if rmode \<noteq> desired \<or> wire_ungraded w \<noteq> pr_ungraded req
                               then Inl ModeMismatch else Inr desired))))"

text \<open>The mode of the deployment that is being replaced.\<close>

definition previous_mode :: "string \<Rightarrow> RawMessage \<Rightarrow> Server \<Rightarrow> string \<times> int" where
  "previous_mode lab previous s =
     (let (m, u) = (case unmarshal previous of None \<Rightarrow> ([], 0) | Some w \<Rightarrow> (wire_mode w, wire_ungraded w))
      in if m \<noteq> [] then (m, u)
         else if \<not> raw_empty previous then (ModePlatform, u)
         else if get_or [] (modes s) lab = [] then (ModePlatform, 0)
         else (get_or [] (modes s) lab, get_or 0 (ungraded s) lab))"

definition new_transaction ::
    "prepare_request \<Rightarrow> Fence \<Rightarrow> string \<Rightarrow> RawMessage \<Rightarrow> string \<Rightarrow> string \<Rightarrow> int \<Rightarrow> applyTransaction" where
  "new_transaction req f desired previous previousGen pmode pung =
     \<lparr>tx_generation = pr_generation req, tx_expected = pr_expected req,
      tx_fence_generation = Generation f, tx_requested = pr_requested req, tx_previous = previous,
      tx_previous_gen = previousGen, tx_previous_mode = pmode, tx_previous_ungraded = pung,
      tx_mode = desired, tx_ungraded = pr_ungraded req, tx_peer_underlay = pr_peers req,
      tx_prune = pr_prune req, tx_only_steps = pr_only req, tx_state_proofs = pr_proofs req,
      tx_solve = None, tx_dirty = [], tx_dirty_known = False, tx_semantic = [],
      tx_semantic_known = False, tx_touched = [], tx_touched_vnis = [], tx_touched_known = False,
      tx_state_verified = False, tx_phase = Prepared,
      tx_prestate = (case pr_prestate req of None \<Rightarrow> no_inventory | Some i \<Rightarrow> i),
      tx_failure = [], tx_attempts = 0, tx_last_recovery = 0, tx_next_recovery = 0,
      tx_recovery_owner = [], tx_recovery_strategy = [], tx_recovery_started = 0,
      tx_recovery_progress = 0, tx_recovery_deadline = 0, tx_recovery_total = 0,
      tx_recovery_target = [], tx_forward_ack = False, tx_forward_phase = [], tx_forward_loss = [],
      tx_applied = False, tx_committed = False\<rparr>"

text \<open>\<open>previous\<close> was read before the lock was taken, as \<open>previous_topology\<close> of that moment.\<close>

definition prepareGeneration ::
    "bool \<Rightarrow> RawMessage \<Rightarrow> prepare_request \<Rightarrow> string \<Rightarrow> Fence \<Rightarrow> go_time \<Rightarrow> Server
      \<Rightarrow> (agent_error, unit) result \<times> Server" where
  "prepareGeneration ok previous req lab f t s =
     (case validate_prepare req of
        Inl e \<Rightarrow> (Inl e, s)
      | Inr desired \<Rightarrow>
          fenced lab f t s
            (let state = get_or no_generation (generations s) lab in
             case fmlookup (transactions s) lab of
               Some tx \<Rightarrow>
                 if tx_generation tx = pr_generation req \<and> tx_fence_generation tx = Generation f
                 then (Inr (), s)
                 else (Inl (UnfinishedTransaction (tx_generation tx)), s)
             | None \<Rightarrow>
                 if committed state \<noteq> pr_expected req
                 then (Inl (CompareAndSwapFailed (pr_expected req) (committed state)), s)
                 else
                   let (pmode, pung) = previous_mode lab previous s in
                   (case RequireTransactionMode pmode of
                      Inl e \<Rightarrow> (Inl e, s)
                    | Inr _ \<Rightarrow>
                        let tx = new_transaction req f desired previous (committed state) pmode pung;
                            s1 = s\<lparr>transactions := fmupd lab tx (transactions s),
                                   generations := fmupd lab (state\<lparr>prepared := pr_generation req\<rparr>) (generations s)\<rparr>;
                            (saved, s2) = saveCoordinationLocked ok s1
                        in if saved then (Inr (), s2)
                           else (Inl NotPersisted,
                                 s2\<lparr>transactions := fmdrop lab (transactions s2),
                                    generations := fmupd lab (state\<lparr>prepared := []\<rparr>) (generations s2)\<rparr>))))"

definition checkPreparedGeneration ::
    "string \<Rightarrow> string \<Rightarrow> Fence \<Rightarrow> go_time \<Rightarrow> Server \<Rightarrow> (agent_error, unit) result \<times> Server" where
  "checkPreparedGeneration g lab f t s =
     fenced lab f t s
       (case prepared_tx lab f g s of None \<Rightarrow> (Inl NotPreparedByFence, s) | Some _ \<Rightarrow> (Inr (), s))"

definition require_modes :: "applyTransaction \<Rightarrow> (agent_error, applyTransaction) result" where
  "require_modes tx =
     (case RequireTransactionMode (tx_mode tx) of
        Inl e \<Rightarrow> Inl e
      | Inr _ \<Rightarrow> (case RequireTransactionMode (tx_previous_mode tx) of Inl e \<Rightarrow> Inl e | Inr _ \<Rightarrow> Inr tx))"

definition transactionForApply ::
    "string \<Rightarrow> string \<Rightarrow> Fence \<Rightarrow> go_time \<Rightarrow> Server \<Rightarrow> (agent_error, applyTransaction) result \<times> Server" where
  "transactionForApply g lab f t s =
     fenced lab f t s
       (case prepared_tx lab f g s of
          None \<Rightarrow> (Inl NotPreparedByFence, s)
        | Some tx \<Rightarrow> (require_modes tx, s))"

definition markGenerationApplying ::
    "bool \<Rightarrow> string \<Rightarrow> string \<Rightarrow> Fence \<Rightarrow> go_time \<Rightarrow> Server \<Rightarrow> (agent_error, unit) result \<times> Server" where
  "markGenerationApplying ok g lab f t s =
     fenced lab f t s
       (case prepared_tx lab f g s of
          None \<Rightarrow> (Inl NotPreparedByFence, s)
        | Some tx \<Rightarrow> put_tx ok lab (tx\<lparr>tx_phase := Applying, tx_failure := []\<rparr>) s)"

definition markGenerationApplied ::
    "bool \<Rightarrow> string \<Rightarrow> string \<Rightarrow> Fence \<Rightarrow> go_time \<Rightarrow> Server \<Rightarrow> (agent_error, unit) result \<times> Server" where
  "markGenerationApplied ok g lab f t s =
     fenced lab f t s
       (case prepared_tx lab f g s of
          None \<Rightarrow> (Inl NotPreparedByFence, s)
        | Some tx \<Rightarrow> put_tx ok lab (tx\<lparr>tx_applied := True, tx_phase := Applied, tx_failure := []\<rparr>) s)"

definition recordGenerationSolveTransition ::
    "bool \<Rightarrow> string \<Rightarrow> solveTransition option \<Rightarrow> string \<Rightarrow> Fence \<Rightarrow> go_time \<Rightarrow> Server
      \<Rightarrow> (agent_error, unit) result \<times> Server" where
  "recordGenerationSolveTransition ok g rec lab f t s =
     (case rec of
        None \<Rightarrow> (Inl SolveRecordRequired, s)
      | Some r \<Rightarrow>
          fenced lab f t s
            (case prepared_tx lab f g s of
               None \<Rightarrow> (Inl NotPreparedByFence, s)
             | Some tx \<Rightarrow> put_tx ok lab (tx\<lparr>tx_solve := Some r\<rparr>) s))"

definition recordGenerationDirtyCapture ::
    "bool \<Rightarrow> string \<Rightarrow> string list \<Rightarrow> string \<Rightarrow> Fence \<Rightarrow> go_time \<Rightarrow> Server
      \<Rightarrow> (agent_error, unit) result \<times> Server" where
  "recordGenerationDirtyCapture ok g ids lab f t s =
     fenced lab f t s
       (case prepared_tx lab f g s of
          None \<Rightarrow> (Inl NotPreparedByFence, s)
        | Some tx \<Rightarrow> put_tx ok lab (tx\<lparr>tx_dirty := ids, tx_dirty_known := True\<rparr>) s)"

definition recordGenerationSemantic ::
    "bool \<Rightarrow> string \<Rightarrow> string list \<Rightarrow> string \<Rightarrow> Fence \<Rightarrow> go_time \<Rightarrow> Server
      \<Rightarrow> (agent_error, unit) result \<times> Server" where
  "recordGenerationSemantic ok g ids lab f t s =
     fenced lab f t s
       (case prepared_tx lab f g s of
          None \<Rightarrow> (Inl NotPreparedByFence, s)
        | Some tx \<Rightarrow> put_tx ok lab (tx\<lparr>tx_semantic := ids, tx_semantic_known := True\<rparr>) s)"

definition appendTouchedStrings :: "string list \<Rightarrow> string list \<Rightarrow> string list" where
  "appendTouchedStrings existing added = sort (remdups (filter (\<lambda>x. x \<noteq> []) (existing @ added)))"

definition appendTouchedVNIs :: "vni list \<Rightarrow> vni list \<Rightarrow> vni list" where
  "appendTouchedVNIs existing added = sort (remdups (filter (\<lambda>v. v \<noteq> 0) (existing @ added)))"

definition recordGenerationTouched ::
    "bool \<Rightarrow> string \<Rightarrow> string list \<Rightarrow> vni list \<Rightarrow> bool \<Rightarrow> string \<Rightarrow> Fence \<Rightarrow> go_time \<Rightarrow> Server
      \<Rightarrow> (agent_error, unit) result \<times> Server" where
  "recordGenerationTouched ok g ids vnis known lab f t s =
     fenced lab f t s
       (case prepared_tx lab f g s of
          None \<Rightarrow> (Inl NotPreparedByFence, s)
        | Some tx \<Rightarrow>
            put_tx ok lab
              (tx\<lparr>tx_touched := appendTouchedStrings (tx_touched tx) ids,
                  tx_touched_vnis := appendTouchedVNIs (tx_touched_vnis tx) vnis,
                  tx_touched_known := tx_touched_known tx \<or> known\<rparr>) s)"

definition transactionForCommit ::
    "string \<Rightarrow> string \<Rightarrow> Fence \<Rightarrow> go_time \<Rightarrow> Server \<Rightarrow> (agent_error, applyTransaction) result \<times> Server" where
  "transactionForCommit g lab f t s =
     fenced lab f t s
       (case prepared_tx lab f g s of
          None \<Rightarrow> (Inl NotAppliedByFence, s)
        | Some tx \<Rightarrow>
            if \<not> tx_applied tx \<or> tx_phase tx \<in> {RollbackNeeded, Recovering, RollbackFailed}
            then (Inl NotAppliedByFence, s)
            else if tx_state_proofs tx \<noteq> [] \<and> \<not> tx_state_verified tx then (Inl StateNotVerified, s)
            else (require_modes tx, s))"

definition transactionForStateVerify ::
    "string \<Rightarrow> string \<Rightarrow> Fence \<Rightarrow> go_time \<Rightarrow> Server \<Rightarrow> (agent_error, applyTransaction) result \<times> Server" where
  "transactionForStateVerify g lab f t s =
     fenced lab f t s
       (case prepared_tx lab f g s of
          None \<Rightarrow> (Inl NotAppliedByFence, s)
        | Some tx \<Rightarrow> if \<not> tx_applied tx then (Inl NotAppliedByFence, s) else (Inr tx, s))"

definition markStateVerified ::
    "bool \<Rightarrow> string \<Rightarrow> string \<Rightarrow> Fence \<Rightarrow> go_time \<Rightarrow> Server \<Rightarrow> (agent_error, unit) result \<times> Server" where
  "markStateVerified ok g lab f t s =
     fenced lab f t s
       (case prepared_tx lab f g s of
          None \<Rightarrow> (Inl NotAppliedByFence, s)
        | Some tx \<Rightarrow>
            if \<not> tx_applied tx then (Inl NotAppliedByFence, s)
            else put_tx ok lab (tx\<lparr>tx_state_verified := True\<rparr>) s)"

fun dedup_nonempty :: "string list \<Rightarrow> string list \<Rightarrow> string list" where
  "dedup_nonempty seen [] = []"
| "dedup_nonempty seen (g # gs) =
     (if g = [] \<or> g \<in> set seen then dedup_nonempty seen gs else g # dedup_nonempty (g # seen) gs)"

definition appendGenerationLineage :: "string list \<Rightarrow> string \<Rightarrow> string \<Rightarrow> string list" where
  "appendGenerationLineage existing previous cur = dedup_nonempty [] (existing @ [previous, cur])"

definition lineage_of ::
    "applyTransaction \<Rightarrow> (vni, string) fmap \<Rightarrow> string \<Rightarrow> vni list \<Rightarrow> (vni, string) fmap" where
  "lineage_of tx prev g vnis =
     fold (\<lambda>v m. fmupd v
        (if tx_touched_known tx \<and> v \<in> set (tx_touched_vnis tx) then g
         else if get_or [] prev v \<noteq> [] then get_or [] prev v else g) m) vnis fmempty"

definition finishCommittedGeneration ::
    "bool \<Rightarrow> transactionInventory option \<Rightarrow> string \<Rightarrow> string \<Rightarrow> Fence \<Rightarrow> go_time \<Rightarrow> Server
      \<Rightarrow> (agent_error, unit) result \<times> Server" where
  "finishCommittedGeneration ok oinv g lab f t s =
     fenced lab f t s
       (case prepared_tx lab f g s of
          None \<Rightarrow> (Inl NotAppliedByFence, s)
        | Some tx \<Rightarrow>
            if \<not> tx_applied tx then (Inl NotAppliedByFence, s)
            else
              let state = get_or no_generation (generations s) lab;
                  state' = state\<lparr>committed := g, prepared := [],
                    ancestors := appendGenerationLineage (ancestors state) (committed state) g\<rparr>;
                  prev = fmlookup (overlayLineage s) lab;
                  tx' = tx\<lparr>tx_committed := True, tx_phase := Committed, tx_failure := []\<rparr>;
                  s1 = s\<lparr>generations := fmupd lab state' (generations s),
                         transactions := fmupd lab tx' (transactions s)\<rparr>;
                  s2 = (case oinv of
                          None \<Rightarrow> s1
                        | Some i \<Rightarrow>
                            s1\<lparr>inventories := fmupd lab i (inventories s1),
                               overlayLineage := fmupd lab
                                 (lineage_of tx (case prev of None \<Rightarrow> fmempty | Some m \<Rightarrow> m) g (inv_vnis i))
                                 (overlayLineage s1)\<rparr>);
                  (saved, s3) = saveCoordinationLocked ok s2
              in if saved then (Inr (), s3)
                 else (Inl NotPersisted,
                       s3\<lparr>transactions := fmupd lab (tx'\<lparr>tx_committed := False\<rparr>) (transactions s3),
                          generations := fmupd lab state (generations s3),
                          inventories := (case fmlookup (inventories s) lab of
                                            Some i \<Rightarrow> fmupd lab i (inventories s3)
                                          | None \<Rightarrow> fmdrop lab (inventories s3)),
                          overlayLineage := (case prev of
                                               Some m \<Rightarrow> fmupd lab m (overlayLineage s3)
                                             | None \<Rightarrow> fmdrop lab (overlayLineage s3))\<rparr>))"

definition finalizeCommittedGeneration ::
    "bool \<Rightarrow> string \<Rightarrow> string \<Rightarrow> Fence \<Rightarrow> go_time \<Rightarrow> Server \<Rightarrow> (agent_error, unit) result \<times> Server" where
  "finalizeCommittedGeneration ok g lab f t s =
     fenced lab f t s
       (case prepared_tx lab f g s of
          None \<Rightarrow> (Inl NotAwaitingFinalization, s)
        | Some tx \<Rightarrow>
            if \<not> tx_committed tx then (Inl NotAwaitingFinalization, s)
            else
              let (saved, s1) = saveCoordinationLocked ok (s\<lparr>transactions := fmdrop lab (transactions s)\<rparr>)
              in if saved then (Inr (), s1)
                 else (Inl NotPersisted, s1\<lparr>transactions := fmupd lab tx (transactions s1)\<rparr>))"

text \<open>The keys of the repair counters are a lab and a device joined by a bar.\<close>

definition not_of_lab :: "string \<Rightarrow> string \<Rightarrow> 'a \<Rightarrow> bool" where
  "not_of_lab lab key _ \<longleftrightarrow> \<not> has_prefix key (lab @ ''|'')"

definition forget_repairs :: "string \<Rightarrow> Server \<Rightarrow> Server" where
  "forget_repairs lab s =
     s\<lparr>repairFails := fm_keep (not_of_lab lab) (repairFails s),
       repairNext := fm_keep (not_of_lab lab) (repairNext s),
       partial := fm_keep (not_of_lab lab) (partial s)\<rparr>"

text \<open>When the journal write fails only the transaction is put back.\<close>

definition finishRecoveredGeneration ::
    "bool \<Rightarrow> string \<Rightarrow> string \<Rightarrow> Fence \<Rightarrow> go_time \<Rightarrow> Server \<Rightarrow> (agent_error, unit) result \<times> Server" where
  "finishRecoveredGeneration ok g lab f t s =
     fenced lab f t s
       (case fmlookup (transactions s) lab of
          None \<Rightarrow> (Inl NoRecoveryTransaction, s)
        | Some tx \<Rightarrow>
            if tx_generation tx \<noteq> g then (Inl NoRecoveryTransaction, s)
            else
              let state = get_or no_generation (generations s) lab;
                  s1 = s\<lparr>generations := fmupd lab (state\<lparr>committed := tx_previous_gen tx, prepared := []\<rparr>)
                                          (generations s),
                         inventories := fmupd lab (tx_prestate tx) (inventories s),
                         transactions := fmdrop lab (transactions s)\<rparr>;
                  (saved, s2) = saveCoordinationLocked ok (forget_repairs lab s1)
              in if saved then (Inr (), s2)
                 else (Inl NotPersisted, s2\<lparr>transactions := fmupd lab tx (transactions s2)\<rparr>))"

definition restore_entry :: "'k \<Rightarrow> 'v option \<Rightarrow> ('k, 'v) fmap \<Rightarrow> ('k, 'v) fmap" where
  "restore_entry k prior m = (case prior of Some v \<Rightarrow> fmupd k v m | None \<Rightarrow> m)"

definition finishDestroyedLab ::
    "bool \<Rightarrow> string \<Rightarrow> Fence \<Rightarrow> go_time \<Rightarrow> Server \<Rightarrow> (agent_error, unit) result \<times> Server" where
  "finishDestroyedLab ok lab f t s =
     fenced lab f t s
       (let s1 = s\<lparr>overlayClaims := fm_keep (\<lambda>_ c. claim_lab c \<noteq> lab) (overlayClaims s),
                   generations := fmdrop lab (generations s),
                   transactions := fmdrop lab (transactions s),
                   inventories := fmdrop lab (inventories s),
                   overlayLineage := fmdrop lab (overlayLineage s),
                   ephemeral := fmdrop lab (ephemeral s)\<rparr>;
            (saved, s2) = saveCoordinationLocked ok s1
        in if \<not> saved
           then (Inl NotPersisted,
                 s2\<lparr>overlayClaims := overlayClaims s2 ++\<^sub>f fm_keep (\<lambda>_ c. claim_lab c = lab) (overlayClaims s),
                    generations := restore_entry lab (fmlookup (generations s) lab) (generations s2),
                    transactions := restore_entry lab (fmlookup (transactions s) lab) (transactions s2),
                    inventories := restore_entry lab (fmlookup (inventories s) lab) (inventories s2),
                    overlayLineage := restore_entry lab (fmlookup (overlayLineage s) lab) (overlayLineage s2),
                    ephemeral := restore_entry lab (fmlookup (ephemeral s) lab) (ephemeral s2)\<rparr>)
           else (Inr (),
                 forget_repairs lab
                   (s2\<lparr>current := fmdrop lab (current s2), modes := fmdrop lab (modes s2),
                       ungraded := fmdrop lab (ungraded s2), peers := fmdrop lab (peers s2)\<rparr>)))"

definition committedGenerations :: "Server \<Rightarrow> (string, string) fmap" where
  "committedGenerations s = fmmap committed (fm_keep (\<lambda>_ g. committed g \<noteq> []) (generations s))"

definition committedModes :: "Server \<Rightarrow> (string, string \<times> int) fmap" where
  "committedModes s = fmmap_keys (\<lambda>lab m. (m, get_or 0 (ungraded s) lab)) (modes s)"

section \<open>Frames\<close>

lemma fenced_refuses: "fenceErrorLocked lab f t s = Some e \<Longrightarrow> fenced lab f t s k = (Inl e, s)"
  by (simp add: fenced_def)

lemma fenced_accepts: "fenceErrorLocked lab f t s = None \<Longrightarrow> fenced lab f t s k = k"
  by (simp add: fenced_def)

lemma quiet_fenced: "quiet s (snd k) \<Longrightarrow> quiet s (snd (fenced lab f t s k))"
  by (auto simp: fenced_def split: option.splits)

lemma quiet_put_tx [simp]: "quiet s (snd (put_tx ok lab tx s))"
  by (auto simp: put_tx_def Let_def case_prod_unfold)

lemma quiet_forget_repairs [simp]: "quiet s (forget_repairs lab s') = quiet s s'"
  by (simp add: forget_repairs_def)

lemma put_tx_durable: "put_tx ok lab tx s = (Inr r, s') \<Longrightarrow> persisted s'"
  by (auto simp: put_tx_def Let_def case_prod_unfold split: if_splits)

lemmas op_split = option.splits sum.splits prod.splits if_splits

interpretation checked: fenced_op "checkPreparedGeneration g" for g
  by unfold_locales
    (auto simp: checkPreparedGeneration_def fenced_refuses intro!: quiet_fenced split: option.splits)

interpretation for_apply: fenced_op "transactionForApply g" for g
  by unfold_locales
    (auto simp: transactionForApply_def fenced_refuses intro!: quiet_fenced split: option.splits)

interpretation for_commit: fenced_op "transactionForCommit g" for g
  by unfold_locales
    (auto simp: transactionForCommit_def fenced_refuses intro!: quiet_fenced split: option.splits)

interpretation for_verify: fenced_op "transactionForStateVerify g" for g
  by unfold_locales
    (auto simp: transactionForStateVerify_def fenced_refuses intro!: quiet_fenced split: option.splits)

lemma fenced_Inr: "fenced lab f t s k = (Inr r, s') \<Longrightarrow> fenceErrorLocked lab f t s = None \<and> k = (Inr r, s')"
  by (auto simp: fenced_def split: option.splits)

text \<open>The operations that replace the transaction by an updated one.\<close>

lemma fenced_put_tx:
  assumes "\<And>lab f t s. op lab f t s =
      fenced lab f t s (case look lab f s of None \<Rightarrow> (Inl e, s) | Some tx \<Rightarrow> put_tx ok lab (upd tx) s)"
  shows "journalled_op op"
  using assms
  by unfold_locales
    (auto simp: fenced_refuses intro!: quiet_fenced dest!: fenced_Inr intro: put_tx_durable split: option.splits)

interpretation applying: journalled_op "markGenerationApplying ok g" for ok g
  by (rule fenced_put_tx) (rule markGenerationApplying_def)

interpretation applied: journalled_op "markGenerationApplied ok g" for ok g
  by (rule fenced_put_tx) (rule markGenerationApplied_def)

interpretation dirty: journalled_op "recordGenerationDirtyCapture ok g ids" for ok g ids
  by (rule fenced_put_tx) (rule recordGenerationDirtyCapture_def)

interpretation semantic: journalled_op "recordGenerationSemantic ok g ids" for ok g ids
  by (rule fenced_put_tx) (rule recordGenerationSemantic_def)

interpretation touched: journalled_op "recordGenerationTouched ok g ids vnis known" for ok g ids vnis known
  by (rule fenced_put_tx) (rule recordGenerationTouched_def)

interpretation solve: journalled_op "recordGenerationSolveTransition ok g rec" for ok g rec
  by unfold_locales
    (auto simp: recordGenerationSolveTransition_def fenced_refuses intro!: quiet_fenced dest!: fenced_Inr
      intro: put_tx_durable split: option.splits)

interpretation verified: journalled_op "markStateVerified ok g" for ok g
  by unfold_locales
    (auto simp: markStateVerified_def fenced_refuses intro!: quiet_fenced dest!: fenced_Inr
      intro: put_tx_durable split: option.splits if_splits)

lemma prepareGeneration_quiet: "quiet s (snd (prepareGeneration ok previous req lab f t s))"
  by (auto simp: prepareGeneration_def Let_def case_prod_unfold intro!: quiet_fenced
      split: option.splits sum.splits)

interpretation prepare: journalled_op "prepareGeneration ok previous req" for ok previous req
proof unfold_locales
  show "\<exists>e'. prepareGeneration ok previous req lab f t s = (Inl e', s)"
    if "fenceErrorLocked lab f t s = Some e" for lab f t s e
    using that by (auto simp: prepareGeneration_def fenced_refuses split: sum.splits)
  show "persisted s' \<or> s' = s" if "prepareGeneration ok previous req lab f t s = (Inr r, s')" for lab f t s r s'
    using that by (auto simp: prepareGeneration_def Let_def case_prod_unfold dest!: fenced_Inr
        split: option.splits sum.splits if_splits)
qed (rule prepareGeneration_quiet)

lemma finishCommittedGeneration_quiet: "quiet s (snd (finishCommittedGeneration ok oinv g lab f t s))"
  by (auto simp: finishCommittedGeneration_def Let_def case_prod_unfold intro!: quiet_fenced
      split: option.splits)

interpretation commit: journalled_op "finishCommittedGeneration ok oinv g" for ok oinv g
proof unfold_locales
  show "\<exists>e'. finishCommittedGeneration ok oinv g lab f t s = (Inl e', s)"
    if "fenceErrorLocked lab f t s = Some e" for lab f t s e
    using that by (simp add: finishCommittedGeneration_def fenced_refuses)
  show "persisted s' \<or> s' = s" if "finishCommittedGeneration ok oinv g lab f t s = (Inr r, s')" for lab f t s r s'
    using that by (auto simp: finishCommittedGeneration_def Let_def case_prod_unfold dest!: fenced_Inr
        split: option.splits if_splits)
qed (rule finishCommittedGeneration_quiet)

interpretation finalize: journalled_op "finalizeCommittedGeneration ok g" for ok g
  by unfold_locales
    (auto simp: finalizeCommittedGeneration_def Let_def case_prod_unfold fenced_refuses intro!: quiet_fenced
      dest!: fenced_Inr split: option.splits if_splits)

interpretation recovered: journalled_op "finishRecoveredGeneration ok g" for ok g
  by unfold_locales
    (auto simp: finishRecoveredGeneration_def Let_def case_prod_unfold fenced_refuses intro!: quiet_fenced
      dest!: fenced_Inr split: option.splits if_splits)

interpretation destroyed: journalled_op "finishDestroyedLab ok" for ok
proof unfold_locales
  show "\<exists>e'. finishDestroyedLab ok lab f t s = (Inl e', s)"
    if "fenceErrorLocked lab f t s = Some e" for lab f t s e
    using that by (simp add: finishDestroyedLab_def fenced_refuses)
  show "quiet s (snd (finishDestroyedLab ok lab f t s))" for lab f t s
    by (auto simp: finishDestroyedLab_def Let_def case_prod_unfold intro!: quiet_fenced)
  show "persisted s' \<or> s' = s" if "finishDestroyedLab ok lab f t s = (Inr r, s')" for lab f t s r s'
  proof -
    have frame: "persisted (x\<lparr>current := a, modes := b, ungraded := c, peers := d\<rparr>) = persisted x"
      "persisted (forget_repairs lab x) = persisted x" for x a b c d
      by (simp_all add: persisted_def journal_of_def forget_repairs_def split: option.splits)
    show ?thesis
      using that by (auto simp: finishDestroyedLab_def Let_def case_prod_unfold frame dest!: fenced_Inr
          split: if_splits)
  qed
qed

end
