(* ===== verification/Recovery.thy ===== *)
theory Recovery
  imports Generations
begin

text \<open>
  The journalled side of transaction recovery, \<open>internal/agent/recovery.go\<close>: reopening a commit the
  cluster did not complete, starting, heartbeating and failing a recovery, the budgets that bound
  it, the choice of labs to resume, and the comparison of inventories that decides whether a
  recovered lab is what was recorded.

  The container and network work of a recovery is not modelled: it acts on the host between these
  critical sections.  Where an operation reads the clock again after checking the fence, the later
  readings are one argument \<open>t'\<close>.
\<close>

section \<open>Definitions\<close>

subsection \<open>Budgets\<close>

text \<open>The overrides are zero unless a test sets them; \<open>rc_max\<close> is the configured cap.\<close>

record recovery_cfg =
  rc_phase :: duration
  rc_total :: duration
  rc_lease :: duration
  rc_heartbeat :: duration
  rc_max :: duration

definition defaultRecoveryPhaseTimeout :: duration where "defaultRecoveryPhaseTimeout = 90 * second"
definition defaultRecoveryArtifactTimeout :: duration where "defaultRecoveryArtifactTimeout = 4 * minute"
definition recoveryPhaseBaseBudget :: duration where "recoveryPhaseBaseBudget = 45 * second"
definition recoveryRollbackItemBudget :: duration where "recoveryRollbackItemBudget = 12 * second"
definition recoveryDestroyItemBudget :: duration where "recoveryDestroyItemBudget = 12 * second"
definition recoveryVerifyItemBudget :: duration where "recoveryVerifyItemBudget = 4 * second"
definition recoveryHeartbeatEvery :: duration where "recoveryHeartbeatEvery = 10 * second"
definition minimumRecoveryTotalTimeout :: duration where "minimumRecoveryTotalTimeout = 30 * minute"
definition MaximumRecoveryTotalTimeout :: duration where "MaximumRecoveryTotalTimeout = 2 * hour"
definition recoveryTotalSlack :: duration where "recoveryTotalSlack = minute"
definition forwardRecoverySLAMax :: duration where "forwardRecoverySLAMax = 9 * minute + 30 * second"
definition defaultRecoveryLeaseTTL :: duration where "defaultRecoveryLeaseTTL = 90 * second"
definition recoveryRetryBackoff :: duration where "recoveryRetryBackoff = 30 * second"
definition recoveryProgressPersistEvery :: duration where "recoveryProgressPersistEvery = 2 * second"
definition overlayInventorySchema :: int where "overlayInventorySchema = 3"

definition recoveryPhaseLimit :: "recovery_cfg \<Rightarrow> duration" where
  "recoveryPhaseLimit c = (if rc_phase c > 0 then rc_phase c else defaultRecoveryPhaseTimeout)"

definition recoveryLeaseLimit :: "recovery_cfg \<Rightarrow> duration" where
  "recoveryLeaseLimit c = (if rc_lease c > 0 then rc_lease c else defaultRecoveryLeaseTTL)"

definition recoveryArtifactLimit :: "recovery_cfg \<Rightarrow> duration" where
  "recoveryArtifactLimit c = (if rc_phase c > 0 then rc_phase c else defaultRecoveryArtifactTimeout)"

definition recoveryWorkBudget :: "int \<Rightarrow> int \<Rightarrow> duration \<Rightarrow> duration" where
  "recoveryWorkBudget items workers0 perItem =
     (let workers = (if workers0 < 1 then 1 else workers0) in
      if items < 1 then defaultRecoveryPhaseTimeout
      else
        let limit = recoveryPhaseBaseBudget + ((items + workers - 1) div workers) * perItem
        in if limit < defaultRecoveryPhaseTimeout then defaultRecoveryPhaseTimeout else limit)"

text \<open>\<open>items\<close> and \<open>workers\<close> are the node's work set and its limiter's width.\<close>

definition recoveryRollbackBudget :: "recovery_cfg \<Rightarrow> int \<Rightarrow> int \<Rightarrow> applyTransaction \<Rightarrow> duration" where
  "recoveryRollbackBudget c items workers tx =
     (if rc_phase c > 0 then rc_phase c
      else recoveryWorkBudget items workers
             (if raw_empty (tx_previous tx) then recoveryDestroyItemBudget else recoveryRollbackItemBudget))"

definition recoveryVerifyBudget :: "recovery_cfg \<Rightarrow> int \<Rightarrow> int \<Rightarrow> duration" where
  "recoveryVerifyBudget c items workers =
     (if rc_phase c > 0 then rc_phase c else recoveryWorkBudget items workers recoveryVerifyItemBudget)"

definition recoveryRequiredPhaseBudget :: "recovery_cfg \<Rightarrow> int \<Rightarrow> int \<Rightarrow> applyTransaction \<Rightarrow> duration" where
  "recoveryRequiredPhaseBudget c items workers tx =
     recoveryTotalSlack + recoveryRollbackBudget c items workers tx + 2 * recoveryArtifactLimit c
       + 4 * recoveryVerifyBudget c items workers + 2 * recoveryPhaseLimit c"

definition recoveryTotalLimit :: "recovery_cfg \<Rightarrow> int \<Rightarrow> int \<Rightarrow> applyTransaction option \<Rightarrow> duration" where
  "recoveryTotalLimit c items workers otx =
     (if rc_total c > 0 then rc_total c
      else
        let limit = (case otx of
                       None \<Rightarrow> minimumRecoveryTotalTimeout
                     | Some tx \<Rightarrow>
                         let l = recoveryRequiredPhaseBudget c items workers tx
                         in if l < minimumRecoveryTotalTimeout then minimumRecoveryTotalTimeout else l);
            cap0 = (if rc_max c \<le> 0 then MaximumRecoveryTotalTimeout else rc_max c);
            cap1 = (if cap0 < minimumRecoveryTotalTimeout then minimumRecoveryTotalTimeout else cap0);
            cap = (if cap1 > MaximumRecoveryTotalTimeout then MaximumRecoveryTotalTimeout else cap1)
        in if limit > cap then cap else limit)"

definition recoveryRollbackLimit :: "recovery_cfg \<Rightarrow> int \<Rightarrow> int \<Rightarrow> applyTransaction \<Rightarrow> duration" where
  "recoveryRollbackLimit c items workers tx =
     (let limit = recoveryRollbackBudget c items workers tx;
          total = recoveryTotalLimit c items workers (Some tx)
      in if limit > total then total else limit)"

definition recoveryVerifyLimit :: "recovery_cfg \<Rightarrow> int \<Rightarrow> int \<Rightarrow> applyTransaction \<Rightarrow> duration" where
  "recoveryVerifyLimit c items workers tx =
     (let limit = recoveryVerifyBudget c items workers;
          total = recoveryTotalLimit c items workers (Some tx)
      in if limit > total then total else limit)"

definition recoveryHeartbeatInterval :: "recovery_cfg \<Rightarrow> duration" where
  "recoveryHeartbeatInterval c =
     (if rc_heartbeat c > 0 then rc_heartbeat c
      else
        let phase = recoveryPhaseLimit c;
            interval = (if phase > 0 \<and> phase div 3 < recoveryHeartbeatEvery then phase div 3
                        else recoveryHeartbeatEvery)
        in if interval < 1000000 then 1000000 else interval)"

definition forwardRecoveryBudget :: "int \<Rightarrow> int \<Rightarrow> duration" where
  "forwardRecoveryBudget devices workers0 =
     (let workers = (if workers0 < 1 then 1 else workers0);
          limit = 45 * second + ((devices + workers - 1) div workers) * 12 * second;
          limit1 = (if limit < 6 * minute then 6 * minute else limit)
      in if limit1 > forwardRecoverySLAMax then forwardRecoverySLAMax else limit1)"

definition boundedRecoveryPhaseLimit :: "string \<Rightarrow> string \<Rightarrow> duration \<Rightarrow> go_time \<Rightarrow> Server \<Rightarrow> duration" where
  "boundedRecoveryPhaseLimit lab g limit t s =
     (case fmlookup (transactions s) lab of
        None \<Rightarrow> limit
      | Some tx \<Rightarrow>
          if tx_generation tx \<noteq> g \<or> tx_recovery_total tx = 0 then limit
          else
            let remaining = tx_recovery_total tx - t in
            if remaining \<le> 0 then 0
            else if limit \<le> 0 \<or> remaining < limit then remaining else limit)"

definition recoveryProgressDeadline :: "go_time \<Rightarrow> go_time \<Rightarrow> duration \<Rightarrow> go_time" where
  "recoveryProgressDeadline t hardDeadline stall =
     (let deadline = t + stall in
      if hardDeadline \<noteq> 0 \<and> hardDeadline < deadline then hardDeadline else deadline)"

subsection \<open>Journalled transitions\<close>

definition recovery_tx :: "string \<Rightarrow> string \<Rightarrow> Server \<Rightarrow> applyTransaction option" where
  "recovery_tx lab g s =
     (case fmlookup (transactions s) lab of
        None \<Rightarrow> None
      | Some tx \<Rightarrow> if tx_generation tx \<noteq> g then None else Some tx)"

definition recoveredMode :: "applyTransaction \<Rightarrow> Wire \<Rightarrow> string \<times> int" where
  "recoveredMode tx w =
     (if tx_previous_mode tx \<noteq> [] \<or> tx_previous_ungraded tx \<noteq> 0
      then (tx_previous_mode tx, tx_previous_ungraded tx)
      else if wire_mode w \<noteq> [] \<or> wire_ungraded w \<noteq> 0 then (wire_mode w, wire_ungraded w)
      else if tx_mode tx \<noteq> [] then (tx_mode tx, tx_ungraded tx)
      else (ModePlatform, 0))"

definition reopenCommittedTransaction ::
    "bool \<Rightarrow> string \<Rightarrow> string \<Rightarrow> Fence \<Rightarrow> go_time \<Rightarrow> Server
      \<Rightarrow> (agent_error, applyTransaction) result \<times> Server" where
  "reopenCommittedTransaction ok g lab f t s =
     fenced lab f t s
       (case recovery_tx lab g s of
          None \<Rightarrow> (Inl FinalizedGeneration, s)
        | Some tx \<Rightarrow>
            if \<not> tx_committed tx then (Inr tx, s)
            else if inv_containers (tx_prestate tx) \<noteq> [] \<and> \<not> inv_state_safe (tx_prestate tx)
            then (Inl PrestateUnsafe, s)
            else if tx_previous_gen tx = [] \<and> \<not> raw_empty (tx_previous tx)
            then (Inl NoPreviousGeneration, s)
            else
              let state = get_or no_generation (generations s) lab;
                  tx' = tx\<lparr>tx_committed := False, tx_phase := RollbackNeeded,
                    tx_failure := ''cluster split commit: another node did not commit this generation''\<rparr>;
                  s1 = s\<lparr>generations := fmupd lab (state\<lparr>committed := tx_previous_gen tx, prepared := g\<rparr>)
                                          (generations s),
                         transactions := fmupd lab tx' (transactions s)\<rparr>;
                  (saved, s2) = saveCoordinationLocked ok s1
              in if saved then (Inr tx', s2)
                 else (Inl NotPersisted,
                       s2\<lparr>transactions := fmupd lab tx (transactions s2),
                          generations := fmupd lab state (generations s2)\<rparr>))"

definition forwardDataLossScope :: "applyTransaction \<Rightarrow> string list" where
  "forwardDataLossScope tx =
     sort (remdups (map (\<lambda>p. ts_device p @ ''/'' @ ts_kind p)
       (filter (\<lambda>p. ts_device p \<noteq> [] \<and> ts_kind p \<noteq> []) (inv_snapshots (tx_prestate tx)))))"

definition recoveryOwnerLocked :: "string \<Rightarrow> Fence \<Rightarrow> Server \<Rightarrow> string" where
  "recoveryOwnerLocked lab f s =
     (case fmlookup (mutations s) lab of
        None \<Rightarrow> ''recovery''
      | Some l \<Rightarrow>
          if Generation (lease_fence l) = Generation f \<and> Token (lease_fence l) = Token f
          then lease_holder l else ''recovery'')"

definition set_recovery_deadline :: "string \<Rightarrow> go_time \<Rightarrow> Server \<Rightarrow> Server" where
  "set_recovery_deadline lab deadline s =
     (case fmlookup (ops s) lab of
        None \<Rightarrow> s
      | Some held \<Rightarrow>
          if op_kind held = ''recovery''
          then s\<lparr>ops := fmupd lab (held\<lparr>op_deadline := deadline\<rparr>) (ops s)\<rparr> else s)"

definition recovery_active :: "applyTransaction \<Rightarrow> go_time \<Rightarrow> bool" where
  "recovery_active tx t \<longleftrightarrow>
     tx_phase tx = Recovering \<and> tx_recovery_deadline tx \<noteq> 0 \<and> t < tx_recovery_deadline tx"

definition recovery_refusal :: "string \<Rightarrow> bool \<Rightarrow> applyTransaction \<Rightarrow> go_time \<Rightarrow> agent_error option" where
  "recovery_refusal strategy takeover tx t =
     (if recovery_active tx t \<and> tx_recovery_strategy tx \<noteq> [] \<and> tx_recovery_strategy tx \<noteq> strategy
      then Some (OtherStrategyRunning (tx_recovery_strategy tx))
      else if recovery_active tx t \<and> \<not> takeover then Some RecoveryInProgress
      else if tx_phase tx = Recovering \<and> \<not> takeover then Some DeadlineExceeded
      else None)"

definition begin_forward :: "string \<Rightarrow> bool \<Rightarrow> applyTransaction \<Rightarrow> (agent_error, applyTransaction) result" where
  "begin_forward strategy ack tx =
     (if strategy \<noteq> ''forward'' then Inr tx
      else
        let tx1 = (if ack then tx\<lparr>tx_forward_ack := True, tx_forward_loss := forwardDataLossScope tx\<rparr> else tx)
        in if \<not> tx_forward_ack tx1 then Inl ForwardNotAcknowledged else Inr tx1)"

definition beginRecovery ::
    "recovery_cfg \<Rightarrow> bool \<Rightarrow> string \<Rightarrow> go_time \<Rightarrow> bool \<Rightarrow> bool \<Rightarrow> string \<Rightarrow> string \<Rightarrow> Fence \<Rightarrow> go_time
      \<Rightarrow> Server \<Rightarrow> (agent_error, applyTransaction) result \<times> Server" where
  "beginRecovery c ok strategy tot takeover ack g lab f t s =
     fenced lab f t s
       (case recovery_tx lab g s of
          None \<Rightarrow> (Inl NoRecoveryTransaction, s)
        | Some tx \<Rightarrow>
            (case require_modes tx of
               Inl e \<Rightarrow> (Inl e, s)
             | Inr _ \<Rightarrow>
                 (case recovery_refusal strategy takeover tx t of
                    Some e \<Rightarrow> (Inl e, s)
                  | None \<Rightarrow>
                      (case begin_forward strategy ack
                              (tx\<lparr>tx_phase := Recovering, tx_failure := [], tx_attempts := tx_attempts tx + 1,
                                  tx_last_recovery := t, tx_next_recovery := 0,
                                  tx_recovery_owner := recoveryOwnerLocked lab f s,
                                  tx_recovery_strategy := strategy\<rparr>) of
                         Inl e \<Rightarrow> (Inl e, s)
                       | Inr tx1 \<Rightarrow>
                           let tx2 = tx1\<lparr>tx_recovery_started := t, tx_recovery_progress := t,
                                 tx_recovery_deadline := t + recoveryPhaseLimit c,
                                 tx_recovery_total := tot,
                                 tx_recovery_target := ''starting recovery '' @ tx_previous_mode tx1 @ ''/''
                                   @ show_int (tx_previous_ungraded tx1) @ '' -> '' @ tx_mode tx1 @ ''/''
                                   @ show_int (tx_ungraded tx1)\<rparr>;
                               s1 = set_recovery_deadline lab (tx_recovery_deadline tx2)
                                      (s\<lparr>transactions := fmupd lab tx2 (transactions s)\<rparr>);
                               (saved, s2) = saveCoordinationLocked ok s1
                           in if saved then (Inr tx2, s2) else (Inl NotPersisted, s2)))))"

definition markForwardPhase ::
    "bool \<Rightarrow> string \<Rightarrow> go_time \<Rightarrow> string \<Rightarrow> string \<Rightarrow> Fence \<Rightarrow> go_time \<Rightarrow> Server
      \<Rightarrow> (agent_error, unit) result \<times> Server" where
  "markForwardPhase ok phase t' g lab f t s =
     fenced lab f t s
       (case recovery_tx lab g s of
          None \<Rightarrow> (Inl NoRecoveryTransaction, s)
        | Some tx \<Rightarrow>
            put_tx ok lab (tx\<lparr>tx_forward_phase := phase, tx_recovery_progress := t',
              tx_recovery_target := ''forward: '' @ phase\<rparr>) s)"

definition recordForwardDataLoss ::
    "bool \<Rightarrow> string \<Rightarrow> string \<Rightarrow> string \<Rightarrow> Fence \<Rightarrow> go_time \<Rightarrow> Server \<Rightarrow> (agent_error, unit) result \<times> Server" where
  "recordForwardDataLoss ok detail g lab f t s =
     fenced lab f t s
       (case recovery_tx lab g s of
          None \<Rightarrow> (Inl NoRecoveryTransaction, s)
        | Some tx \<Rightarrow>
            put_tx ok lab
              (if detail \<noteq> [] then tx\<lparr>tx_forward_loss := sort (tx_forward_loss tx @ [detail])\<rparr> else tx) s)"

definition recordRecoveryProgress ::
    "bool \<Rightarrow> string \<Rightarrow> go_time \<Rightarrow> bool \<Rightarrow> string \<Rightarrow> string \<Rightarrow> Fence \<Rightarrow> go_time \<Rightarrow> Server
      \<Rightarrow> (agent_error, unit) result \<times> Server" where
  "recordRecoveryProgress ok target deadline force g lab f t s =
     fenced lab f t s
       (case recovery_tx lab g s of
          None \<Rightarrow> (Inl NoRecoveryTransaction, s)
        | Some tx \<Rightarrow>
            let persist = (force \<or> tx_recovery_progress tx = 0
                  \<or> t - tx_recovery_progress tx \<ge> recoveryProgressPersistEvery
                  \<or> tx_recovery_deadline tx = 0
                  \<or> deadline > tx_recovery_deadline tx + recoveryProgressPersistEvery);
                tx' = tx\<lparr>tx_recovery_target := target,
                  tx_recovery_progress := (if tx_recovery_progress tx > t then tx_recovery_progress tx else t),
                  tx_recovery_deadline := deadline\<rparr>;
                s1 = set_recovery_deadline lab deadline (s\<lparr>transactions := fmupd lab tx' (transactions s)\<rparr>);
                (saved, s2) = (if persist then saveCoordinationLocked ok s1 else (True, s1))
            in if saved then (Inr (), s2) else (Inl NotPersisted, s2))"

definition heartbeatRecoveryProgress ::
    "recovery_cfg \<Rightarrow> bool \<Rightarrow> go_time \<Rightarrow> string \<Rightarrow> string \<Rightarrow> Fence \<Rightarrow> go_time \<Rightarrow> Server
      \<Rightarrow> (agent_error, unit) result \<times> Server" where
  "heartbeatRecoveryProgress c ok hard g lab f t s =
     fenced lab f t s
       (case fmlookup (transactions s) lab of
          None \<Rightarrow> (Inr (), s)
        | Some tx \<Rightarrow>
            if tx_generation tx \<noteq> g then (Inl NoRecoveryTransaction, s)
            else
              let deadline = recoveryProgressDeadline t hard (recoveryPhaseLimit c);
                  tx' = tx\<lparr>tx_recovery_progress := (if tx_recovery_progress tx > t then tx_recovery_progress tx else t),
                    tx_recovery_deadline := deadline\<rparr>;
                  s1 = set_recovery_deadline lab deadline (s\<lparr>transactions := fmupd lab tx' (transactions s)\<rparr>);
                  (saved, s2) = saveCoordinationLocked ok s1
              in if saved then (Inr (), s2) else (Inl NotPersisted, s2))"

definition mark_phase :: "transactionPhase \<Rightarrow> string \<Rightarrow> go_time \<Rightarrow> applyTransaction \<Rightarrow> applyTransaction" where
  "mark_phase phase failure t' tx =
     (let tx1 = tx\<lparr>tx_phase := phase, tx_failure := failure\<rparr>;
          tx2 = (if phase = Recovering
                 then tx1\<lparr>tx_attempts := tx_attempts tx1 + 1, tx_last_recovery := t', tx_next_recovery := 0\<rparr>
                 else tx1);
          tx3 = (if phase = RollbackFailed
                 then tx2\<lparr>tx_next_recovery := t' + recoveryRetryBackoff, tx_recovery_progress := t',
                        tx_recovery_target := ''failed''\<rparr>
                 else tx2)
      in if phase = Committed
         then tx3\<lparr>tx_recovery_progress := t', tx_recovery_target := ''committed''\<rparr> else tx3)"

definition markTransactionPhase ::
    "bool \<Rightarrow> transactionPhase \<Rightarrow> string \<Rightarrow> go_time \<Rightarrow> string \<Rightarrow> string \<Rightarrow> Fence \<Rightarrow> go_time \<Rightarrow> Server
      \<Rightarrow> (agent_error, unit) result \<times> Server" where
  "markTransactionPhase ok phase failure t' g lab f t s =
     fenced lab f t s
       (case recovery_tx lab g s of
          None \<Rightarrow> (Inl NoRecoveryTransaction, s)
        | Some tx \<Rightarrow> put_tx ok lab (mark_phase phase failure t' tx) s)"

definition resumable :: "go_time \<Rightarrow> Server \<Rightarrow> string \<Rightarrow> applyTransaction \<Rightarrow> bool" where
  "resumable t s lab tx \<longleftrightarrow>
     \<not> tx_committed tx
     \<and> \<not> (tx_phase tx = Recovering \<and> fmlookup (ops s) lab \<noteq> None)
     \<and> \<not> (case fmlookup (mutations s) lab of None \<Rightarrow> False | Some l \<Rightarrow> t < lease_until l)
     \<and> \<not> (tx_next_recovery tx \<noteq> 0 \<and> t < tx_next_recovery tx)"

definition resumeRecoveries :: "go_time \<Rightarrow> Server \<Rightarrow> string list" where
  "resumeRecoveries t s = fm_keys (fm_keep (resumable t s) (transactions s))"

definition ordinaryMaintenanceSuppression :: "string \<Rightarrow> Server \<Rightarrow> (string \<times> transactionPhase) option" where
  "ordinaryMaintenanceSuppression lab s =
     (if lab = [] then None
      else map_option (\<lambda>tx. (tx_generation tx, tx_phase tx)) (fmlookup (transactions s) lab))"

subsection \<open>Inventories\<close>

definition expectedObjectGeneration ::
    "applyTransaction \<Rightarrow> string \<Rightarrow> string \<Rightarrow> string
      \<Rightarrow> (string, transactionContainer) fmap \<Rightarrow> (string, transactionContainer) fmap
      \<Rightarrow> (agent_error, string) result" where
  "expectedObjectGeneration tx device name spec prestate observed =
     (if device \<in> set (tx_touched tx) then Inr (tx_generation tx)
      else if tx_touched_known tx
      then (case fmlookup prestate device of
              None \<Rightarrow> Inl InventoryMismatch
            | Some before \<Rightarrow>
                if tc_name before \<noteq> name \<or> tc_spec before \<noteq> spec then Inl InventoryMismatch
                else Inr (tc_generation before))
      else
        (case fmlookup observed device of
           Some prior \<Rightarrow>
             if tc_name prior = name \<and> tc_spec prior = spec then Inr (tc_generation prior)
             else (case fmlookup prestate device of
                     Some before \<Rightarrow>
                       if tc_name before = name \<and> tc_spec before = spec then Inr (tc_generation before)
                       else Inr (tx_generation tx)
                   | None \<Rightarrow> Inr (tx_generation tx))
         | None \<Rightarrow>
             (case fmlookup prestate device of
                Some before \<Rightarrow>
                  if tc_name before = name \<and> tc_spec before = spec then Inr (tc_generation before)
                  else Inr (tx_generation tx)
              | None \<Rightarrow> Inr (tx_generation tx))))"

definition Joinable :: "string \<Rightarrow> bool" where
  "Joinable st \<longleftrightarrow> st = ''running'' \<or> st = ''paused''"

definition container_matches :: "transactionContainer \<Rightarrow> transactionContainer \<Rightarrow> bool" where
  "container_matches a b \<longleftrightarrow>
     tc_name a = tc_name b \<and> tc_device a = tc_device b \<and> tc_spec a = tc_spec b
     \<and> (tc_generation a = tc_generation b \<or> tc_generation a = [] \<or> tc_generation b = [])
     \<and> (tc_state a = ''running'' \<longrightarrow> Joinable (tc_state b))"

definition binding_matches :: "LogicalBinding \<Rightarrow> LogicalBinding \<Rightarrow> bool" where
  "binding_matches a b \<longleftrightarrow>
     lb_vni a = lb_vni b \<and> lb_vlan a = lb_vlan b \<and> lb_peer a = lb_peer b \<and> lb_mtu a = lb_mtu b
     \<and> lb_port a = lb_port b \<and> lb_nodeA a = lb_nodeA b \<and> lb_nodeB a = lb_nodeB b"

definition trunk_matches :: "PhysicalTrunk \<Rightarrow> PhysicalTrunk \<Rightarrow> bool" where
  "trunk_matches a b \<longleftrightarrow>
     pt_nodeA a = pt_nodeA b \<and> pt_nodeB a = pt_nodeB b \<and> pt_mtu a = pt_mtu b \<and> pt_port a = pt_port b"

definition nonLegacyTrunks :: "PhysicalTrunk list \<Rightarrow> PhysicalTrunk list" where
  "nonLegacyTrunks ts =
     sort_key (\<lambda>x. [pt_nodeA x, pt_nodeB x, pt_vxlan x]) (filter (\<lambda>x. \<not> pt_legacy x) ts)"

definition overlayInventoryMatches :: "transactionInventory \<Rightarrow> transactionInventory \<Rightarrow> bool" where
  "overlayInventoryMatches want got \<longleftrightarrow>
     list_all2 binding_matches (inv_bindings want) (inv_bindings got)
     \<and> list_all2 trunk_matches (nonLegacyTrunks (inv_trunks want)) (nonLegacyTrunks (inv_trunks got))"

definition inventoryMatches :: "transactionInventory \<Rightarrow> transactionInventory \<Rightarrow> bool" where
  "inventoryMatches want got \<longleftrightarrow>
     list_all2 container_matches (inv_containers want) (inv_containers got)
     \<and> (if inv_schema want \<ge> overlayInventorySchema \<and> inv_schema got \<ge> overlayInventorySchema
        then overlayInventoryMatches want got
        else inv_vnis want = inv_vnis got)"

definition inventoryMatchesCommitted :: "transactionInventory \<Rightarrow> transactionInventory \<Rightarrow> bool" where
  "inventoryMatchesCommitted want got \<longleftrightarrow>
     inventoryMatches want got
     \<and> list_all2 (\<lambda>a b. tc_generation a = tc_generation b) (inv_containers want) (inv_containers got)"

definition allowed_generations :: "string \<Rightarrow> string \<Rightarrow> Server \<Rightarrow> string list" where
  "allowed_generations lab cur s =
     (let state = get_or no_generation (generations s) lab in cur # committed state # ancestors state)"

definition validateInventoryLineage ::
    "string \<Rightarrow> transactionInventory \<Rightarrow> string \<Rightarrow> Server \<Rightarrow> (agent_error, unit) result" where
  "validateInventoryLineage lab iv cur s =
     (let allowed = allowed_generations lab cur s;
          lineage = get_or fmempty (overlayLineage s) lab
      in case filter (\<lambda>c. tc_generation c \<noteq> [] \<and> tc_generation c \<notin> set allowed) (inv_containers iv) of
           c # _ \<Rightarrow> Inl (UnrelatedGeneration (tc_generation c))
         | [] \<Rightarrow>
             (case filter (\<lambda>v. get_or [] lineage v \<noteq> [] \<and> get_or [] lineage v \<notin> set allowed) (inv_vnis iv) of
                v # _ \<Rightarrow> Inl (UnrelatedGeneration (get_or [] lineage v))
              | [] \<Rightarrow> Inr ()))"

section \<open>Frames\<close>

lemma quiet_set_recovery_deadline [simp]: "quiet s (set_recovery_deadline lab d s') = quiet s s'"
  by (auto simp: set_recovery_deadline_def split: option.splits)

interpretation reopen: journalled_op "reopenCommittedTransaction ok g" for ok g
  by unfold_locales
    (auto simp: reopenCommittedTransaction_def Let_def case_prod_unfold fenced_refuses intro!: quiet_fenced
      dest!: fenced_Inr split: option.splits if_splits)

lemma beginRecovery_quiet: "quiet s (snd (beginRecovery c ok strategy tot takeover ack g lab f t s))"
  by (auto simp: beginRecovery_def Let_def case_prod_unfold intro!: quiet_fenced split: option.splits sum.splits)

interpretation started: journalled_op "beginRecovery c ok strategy tot takeover ack g"
  for c ok strategy tot takeover ack g
proof unfold_locales
  show "\<exists>e'. beginRecovery c ok strategy tot takeover ack g lab f t s = (Inl e', s)"
    if "fenceErrorLocked lab f t s = Some e" for lab f t s e
    using that by (simp add: beginRecovery_def fenced_refuses)
  show "persisted s' \<or> s' = s"
    if "beginRecovery c ok strategy tot takeover ack g lab f t s = (Inr r, s')" for lab f t s r s'
    using that by (auto simp: beginRecovery_def Let_def case_prod_unfold dest!: fenced_Inr
        split: option.splits sum.splits if_splits)
qed (rule beginRecovery_quiet)

interpretation forward: journalled_op "markForwardPhase ok phase t' g" for ok phase t' g
  by (rule fenced_put_tx) (rule markForwardPhase_def)

interpretation loss: journalled_op "recordForwardDataLoss ok detail g" for ok detail g
  by (rule fenced_put_tx) (rule recordForwardDataLoss_def)

interpretation phase: journalled_op "markTransactionPhase ok phase failure t' g" for ok phase failure t' g
  by (rule fenced_put_tx) (rule markTransactionPhase_def)

interpretation progress: fenced_op "recordRecoveryProgress ok target deadline force g"
  for ok target deadline force g
  by unfold_locales
    (auto simp: recordRecoveryProgress_def Let_def case_prod_unfold fenced_refuses intro!: quiet_fenced
      split: option.splits)

interpretation heartbeat: journalled_op "heartbeatRecoveryProgress c ok hard g" for c ok hard g
  by unfold_locales
    (auto simp: heartbeatRecoveryProgress_def Let_def case_prod_unfold fenced_refuses intro!: quiet_fenced
      dest!: fenced_Inr split: option.splits if_splits)

section \<open>Budgets\<close>

lemmas budget_defs = minimumRecoveryTotalTimeout_def MaximumRecoveryTotalTimeout_def
  defaultRecoveryPhaseTimeout_def defaultRecoveryArtifactTimeout_def recoveryPhaseBaseBudget_def
  recoveryRollbackItemBudget_def recoveryDestroyItemBudget_def recoveryVerifyItemBudget_def
  recoveryTotalSlack_def forwardRecoverySLAMax_def hour_def minute_def second_def

lemma recoveryTotalLimit_bounds:
  assumes "rc_total c \<le> 0"
  shows "30 * minute \<le> recoveryTotalLimit c items workers otx"
    "recoveryTotalLimit c items workers otx \<le> 2 * hour"
  using assms by (auto simp: recoveryTotalLimit_def Let_def budget_defs split: option.splits)

end
