(* ===== verification/Holds.thy ===== *)
theory Holds
  imports Agent_State
begin

text \<open>
  Grading holds and repair exemptions, \<open>internal/agent/hold.go\<close> and \<open>internal/agent/exempt.go\<close>: a
  hold keeps the repair loop, interactive access and other mutations away from a lab for a bounded
  time, and an exemption marks a device as broken on purpose.

  \<open>applyHold\<close> reads the clock for the conflict check, for the new deadline and while persisting;
  those are the arguments \<open>t1\<close>, \<open>t2\<close> and \<open>t3\<close>.
\<close>

section \<open>Definitions\<close>

record HoldRequest =
  hr_lab :: string
  hr_holder :: string
  hr_seconds :: int
  hr_token :: string

definition maxHoldSeconds :: int where "maxHoldSeconds = 600"

definition saveHoldsLocked :: "bool \<Rightarrow> string \<Rightarrow> go_time \<Rightarrow> Server \<Rightarrow> bool \<times> Server" where
  "saveHoldsLocked ok lab t s =
     (case store s of
        None \<Rightarrow> (True, s)
      | Some st \<Rightarrow>
          let s1 = (case fmlookup (holds s) lab of
                      None \<Rightarrow> s
                    | Some h \<Rightarrow> if \<not> t < hold_until h then s\<lparr>holds := fmdrop lab (holds s)\<rparr> else s)
          in if ok
             then (True, s1\<lparr>store := Some (st\<lparr>st_holds := fmupd lab (fmlookup (holds s1) lab) (st_holds st)\<rparr>)\<rparr>)
             else (False, s1))"

definition hold_conflict :: "HoldRequest \<Rightarrow> go_time \<Rightarrow> Server \<Rightarrow> hold option" where
  "hold_conflict req t s =
     (case fmlookup (holds s) (hr_lab req) of
        None \<Rightarrow> None
      | Some cur \<Rightarrow>
          if t < hold_until cur \<and> hold_token cur \<noteq> [] \<and> hold_token cur \<noteq> hr_token req
          then Some cur else None)"

definition applyHold ::
    "bool \<Rightarrow> HoldRequest \<Rightarrow> go_time \<Rightarrow> go_time \<Rightarrow> go_time \<Rightarrow> Server
      \<Rightarrow> (agent_error, unit) result \<times> Server" where
  "applyHold ok req t1 t2 t3 s =
     (let seconds = (if hr_seconds req > maxHoldSeconds then maxHoldSeconds else hr_seconds req);
          lab = hr_lab req
      in case hold_conflict req t1 s of
           Some cur \<Rightarrow> (Inl (HeldByOther (hold_holder cur)), s)
         | None \<Rightarrow>
             let previous = fmlookup (holds s) lab;
                 s1 = (if seconds \<le> 0 then s\<lparr>holds := fmdrop lab (holds s)\<rparr>
                       else s\<lparr>holds := fmupd lab \<lparr>hold_holder = hr_holder req, hold_token = hr_token req,
                                                  hold_until = t2 + seconds * second\<rparr> (holds s)\<rparr>);
                 (saved, s2) = saveHoldsLocked ok lab t3 s1
             in if saved then (Inr (), s2)
                else (Inl NotPersisted,
                      s2\<lparr>holds := (case previous of None \<Rightarrow> fmdrop lab (holds s2)
                                                  | Some h \<Rightarrow> fmupd lab h (holds s2))\<rparr>))"

definition loadHolds :: "string \<Rightarrow> go_time \<Rightarrow> Server \<Rightarrow> Server" where
  "loadHolds lab t s =
     (case store s of
        None \<Rightarrow> s
      | Some st \<Rightarrow>
          (case fmlookup (st_holds st) lab of
             None \<Rightarrow> s
           | Some None \<Rightarrow> s\<lparr>holds := fmdrop lab (holds s)\<rparr>
           | Some (Some h) \<Rightarrow>
               if \<not> t < hold_until h then s\<lparr>holds := fmdrop lab (holds s)\<rparr>
               else s\<lparr>holds := fmupd lab h (holds s)\<rparr>))"

text \<open>The readers drop a hold once the clock is past its end.\<close>

definition live_hold :: "string \<Rightarrow> go_time \<Rightarrow> Server \<Rightarrow> hold option \<times> Server" where
  "live_hold lab t s =
     (case fmlookup (holds s) lab of
        None \<Rightarrow> (None, s)
      | Some h \<Rightarrow> if t > hold_until h then (None, s\<lparr>holds := fmdrop lab (holds s)\<rparr>) else (Some h, s))"

definition heldBy :: "string \<Rightarrow> go_time \<Rightarrow> Server \<Rightarrow> string \<times> Server" where
  "heldBy lab t s =
     (case live_hold lab t s of
        (None, s1) \<Rightarrow> ([], s1)
      | (Some h, s1) \<Rightarrow> (if hold_holder h = [] then ''an external operation'' else hold_holder h, s1))"

definition longer_match :: "string \<Rightarrow> string \<Rightarrow> string \<Rightarrow> string" where
  "longer_match rest lab best =
     (if has_prefix rest (lab @ ''-'') \<and> length lab > length best then lab else best)"

definition labOfContainer :: "string \<Rightarrow> Server \<Rightarrow> string" where
  "labOfContainer name s =
     (if \<not> has_prefix name ''twinet-'' then []
      else fold (longer_match (drop (length ''twinet-'') name)) (fm_keys (current s)) [])"

definition refused_by :: "string \<Rightarrow> hold option \<Rightarrow> string option" where
  "refused_by token oh =
     (case oh of
        None \<Rightarrow> None
      | Some h \<Rightarrow> if hold_token h = [] \<or> hold_token h = token then None else Some (hold_holder h))"

text \<open>\<open>Some\<close> names the holder the refusal speaks of.\<close>

definition refuseMutationIfHeld :: "string \<Rightarrow> string \<Rightarrow> go_time \<Rightarrow> Server \<Rightarrow> string option \<times> Server" where
  "refuseMutationIfHeld lab token t s =
     (if lab = [] then (None, s)
      else (case live_hold lab t s of (oh, s1) \<Rightarrow> (refused_by token oh, s1)))"

definition refuseIfHeldByAnother :: "string \<Rightarrow> string \<Rightarrow> go_time \<Rightarrow> Server \<Rightarrow> string option \<times> Server" where
  "refuseIfHeldByAnother container token t s =
     (let lab = labOfContainer container s in
      if lab = [] then (None, s)
      else (case live_hold lab t s of (oh, s1) \<Rightarrow> (refused_by token oh, s1)))"

subsection \<open>Exemptions\<close>

record ExemptRequest =
  er_lab :: string
  er_device :: string
  er_id :: string
  er_on :: bool

definition kept_ids :: "ExemptRequest \<Rightarrow> string list \<Rightarrow> string list" where
  "kept_ids req ids =
     (let kept = (if er_on req then ids else filter (\<lambda>i. i \<noteq> er_id req) ids)
      in sort (if er_on req \<and> er_id req \<notin> set ids then kept @ [er_id req] else kept))"

definition saveExemptLocked :: "bool \<Rightarrow> string \<Rightarrow> Server \<Rightarrow> bool \<times> Server" where
  "saveExemptLocked ok lab s =
     (case store s of
        None \<Rightarrow> (True, s)
      | Some st \<Rightarrow>
          if ok
          then (True, s\<lparr>store := Some (st\<lparr>st_exempt := fmupd lab (get_or fmempty (exempt s) lab) (st_exempt st)\<rparr>)\<rparr>)
          else (False, s))"

definition setExempt :: "bool \<Rightarrow> ExemptRequest \<Rightarrow> Server \<Rightarrow> (agent_error, unit) result \<times> Server" where
  "setExempt ok req s =
     (let ex = get_or fmempty (exempt s) (er_lab req);
          kept = kept_ids req (get_or [] ex (er_device req));
          ex' = (if kept = [] then fmdrop (er_device req) ex else fmupd (er_device req) kept ex);
          (saved, s1) = saveExemptLocked ok (er_lab req) (s\<lparr>exempt := fmupd (er_lab req) ex' (exempt s)\<rparr>)
      in if saved then (Inr (), s1) else (Inl NotPersisted, s1))"

definition loadExemptions :: "string \<Rightarrow> Server \<Rightarrow> Server" where
  "loadExemptions lab s =
     (case store s of
        None \<Rightarrow> s
      | Some st \<Rightarrow>
          (case fmlookup (st_exempt st) lab of
             None \<Rightarrow> s
           | Some ex \<Rightarrow> s\<lparr>exempt := fmupd lab ex (exempt s)\<rparr>))"

definition isExempt :: "string \<Rightarrow> string \<Rightarrow> Server \<Rightarrow> bool" where
  "isExempt lab device s \<longleftrightarrow> get_or [] (get_or fmempty (exempt s) lab) device \<noteq> []"

end
