(* ===== verification/Operations.thy ===== *)
theory Operations
  imports Agent_State
begin

text \<open>
  The per-lab operation lease inside one agent process, \<open>internal/agent/agent.go\<close>: at most one
  local operation runs on a lab, a forced or recovering caller may cancel a cancellable one and
  waits for it to unwind, and an operation can only release itself.

  A caller that waits re-checks under the lock, so each round of its loop is one attempt here; a
  round that has to wait reports the kind it cancelled.
\<close>

section \<open>Definitions\<close>

datatype attempt = Acquired "64 word" | Refused agent_error | MustWait string

definition start_operation :: "string \<Rightarrow> op_lease \<Rightarrow> Server \<Rightarrow> 64 word \<times> Server" where
  "start_operation lab l s =
     (let n = opSequence s + 1
      in (n, s\<lparr>opSequence := n, ops := fmupd lab (l\<lparr>op_id := n\<rparr>) (ops s)\<rparr>))"

definition acquireOperation ::
    "string \<Rightarrow> string \<Rightarrow> bool \<Rightarrow> go_time \<Rightarrow> Server \<Rightarrow> (agent_error, 64 word) result \<times> Server" where
  "acquireOperation lab kind cancellable t s =
     (if lab = [] then (Inl LabNameRequired, s)
      else (case fmlookup (ops s) lab of
              Some held \<Rightarrow> (Inl (OperationRunning (op_kind held)), s)
            | None \<Rightarrow>
                let (n, s1) = start_operation lab
                      \<lparr>op_id = 0, op_kind = kind, op_at = t, op_deadline = 0, op_cancellable = cancellable\<rparr> s
                in (Inr n, s1)))"

definition stale_recovery :: "op_lease \<Rightarrow> go_time \<Rightarrow> bool" where
  "stale_recovery held t \<longleftrightarrow>
     op_kind held = ''recovery'' \<and> op_deadline held \<noteq> 0 \<and> \<not> t < op_deadline held"

definition preemptible :: "bool \<Rightarrow> op_lease \<Rightarrow> go_time \<Rightarrow> bool" where
  "preemptible preemptStale held t \<longleftrightarrow>
     op_cancellable held
     \<and> (op_kind held = ''reconcile'' \<or> op_kind held = ''apply'' \<or> (preemptStale \<and> stale_recovery held t))"

definition acquireForcedOperation ::
    "string \<Rightarrow> string \<Rightarrow> bool \<Rightarrow> go_time \<Rightarrow> Server \<Rightarrow> attempt \<times> Server" where
  "acquireForcedOperation lab kind preemptStale t s =
     (if lab = [] then (Refused LabNameRequired, s)
      else (case fmlookup (ops s) lab of
              None \<Rightarrow>
                let (n, s1) = start_operation lab
                      \<lparr>op_id = 0, op_kind = kind, op_at = t, op_deadline = 0, op_cancellable = False\<rparr> s
                in (Acquired n, s1)
            | Some held \<Rightarrow>
                if preemptible preemptStale held t then (MustWait (op_kind held), s)
                else (Refused (OperationRunning (op_kind held)), s)))"

definition acquireRecoveryOperation ::
    "string \<Rightarrow> go_time \<Rightarrow> bool \<Rightarrow> go_time \<Rightarrow> Server \<Rightarrow> attempt \<times> Server" where
  "acquireRecoveryOperation lab deadline takeover t s =
     (if lab = [] then (Refused LabNameRequired, s)
      else (case fmlookup (ops s) lab of
              None \<Rightarrow>
                let (n, s1) = start_operation lab
                      \<lparr>op_id = 0, op_kind = ''recovery'', op_at = t, op_deadline = deadline, op_cancellable = True\<rparr> s
                in (Acquired n, s1)
            | Some held \<Rightarrow>
                if preemptible takeover held t then (MustWait (op_kind held), s)
                else (Refused (OperationRunning (op_kind held)), s)))"

definition releaseOperation :: "string \<Rightarrow> 64 word \<Rightarrow> Server \<Rightarrow> Server" where
  "releaseOperation lab n s =
     (case fmlookup (ops s) lab of
        None \<Rightarrow> s
      | Some held \<Rightarrow> if op_id held = n then s\<lparr>ops := fmdrop lab (ops s)\<rparr> else s)"

definition release_lab :: "string \<Rightarrow> Server \<Rightarrow> Server" where
  "release_lab lab s = s\<lparr>ops := fmdrop lab (ops s)\<rparr>"

section \<open>Properties\<close>

lemma start_operation_simps [simp]:
  "fst (start_operation lab l s) = opSequence s + 1"
  "opSequence (snd (start_operation lab l s)) = opSequence s + 1"
  "ops (snd (start_operation lab l s)) = fmupd lab (l\<lparr>op_id := opSequence s + 1\<rparr>) (ops s)"
  by (simp_all add: start_operation_def Let_def)

text \<open>Every recorded operation carries an identifier already handed out, and no two labs share
  one.  It holds until the 64-bit counter wraps.\<close>

definition ops_inv :: "Server \<Rightarrow> bool" where
  "ops_inv s \<longleftrightarrow>
     (\<forall>lab l. fmlookup (ops s) lab = Some l \<longrightarrow> 0 < op_id l \<and> op_id l \<le> opSequence s) \<and>
     (\<forall>lab lab' l l'. fmlookup (ops s) lab = Some l \<longrightarrow> fmlookup (ops s) lab' = Some l' \<longrightarrow>
        op_id l = op_id l' \<longrightarrow> lab = lab')"

lemma word_succ_greater:
  assumes "(w :: 64 word) \<noteq> -1" "x \<le> w"
  shows "x < w + 1"
proof -
  have "1 + w \<noteq> 0"
    using assms(1) by (metis add_eq_0_iff)
  then have "unat (w + 1) = Suc (unat w)"
    using unatSuc [of w] by (simp add: add.commute)
  then show ?thesis
    using assms(2) by (simp add: word_less_nat_alt word_le_nat_alt)
qed

lemma ops_inv_start:
  assumes "ops_inv s" "opSequence s \<noteq> -1"
  shows "ops_inv (snd (start_operation lab l s))"
proof -
  have new: "x < opSequence s + 1" if "x \<le> opSequence s" for x
    using word_succ_greater [OF assms(2) that] .
  have "0 < opSequence s + 1"
    using new [of 0] by simp
  moreover have "op_id k < opSequence s + 1" if "fmlookup (ops s) j = Some k" for j k
    using assms(1) that new by (auto simp: ops_inv_def)
  ultimately show ?thesis
    using assms(1) unfolding ops_inv_def start_operation_simps
    by (fastforce split: if_splits)
qed

lemma acquireOperation_cases [guards]:
  obtains (ok) "lab \<noteq> []" "fmlookup (ops s) lab = None"
      "acquireOperation lab kind c t s =
        (let (n, s1) = start_operation lab
            \<lparr>op_id = 0, op_kind = kind, op_at = t, op_deadline = 0, op_cancellable = c\<rparr> s in (Inr n, s1))"
  | (bad) e where "acquireOperation lab kind c t s = (Inl e, s)"
  by (cases "lab = []"; cases "fmlookup (ops s) lab") (auto simp: acquireOperation_def)

end
