(* ===== verification/Lifetimes.thy ===== *)
theory Lifetimes
  imports Journal Recovery Holds Operations
begin

text \<open>
  Bounded lifetimes of disposable labs, \<open>internal/agent/ephemeral.go\<close>: a lease is created by a
  deployment, renewed by heartbeats, capped by an absolute ceiling from the first deployment, and
  reclaimed by the node once it has expired.
\<close>

section \<open>Definitions\<close>

definition defaultEphemeralTTLSeconds :: int where "defaultEphemeralTTLSeconds = 900"
definition maxEphemeralTTLSeconds :: int where "maxEphemeralTTLSeconds = 3600"
definition ephemeralRestartGrace :: duration where "ephemeralRestartGrace = 15 * minute"

record EphemeralRequest =
  ep_lab :: string
  ep_owner :: string
  ep_ttl :: int
  ep_release :: bool

record EphemeralResponse =
  es_lab :: string
  es_ephemeral :: bool
  es_owner :: string
  es_ttl :: int
  es_expires :: go_time
  es_hard :: go_time

definition eph_deadline :: "ephemeralLease \<Rightarrow> go_time" where
  "eph_deadline l = (if eph_hard l \<noteq> 0 \<and> eph_hard l < eph_expires l then eph_hard l else eph_expires l)"

definition eph_expired :: "ephemeralLease \<Rightarrow> go_time \<Rightarrow> bool" where
  "eph_expired l t \<longleftrightarrow> eph_deadline l \<noteq> 0 \<and> \<not> t < eph_deadline l"

definition clampEphemeralSeconds :: "int \<Rightarrow> int" where
  "clampEphemeralSeconds seconds0 =
     (let seconds = (if seconds0 \<le> 0 then defaultEphemeralTTLSeconds else seconds0)
      in if seconds > maxEphemeralTTLSeconds then maxEphemeralTTLSeconds else seconds)"

definition clampEphemeralTTL :: "int \<Rightarrow> duration" where
  "clampEphemeralTTL seconds = clampEphemeralSeconds seconds * second"

definition noteEphemeralLease ::
    "bool \<Rightarrow> string \<Rightarrow> string \<Rightarrow> int \<Rightarrow> string \<Rightarrow> go_time \<Rightarrow> Server \<Rightarrow> (agent_error, unit) result \<times> Server" where
  "noteEphemeralLease ok lab owner ttlSeconds g t s =
     (if lab = [] then (Inl LabNameRequired, s)
      else
        let ttl = clampEphemeralTTL ttlSeconds;
            previous = fmlookup (ephemeral s) lab;
            l0 = \<lparr>eph_lab = lab, eph_owner = owner, eph_ttl = ttl div second, eph_generation = g,
                  eph_created = t, eph_expires = t + ttl, eph_hard = t + maxEphemeralLifetime,
                  eph_restored = False\<rparr>;
            l = (case previous of
                   Some p \<Rightarrow> if eph_created p \<noteq> 0 \<and> eph_hard p \<noteq> 0
                             then l0\<lparr>eph_created := eph_created p, eph_hard := eph_hard p\<rparr> else l0
                 | None \<Rightarrow> l0);
            (saved, s1) = saveCoordinationLocked ok (s\<lparr>ephemeral := fmupd lab l (ephemeral s)\<rparr>)
        in if saved then (Inr (), s1)
           else (Inl NotPersisted,
                 s1\<lparr>ephemeral := (case previous of Some p \<Rightarrow> fmupd lab p (ephemeral s1)
                                                 | None \<Rightarrow> fmdrop lab (ephemeral s1))\<rparr>))"

definition renewed_lease :: "int \<Rightarrow> go_time \<Rightarrow> ephemeralLease \<Rightarrow> ephemeralLease" where
  "renewed_lease ttlSeconds t l =
     (let ttl = (if ttlSeconds \<le> 0 \<and> eph_ttl l > 0 then clampEphemeralTTL (eph_ttl l)
                 else clampEphemeralTTL ttlSeconds);
          expires = t + ttl
      in l\<lparr>eph_ttl := ttl div second,
           eph_expires := (if eph_hard l \<noteq> 0 \<and> expires > eph_hard l then eph_hard l else expires),
           eph_restored := False\<rparr>)"

definition renewEphemeralLease ::
    "bool \<Rightarrow> EphemeralRequest \<Rightarrow> go_time \<Rightarrow> Server \<Rightarrow> (agent_error, EphemeralResponse) result \<times> Server" where
  "renewEphemeralLease ok req t s =
     (let lab = ep_lab req in
      if lab = [] then (Inl LabNameRequired, s)
      else (case fmlookup (ephemeral s) lab of
              None \<Rightarrow> (Inl NotEphemeral, s)
            | Some l \<Rightarrow>
                if eph_owner l \<noteq> [] \<and> ep_owner req \<noteq> [] \<and> eph_owner l \<noteq> ep_owner req
                then (Inl (HeldByOther (eph_owner l)), s)
                else if ep_release req
                then (let (saved, s1) = saveCoordinationLocked ok (s\<lparr>ephemeral := fmdrop lab (ephemeral s)\<rparr>)
                      in if saved
                         then (Inr \<lparr>es_lab = lab, es_ephemeral = False, es_owner = [], es_ttl = 0,
                                    es_expires = 0, es_hard = 0\<rparr>, s1)
                         else (Inl NotPersisted, s1\<lparr>ephemeral := fmupd lab l (ephemeral s1)\<rparr>))
                else if eph_expired l t then (Inl EphemeralExpired, s)
                else
                  let l' = renewed_lease (ep_ttl req) t l;
                      (saved, s1) = saveCoordinationLocked ok (s\<lparr>ephemeral := fmupd lab l' (ephemeral s)\<rparr>)
                  in if saved
                     then (Inr \<lparr>es_lab = lab, es_ephemeral = True, es_owner = eph_owner l', es_ttl = eph_ttl l',
                                es_expires = eph_expires l', es_hard = eph_hard l'\<rparr>, s1)
                     else (Inl NotPersisted, s1\<lparr>ephemeral := fmupd lab l (ephemeral s1)\<rparr>)))"

definition ephemeralExpired :: "string \<Rightarrow> go_time \<Rightarrow> Server \<Rightarrow> bool" where
  "ephemeralExpired lab t s = (case fmlookup (ephemeral s) lab of None \<Rightarrow> False | Some l \<Rightarrow> eph_expired l t)"

definition restoreEphemeralLeaseLocked :: "string \<Rightarrow> int \<Rightarrow> string \<Rightarrow> go_time \<Rightarrow> Server \<Rightarrow> bool \<times> Server" where
  "restoreEphemeralLeaseLocked lab ttlSeconds g t s =
     (case fmlookup (ephemeral s) lab of
        Some _ \<Rightarrow> (False, s)
      | None \<Rightarrow>
          let ttl0 = clampEphemeralTTL ttlSeconds;
              ttl = (if ttl0 < ephemeralRestartGrace then ephemeralRestartGrace else ttl0)
          in (True, s\<lparr>ephemeral := fmupd lab
                \<lparr>eph_lab = lab, eph_owner = [], eph_ttl = ttl div second, eph_generation = g,
                 eph_created = t, eph_expires = t + ttl, eph_hard = t + maxEphemeralLifetime,
                 eph_restored = True\<rparr> (ephemeral s)\<rparr>))"

definition expiredEphemeralLabs :: "go_time \<Rightarrow> Server \<Rightarrow> string list" where
  "expiredEphemeralLabs t s = fm_keys (fm_keep (\<lambda>_ l. eph_expired l t) (ephemeral s))"

definition dropEphemeralLease :: "bool \<Rightarrow> string \<Rightarrow> Server \<Rightarrow> Server" where
  "dropEphemeralLease ok lab s =
     (case fmlookup (ephemeral s) lab of
        None \<Rightarrow> s
      | Some _ \<Rightarrow> snd (saveCoordinationLocked ok (s\<lparr>ephemeral := fmdrop lab (ephemeral s)\<rparr>)))"

definition forgetEphemeralLease :: "bool \<Rightarrow> string \<Rightarrow> Server \<Rightarrow> (agent_error, unit) result \<times> Server" where
  "forgetEphemeralLease ok lab s =
     (case fmlookup (ephemeral s) lab of
        None \<Rightarrow> (Inr (), s)
      | Some l \<Rightarrow>
          let (saved, s1) = saveCoordinationLocked ok (s\<lparr>ephemeral := fmdrop lab (ephemeral s)\<rparr>)
          in if saved then (Inr (), s1)
             else (Inl NotPersisted, s1\<lparr>ephemeral := fmupd lab l (ephemeral s1)\<rparr>))"

definition ephemeralReapLimit :: "string \<Rightarrow> Server \<Rightarrow> duration" where
  "ephemeralReapLimit lab s =
     (let devices = (case fmlookup (current s) lab of
                       None \<Rightarrow> 0
                     | Some tp \<Rightarrow> int (length (filter (\<lambda>(_, n). n = cfg_node s) (top_devices tp))));
          limit = 5 * minute + devices * second
      in if limit > MaximumRecoveryTotalTimeout then MaximumRecoveryTotalTimeout else limit)"

text \<open>What one reclamation meets: the clock at its successive critical sections, the outcomes of
  the journal writes, the random token, whether the host objects came down and whether the
  state directory was removed.\<close>

record reclaim_env =
  rv_t1 :: go_time
  rv_t2 :: go_time
  rv_t3 :: go_time
  rv_t4 :: go_time
  rv_ok :: "nat \<Rightarrow> bool"
  rv_token :: "string option"
  rv_limit :: duration
  rv_destroyed :: bool
  rv_forgotten :: bool

datatype reclaim_result = Reclaimed | Deferred | Problems

text \<open>\<open>Forget\<close> of \<open>internal/state/store.go\<close> removes the lab's directory, and with it the topology, the
  hold and the exemptions recorded there.\<close>

definition store_forget :: "bool \<Rightarrow> string \<Rightarrow> Server \<Rightarrow> Server" where
  "store_forget ok lab s =
     (case store s of
        None \<Rightarrow> s
      | Some st \<Rightarrow>
          if ok
          then s\<lparr>store := Some (st\<lparr>st_topology := fmdrop lab (st_topology st),
                 st_holds := fmdrop lab (st_holds st), st_exempt := fmdrop lab (st_exempt st)\<rparr>)\<rparr>
          else s)"

text \<open>An operation that was cancelled and does not yield before the context ends counts as one
  that keeps running.\<close>

definition reclaim_with_fence :: "reclaim_env \<Rightarrow> string \<Rightarrow> Fence \<Rightarrow> Server \<Rightarrow> reclaim_result \<times> Server" where
  "reclaim_with_fence env lab f s =
     (case acquireForcedOperation lab ''ephemeral_reap'' True (rv_t3 env) s of
        (Acquired n, s1) \<Rightarrow>
          let (res, s2) =
                (if \<not> rv_destroyed env then (Problems, s1)
                 else
                   let s2 = store_forget (rv_forgotten env) lab s1;
                       (finished, s3) = finishDestroyedLab (rv_ok env 2) lab f (rv_t4 env) s2
                   in if store s1 \<noteq> None \<and> \<not> rv_forgotten env then (Problems, s3)
                      else (case finished of
                              Inl _ \<Rightarrow> (Problems, s3)
                            | Inr _ \<Rightarrow> (Reclaimed, dropEphemeralLease (rv_ok env 3) lab s3)))
          in (res, releaseOperation lab n s2)
      | (_, s1) \<Rightarrow> (Deferred, s1))"

definition reclaimEphemeralLab :: "reclaim_env \<Rightarrow> string \<Rightarrow> Server \<Rightarrow> reclaim_result \<times> Server" where
  "reclaimEphemeralLab env lab s =
     (let (holder, s1) = mutationLeaseHolder lab (rv_t1 env) s in
      if holder \<noteq> [] then (Deferred, s1)
      else
        let (held, s2) = heldBy lab (rv_t1 env) s1 in
        if held \<noteq> [] then (Deferred, s2)
        else (case acquireRecoveryFence (rv_ok env 0) (rv_ok env 1) (rv_limit env) lab (rv_token env)
                     (rv_t2 env) s2 of
                (Inl _, s3) \<Rightarrow> (Deferred, s3)
              | (Inr f, s3) \<Rightarrow>
                  let (res, s4) = reclaim_with_fence env lab f s3
                  in (res, snd (releaseMutationLease (rv_ok env 4) \<lparr>rel_lab = lab, rel_fence = f\<rparr> (rv_t4 env) s4))))"

end
