(* ===== verification/Repair.thy ===== *)
theory Repair
  imports Agent_State Generations
begin

text \<open>
  The bookkeeping of self-repair, \<open>internal/agent/reconcile.go\<close>,
  \<open>semantic_grace.go\<close> and \<open>change_class.go\<close>: per-device
  failure counts with bounded exponential backoff, the bounded number of semantic repair cycles,
  and the classification of a drift into the smallest repair.
\<close>

section \<open>Definitions\<close>

definition repairAttemptsBeforeGivingUp :: int where "repairAttemptsBeforeGivingUp = 3"
definition semanticRepairCycles :: int where "semanticRepairCycles = 3"
definition repairBackoffBase :: duration where "repairBackoffBase = second"
definition repairBackoffMax :: duration where "repairBackoffMax = 5 * minute"

definition repairKey :: "string \<Rightarrow> string \<Rightarrow> string" where
  "repairKey lab device = lab @ ''|'' @ device"

text \<open>\<open>n\<close> further rounds of the doubling loop.\<close>

fun delay_loop :: "nat \<Rightarrow> duration \<Rightarrow> duration" where
  "delay_loop 0 delay = (if delay > repairBackoffMax then repairBackoffMax else delay)"
| "delay_loop (Suc n) delay =
     (if delay \<ge> repairBackoffMax then repairBackoffMax else delay_loop n (delay * 2))"

definition repairDelay :: "int \<Rightarrow> duration" where
  "repairDelay attempt0 =
     (let attempt = (if attempt0 < 1 then 1 else attempt0)
      in delay_loop (nat (attempt - 1)) repairBackoffBase)"

definition givingUpOn :: "string \<Rightarrow> string \<Rightarrow> go_time \<Rightarrow> Server \<Rightarrow> bool" where
  "givingUpOn lab device t s =
     (let k = repairKey lab device in
      if get_or 0 (repairFails s) k < repairAttemptsBeforeGivingUp then False
      else (let until = get_or 0 (repairNext s) k in until \<noteq> 0 \<and> t < until))"

text \<open>The result is the delay after which the device is queued again.\<close>

definition repairFailed :: "string \<Rightarrow> string \<Rightarrow> go_time \<Rightarrow> Server \<Rightarrow> duration \<times> Server" where
  "repairFailed lab device t s =
     (let k = repairKey lab device;
          n = get_or 0 (repairFails s) k + 1;
          delay = repairDelay n
      in (delay, s\<lparr>repairFails := fmupd k n (repairFails s),
                   repairNext := fmupd k (t + delay) (repairNext s)\<rparr>))"

text \<open>\<open>None\<close> is the terminal state: the device is not queued again.\<close>

definition deferSemanticRepair ::
    "string \<Rightarrow> string \<Rightarrow> string \<Rightarrow> go_time \<Rightarrow> Server \<Rightarrow> duration option \<times> Server" where
  "deferSemanticRepair lab device reason t s =
     (let k = repairKey lab device;
          n0 = get_or 0 (repairFails s) k + 1;
          n = (if n0 < repairAttemptsBeforeGivingUp then repairAttemptsBeforeGivingUp else n0);
          delay = repairDelay n;
          cycle = get_or 0 (semanticCycles s) k + 1;
          terminal = (cycle \<ge> semanticRepairCycles)
      in (if terminal then None else Some delay,
          s\<lparr>repairFails := fmupd k n (repairFails s),
            repairNext := fmupd k (t + delay) (repairNext s),
            semanticCycles := fmupd k cycle (semanticCycles s),
            repairTerminal := (if terminal then fmupd k reason (repairTerminal s) else repairTerminal s)\<rparr>))"

definition semanticRepairTerminalReason :: "string \<Rightarrow> string \<Rightarrow> Server \<Rightarrow> string" where
  "semanticRepairTerminalReason lab device s = get_or [] (repairTerminal s) (repairKey lab device)"

definition isSemanticOnlyDrift :: "string \<Rightarrow> bool" where
  "isSemanticOnlyDrift reason \<longleftrightarrow> has_prefix reason ''network semantics drifted:''"

definition repairSucceeded :: "string \<Rightarrow> string \<Rightarrow> Server \<Rightarrow> Server" where
  "repairSucceeded lab device s =
     (let k = repairKey lab device
      in s\<lparr>repairFails := fmdrop k (repairFails s), repairNext := fmdrop k (repairNext s),
           semanticCycles := fmdrop k (semanticCycles s), repairTerminal := fmdrop k (repairTerminal s)\<rparr>)"

text \<open>\<open>ok\<close> is whether the persisted topology could be removed.\<close>

definition forgetLab :: "bool \<Rightarrow> string \<Rightarrow> Server \<Rightarrow> Server" where
  "forgetLab ok lab s =
     (let s1 = s\<lparr>current := fmdrop lab (current s), modes := fmdrop lab (modes s),
                 ungraded := fmdrop lab (ungraded s), peers := fmdrop lab (peers s),
                 exempt := fmdrop lab (exempt s), holds := fmdrop lab (holds s),
                 repairTerminal := fm_keep (not_of_lab lab) (repairTerminal s),
                 repairFails := fm_keep (not_of_lab lab) (repairFails s),
                 semanticCycles := fm_keep (not_of_lab lab) (semanticCycles s),
                 partial := fm_keep (not_of_lab lab) (partial s),
                 repairNext := fm_keep (not_of_lab lab) (repairNext s)\<rparr>
      in case store s1 of
           None \<Rightarrow> s1
         | Some st \<Rightarrow> if ok then s1\<lparr>store := Some (st\<lparr>st_topology := fmdrop lab (st_topology st)\<rparr>)\<rparr> else s1)"

definition partialCount :: "string \<Rightarrow> string \<Rightarrow> bool \<Rightarrow> Server \<Rightarrow> int \<times> Server" where
  "partialCount lab device advance s =
     (let k = repairKey lab device;
          s1 = (if advance then s\<lparr>partial := fmupd k (get_or 0 (partial s) k + 1) (partial s)\<rparr> else s)
      in (get_or 0 (partial s1) k, s1))"

definition wholeAgain :: "string \<Rightarrow> string \<Rightarrow> Server \<Rightarrow> Server" where
  "wholeAgain lab device s = s\<lparr>partial := fmdrop (repairKey lab device) (partial s)\<rparr>"

subsection \<open>The convergence grace of a new generation\<close>

definition smallTopologySemanticGrace :: duration where "smallTopologySemanticGrace = 2 * minute"
definition largeTopologySemanticGrace :: duration where "largeTopologySemanticGrace = 10 * minute"

definition semanticConvergenceGraceFor :: "Topology option \<Rightarrow> duration" where
  "semanticConvergenceGraceFor otp =
     (case otp of
        None \<Rightarrow> smallTopologySemanticGrace
      | Some tp \<Rightarrow> if length (top_devices tp) > 256 then largeTopologySemanticGrace
                  else smallTopologySemanticGrace)"

fun repairKeyLab_from :: "string \<Rightarrow> string \<Rightarrow> string" where
  "repairKeyLab_from before [] = []"
| "repairKeyLab_from before (c # cs) =
     (if c = CHR ''|'' then before else repairKeyLab_from (before @ [c]) cs)"

definition repairKeyLab :: "string \<Rightarrow> string" where
  "repairKeyLab key = repairKeyLab_from [] key"

definition beginSemanticConvergenceGrace :: "Topology \<Rightarrow> go_time \<Rightarrow> Server \<Rightarrow> Server" where
  "beginSemanticConvergenceGrace tp t s =
     (if top_name tp = [] then s
      else
        let other = (\<lambda>k. \<not> (fmlookup (semanticCycles s) k \<noteq> None \<and> repairKeyLab k = top_name tp))
        in s\<lparr>semanticGraceUntil := fmupd (top_name tp) (t + semanticConvergenceGraceFor (Some tp))
                                   (semanticGraceUntil s),
             semanticCycles := fm_keep (\<lambda>k _. other k) (semanticCycles s),
             repairTerminal := fm_keep (\<lambda>k _. other k) (repairTerminal s),
             repairFails := fm_keep (\<lambda>k _. other k) (repairFails s),
             repairNext := fm_keep (\<lambda>k _. other k) (repairNext s)\<rparr>)"

fun contains_sub :: "string \<Rightarrow> string \<Rightarrow> bool" where
  "contains_sub [] sub \<longleftrightarrow> sub = []"
| "contains_sub (x # xs) sub \<longleftrightarrow> has_prefix (x # xs) sub \<or> contains_sub xs sub"

definition locallyRepairableDrift :: "string \<Rightarrow> bool" where
  "locallyRepairableDrift reason \<longleftrightarrow>
     list_ex (contains_sub reason)
       [''is missing expected'', ''has no usable OVS bridge'', ''is not tagged'', ''is missing VLAN'']"

definition semanticDriftActionable :: "string \<Rightarrow> string \<Rightarrow> go_time \<Rightarrow> Server \<Rightarrow> bool" where
  "semanticDriftActionable lab reason t s \<longleftrightarrow>
     locallyRepairableDrift reason
     \<or> (let until = get_or 0 (semanticGraceUntil s) lab in until = 0 \<or> \<not> t < until)"

subsection \<open>Change classes\<close>

datatype ChangeClass =
  ChangeLive | ChangeConfig | ChangeControl | ChangeRewire | ChangeRestart | ChangeRecreate
| ChangeDelete | ChangeUnknown

text \<open>Both are strings in the source; the zero value is a constructor of its own.\<close>

datatype container_state =
  StateUnset | StateAbsent | StateCreated | StateRunning | StatePaused | StateExited | StateRestarting | StateDead

datatype deviceHealth = healthUnset | healthHealthy | healthPartial | healthBroken | healthUnknown

record DesiredObserved =
  do_desired :: bool
  do_spec_matches :: bool
  do_state :: container_state
  do_health :: deviceHealth
  do_reason :: string

definition controlNamespaceSplit :: string where
  "controlNamespaceSplit = ''its FRR control sidecar is attached to a different network namespace:''"

definition ClassifyChange :: "DesiredObserved \<Rightarrow> ChangeClass" where
  "ClassifyChange ob =
     (if \<not> do_desired ob then ChangeDelete
      else if do_state ob = StateAbsent then ChangeRecreate
      else if do_health ob = healthUnknown then ChangeUnknown
      else if \<not> do_spec_matches ob then ChangeRecreate
      else if do_state ob \<in> {StateCreated, StateExited, StateDead, StateRestarting, StatePaused}
      then ChangeRestart
      else (case do_health ob of
              healthHealthy \<Rightarrow> ChangeLive
            | healthPartial \<Rightarrow> ChangeRewire
            | healthBroken \<Rightarrow>
                (let reason = to_lower (do_reason ob) in
                 if has_prefix (do_reason ob) controlNamespaceSplit then ChangeControl
                 else if contains_sub reason ''daemon'' \<or> contains_sub reason ''healthcheck'' then ChangeConfig
                 else ChangeRewire)
            | _ \<Rightarrow> ChangeLive))"

end
