(* ===== verification/Restart.thy ===== *)
theory Restart
  imports Lifetimes Repair
begin

text \<open>
  Starting an agent, \<open>New\<close>, \<open>rememberHow\<close> and \<open>rehydrate\<close> of \<open>internal/agent/agent.go\<close>: the journal is
  read first, then every topology record on disk brings its lab back.

  The topology a wire record decodes to, if it does, is a field of the record.  The store's
  answers are arguments: whether a migrated record could be rewritten (\<open>ok_put\<close>) and whether
  the restored deadlines could be journalled.  The health of the peers is not modelled.
\<close>

section \<open>Definitions\<close>

definition rememberHow :: "string \<Rightarrow> string \<Rightarrow> int \<Rightarrow> Server \<Rightarrow> Server" where
  "rememberHow lab mode ug s =
     s\<lparr>modes := fmupd lab mode (modes s), ungraded := fmupd lab ug (ungraded s)\<rparr>"

definition put_topology :: "string \<Rightarrow> RawMessage \<Rightarrow> Server \<Rightarrow> Server" where
  "put_topology lab raw s =
     (case store s of
        None \<Rightarrow> s
      | Some st \<Rightarrow> s\<lparr>store := Some (st\<lparr>st_topology := fmupd lab raw (st_topology st)\<rparr>)\<rparr>)"

text \<open>The mode a persisted record is replayed with: \<open>None\<close> when the record must be skipped.\<close>

definition rehydrate_mode :: "bool \<Rightarrow> string \<Rightarrow> Wire \<Rightarrow> Server \<Rightarrow> (string \<times> Wire) option \<times> Server" where
  "rehydrate_mode ok_put lab wt s =
     (case RequireTransactionMode (wire_mode wt) of
        Inr m \<Rightarrow> (Some (m, wt), s)
      | Inl _ \<Rightarrow>
          if trim_space (wire_mode wt) \<noteq> [] then (None, s)
          else
            let wt' = wt\<lparr>wire_mode := ModePlatform, wire_ungraded := 0\<rparr>
            in if ok_put then (Some (ModePlatform, wt'), put_topology lab (Encoded wt') s)
               else (None, s))"

definition rehydrated_generation :: "Wire \<Rightarrow> Topology \<Rightarrow> generationState \<Rightarrow> generationState" where
  "rehydrated_generation wt tp state =
     (if wire_generation wt \<noteq> [] then state\<lparr>committed := wire_generation wt\<rparr>
      else if committed state = [] then state\<lparr>committed := top_hash tp\<rparr> else state)"

definition install_lab :: "go_time \<Rightarrow> string \<Rightarrow> Wire \<Rightarrow> Topology \<Rightarrow> bool \<times> Server \<Rightarrow> bool \<times> Server" where
  "install_lab t mode wt tp rs =
     (let name = top_name tp;
          s1 = (snd rs)\<lparr>current := fmupd name tp (current (snd rs))\<rparr>;
          s2 = beginSemanticConvergenceGrace tp t s1;
          s3 = s2\<lparr>generations := fmupd name
                 (rehydrated_generation wt tp (get_or no_generation (generations s2) name)) (generations s2)\<rparr>;
          (restored, s4) = (if wire_ephemeral wt
                            then restoreEphemeralLeaseLocked name (wire_ephemeral_ttl wt) (wire_generation wt) t s3
                            else (False, s3));
          s5 = loadHolds name t (loadExemptions name (rememberHow name mode (wire_ungraded wt) s4));
          s6 = (case wire_peers wt of None \<Rightarrow> s5 | Some ps \<Rightarrow> s5\<lparr>peers := fmupd name ps (peers s5)\<rparr>)
      in (fst rs \<or> restored, s6))"

definition rehydrate_lab :: "bool \<Rightarrow> go_time \<Rightarrow> string \<Rightarrow> bool \<times> Server \<Rightarrow> bool \<times> Server" where
  "rehydrate_lab ok_put t lab rs =
     (case store (snd rs) of
        None \<Rightarrow> rs
      | Some st \<Rightarrow>
          (case fmlookup (st_topology st) lab of
             None \<Rightarrow> rs
           | Some raw \<Rightarrow>
               (case unmarshal raw of
                  None \<Rightarrow> rs
                | Some wt \<Rightarrow>
                    (case rehydrate_mode ok_put lab wt (snd rs) of
                       (None, s1) \<Rightarrow> (fst rs, s1)
                     | (Some (mode, wt'), s1) \<Rightarrow>
                         (case wire_topology wt' of
                            None \<Rightarrow> (fst rs, s1)
                          | Some tp \<Rightarrow> install_lab t mode wt' tp (fst rs, s1))))))"

definition rehydrate :: "bool \<Rightarrow> bool \<Rightarrow> go_time \<Rightarrow> Server \<Rightarrow> Server" where
  "rehydrate ok_put ok t s =
     (case store s of
        None \<Rightarrow> s
      | Some st \<Rightarrow>
          let (restored, s1) = fold (rehydrate_lab ok_put t) (fm_keys (st_topology st)) (False, s)
          in if restored then snd (saveCoordinationLocked ok s1) else s1)"

definition New_server :: "bool \<Rightarrow> bool \<Rightarrow> bool \<Rightarrow> go_time \<Rightarrow> go_time \<Rightarrow> go_time \<Rightarrow> string \<Rightarrow> Store option \<Rightarrow> Server" where
  "New_server ok ok_put ok' t t' t'' node ost =
     (let s = fresh_server node ost in
      case ost of None \<Rightarrow> s | Some _ \<Rightarrow> rehydrate ok_put ok' t'' (loadCoordination ok t t' s))"

end
