(* ===== verification/Overlays.thy ===== *)
theory Overlays
  imports Leases
begin

text \<open>
  Reservation of overlay identifiers on a node, \<open>internal/agent/coordination.go\<close>: a reservation is
  tied to a mutation fence, becomes a live claim when the overlay is built, and is the node's
  guarantee that two labs never share a tunnel.

  What the kernel answers is an argument: the owners it lists, and whether stamping or reverting
  the alias of a legacy tunnel succeeds.
\<close>

section \<open>Definitions\<close>

record OverlayReservationRequest =
  or_lab :: string
  or_hold :: string
  or_fence :: Fence
  or_vnis :: "vni list"

record OverlayReservationResponse =
  ov_lab :: string
  ov_vnis :: "vni list"
  ov_expires :: go_time

record overlay_env =
  env_owners :: "(vni, string) fmap option"
  env_adopt :: "vni \<Rightarrow> bool"
  env_revert :: "vni \<Rightarrow> bool"
  env_save :: bool
  env_save_adopted :: bool
  env_save_rollback :: bool

definition on_node :: "string \<Rightarrow> TopoLink \<Rightarrow> bool" where
  "on_node node l \<longleftrightarrow>
     (case (link_a l, link_b l) of
        (Some a, Some b) \<Rightarrow> a \<noteq> b \<and> (a = node \<or> b = node)
      | _ \<Rightarrow> False)"

definition overlayVNIsOnNode :: "Topology \<Rightarrow> string \<Rightarrow> vni list" where
  "overlayVNIsOnNode tp node =
     rev (remdups (rev (map link_vni (filter (\<lambda>l. link_vni l \<noteq> 0 \<and> on_node node l) (top_links tp)))))"

definition crossNodeVNIClaims :: "Topology option \<Rightarrow> string \<Rightarrow> vni \<Rightarrow> nat" where
  "crossNodeVNIClaims otp node v =
     (case otp of
        None \<Rightarrow> 0
      | Some tp \<Rightarrow> length (filter (\<lambda>l. link_vni l = v \<and> on_node node l) (top_links tp)))"

definition sortedVNIs :: "vni list \<Rightarrow> (agent_error, vni list) result" where
  "sortedVNIs vnis = (if 0 \<in> set vnis then Inl VNIZero else Inr (sort (remdups vnis)))"

text \<open>The topology an ownerless tunnel is checked against: the one in memory, else the
  persisted one.\<close>

definition recorded_topology :: "string \<Rightarrow> Server \<Rightarrow> Topology option" where
  "recorded_topology lab s =
     (case fmlookup (current s) lab of
        Some tp \<Rightarrow> Some tp
      | None \<Rightarrow>
          (case store s of
             None \<Rightarrow> None
           | Some st \<Rightarrow>
               (case fmlookup (st_topology st) lab of
                  None \<Rightarrow> None
                | Some raw \<Rightarrow>
                    (case unmarshal raw of None \<Rightarrow> None | Some w \<Rightarrow> wire_topology w))))"

definition legacyOwnerlessOverlayProofLocked :: "string \<Rightarrow> vni \<Rightarrow> Server \<Rightarrow> bool" where
  "legacyOwnerlessOverlayProofLocked lab v s =
     (case recorded_topology lab s of
        None \<Rightarrow> False
      | Some tp \<Rightarrow>
          top_name tp = lab
          \<and> crossNodeVNIClaims (Some tp) (cfg_node s) v = 1
          \<and> \<not> fm_exists (\<lambda>other tp'. other \<noteq> lab \<and> crossNodeVNIClaims (Some tp') (cfg_node s) v > 0)
                (current s))"

definition collectingOverlayLocked :: "vni \<Rightarrow> Server \<Rightarrow> bool" where
  "collectingOverlayLocked v s \<longleftrightarrow> v \<in> gcCollecting s"

text \<open>The first loop of \<open>reserveOverlays\<close>: either the refusal, or the ownerless tunnels to adopt.\<close>

definition owner_refusal :: "string \<Rightarrow> (vni, string) fmap \<Rightarrow> Server \<Rightarrow> vni \<Rightarrow> agent_error option" where
  "owner_refusal lab owners s v =
     (case fmlookup owners v of
        None \<Rightarrow> None
      | Some w \<Rightarrow>
          if w = lab then None
          else if w = [] then (if legacyOwnerlessOverlayProofLocked lab v s then None
                               else Some (OwnerlessUnproven v))
          else Some (VNIOwnedBy v w))"

definition claim_refusal :: "string \<Rightarrow> fence_gen \<Rightarrow> Server \<Rightarrow> vni \<Rightarrow> agent_error option" where
  "claim_refusal lab g s v =
     (case fmlookup (overlayClaims s) v of
        None \<Rightarrow> None
      | Some c \<Rightarrow>
          if claim_lab c \<noteq> lab then Some (VNIClaimedBy v (claim_lab c))
          else if claim_live c then None
          else if claim_generation c \<noteq> g then Some (VNIOlderFence v)
          else None)"

fun check_reservable ::
    "string \<Rightarrow> fence_gen \<Rightarrow> (vni, string) fmap \<Rightarrow> Server \<Rightarrow> vni list \<Rightarrow> (agent_error, vni list) result" where
  "check_reservable lab g owners s [] = Inr []"
| "check_reservable lab g owners s (v # vs) =
     (if collectingOverlayLocked v s then Inl (VNICollected v)
      else (case owner_refusal lab owners s v of
              Some e \<Rightarrow> Inl e
            | None \<Rightarrow>
                (case claim_refusal lab g s v of
                   Some e \<Rightarrow> Inl e
                 | None \<Rightarrow>
                     (case check_reservable lab g owners s vs of
                        Inl e \<Rightarrow> Inl e
                      | Inr legacy \<Rightarrow>
                          Inr (if fmlookup owners v = Some [] \<and> lab \<noteq> [] then v # legacy else legacy)))))"

definition claim_vni ::
    "string \<Rightarrow> fence_gen \<Rightarrow> go_time \<Rightarrow> vni \<Rightarrow> (vni, overlayClaim) fmap \<Rightarrow> (vni, overlayClaim) fmap" where
  "claim_vni lab g until v m =
     (let c = get_or no_claim m v in
      if claim_live c
      then (if claim_generation c \<noteq> g then fmupd v (c\<lparr>claim_generation := g\<rparr>) m else m)
      else fmupd v \<lparr>claim_lab = lab, claim_generation = g, claim_until = until, claim_live = False\<rparr> m)"

definition claim_changes :: "fence_gen \<Rightarrow> (vni, overlayClaim) fmap \<Rightarrow> vni \<Rightarrow> bool" where
  "claim_changes g m v \<longleftrightarrow>
     (let c = get_or no_claim m v in \<not> claim_live c \<or> claim_generation c \<noteq> g)"

type_synonym claims_before = "(vni \<times> overlayClaim option) list"

fun restoreOverlayClaimsLocked ::
    "claims_before \<Rightarrow> (vni, overlayClaim) fmap \<Rightarrow> (vni, overlayClaim) fmap" where
  "restoreOverlayClaimsLocked [] m = m"
| "restoreOverlayClaimsLocked ((v, prior) # rest) m =
     restoreOverlayClaimsLocked rest
       (case prior of Some c \<Rightarrow> fmupd v c m | None \<Rightarrow> fmdrop v m)"

text \<open>A tunnel whose alias could not be reverted keeps its claim.\<close>

definition keep_adopted :: "string \<Rightarrow> vni \<Rightarrow> (vni, overlayClaim) fmap \<Rightarrow> (vni, overlayClaim) fmap" where
  "keep_adopted lab v m =
     fmupd v ((get_or no_claim m v)\<lparr>claim_lab := lab, claim_live := True, claim_until := 0\<rparr>) m"

definition rollbackLegacyAdoptionsLocked ::
    "overlay_env \<Rightarrow> string \<Rightarrow> vni list \<Rightarrow> claims_before \<Rightarrow> Server \<Rightarrow> Server" where
  "rollbackLegacyAdoptionsLocked env lab adopted before s =
     (let kept = filter (\<lambda>v. \<not> env_revert env v) (rev adopted);
          m1 = fold (keep_adopted lab) kept (overlayClaims s);
          m2 = restoreOverlayClaimsLocked (filter (\<lambda>(v, _). v \<notin> set kept) before) m1
      in snd (saveCoordinationLocked (env_save_rollback env) (s\<lparr>overlayClaims := m2\<rparr>)))"

definition adopt_vni :: "string \<Rightarrow> fence_gen \<Rightarrow> vni \<Rightarrow> (vni, overlayClaim) fmap \<Rightarrow> (vni, overlayClaim) fmap" where
  "adopt_vni lab g v m =
     fmupd v ((get_or no_claim m v)\<lparr>claim_lab := lab, claim_generation := g, claim_live := True,
        claim_until := 0\<rparr>) m"

fun adopt_loop ::
    "overlay_env \<Rightarrow> string \<Rightarrow> fence_gen \<Rightarrow> claims_before \<Rightarrow> vni list \<Rightarrow> vni list \<Rightarrow> Server
      \<Rightarrow> agent_error option \<times> Server" where
  "adopt_loop env lab g before adopted [] s = (None, s)"
| "adopt_loop env lab g before adopted (v # vs) s =
     (if \<not> env_adopt env v
      then (Some (AdoptionFailed v), rollbackLegacyAdoptionsLocked env lab adopted before s)
      else adopt_loop env lab g before (adopted @ [v]) vs
             (s\<lparr>overlayClaims := adopt_vni lab g v (overlayClaims s)\<rparr>))"

text \<open>The part of \<open>reserveOverlays\<close> that runs once the fence is accepted.\<close>

definition reserve_accepted ::
    "overlay_env \<Rightarrow> (vni, string) fmap \<Rightarrow> string \<Rightarrow> Fence \<Rightarrow> vni list \<Rightarrow> bool \<Rightarrow> Server
      \<Rightarrow> (agent_error, OverlayReservationResponse) result \<times> Server" where
  "reserve_accepted env owners lab f vnis changed s =
     (case check_reservable lab (Generation f) owners s vnis of
        Inl e \<Rightarrow> (Inl e, s)
      | Inr legacy \<Rightarrow>
          let until = lease_until (the (fmlookup (mutations s) lab));
              before = map (\<lambda>v. (v, fmlookup (overlayClaims s) v)) vnis;
              changed' = (changed \<or> list_ex (claim_changes (Generation f) (overlayClaims s)) vnis);
              s1 = s\<lparr>overlayClaims := fold (claim_vni lab (Generation f) until) vnis (overlayClaims s)\<rparr>;
              (saved, s2) = (if changed' then saveCoordinationLocked (env_save env) s1 else (True, s1))
          in if \<not> saved
             then (Inl NotPersisted, s2\<lparr>overlayClaims := restoreOverlayClaimsLocked before (overlayClaims s2)\<rparr>)
             else (case adopt_loop env lab (Generation f) before [] legacy s2 of
                     (Some e, s3) \<Rightarrow> (Inl e, s3)
                   | (None, s3) \<Rightarrow>
                       let (saved', s4) = (if legacy \<noteq> [] then saveCoordinationLocked (env_save_adopted env) s3
                                           else (True, s3))
                       in if \<not> saved' then (Inl NotPersisted, s4)
                          else (Inr \<lparr>ov_lab = lab, ov_vnis = vnis, ov_expires = until\<rparr>, s4)))"

definition reserveOverlays ::
    "overlay_env \<Rightarrow> OverlayReservationRequest \<Rightarrow> go_time \<Rightarrow> Server
      \<Rightarrow> (agent_error, OverlayReservationResponse) result \<times> Server" where
  "reserveOverlays env req t s =
     (case sortedVNIs (or_vnis req) of
        Inl e \<Rightarrow> (Inl e, s)
      | Inr vnis \<Rightarrow>
          if or_lab req = [] then (Inl LabNameRequired, s)
          else (case env_owners env of
                  None \<Rightarrow> (Inl OwnersUnavailable, s)
                | Some owners \<Rightarrow>
                    let (changed, s1) = expireCoordinationLocked t s in
                    (case fenceErrorLocked (or_lab req) (or_fence req) t s1 of
                       Some e \<Rightarrow> refuse (env_save env) changed e s1
                     | None \<Rightarrow> reserve_accepted env owners (or_lab req) (or_fence req) vnis changed s1)))"

definition reservation_refusal :: "string \<Rightarrow> fence_gen \<Rightarrow> go_time \<Rightarrow> Server \<Rightarrow> vni \<Rightarrow> agent_error option" where
  "reservation_refusal lab g t s v =
     (case fmlookup (overlayClaims s) v of
        None \<Rightarrow> Some (VNINotReserved v)
      | Some c \<Rightarrow>
          if claim_lab c \<noteq> lab \<or> claim_generation c \<noteq> g then Some (VNINotReserved v)
          else if claim_expired t c then Some (VNIReservationExpired v)
          else None)"

fun first_error :: "('a \<Rightarrow> 'e option) \<Rightarrow> 'a list \<Rightarrow> 'e option" where
  "first_error f [] = None"
| "first_error f (x # xs) = (case f x of Some e \<Rightarrow> Some e | None \<Rightarrow> first_error f xs)"

definition requireOverlayReservations ::
    "bool \<Rightarrow> Topology option \<Rightarrow> Fence \<Rightarrow> go_time \<Rightarrow> Server \<Rightarrow> (agent_error, unit) result \<times> Server" where
  "requireOverlayReservations ok otp f t s =
     (case otp of
        None \<Rightarrow> (Inl NoTopology, s)
      | Some tp \<Rightarrow>
          let vnis = overlayVNIsOnNode tp (cfg_node s) in
          if vnis = [] then (Inr (), s)
          else
            let (changed, s1) = expireCoordinationLocked t s;
                (saved, s2) = (if changed then saveCoordinationLocked ok s1 else (True, s1))
            in if \<not> saved then (Inl NotPersisted, s2)
               else (case first_error (reservation_refusal (top_name tp) (Generation f) t s2) vnis of
                       Some e \<Rightarrow> (Inl e, s2)
                     | None \<Rightarrow> (Inr (), s2)))"

text \<open>Claims already promoted stay promoted in memory when a later one is refused.\<close>

fun promote_loop ::
    "string \<Rightarrow> fence_gen \<Rightarrow> vni list \<Rightarrow> bool \<Rightarrow> (vni, overlayClaim) fmap
      \<Rightarrow> agent_error option \<times> bool \<times> (vni, overlayClaim) fmap" where
  "promote_loop lab g [] changed m = (None, changed, m)"
| "promote_loop lab g (v # vs) changed m =
     (case fmlookup m v of
        None \<Rightarrow> (Some (VNINotReserved v), changed, m)
      | Some c \<Rightarrow>
          if claim_lab c \<noteq> lab \<or> claim_generation c \<noteq> g then (Some (VNINotReserved v), changed, m)
          else if claim_live c then promote_loop lab g vs changed m
          else promote_loop lab g vs True (fmupd v (c\<lparr>claim_live := True, claim_until := 0\<rparr>) m))"

definition promoteOverlayReservations ::
    "bool \<Rightarrow> vni list \<Rightarrow> string \<Rightarrow> Fence \<Rightarrow> go_time \<Rightarrow> Server \<Rightarrow> (agent_error, unit) result \<times> Server" where
  "promoteOverlayReservations ok vnis lab f t s =
     (case fenceErrorLocked lab f t s of
        Some e \<Rightarrow> (Inl e, s)
      | None \<Rightarrow>
          (case promote_loop lab (Generation f) vnis False (overlayClaims s) of
             (Some e, _, m) \<Rightarrow> (Inl e, s\<lparr>overlayClaims := m\<rparr>)
           | (None, changed, m) \<Rightarrow>
               let s1 = s\<lparr>overlayClaims := m\<rparr>;
                   (saved, s2) = (if changed then saveCoordinationLocked ok s1 else (True, s1))
               in if \<not> saved then (Inl NotPersisted, s2) else (Inr (), s2)))"

definition released_claim :: "string \<Rightarrow> vni list \<Rightarrow> vni \<Rightarrow> overlayClaim \<Rightarrow> bool" where
  "released_claim lab vnis v c \<longleftrightarrow> claim_lab c = lab \<and> (vnis = [] \<or> v \<in> set vnis)"

definition releaseOverlayClaims ::
    "bool \<Rightarrow> string \<Rightarrow> vni list \<Rightarrow> Server \<Rightarrow> (agent_error, unit) result \<times> Server" where
  "releaseOverlayClaims ok lab vnis s =
     (let changed = fm_exists (released_claim lab vnis) (overlayClaims s);
          s1 = s\<lparr>overlayClaims := fm_keep (\<lambda>v c. \<not> released_claim lab vnis v c) (overlayClaims s)\<rparr>;
          (saved, s2) = (if changed then saveCoordinationLocked ok s1 else (True, s1))
      in if \<not> saved then (Inl NotPersisted, s2) else (Inr (), s2))"

text \<open>\<open>internal/agent/apply_transaction.go\<close>: a rollback re-installs the claims of the topology it
  restored.  Nothing is checked here, neither the fence nor who claims the identifiers now.\<close>

definition restoreOverlayClaims ::
    "bool \<Rightarrow> string \<Rightarrow> Fence \<Rightarrow> vni list \<Rightarrow> Server \<Rightarrow> (agent_error, unit) result \<times> Server" where
  "restoreOverlayClaims ok lab f oldVNIs s =
     (let m1 = fm_keep (\<lambda>v c. \<not> (reserved_by lab (Generation f) c \<and> v \<notin> set oldVNIs)) (overlayClaims s);
          m2 = fold (\<lambda>v m. fmupd v \<lparr>claim_lab = lab, claim_generation = Generation f, claim_until = 0,
                                   claim_live = True\<rparr> m) oldVNIs m1;
          (saved, s1) = saveCoordinationLocked ok (s\<lparr>overlayClaims := m2\<rparr>)
      in if saved then (Inr (), s1) else (Inl NotPersisted, s1))"

section \<open>Frames\<close>

lemma promote_loop_True:
  "fst (promote_loop lab g vs True m) = None \<Longrightarrow> fst (snd (promote_loop lab g vs True m))"
  by (induction vs arbitrary: m) (auto split: option.splits if_splits)

lemma promote_loop_unchanged:
  "fst (promote_loop lab g vs False m) = None \<Longrightarrow> \<not> fst (snd (promote_loop lab g vs False m)) \<Longrightarrow>
   snd (snd (promote_loop lab g vs False m)) = m"
  by (induction vs arbitrary: m) (auto simp: promote_loop_True split: option.splits if_splits)

interpretation promote: journalled_op "promoteOverlayReservations ok vnis" for ok vnis
proof unfold_locales
  show "\<exists>e'. promoteOverlayReservations ok vnis lab f t s = (Inl e', s)"
    if "fenceErrorLocked lab f t s = Some e" for lab f t s e
    using that by (simp add: promoteOverlayReservations_def)
  show "quiet s (snd (promoteOverlayReservations ok vnis lab f t s))" for lab f t s
    by (auto simp: promoteOverlayReservations_def Let_def case_prod_unfold split: option.splits)
  show "persisted s' \<or> s' = s" if "promoteOverlayReservations ok vnis lab f t s = (Inr r, s')" for lab f t s r s'
    using that promote_loop_unchanged [of lab "Generation f" vnis "overlayClaims s"]
    by (auto simp: promoteOverlayReservations_def Let_def case_prod_unfold
        split: option.splits prod.splits if_splits)
qed

end
