(* ===== verification/Deployments.thy ===== *)
theory Deployments
  imports Restart Overlays
begin

text \<open>
  The records a deployment leaves on its node outside the journal's transaction,
  \<open>internal/agent/apply_transaction.go\<close> and \<open>recovery.go\<close>: what a commit writes before it finishes
  the generation, and what a rollback puts back.

  Building and removing host objects is not modelled; \<open>ok_put\<close>, \<open>ok\<close> are the outcomes of the
  topology write and of the journal write.
\<close>

section \<open>Definitions\<close>

definition install_topology ::
    "string \<Rightarrow> Topology \<Rightarrow> (string \<times> int) option \<Rightarrow> (string \<times> string) list \<Rightarrow> Server \<Rightarrow> Server" where
  "install_topology lab tp how ps s =
     (let s1 = s\<lparr>current := fmupd lab tp (current s)\<rparr>;
          s2 = (case how of None \<Rightarrow> s1 | Some (m, u) \<Rightarrow> rememberHow lab m u s1)
      in s2\<lparr>peers := fmupd lab ps (peers s2)\<rparr>)"

definition committed_wire :: "applyTransaction \<Rightarrow> string \<Rightarrow> string \<Rightarrow> Wire \<Rightarrow> Wire" where
  "committed_wire tx desired previous w =
     (let (m, u) = modeToPersist (tx_only_steps tx = []) desired (tx_ungraded tx)
                     previous (tx_previous_ungraded tx)
      in w\<lparr>wire_generation := tx_generation tx, wire_peers := Some (tx_peer_underlay tx),
           wire_mode := m, wire_ungraded := u\<rparr>)"

text \<open>The first part of \<open>commitAppliedTopology\<close>, up to the capture of student state.\<close>

definition record_commit ::
    "bool \<Rightarrow> bool \<Rightarrow> applyTransaction \<Rightarrow> Wire \<Rightarrow> Topology \<Rightarrow> string \<Rightarrow> go_time \<Rightarrow> Server
      \<Rightarrow> (agent_error, unit) result \<times> Server" where
  "record_commit ok_put ok tx w tp owner t s =
     (case RequireTransactionMode (tx_mode tx) of
        Inl e \<Rightarrow> (Inl e, s)
      | Inr desired \<Rightarrow>
     (case RequireTransactionMode (tx_previous_mode tx) of
        Inl e \<Rightarrow> (Inl e, s)
      | Inr previous \<Rightarrow>
          let authoritative = (tx_only_steps tx = []);
              w' = committed_wire tx desired previous w
          in if store s \<noteq> None \<and> \<not> ok_put then (Inl NotPersisted, s)
             else
               let s1 = install_topology (top_name tp) tp
                          (if authoritative then Some (desired, tx_ungraded tx) else None)
                          (tx_peer_underlay tx) (put_topology (top_name tp) (Encoded w') s)
               in if \<not> authoritative then (Inr (), s1)
                  else if wire_ephemeral w'
                  then noteEphemeralLease ok (top_name tp) owner (wire_ephemeral_ttl w') (tx_generation tx) t s1
                  else forgetEphemeralLease ok (top_name tp) s1))"

definition restoreRecoveredTopology ::
    "bool \<Rightarrow> string \<Rightarrow> applyTransaction \<Rightarrow> Server \<Rightarrow> (agent_error, unit) result \<times> Server" where
  "restoreRecoveredTopology ok_put lab tx s =
     (if raw_empty (tx_previous tx) then (Inr (), s)
      else (case unmarshal (tx_previous tx) of
              None \<Rightarrow> (Inl BadWire, s)
            | Some w \<Rightarrow>
                (case wire_topology w of
                   None \<Rightarrow> (Inl BadWire, s)
                 | Some tp \<Rightarrow>
                     if top_name tp \<noteq> lab then (Inl BadWire, s)
                     else if store s \<noteq> None \<and> \<not> ok_put then (Inl NotPersisted, s)
                     else (Inr (), install_topology lab tp (Some (recoveredMode tx w))
                             (case wire_peers w of None \<Rightarrow> [] | Some ps \<Rightarrow> ps)
                             (put_topology lab (tx_previous tx) s)))))"

text \<open>Rolling back the first deployment of a lab, once its host objects are gone.\<close>

definition forget_topology :: "string \<Rightarrow> Server \<Rightarrow> Server" where
  "forget_topology lab s =
     (case store s of
        None \<Rightarrow> s
      | Some st \<Rightarrow> s\<lparr>store := Some (st\<lparr>st_topology := fmdrop lab (st_topology st)\<rparr>)\<rparr>)"

definition rollback_first ::
    "bool \<Rightarrow> bool \<Rightarrow> string \<Rightarrow> Server \<Rightarrow> (agent_error, unit) result \<times> Server" where
  "rollback_first ok ok_forget lab s =
     (case releaseOverlayClaims ok lab [] s of
        (Inl e, s1) \<Rightarrow> (Inl e, s1)
      | (Inr _, s1) \<Rightarrow>
          let s2 = s1\<lparr>current := fmdrop lab (current s1),
                      semanticGraceUntil := fmdrop lab (semanticGraceUntil s1),
                      modes := fmdrop lab (modes s1), ungraded := fmdrop lab (ungraded s1),
                      peers := fmdrop lab (peers s1)\<rparr>
          in if store s2 \<noteq> None \<and> \<not> ok_forget then (Inl NotPersisted, s2)
             else (Inr (), forget_topology lab s2))"

end
