(* ===== verification/Gc_Fence.thy ===== *)
theory Gc_Fence
  imports Overlays Operations
begin

text \<open>
  The fence between the garbage collector and the reservation path, \<open>internal/agent/gc_fence.go\<close>,
  and the collector's own decisions that it re-proves, \<open>internal/agent/gc.go\<close>.

  What the runtime and the network tables show is an argument; the removal of host objects itself
  is not modelled.
\<close>

section \<open>Definitions\<close>

definition claim_protects :: "go_time \<Rightarrow> overlayClaim \<Rightarrow> bool" where
  "claim_protects t c \<longleftrightarrow> claim_live c \<or> claim_until c = 0 \<or> t < claim_until c"

definition labProtectedLocked :: "string \<Rightarrow> go_time \<Rightarrow> Server \<Rightarrow> bool" where
  "labProtectedLocked lab t s \<longleftrightarrow>
     lab \<noteq> [] \<and>
     (fmlookup (current s) lab \<noteq> None
      \<or> fmlookup (transactions s) lab \<noteq> None
      \<or> (case fmlookup (ops s) lab of None \<Rightarrow> False | Some held \<Rightarrow> op_kind held \<noteq> ''gc'')
      \<or> (case fmlookup (holds s) lab of None \<Rightarrow> False | Some h \<Rightarrow> t < hold_until h)
      \<or> (case fmlookup (mutations s) lab of None \<Rightarrow> False | Some l \<Rightarrow> t < lease_until l)
      \<or> prepared (get_or no_generation (generations s) lab) \<noteq> []
      \<or> fm_exists (\<lambda>_ c. claim_lab c = lab \<and> claim_protects t c) (overlayClaims s))"

definition beginOverlayCollection :: "vni \<Rightarrow> string \<Rightarrow> go_time \<Rightarrow> Server \<Rightarrow> bool \<times> Server" where
  "beginOverlayCollection v owner t s =
     (if collectingOverlayLocked v s then (False, s)
      else if labProtectedLocked owner t s then (False, s)
      else if fmlookup (overlayClaims s) v \<noteq> None then (False, s)
      else (True, s\<lparr>gcCollecting := insert v (gcCollecting s)\<rparr>))"

definition endOverlayCollection :: "bool \<Rightarrow> vni \<Rightarrow> string \<Rightarrow> Server \<Rightarrow> Server" where
  "endOverlayCollection ok v owner s =
     (let s1 = s\<lparr>gcCollecting := gcCollecting s - {v}\<rparr> in
      case fmlookup (overlayClaims s1) v of
        None \<Rightarrow> s1
      | Some c \<Rightarrow>
          if owner \<noteq> [] \<and> claim_lab c \<noteq> owner then s1
          else snd (saveCoordinationLocked ok (s1\<lparr>overlayClaims := fmdrop v (overlayClaims s1)\<rparr>)))"

definition gcGenerationProven :: "string \<Rightarrow> Server \<Rightarrow> bool" where
  "gcGenerationProven lab s \<longleftrightarrow>
     fmlookup (current s) lab = None
     \<and> (case fmlookup (ops s) lab of None \<Rightarrow> True | Some held \<Rightarrow> op_kind held = ''gc'')
     \<and> fmlookup (transactions s) lab = None
     \<and> prepared (get_or no_generation (generations s) lab) = []"

definition beginLabRecordCollection :: "string \<Rightarrow> go_time \<Rightarrow> Server \<Rightarrow> 64 word option \<times> Server" where
  "beginLabRecordCollection lab t s =
     (case acquireOperation lab ''gc'' False t s of
        (Inl _, s1) \<Rightarrow> (None, s1)
      | (Inr n, s1) \<Rightarrow>
          if labProtectedLocked lab t s1 \<or> \<not> gcGenerationProven lab s1
          then (None, releaseOperation lab n s1)
          else (Some n, s1))"

definition endLabRecordCollection :: "string \<Rightarrow> 64 word \<Rightarrow> Server \<Rightarrow> Server" where
  "endLabRecordCollection lab n s = releaseOperation lab n s"

text \<open>\<open>grace\<close> is the configured grace period.\<close>

definition gcEligible :: "duration \<Rightarrow> string \<Rightarrow> go_time \<Rightarrow> Server \<Rightarrow> bool \<times> Server" where
  "gcEligible grace key t s =
     (case fmlookup (gcSeen s) key of
        None \<Rightarrow> (False, s\<lparr>gcSeen := fmupd key t (gcSeen s)\<rparr>)
      | Some first \<Rightarrow> (\<not> t < first + grace, s))"

text \<open>\<open>listed\<close> is what the runtime lists: the lab label of every managed container, or \<open>None\<close>
  when there is no runtime or it cannot be read.\<close>

definition gcProtectedLabs ::
    "bool \<Rightarrow> string list option \<Rightarrow> go_time \<Rightarrow> Server \<Rightarrow> (string fset \<times> nat) option \<times> Server" where
  "gcProtectedLabs ok listed t s =
     (case listed of
        None \<Rightarrow> (None, s)
      | Some containers \<Rightarrow>
          let (changed, s1) = expireCoordinationLocked t s;
              (saved, s2) = (if changed then saveCoordinationLocked ok s1 else (True, s1))
          in if \<not> saved then (None, s2)
             else
               (Some (fset_of_list (filter (\<lambda>l. l \<noteq> []) containers)
                  |\<union>| fmdom (current s2) |\<union>| fmdom (transactions s2) |\<union>| fmdom (ops s2)
                  |\<union>| fmdom (fm_keep (\<lambda>_ h. t < hold_until h) (holds s2))
                  |\<union>| fmdom (fm_keep (\<lambda>_ l. t < lease_until l) (mutations s2))
                  |\<union>| claim_lab |`| fmran (fm_keep (\<lambda>_ c. \<not> claim_live c \<and> claim_until c \<noteq> 0
                                                            \<and> t < claim_until c) (overlayClaims s2)),
                  size (fset_of_list (fm_keys (overlayClaims s))) - size (fset_of_list (fm_keys (overlayClaims s2)))),
                s2))"

text \<open>One round of the sweep over the claims; the keys differ, so the order of the map does not
  matter.\<close>

definition release_stale_claim :: "string fset \<Rightarrow> duration \<Rightarrow> go_time \<Rightarrow> vni \<Rightarrow> nat \<times> Server \<Rightarrow> nat \<times> Server" where
  "release_stale_claim protected grace t v ns =
     (case fmlookup (overlayClaims (snd ns)) v of
        None \<Rightarrow> ns
      | Some c \<Rightarrow>
          if \<not> claim_live c \<or> claim_lab c |\<in>| protected then ns
          else
            let (eligible, s1) = gcEligible grace (''claim:'' @ show_int (int (unat v))) t (snd ns)
            in if \<not> eligible then (fst ns, s1)
               else (Suc (fst ns), s1\<lparr>overlayClaims := fmdrop v (overlayClaims s1)\<rparr>))"

definition gcReleaseStaleLiveClaims ::
    "bool \<Rightarrow> string fset \<Rightarrow> duration \<Rightarrow> go_time \<Rightarrow> Server \<Rightarrow> nat \<times> Server" where
  "gcReleaseStaleLiveClaims ok protected grace t s =
     (let (removed, s1) = fold (release_stale_claim protected grace t) (fm_keys (overlayClaims s)) (0, s)
      in (removed, if removed > 0 then snd (saveCoordinationLocked ok s1) else s1))"

end
