(* ===== verification/Node_System.thy ===== *)
theory Node_System
  imports Deployments Gc_Fence
begin

text \<open>
  One node as a whole: every critical section of the agent that the other theories model, as a
  request that can arrive in any order, with any clock, any outcome of a disk write, and a crash
  and restart between any two.  The properties here hold in every state such a run reaches.
\<close>

section \<open>Requests\<close>

text \<open>The requests that carry a mutation fence.\<close>

datatype fenced_request =
    Prepare bool RawMessage prepare_request
  | CheckPrepared string
  | ForApply string
  | MarkApplying bool string
  | MarkApplied bool string
  | RecordSolve bool string "solveTransition option"
  | RecordDirty bool string "string list"
  | RecordSemantic bool string "string list"
  | RecordTouched bool string "string list" "vni list" bool
  | ForCommit string
  | ForVerify string
  | MarkVerified bool string
  | FinishCommitted bool "transactionInventory option" string
  | Finalize bool string
  | FinishRecovered bool string
  | FinishDestroyed bool
  | Promote bool "vni list"
  | Reopen bool string
  | BeginRecovery recovery_cfg bool string go_time bool bool string
  | ForwardPhase bool string go_time string
  | ForwardLoss bool string string
  | Progress bool string go_time bool string
  | Heartbeat recovery_cfg bool go_time string
  | MarkPhase bool transactionPhase string go_time string

datatype answer = Done | Transaction applyTransaction

definition answered :: "('r \<Rightarrow> answer) \<Rightarrow> (agent_error, 'r) result \<times> Server \<Rightarrow> (agent_error, answer) result \<times> Server" where
  "answered h rs = (case fst rs of Inl e \<Rightarrow> Inl e | Inr r \<Rightarrow> Inr (h r), snd rs)"

fun exec_fenced ::
    "fenced_request \<Rightarrow> string \<Rightarrow> Fence \<Rightarrow> go_time \<Rightarrow> Server \<Rightarrow> (agent_error, answer) result \<times> Server" where
  "exec_fenced (Prepare ok prev req) lab f t s = answered (\<lambda>_. Done) (prepareGeneration ok prev req lab f t s)"
| "exec_fenced (CheckPrepared g) lab f t s = answered (\<lambda>_. Done) (checkPreparedGeneration g lab f t s)"
| "exec_fenced (ForApply g) lab f t s = answered Transaction (transactionForApply g lab f t s)"
| "exec_fenced (MarkApplying ok g) lab f t s = answered (\<lambda>_. Done) (markGenerationApplying ok g lab f t s)"
| "exec_fenced (MarkApplied ok g) lab f t s = answered (\<lambda>_. Done) (markGenerationApplied ok g lab f t s)"
| "exec_fenced (RecordSolve ok g rec) lab f t s = answered (\<lambda>_. Done) (recordGenerationSolveTransition ok g rec lab f t s)"
| "exec_fenced (RecordDirty ok g ids) lab f t s = answered (\<lambda>_. Done) (recordGenerationDirtyCapture ok g ids lab f t s)"
| "exec_fenced (RecordSemantic ok g ids) lab f t s = answered (\<lambda>_. Done) (recordGenerationSemantic ok g ids lab f t s)"
| "exec_fenced (RecordTouched ok g ids vs known) lab f t s =
     answered (\<lambda>_. Done) (recordGenerationTouched ok g ids vs known lab f t s)"
| "exec_fenced (ForCommit g) lab f t s = answered Transaction (transactionForCommit g lab f t s)"
| "exec_fenced (ForVerify g) lab f t s = answered Transaction (transactionForStateVerify g lab f t s)"
| "exec_fenced (MarkVerified ok g) lab f t s = answered (\<lambda>_. Done) (markStateVerified ok g lab f t s)"
| "exec_fenced (FinishCommitted ok oinv g) lab f t s =
     answered (\<lambda>_. Done) (finishCommittedGeneration ok oinv g lab f t s)"
| "exec_fenced (Finalize ok g) lab f t s = answered (\<lambda>_. Done) (finalizeCommittedGeneration ok g lab f t s)"
| "exec_fenced (FinishRecovered ok g) lab f t s = answered (\<lambda>_. Done) (finishRecoveredGeneration ok g lab f t s)"
| "exec_fenced (FinishDestroyed ok) lab f t s = answered (\<lambda>_. Done) (finishDestroyedLab ok lab f t s)"
| "exec_fenced (Promote ok vs) lab f t s = answered (\<lambda>_. Done) (promoteOverlayReservations ok vs lab f t s)"
| "exec_fenced (Reopen ok g) lab f t s = answered Transaction (reopenCommittedTransaction ok g lab f t s)"
| "exec_fenced (BeginRecovery c ok strategy tot takeover ack g) lab f t s =
     answered Transaction (beginRecovery c ok strategy tot takeover ack g lab f t s)"
| "exec_fenced (ForwardPhase ok ph t' g) lab f t s = answered (\<lambda>_. Done) (markForwardPhase ok ph t' g lab f t s)"
| "exec_fenced (ForwardLoss ok detail g) lab f t s = answered (\<lambda>_. Done) (recordForwardDataLoss ok detail g lab f t s)"
| "exec_fenced (Progress ok target deadline force g) lab f t s =
     answered (\<lambda>_. Done) (recordRecoveryProgress ok target deadline force g lab f t s)"
| "exec_fenced (Heartbeat c ok hard g) lab f t s =
     answered (\<lambda>_. Done) (heartbeatRecoveryProgress c ok hard g lab f t s)"
| "exec_fenced (MarkPhase ok ph failure t' g) lab f t s =
     answered (\<lambda>_. Done) (markTransactionPhase ok ph failure t' g lab f t s)"

text \<open>The others, none of which issues a fence either.\<close>

datatype request =
    Fenced fenced_request string Fence go_time
  | RequireFence bool string Fence go_time go_time
  | LeaseHolder string go_time
  | RenewLease bool LeaseRenewRequest go_time
  | ReleaseLease bool LeaseReleaseRequest go_time
  | Reserve overlay_env OverlayReservationRequest go_time
  | RequireReservations bool "Topology option" Fence go_time
  | ReleaseClaims bool string "vni list"
  | RestoreClaims bool string Fence "vni list"
  | RecordCommit bool bool applyTransaction Wire Topology string go_time
  | RestoreTopology bool string applyTransaction
  | RollbackFirst bool bool string
  | RenewLifetime bool EphemeralRequest go_time
  | DropLifetime bool string
  | StartOperation string string bool go_time
  | ForceOperation string string bool go_time
  | StartRecovery string go_time bool go_time
  | EndOperation string "64 word"
  | TakeHold bool HoldRequest go_time go_time go_time
  | AskHold string go_time
  | RefuseMutation string string go_time
  | RefuseAccess string string go_time
  | SetExempt bool ExemptRequest
  | BeginCollect vni string go_time
  | EndCollect bool vni string
  | BeginRecords string go_time
  | ProtectedLabs bool "string list option" go_time
  | ReleaseStale bool "string fset" duration go_time
  | RepairFailed string string go_time
  | RepairDeferred string string string go_time
  | RepairDone string string
  | PartialWiring string string bool
  | WholeDevice string string
  | StartGrace Topology go_time
  | ForgetState bool string

fun exec :: "request \<Rightarrow> Server \<Rightarrow> Server" where
  "exec (Fenced r lab f t) s = snd (exec_fenced r lab f t s)"
| "exec (RequireFence ok lab f t t') s = snd (requireMutationFence ok lab f t t' s)"
| "exec (LeaseHolder lab t) s = snd (mutationLeaseHolder lab t s)"
| "exec (RenewLease ok req t) s = snd (renewMutationLease ok req t s)"
| "exec (ReleaseLease ok req t) s = snd (releaseMutationLease ok req t s)"
| "exec (Reserve env req t) s = snd (reserveOverlays env req t s)"
| "exec (RequireReservations ok otp f t) s = snd (requireOverlayReservations ok otp f t s)"
| "exec (ReleaseClaims ok lab vs) s = snd (releaseOverlayClaims ok lab vs s)"
| "exec (RestoreClaims ok lab f vs) s = snd (restoreOverlayClaims ok lab f vs s)"
| "exec (RecordCommit okp ok tx w tp owner t) s = snd (record_commit okp ok tx w tp owner t s)"
| "exec (RestoreTopology okp lab tx) s = snd (restoreRecoveredTopology okp lab tx s)"
| "exec (RollbackFirst ok okf lab) s = snd (rollback_first ok okf lab s)"
| "exec (RenewLifetime ok req t) s = snd (renewEphemeralLease ok req t s)"
| "exec (DropLifetime ok lab) s = dropEphemeralLease ok lab s"
| "exec (StartOperation lab kind c t) s = snd (acquireOperation lab kind c t s)"
| "exec (ForceOperation lab kind stale t) s = snd (acquireForcedOperation lab kind stale t s)"
| "exec (StartRecovery lab deadline takeover t) s = snd (acquireRecoveryOperation lab deadline takeover t s)"
| "exec (EndOperation lab n) s = releaseOperation lab n s"
| "exec (TakeHold ok req t1 t2 t3) s = snd (applyHold ok req t1 t2 t3 s)"
| "exec (AskHold lab t) s = snd (heldBy lab t s)"
| "exec (RefuseMutation lab token t) s = snd (refuseMutationIfHeld lab token t s)"
| "exec (RefuseAccess container token t) s = snd (refuseIfHeldByAnother container token t s)"
| "exec (SetExempt ok req) s = snd (setExempt ok req s)"
| "exec (BeginCollect v owner t) s = snd (beginOverlayCollection v owner t s)"
| "exec (EndCollect ok v owner) s = endOverlayCollection ok v owner s"
| "exec (BeginRecords lab t) s = snd (beginLabRecordCollection lab t s)"
| "exec (ProtectedLabs ok listed t) s = snd (gcProtectedLabs ok listed t s)"
| "exec (ReleaseStale ok prot grace t) s = snd (gcReleaseStaleLiveClaims ok prot grace t s)"
| "exec (RepairFailed lab device t) s = snd (repairFailed lab device t s)"
| "exec (RepairDeferred lab device reason t) s = snd (deferSemanticRepair lab device reason t s)"
| "exec (RepairDone lab device) s = repairSucceeded lab device s"
| "exec (PartialWiring lab device advance) s = snd (partialCount lab device advance s)"
| "exec (WholeDevice lab device) s = wholeAgain lab device s"
| "exec (StartGrace tp t) s = beginSemanticConvergenceGrace tp t s"
| "exec (ForgetState ok lab) s = store_forget ok lab s"

section \<open>No request issues a fence\<close>

lemma snd_answered [simp]: "snd (answered h rs) = snd rs"
  by (simp add: answered_def)

lemma answered_refuses: "\<exists>e'. rs = (Inl e', s) \<Longrightarrow> \<exists>e'. answered h rs = (Inl e', s)"
  by (auto simp: answered_def)

lemmas fenced_refusals = prepare.refuses checked.refuses for_apply.refuses applying.refuses applied.refuses
  solve.refuses dirty.refuses semantic.refuses touched.refuses for_commit.refuses for_verify.refuses
  verified.refuses commit.refuses finalize.refuses recovered.refuses destroyed.refuses promote.refuses
  reopen.refuses started.refuses forward.refuses loss.refuses progress.refuses heartbeat.refuses phase.refuses

lemmas fenced_silent = prepare.silent checked.silent for_apply.silent applying.silent applied.silent
  solve.silent dirty.silent semantic.silent touched.silent for_commit.silent for_verify.silent
  verified.silent commit.silent finalize.silent recovered.silent destroyed.silent promote.silent
  reopen.silent started.silent forward.silent loss.silent progress.silent heartbeat.silent phase.silent

text \<open>Every fenced request meets the contract.\<close>

interpretation request_op: fenced_op "exec_fenced r" for r
proof unfold_locales
  show "\<exists>e'. exec_fenced r lab f t s = (Inl e', s)" if "fenceErrorLocked lab f t s = Some e" for lab f t s e
    using that by (cases r; simp only: exec_fenced.simps) (rule answered_refuses, erule fenced_refusals)+
  show "quiet s (snd (exec_fenced r lab f t s))" for lab f t s
    by (cases r) (simp_all add: fenced_silent)
qed

section \<open>What the other requests leave alone\<close>

text \<open>A relation between server states that everything outside the transaction protocol respects:
  the protocol's own records and the high-water marks are the only fields it may depend on, apart
  from leases that go or are renewed and the journal being written.\<close>

locale bystander =
  fixes R :: "Server \<Rightarrow> Server \<Rightarrow> bool"
  assumes refl: "R s s"
    and save: "R s s' \<Longrightarrow> R s (snd (saveCoordinationLocked ok s'))"
    and expire: "R s s' \<Longrightarrow> R s (snd (expireCoordinationLocked t s'))"
    and drop_one: "R s s' \<Longrightarrow> R s (s'\<lparr>mutations := fmdrop lab (mutations s')\<rparr>)"
    and renew_one: "R s s' \<Longrightarrow> fmlookup (mutations s') lab = Some l \<Longrightarrow>
      R s (s'\<lparr>mutations := fmupd lab (l\<lparr>lease_until := u\<rparr>) (mutations s')\<rparr>)"
    and other_file: "R s s' \<Longrightarrow> store s' = Some st \<Longrightarrow> st_coordination st' = st_coordination st \<Longrightarrow>
      R s (s'\<lparr>store := Some st'\<rparr>)"
    and field: "R s s' \<Longrightarrow> R s (s'\<lparr>overlayClaims := a\<rparr>)" "R s s' \<Longrightarrow> R s (s'\<lparr>ephemeral := b\<rparr>)"
      "R s s' \<Longrightarrow> R s (s'\<lparr>gcCollecting := c\<rparr>)" "R s s' \<Longrightarrow> R s (s'\<lparr>ops := d\<rparr>)"
      "R s s' \<Longrightarrow> R s (s'\<lparr>opSequence := e\<rparr>)" "R s s' \<Longrightarrow> R s (s'\<lparr>holds := f\<rparr>)"
      "R s s' \<Longrightarrow> R s (s'\<lparr>repairFails := g\<rparr>)" "R s s' \<Longrightarrow> R s (s'\<lparr>repairNext := h\<rparr>)"
      "R s s' \<Longrightarrow> R s (s'\<lparr>semanticCycles := i\<rparr>)" "R s s' \<Longrightarrow> R s (s'\<lparr>repairTerminal := j\<rparr>)"
      "R s s' \<Longrightarrow> R s (s'\<lparr>semanticGraceUntil := k\<rparr>)" "R s s' \<Longrightarrow> R s (s'\<lparr>exempt := m\<rparr>)"
      "R s s' \<Longrightarrow> R s (s'\<lparr>partial := n\<rparr>)" "R s s' \<Longrightarrow> R s (s'\<lparr>gcSeen := p\<rparr>)"
      "R s s' \<Longrightarrow> R s (s'\<lparr>current := q\<rparr>)" "R s s' \<Longrightarrow> R s (s'\<lparr>modes := r\<rparr>)"
      "R s s' \<Longrightarrow> R s (s'\<lparr>ungraded := v\<rparr>)" "R s s' \<Longrightarrow> R s (s'\<lparr>peers := w\<rparr>)"
begin

lemmas rules [simp] = refl save expire drop_one renew_one other_file field

lemma refuse_R [simp]: "R s s' \<Longrightarrow> R s (snd (refuse ok changed e s'))"
  by (simp add: refuse_def)

lemma lease_R:
  "R s (snd (requireMutationFence ok lab f t t' s))"
  "R s (snd (mutationLeaseHolder lab t s))"
  "R s (snd (releaseMutationLease ok req t s))"
  by (auto simp: requireMutationFence_def mutationLeaseHolder_def releaseMutationLease_def Let_def
      case_prod_unfold simp del: expire_components split: option.splits)

lemma renew_R: "R s (snd (renewMutationLease ok req t s))"
proof (cases "fenceErrorLocked (ren_lab req) (ren_fence req) t (snd (expireCoordinationLocked t s))")
  case None
  then obtain l where "fmlookup (mutations (snd (expireCoordinationLocked t s))) (ren_lab req) = Some l"
    unfolding fenceErrorLocked_None_iff by blast
  then show ?thesis
    using None renew_one [of s "snd (expireCoordinationLocked t s)" "ren_lab req" l]
    by (auto simp: renewMutationLease_def Let_def case_prod_unfold simp del: expire_components)
next
  case (Some e)
  then show ?thesis
    by (simp add: renewMutationLease_def Let_def case_prod_unfold)
qed

lemma rollback_R [simp]: "R s s' \<Longrightarrow> R s (rollbackLegacyAdoptionsLocked env lab adopted before s')"
  by (simp add: rollbackLegacyAdoptionsLocked_def Let_def)

lemma adopt_loop_R [simp]: "R s s' \<Longrightarrow> R s (snd (adopt_loop env lab g before adopted vs s'))"
  by (induction env lab g before adopted vs s' rule: adopt_loop.induct) auto

lemma reserve_accepted_R: "R s s' \<Longrightarrow> R s (snd (reserve_accepted env owners lab f vnis changed s'))"
  by (auto simp: reserve_accepted_def Let_def case_prod_unfold split: sum.splits option.splits)

lemma reserve_R: "R s (snd (reserveOverlays env req t s))"
  by (auto simp: reserveOverlays_def Let_def case_prod_unfold intro!: reserve_accepted_R
      split: sum.splits option.splits)

lemma claims_R:
  "R s (snd (requireOverlayReservations ok otp fc t s))"
  "R s (snd (releaseOverlayClaims ok lab vnis s))"
  "R s (snd (restoreOverlayClaims ok lab fc vnis s))"
  by (auto simp: requireOverlayReservations_def releaseOverlayClaims_def restoreOverlayClaims_def Let_def
      case_prod_unfold split: option.splits)

lemma saveHolds_R [simp]: "R s s' \<Longrightarrow> R s (snd (saveHoldsLocked ok lab t s'))"
  by (auto simp: saveHoldsLocked_def Let_def split: option.splits)

lemma applyHold_R: "R s (snd (applyHold ok req t1 t2 t3 s))"
  by (auto simp: applyHold_def Let_def case_prod_unfold split: option.splits)

lemma live_hold_R [simp]: "R s s' \<Longrightarrow> R s (snd (live_hold lab t s'))"
  by (auto simp: live_hold_def split: option.splits)

lemma hold_readers_R:
  "R s (snd (heldBy lab t s))"
  "R s (snd (refuseMutationIfHeld lab token t s))"
  "R s (snd (refuseIfHeldByAnother container token t s))"
  by (auto simp: heldBy_def refuseMutationIfHeld_def refuseIfHeldByAnother_def Let_def case_prod_unfold
      split: option.splits)

lemma setExempt_R: "R s (snd (setExempt ok req s))"
  by (auto simp: setExempt_def saveExemptLocked_def Let_def case_prod_unfold split: option.splits)

lemma lifetime_R:
  "R s s' \<Longrightarrow> R s (snd (noteEphemeralLease ok lab owner ttl g t s'))"
  "R s s' \<Longrightarrow> R s (snd (renewEphemeralLease ok req t s'))"
  "R s s' \<Longrightarrow> R s (dropEphemeralLease ok lab s')"
  "R s s' \<Longrightarrow> R s (snd (forgetEphemeralLease ok lab s'))"
  by (auto simp: noteEphemeralLease_def renewEphemeralLease_def dropEphemeralLease_def forgetEphemeralLease_def
      Let_def case_prod_unfold split: option.splits)

lemma operations_R:
  "R s (snd (acquireOperation lab kind c t s))"
  "R s (snd (acquireForcedOperation lab kind stale t s))"
  "R s (snd (acquireRecoveryOperation lab deadline takeover t s))"
  "R s s' \<Longrightarrow> R s (releaseOperation lab n s')"
  by (auto simp: acquireOperation_def acquireForcedOperation_def acquireRecoveryOperation_def
      start_operation_def releaseOperation_def Let_def split: option.splits)

lemma collection_R:
  "R s (snd (beginOverlayCollection v owner t s))"
  "R s (endOverlayCollection ok v owner s)"
  "R s (snd (gcProtectedLabs ok listed t s))"
  by (auto simp: beginOverlayCollection_def endOverlayCollection_def gcProtectedLabs_def Let_def
      case_prod_unfold split: option.splits)

lemma records_R: "R s (snd (beginLabRecordCollection lab t s))"
  using operations_R(1) [of s lab "''gc''" False t]
  by (cases "acquireOperation lab ''gc'' False t s")
    (auto simp: beginLabRecordCollection_def operations_R(4) split: sum.splits)

lemma gcEligible_R: "R s s' \<Longrightarrow> R s (snd (gcEligible grace key t s'))"
  by (auto simp: gcEligible_def split: option.splits)

lemma release_stale_claim_R: "R s (snd ns) \<Longrightarrow> R s (snd (release_stale_claim prot grace t v ns))"
  using gcEligible_R [of s "snd ns"]
  by (auto simp: release_stale_claim_def Let_def case_prod_unfold split: option.splits)

lemma fold_release_R: "R s (snd ns) \<Longrightarrow> R s (snd (fold (release_stale_claim prot grace t) vs ns))"
  by (induction vs arbitrary: ns) (simp_all add: release_stale_claim_R)

lemma release_stale_R: "R s (snd (gcReleaseStaleLiveClaims ok prot grace t s))"
  using fold_release_R [of s "(0, s)"]
  by (auto simp: gcReleaseStaleLiveClaims_def Let_def case_prod_unfold)

lemma repair_R:
  "R s (snd (repairFailed lab device t s))"
  "R s (snd (deferSemanticRepair lab device reason t s))"
  "R s (repairSucceeded lab device s)"
  "R s (snd (partialCount lab device advance s))"
  "R s (wholeAgain lab device s)"
  "R s s' \<Longrightarrow> R s (beginSemanticConvergenceGrace tp t s')"
  by (auto simp: repairFailed_def deferSemanticRepair_def repairSucceeded_def partialCount_def wholeAgain_def
      beginSemanticConvergenceGrace_def Let_def)

lemma store_R:
  "R s s' \<Longrightarrow> R s (store_forget ok lab s')"
  "R s s' \<Longrightarrow> R s (put_topology lab raw s')"
  "R s s' \<Longrightarrow> R s (forget_topology lab s')"
  "R s s' \<Longrightarrow> R s (install_topology lab tp how ps s')"
  by (auto simp: store_forget_def put_topology_def forget_topology_def rememberHow_def install_topology_def Let_def
      split: option.splits)

lemma deployment_R:
  "R s (snd (record_commit okp ok tx w tp owner t s))"
  "R s (snd (restoreRecoveredTopology okp lab tx s))"
  by (auto simp: record_commit_def restoreRecoveredTopology_def Let_def store_R lifetime_R
      split: sum.splits option.splits)

lemma rollback_first_R: "R s (snd (rollback_first ok okf lab s))"
  using claims_R(2) [of s ok lab "[]"]
  by (auto simp: rollback_first_def Let_def store_R split: prod.splits sum.splits)

lemma unfenced_R: "\<nexists>fr lab f t. r = Fenced fr lab f t \<Longrightarrow> R s (exec r s)"
  by (cases r)
    (simp_all add: lease_R renew_R reserve_R claims_R deployment_R rollback_first_R lifetime_R operations_R
      applyHold_R hold_readers_R setExempt_R collection_R records_R release_stale_R repair_R store_R)

end

interpretation quietly: bystander quiet
  by unfold_locales (auto simp: quiet_renew_lease)

lemma exec_quiet: "quiet s (exec r s)"
  by (cases "\<exists>fr lab f t. r = Fenced fr lab f t") (auto simp: request_op.silent quietly.unfenced_R)

section \<open>A restart\<close>

lemma loadExemptions_quiet [simp]: "quiet s (loadExemptions lab s') = quiet s s'"
  by (auto simp: loadExemptions_def split: option.splits)

lemma loadHolds_quiet [simp]: "quiet s (loadHolds lab t s') = quiet s s'"
  by (auto simp: loadHolds_def split: option.splits)

lemma rememberHow_quiet [simp]: "quiet s (rememberHow lab m u s') = quiet s s'"
  by (simp add: rememberHow_def)

lemma restoreEphemeral_quiet [simp]:
  "quiet s s' \<Longrightarrow> quiet s (snd (restoreEphemeralLeaseLocked lab ttl g t s'))"
  by (auto simp: restoreEphemeralLeaseLocked_def Let_def split: option.splits)

lemma install_lab_quiet: "quiet s (snd rs) \<Longrightarrow> quiet s (snd (install_lab t mode wt tp rs))"
  by (auto simp: install_lab_def Let_def case_prod_unfold quietly.repair_R split: option.splits)

lemma rehydrate_mode_quiet: "quiet s s' \<Longrightarrow> quiet s (snd (rehydrate_mode okp lab wt s'))"
  by (auto simp: rehydrate_mode_def Let_def quietly.store_R split: sum.splits)

lemma rehydrate_lab_quiet:
  assumes "quiet s (snd rs)"
  shows "quiet s (snd (rehydrate_lab okp t lab rs))"
proof -
  have "quiet s s1" if "rehydrate_mode okp lab wt (snd rs) = (m, s1)" for m s1 wt
    using rehydrate_mode_quiet [OF assms, of okp lab wt] that by simp
  then show ?thesis
    using assms by (auto simp: rehydrate_lab_def install_lab_quiet split: option.splits prod.splits)
qed

lemma rehydrate_quiet: "quiet s (rehydrate okp ok t s)"
proof -
  have "quiet s (snd (fold (rehydrate_lab okp t) labs rs))" if "quiet s (snd rs)" for labs rs
    using that by (induction labs arbitrary: rs) (simp_all add: rehydrate_lab_quiet)
  from this [of "(False, s)"] show ?thesis
    by (auto simp: rehydrate_def Let_def case_prod_unfold split: option.splits)
qed

lemma get_or_merge_fresh: "get_or 0 (merge_high_water fmempty disk) lab = (get_or 0 disk lab :: fence_gen)"
  by (auto simp: merge_high_water_def get_or_def fmlookup_fm_keep word_gt_0 split: option.splits)

text \<open>A restarted agent has no lease, and the high-water marks it had journalled.\<close>

lemma loadCoordination_fresh:
  assumes "s' = loadCoordination ok t t' (fresh_server node st)"
  shows "mutations s' = fmempty"
    and "store s' = None \<longleftrightarrow> st = None"
    and "get_or 0 (fenceHighWater s') lab = get_or 0 (journal_high_water (fresh_server node st)) lab"
    and "get_or 0 (journal_high_water s') lab = get_or 0 (journal_high_water (fresh_server node st)) lab"
proof -
  have keep: "fm_keep P fmempty = fmempty" for P :: "string \<Rightarrow> clusterLease \<Rightarrow> bool"
    by (intro fmap_ext) (simp add: fmlookup_fm_keep)
  show "mutations s' = fmempty" "store s' = None \<longleftrightarrow> st = None"
    "get_or 0 (fenceHighWater s') lab = get_or 0 (journal_high_water (fresh_server node st)) lab"
    unfolding assms
    by (auto simp: loadCoordination_def load_journal_def fresh_server_def journal_high_water_def Let_def
        get_or_merge_fresh keep simp del: not_None_eq split: option.splits)
  show "get_or 0 (journal_high_water s') lab = get_or 0 (journal_high_water (fresh_server node st)) lab"
    unfolding assms
    by (auto simp: loadCoordination_def load_journal_def fresh_server_def Let_def
        journal_high_water_save get_or_merge_fresh split: option.splits)
      (auto simp: journal_high_water_def get_or_merge_fresh)
qed

lemma New_server_restart:
  assumes "s' = New_server ok okp ok' t t' t'' node (Some st)"
  shows "mutations s' = fmempty"
    and "store s' \<noteq> None"
    and "get_or 0 (fenceHighWater s') lab = get_or 0 (journal_high_water (fresh_server node (Some st))) lab"
    and "get_or 0 (journal_high_water s') lab = get_or 0 (journal_high_water (fresh_server node (Some st))) lab"
proof -
  define s1 where "s1 = loadCoordination ok t t' (fresh_server node (Some st))"
  have q: "quiet s1 s'"
    unfolding assms New_server_def s1_def by (simp add: Let_def rehydrate_quiet)
  note l = loadCoordination_fresh [OF s1_def]
  show "mutations s' = fmempty"
    using q l(1) by (intro fmap_ext) (fastforce simp: quiet_def)
  show "store s' \<noteq> None"
    using q l(2) by (auto simp: quiet_def)
  show "get_or 0 (fenceHighWater s') lab = get_or 0 (journal_high_water (fresh_server node (Some st))) lab"
    using q l(3) by (simp add: quiet_def)
  show "get_or 0 (journal_high_water s') lab = get_or 0 (journal_high_water (fresh_server node (Some st))) lab"
    using q l(3,4) [of lab] by (auto simp: quiet_def)
qed

section \<open>Runs of a node\<close>

text \<open>The state of a run: the server, every fence a caller was given (newest first), and the
  number of steps.\<close>

record Sys =
  sys_server :: Server
  sys_issued :: "(string \<times> Fence) list"
  sys_steps :: nat

definition moved :: "Server \<Rightarrow> Sys \<Rightarrow> Sys" where
  "moved s y = y\<lparr>sys_server := s, sys_steps := Suc (sys_steps y)\<rparr>"

definition granted :: "string \<Rightarrow> Fence \<Rightarrow> Server \<Rightarrow> Sys \<Rightarrow> Sys" where
  "granted lab f s y = y\<lparr>sys_server := s, sys_issued := (lab, f) # sys_issued y, sys_steps := Suc (sys_steps y)\<rparr>"

text \<open>One step is a request, one of the two ways to get a fence, or a crash with the start that
  follows it.  What the environment decides is an argument of the step.\<close>

datatype move =
    Request request
  | Acquire bool LeaseAcquireRequest "string option" go_time
  | RecoveryFence bool bool duration string "string option" go_time
  | Crash bool bool bool go_time go_time go_time

fun play1 :: "move \<Rightarrow> Sys \<Rightarrow> Sys" where
  "play1 (Request r) y = moved (exec r (sys_server y)) y"
| "play1 (Acquire ok req token t) y =
     (case acquireMutationLease ok req token t (sys_server y) of
        (Inl _, s) \<Rightarrow> moved s y
      | (Inr resp, s) \<Rightarrow> granted (resp_lab resp) (resp_fence resp) s y)"
| "play1 (RecoveryFence ok ok' limit lab token t) y =
     (case acquireRecoveryFence ok ok' limit lab token t (sys_server y) of
        (Inl _, s) \<Rightarrow> moved s y
      | (Inr f, s) \<Rightarrow> granted lab f s y)"
| "play1 (Crash ok okp ok' t t' t'') y =
     moved (New_server ok okp ok' t t' t'' (cfg_node (sys_server y)) (store (sys_server y))) y"

text \<open>\<open>G\<close> says which steps a run may contain in which state.\<close>

inductive sys_step :: "(move \<Rightarrow> Sys \<Rightarrow> bool) \<Rightarrow> Sys \<Rightarrow> Sys \<Rightarrow> bool"
  for G :: "move \<Rightarrow> Sys \<Rightarrow> bool" where
  step: "G m y \<Longrightarrow> sys_step G y (play1 m y)"

inductive_cases sys_stepE: "sys_step G y y'"

text \<open>A node starts on a disk that holds no journal yet.\<close>

definition sys_init :: "Sys \<Rightarrow> bool" where
  "sys_init y \<longleftrightarrow> sys_issued y = [] \<and> sys_steps y = 0 \<and>
     (\<exists>node st. sys_server y = fresh_server node (Some st) \<and> st_coordination st = None)"

definition play :: "move list \<Rightarrow> Sys \<Rightarrow> Sys" where
  "play ms y = fold play1 ms y"

fun moves_allowed :: "(move \<Rightarrow> Sys \<Rightarrow> bool) \<Rightarrow> move list \<Rightarrow> Sys \<Rightarrow> bool" where
  "moves_allowed G [] y = True"
| "moves_allowed G (m # ms) y = (G m y \<and> moves_allowed G ms (play1 m y))"

lemma play_reach:
  assumes "reach sys_init (sys_step G) y" "moves_allowed G ms y"
  shows "reach sys_init (sys_step G) (play ms y)"
  using assms unfolding play_def
  by (induction ms arbitrary: y) (auto intro: reach_step sys_step.step)

text \<open>A node that starts on an empty disk.\<close>

definition empty_store :: Store where
  "empty_store = \<lparr>st_coordination = None, st_topology = fmempty, st_holds = fmempty, st_exempt = fmempty\<rparr>"

definition first_start :: Sys where
  "first_start = \<lparr>sys_server = fresh_server ''node1'' (Some empty_store), sys_issued = [], sys_steps = 0\<rparr>"

lemma reach_first_start: "reach sys_init (sys_step G) first_start"
proof (rule reach_init)
  have "st_coordination empty_store = None"
    by (simp add: empty_store_def)
  then show "sys_init first_start"
    unfolding sys_init_def first_start_def by auto
qed

text \<open>A first deployment of a lab up to the point where it has been applied.\<close>

definition demo_topology :: Topology where
  "demo_topology = \<lparr>top_name = ''cs'', top_hash = ''h'', top_ephemeral = False, top_ephemeral_ttl = 0,
     top_links = [], top_devices = [(''r1'', ''node1'')]\<rparr>"

definition demo_wire :: Wire where
  "demo_wire = \<lparr>wire_generation = ''g1'', wire_mode = ''platform'', wire_ungraded = 0, wire_ephemeral = False,
     wire_ephemeral_ttl = 0, wire_peers = None, wire_topology = Some demo_topology\<rparr>"

definition demo_prepare :: prepare_request where
  "demo_prepare = \<lparr>pr_expected = [], pr_generation = ''g1'', pr_requested = Encoded demo_wire,
     pr_mode = ''platform'', pr_ungraded = 0, pr_peers = [], pr_prune = False, pr_only = [], pr_proofs = [],
     pr_prestate = None\<rparr>"

definition demo_fence :: Fence where "demo_fence = \<lparr>Token = ''k1'', Generation = 1\<rparr>"

definition deploy_run :: "move list" where
  "deploy_run =
     [Acquire True \<lparr>acq_lab = ''cs'', acq_holder = ''alice'', acq_ttl = 0\<rparr> (Some ''k1'') 0,
      Request (Fenced (Prepare True NoMessage demo_prepare) ''cs'' demo_fence 1),
      Request (Fenced (MarkApplying True ''g1'') ''cs'' demo_fence 2),
      Request (Fenced (MarkApplied True ''g1'') ''cs'' demo_fence 3)]"

definition newer_first :: "(string \<times> Fence) list \<Rightarrow> bool" where
  "newer_first L \<longleftrightarrow>
     sorted_wrt (\<lambda>(lab, f) (lab', f'). lab = lab' \<longrightarrow> Generation f' < Generation f) L"

definition hw :: "Server \<Rightarrow> string \<Rightarrow> fence_gen" where
  "hw s lab = get_or 0 (fenceHighWater s) lab"

definition jhw :: "Server \<Rightarrow> string \<Rightarrow> fence_gen" where
  "jhw s lab = get_or 0 (journal_high_water s) lab"

text \<open>Leases always carry the newest fence given out.  As long as fewer than $2^{64}$ steps were
  made, the marks never wrap, cover every fence given out, and those on disk do too.\<close>

definition leases_newest :: "Sys \<Rightarrow> bool" where
  "leases_newest y \<longleftrightarrow>
     store (sys_server y) \<noteq> None \<and>
     (\<forall>lab l. fmlookup (mutations (sys_server y)) lab = Some l \<longrightarrow>
        map_of (sys_issued y) lab = Some (lease_fence l))"

definition marks_cover :: "Sys \<Rightarrow> bool" where
  "marks_cover y \<longleftrightarrow>
     store (sys_server y) \<noteq> None \<and>
     (sys_steps y < 2 ^ 64 \<longrightarrow>
       (\<forall>lab. unat (hw (sys_server y) lab) \<le> sys_steps y \<and> jhw (sys_server y) lab \<le> hw (sys_server y) lab) \<and>
       (\<forall>(lab, f) \<in> set (sys_issued y). Generation f \<le> jhw (sys_server y) lab) \<and>
       newer_first (sys_issued y))"

lemma quiet_leases_newest: "leases_newest y \<Longrightarrow> quiet (sys_server y) s \<Longrightarrow> leases_newest (moved s y)"
  by (fastforce simp: leases_newest_def moved_def quiet_def)

lemma quiet_marks:
  assumes "quiet s s'"
  shows "hw s' lab = hw s lab" "jhw s' lab = jhw s lab \<or> jhw s' lab = hw s lab"
  using assms by (auto simp: quiet_def hw_def jhw_def)

lemma quiet_marks_cover:
  assumes "marks_cover y" "quiet (sys_server y) s"
  shows "marks_cover (moved s y)"
proof -
  have "unat (hw s lab) \<le> Suc (sys_steps y) \<and> jhw s lab \<le> hw s lab \<and> jhw (sys_server y) lab \<le> jhw s lab"
    if "sys_steps y < 2 ^ 64" for lab
    using assms(1) that quiet_marks [OF assms(2), of lab] by (auto simp: marks_cover_def intro: le_SucI)
  then show ?thesis
    using assms by (auto simp: marks_cover_def moved_def quiet_def intro: order.trans)
qed

lemma issue_effects:
  "mutations (snd (issue_lease lab h tok u s)) =
     fmupd lab \<lparr>lease_holder = h, lease_fence = fst (issue_lease lab h tok u s), lease_until = u\<rparr> (mutations s)"
  "hw (snd (issue_lease lab h tok u s)) lab' = (if lab' = lab then hw s lab + 1 else hw s lab')"
  "Generation (fst (issue_lease lab h tok u s)) = hw s lab + 1"
  "jhw (snd (issue_lease lab h tok u s)) lab' = jhw s lab'"
  by (simp_all add: issue_lease_def hw_def jhw_def get_or_def journal_high_water_def Let_def)

lemma hw_save [simp]: "hw (snd (saveCoordinationLocked ok s)) lab = hw s lab"
  by (simp add: hw_def)

lemma jhw_save: "store s \<noteq> None \<Longrightarrow> jhw (snd (saveCoordinationLocked True s)) lab = hw s lab"
  by (simp add: hw_def jhw_def journal_high_water_save)

lemma drop_lease_effects [simp]:
  "hw (drop_lease lab s) lab' = hw s lab'" "jhw (drop_lease lab s) lab' = jhw s lab'"
  "mutations (drop_lease lab s) = fmdrop lab (mutations s)" "store (drop_lease lab s) = store s"
  by (simp_all add: drop_lease_def hw_def jhw_def journal_high_water_def)

lemma word_bump:
  assumes "unat (w :: 64 word) \<le> n" "Suc n < 2 ^ 64"
  shows "unat (w + 1) = Suc (unat w)" "w < w + 1"
proof -
  have "w \<noteq> -1"
    using assms by (auto simp: unsigned_minus_1_eq_mask mask_eq_exp_minus_1)
  then show "w < w + 1"
    using word_succ_greater [of w w] by simp
  have "1 + w \<noteq> 0"
    using \<open>w \<noteq> -1\<close> by (metis add_eq_0_iff)
  then show "unat (w + 1) = Suc (unat w)"
    using unatSuc [of w] by (simp add: add.commute)
qed

text \<open>A fence that could not be journalled is not handed out, and its lease is dropped.\<close>

lemma lost_marks_cover:
  assumes "marks_cover y" "quiet (sys_server y) s1"
  shows "marks_cover (moved (drop_lease lab (snd (issue_lease lab h tok u s1))) y)" (is "marks_cover (moved ?s y)")
proof -
  have q: "hw s1 lab' = hw (sys_server y) lab'"
    "jhw s1 lab' = jhw (sys_server y) lab' \<or> jhw s1 lab' = hw (sys_server y) lab'" for lab'
    using quiet_marks [OF assms(2)] by auto
  have "unat (hw ?s lab') \<le> Suc (sys_steps y) \<and> jhw ?s lab' \<le> hw ?s lab' \<and> jhw (sys_server y) lab' \<le> jhw ?s lab'"
    if n: "Suc (sys_steps y) < 2 ^ 64" for lab'
  proof -
    have b: "unat (hw (sys_server y) lab') \<le> sys_steps y" "jhw (sys_server y) lab' \<le> hw (sys_server y) lab'"
      using assms(1) n by (auto simp: marks_cover_def)
    show ?thesis
      using b word_bump [OF b(1) n] q [of lab'] by (auto simp: issue_effects)
  qed
  then show ?thesis
    using assms by (auto simp: marks_cover_def moved_def quiet_def intro: order.trans)
qed

lemma granted_marks_cover:
  assumes "marks_cover y" "quiet (sys_server y) s1"
    and f_def: "f = fst (issue_lease lab h tok u s1)"
    and s_def: "s = snd (saveCoordinationLocked True (snd (issue_lease lab h tok u s1)))"
  shows "marks_cover (granted lab f s y)"
proof -
  have st: "store s1 \<noteq> None"
    using assms(1,2) by (auto simp: marks_cover_def quiet_def)
  have new: "hw s lab' = (if lab' = lab then hw (sys_server y) lab + 1 else hw (sys_server y) lab')"
    "jhw s lab' = hw s lab'" "Generation f = hw (sys_server y) lab + 1" for lab'
    using quiet_marks(1) [OF assms(2)] st by (simp_all add: s_def f_def issue_effects jhw_save)
  have bounds: "unat (hw s lab') \<le> Suc (sys_steps y)" "jhw (sys_server y) lab' \<le> hw s lab'"
    "jhw (sys_server y) lab < Generation f"
    if n: "Suc (sys_steps y) < 2 ^ 64" for lab'
  proof -
    have b: "unat (hw (sys_server y) l) \<le> sys_steps y" "jhw (sys_server y) l \<le> hw (sys_server y) l" for l
      using assms(1) n by (auto simp: marks_cover_def)
    note w = word_bump [OF b(1) [of lab] n]
    show "unat (hw s lab') \<le> Suc (sys_steps y)" "jhw (sys_server y) lab' \<le> hw s lab'"
      "jhw (sys_server y) lab < Generation f"
      using b [of lab'] b [of lab] w by (auto simp: new intro: le_SucI order.trans order.strict_trans1)
  qed
  have old: "Generation g \<le> jhw (sys_server y) l"
    if "(l, g) \<in> set (sys_issued y)" "Suc (sys_steps y) < 2 ^ 64" for l g
    using assms(1) that by (auto simp: marks_cover_def)
  have "Generation g \<le> jhw s l" if "(l, g) \<in> set ((lab, f) # sys_issued y)" "Suc (sys_steps y) < 2 ^ 64" for l g
    using that(1) order.trans [OF old [OF _ that(2)] bounds(2) [OF that(2)], of l g]
    by (auto simp: new)
  moreover have "newer_first ((lab, f) # sys_issued y)" if "Suc (sys_steps y) < 2 ^ 64"
    using assms(1) that old bounds(3) [OF that]
    by (auto simp: newer_first_def marks_cover_def intro: order.strict_trans1)
  moreover have "store s \<noteq> None"
    using st by (simp add: s_def)
  ultimately show ?thesis
    using bounds(1) by (auto simp: marks_cover_def granted_def new)
qed

lemma lost_leases_newest:
  assumes "leases_newest y" "quiet (sys_server y) s1"
  shows "leases_newest (moved (drop_lease lab (snd (issue_lease lab h tok u s1))) y)"
  using assms by (fastforce simp: leases_newest_def moved_def quiet_def issue_effects split: if_splits)

lemma granted_leases_newest:
  assumes "leases_newest y" "quiet (sys_server y) s1"
  shows "leases_newest (granted lab (fst (issue_lease lab h tok u s1))
           (snd (saveCoordinationLocked True (snd (issue_lease lab h tok u s1)))) y)"
  using assms by (fastforce simp: leases_newest_def granted_def quiet_def issue_effects split: if_splits)

lemma restart_invariants:
  assumes "s = New_server ok okp ok' t t' t'' (cfg_node (sys_server y)) (store (sys_server y))"
  shows "leases_newest y \<Longrightarrow> leases_newest (moved s y)" "marks_cover y \<Longrightarrow> marks_cover (moved s y)"
proof -
  have "leases_newest (moved s y) \<and> (marks_cover y \<longrightarrow> marks_cover (moved s y))"
    if some: "store (sys_server y) \<noteq> None"
  proof -
    obtain st where st: "store (sys_server y) = Some st"
      using some by auto
    note r = New_server_restart [OF assms [unfolded st]]
    have "jhw s lab = jhw (sys_server y) lab" "hw s lab = jhw (sys_server y) lab" for lab
      using r(3,4) [of lab] st by (simp_all add: jhw_def hw_def journal_high_water_def fresh_server_def)
    moreover have "unat (jhw (sys_server y) lab) \<le> Suc (sys_steps y)"
      if "marks_cover y" "Suc (sys_steps y) < 2 ^ 64" for lab
    proof -
      have "unat (hw (sys_server y) lab) \<le> sys_steps y" "jhw (sys_server y) lab \<le> hw (sys_server y) lab"
        using that by (auto simp: marks_cover_def)
      then show ?thesis
        by (simp add: word_le_nat_alt)
    qed
    ultimately show ?thesis
      using r(1,2) by (auto simp: leases_newest_def marks_cover_def moved_def)
  qed
  then show "leases_newest y \<Longrightarrow> leases_newest (moved s y)" "marks_cover y \<Longrightarrow> marks_cover (moved s y)"
    by (auto simp: leases_newest_def marks_cover_def)
qed

lemma sys_init_invariants: "sys_init y \<Longrightarrow> leases_newest y" "sys_init y \<Longrightarrow> marks_cover y"
  by (auto simp: sys_init_def leases_newest_def marks_cover_def fresh_server_def hw_def jhw_def get_or_def
      journal_high_water_def newer_first_def)

text \<open>The four things a step can do to the fences.\<close>

lemma sys_step_effect:
  assumes "sys_step G y y'"
  obtains (silent) s where "y' = moved s y" "quiet (sys_server y) s"
  | (lost) s1 lab h tok u where "quiet (sys_server y) s1"
      "y' = moved (drop_lease lab (snd (issue_lease lab h tok u s1))) y"
  | (given) s1 lab h tok u where "quiet (sys_server y) s1"
      "y' = granted lab (fst (issue_lease lab h tok u s1))
              (snd (saveCoordinationLocked True (snd (issue_lease lab h tok u s1)))) y"
  | (again) ok okp ok' t t' t'' where
      "y' = moved (New_server ok okp ok' t t' t'' (cfg_node (sys_server y)) (store (sys_server y))) y"
proof -
  obtain m where m: "y' = play1 m y"
    using assms by (auto elim: sys_stepE)
  show thesis
  proof (cases m)
    case (Request r)
    then show thesis
      using m exec_quiet silent by simp
  next
    case (Acquire ok req token t)
    obtain r s where r: "acquireMutationLease ok req token t (sys_server y) = (r, s)"
      by (cases "acquireMutationLease ok req token t (sys_server y)")
    then show thesis
      by (cases rule: acquireMutationLease_cases) (use m Acquire r in \<open>auto intro: silent lost given\<close>)
  next
    case (RecoveryFence ok ok' limit lab token t)
    obtain r s where r: "acquireRecoveryFence ok ok' limit lab token t (sys_server y) = (r, s)"
      by (cases "acquireRecoveryFence ok ok' limit lab token t (sys_server y)")
    then show thesis
      by (cases rule: acquireRecoveryFence_cases) (use m RecoveryFence r in \<open>auto intro: silent lost given\<close>)
  next
    case (Crash ok okp ok' t t' t'')
    then show thesis
      using m again by simp
  qed
qed

interpretation newest: inductive_invariant sys_init "sys_step G" leases_newest for G
proof unfold_locales
  fix y y'
  assume "leases_newest y" "sys_step G y y'"
  from this(2,1) show "leases_newest y'"
    by (cases rule: sys_step_effect)
      (simp_all add: quiet_leases_newest lost_leases_newest granted_leases_newest restart_invariants(1) [OF refl])
qed (rule sys_init_invariants(1))

interpretation marks: inductive_invariant sys_init "sys_step G" marks_cover for G
proof unfold_locales
  fix y y'
  assume "marks_cover y" "sys_step G y y'"
  from this(2,1) show "marks_cover y'"
    by (cases rule: sys_step_effect)
      (simp_all add: quiet_marks_cover lost_marks_cover granted_marks_cover restart_invariants(2) [OF refl])
qed (rule sys_init_invariants(2))

section \<open>Fencing\<close>

definition any_move :: "move \<Rightarrow> Sys \<Rightarrow> bool" where
  "any_move m y \<longleftrightarrow> True"

lemma newer_first_newest:
  assumes "newer_first L" "map_of L lab = Some f" "(lab, g) \<in> set L" "g \<noteq> f"
  shows "Generation g < Generation f"
  using assms by (induction L) (auto simp: newer_first_def split: if_splits)

text \<open>C5: In every state a node can reach, through any sequence of requests, failed disk writes and
  restarts, the only fence it accepts for a lab is the last one it gave out for that lab, and as
  long as fewer than $2^{64}$ steps were made every other fence given out for the lab has a
  smaller generation.\<close>

theorem only_newest_fence_accepted:
  assumes "reach sys_init (sys_step any_move) y"
    and "fenceErrorLocked lab f t (sys_server y) = None"
  shows "map_of (sys_issued y) lab = Some f \<and>
    (sys_steps y < 2 ^ 64 \<longrightarrow>
       (\<forall>g. (lab, g) \<in> set (sys_issued y) \<longrightarrow> g \<noteq> f \<longrightarrow> Generation g < Generation f))"
proof -
  have inv: "leases_newest y" "marks_cover y"
    using assms(1) by (rule newest.inv_reach, rule marks.inv_reach)
  then have "map_of (sys_issued y) lab = Some f"
    using assms(2) by (auto simp: leases_newest_def fenceErrorLocked_None_iff)
  then show ?thesis
    using inv(2) newer_first_newest by (auto simp: marks_cover_def)
qed

definition lease_run :: "move list" where
  "lease_run =
     [Acquire True \<lparr>acq_lab = ''cs'', acq_holder = ''alice'', acq_ttl = 0\<rparr> (Some ''k1'') 0,
      Acquire False \<lparr>acq_lab = ''cs'', acq_holder = ''bob'', acq_ttl = 60\<rparr> (Some ''k2'') (100 * second),
      Crash True True True (200 * second) (200 * second) (200 * second),
      Acquire True \<lparr>acq_lab = ''cs'', acq_holder = ''carol'', acq_ttl = 60\<rparr> (Some ''k3'') (201 * second)]"

theorem only_newest_fence_accepted_witness:
  "reach sys_init (sys_step any_move) (play lease_run first_start) \<and>
   fenceErrorLocked ''cs'' \<lparr>Token = ''k3'', Generation = 2\<rparr> (210 * second)
     (sys_server (play lease_run first_start)) = None \<and>
   map_of (sys_issued (play lease_run first_start)) ''cs'' = Some \<lparr>Token = ''k3'', Generation = 2\<rparr>"
proof -
  have "moves_allowed any_move lease_run first_start"
    by (simp add: lease_run_def any_move_def)
  then have r: "reach sys_init (sys_step any_move) (play lease_run first_start)"
    by (rule play_reach [OF reach_first_start])
  moreover have f: "fenceErrorLocked ''cs'' \<lparr>Token = ''k3'', Generation = 2\<rparr> (210 * second)
      (sys_server (play lease_run first_start)) = None"
    by code_simp
  ultimately show ?thesis
    using only_newest_fence_accepted [OF r f] by simp
qed

text \<open>C8: The generations a node gives out for a lab increase strictly over its whole life, across
  requests, failed writes and restarts, as long as it makes fewer than $2^{64}$ steps.\<close>

theorem fences_increase:
  assumes "reach sys_init (sys_step any_move) y" "sys_steps y < 2 ^ 64"
  shows "newer_first (sys_issued y)"
  using marks.inv_reach [OF assms(1)] assms(2) by (simp add: marks_cover_def)

theorem fences_increase_witness:
  "newer_first (sys_issued (play lease_run first_start)) \<and> length (sys_issued (play lease_run first_start)) = 2"
proof -
  have "moves_allowed any_move lease_run first_start"
    by (simp add: lease_run_def any_move_def)
  then have "reach sys_init (sys_step any_move) (play lease_run first_start)"
    by (rule play_reach [OF reach_first_start])
  moreover have "sys_steps (play lease_run first_start) < 2 ^ 64"
    by (simp add: play_def lease_run_def moved_def granted_def first_start_def split: prod.splits sum.splits)
  moreover have "length (sys_issued (play lease_run first_start)) = 2"
    by code_simp
  ultimately show ?thesis
    using fences_increase by blast
qed

text \<open>C9: A controller whose fence the node does not accept changes nothing: every fenced request is
  refused and leaves the whole server state, in memory and on disk, as it was.\<close>

theorem stale_controller_changes_nothing:
  assumes "fenceErrorLocked lab f t s \<noteq> None"
  shows "\<exists>e. exec_fenced r lab f t s = (Inl e, s)"
  using assms request_op.refuses by fastforce

theorem stale_controller_changes_nothing_witness:
  "\<exists>e. exec_fenced (FinishCommitted True None ''g1'') ''cs'' \<lparr>Token = ''k1'', Generation = 1\<rparr> (210 * second)
     (sys_server (play lease_run first_start)) = (Inl e, sys_server (play lease_run first_start))"
proof -
  have "fenceErrorLocked ''cs'' \<lparr>Token = ''k1'', Generation = 1\<rparr> (210 * second)
      (sys_server (play lease_run first_start)) \<noteq> None"
    by code_simp
  then show ?thesis
    by (rule stale_controller_changes_nothing)
qed

end
