(* ===== verification/Durability.thy ===== *)
theory Durability
  imports Node_System
begin

text \<open>
  What an answer promises about the disk: an acknowledged fenced request is in the journal, a
  committed generation survives a restart, and a transaction interrupted by a crash is taken up
  again afterwards.
\<close>

section \<open>Acknowledged means journalled\<close>

fun throttled :: "fenced_request \<Rightarrow> bool" where
  "throttled (Progress ok target deadline force g) = True"
| "throttled _ = False"

lemmas fenced_durable = prepare.durable applying.durable applied.durable solve.durable dirty.durable
  semantic.durable touched.durable verified.durable commit.durable finalize.durable recovered.durable
  destroyed.durable promote.durable reopen.durable started.durable forward.durable loss.durable
  heartbeat.durable phase.durable

lemma answered_InrE:
  assumes "answered h rs = (Inr a, s')"
  obtains r where "rs = (Inr r, s')" "a = h r"
  using assms by (cases rs; cases "fst rs") (auto simp: answered_def)

lemma snd_fenced_same: "snd k = s \<Longrightarrow> snd (fenced lab f t s k) = s"
  by (simp add: fenced_def split: option.split)

lemma readers_same:
  "snd (checkPreparedGeneration g lab f t s) = s"
  "snd (transactionForApply g lab f t s) = s"
  "snd (transactionForCommit g lab f t s) = s"
  "snd (transactionForStateVerify g lab f t s) = s"
  by (simp_all add: checkPreparedGeneration_def transactionForApply_def transactionForCommit_def
      transactionForStateVerify_def snd_fenced_same split: option.split)

lemma readers_durable:
  "checkPreparedGeneration g lab f t s = (Inr r, s') \<Longrightarrow> persisted s' \<or> s' = s"
  "transactionForApply g lab f t s = (Inr r1, s') \<Longrightarrow> persisted s' \<or> s' = s"
  "transactionForCommit g lab f t s = (Inr r1, s') \<Longrightarrow> persisted s' \<or> s' = s"
  "transactionForStateVerify g lab f t s = (Inr r1, s') \<Longrightarrow> persisted s' \<or> s' = s"
  using readers_same by (metis snd_conv)+


definition deployed :: Server where
  "deployed = sys_server (play deploy_run first_start)"


section \<open>What a start leaves alone\<close>

lemma start_steps_frame [simp]:
  "transactions (loadHolds lab t s) = transactions s" "mutations (loadHolds lab t s) = mutations s"
  "ops (loadHolds lab t s) = ops s" "generations (loadHolds lab t s) = generations s"
  "transactions (loadExemptions lab s) = transactions s" "mutations (loadExemptions lab s) = mutations s"
  "ops (loadExemptions lab s) = ops s" "generations (loadExemptions lab s) = generations s"
  "transactions (put_topology lab raw s) = transactions s" "mutations (put_topology lab raw s) = mutations s"
  "ops (put_topology lab raw s) = ops s" "generations (put_topology lab raw s) = generations s"
  by (auto simp: loadHolds_def loadExemptions_def put_topology_def split: option.splits)

lemma start_updates_frame [simp]:
  "transactions (rememberHow lab m u s) = transactions s" "mutations (rememberHow lab m u s) = mutations s"
  "ops (rememberHow lab m u s) = ops s" "generations (rememberHow lab m u s) = generations s"
  "transactions (beginSemanticConvergenceGrace tp t s) = transactions s"
  "mutations (beginSemanticConvergenceGrace tp t s) = mutations s"
  "ops (beginSemanticConvergenceGrace tp t s) = ops s"
  "generations (beginSemanticConvergenceGrace tp t s) = generations s"
  "transactions (snd (restoreEphemeralLeaseLocked lab ttl g t s)) = transactions s"
  "mutations (snd (restoreEphemeralLeaseLocked lab ttl g t s)) = mutations s"
  "ops (snd (restoreEphemeralLeaseLocked lab ttl g t s)) = ops s"
  "generations (snd (restoreEphemeralLeaseLocked lab ttl g t s)) = generations s"
  by (auto simp: rememberHow_def beginSemanticConvergenceGrace_def restoreEphemeralLeaseLocked_def Let_def
      split: option.splits)

lemma install_lab_frame [simp]:
  "transactions (snd (install_lab t mode wt tp rs)) = transactions (snd rs)"
  "mutations (snd (install_lab t mode wt tp rs)) = mutations (snd rs)"
  "ops (snd (install_lab t mode wt tp rs)) = ops (snd rs)"
  "generations (snd (install_lab t mode wt tp rs)) =
     fmupd (top_name tp) (rehydrated_generation wt tp (get_or no_generation (generations (snd rs)) (top_name tp)))
       (generations (snd rs))"
  by (simp_all add: install_lab_def Let_def case_prod_unfold split: option.split)

lemma rehydrate_mode_frame [simp]:
  "transactions (snd (rehydrate_mode okp lab wt s)) = transactions s"
  "mutations (snd (rehydrate_mode okp lab wt s)) = mutations s"
  "ops (snd (rehydrate_mode okp lab wt s)) = ops s"
  "generations (snd (rehydrate_mode okp lab wt s)) = generations s"
  by (simp_all add: rehydrate_mode_def Let_def split: sum.split)

lemma rehydrate_lab_frame [simp]:
  "transactions (snd (rehydrate_lab okp t lab rs)) = transactions (snd rs)"
  "mutations (snd (rehydrate_lab okp t lab rs)) = mutations (snd rs)"
  "ops (snd (rehydrate_lab okp t lab rs)) = ops (snd rs)"
proof -
  have f: "transactions s1 = transactions (snd rs) \<and> mutations s1 = mutations (snd rs) \<and> ops s1 = ops (snd rs)"
    if "rehydrate_mode okp lab wt (snd rs) = (m, s1)" for wt m s1
    using rehydrate_mode_frame [of okp lab wt "snd rs"] that by simp
  then show "transactions (snd (rehydrate_lab okp t lab rs)) = transactions (snd rs)"
    "mutations (snd (rehydrate_lab okp t lab rs)) = mutations (snd rs)"
    "ops (snd (rehydrate_lab okp t lab rs)) = ops (snd rs)"
    by (auto simp: rehydrate_lab_def split: option.split prod.split)
qed

lemma fold_rehydrate_frame [simp]:
  "transactions (snd (fold (rehydrate_lab okp t) labs rs)) = transactions (snd rs)"
  "mutations (snd (fold (rehydrate_lab okp t) labs rs)) = mutations (snd rs)"
  "ops (snd (fold (rehydrate_lab okp t) labs rs)) = ops (snd rs)"
  by (induction labs arbitrary: rs) simp_all

lemma rehydrate_frame [simp]:
  "transactions (rehydrate okp ok t s) = transactions s"
  "mutations (rehydrate okp ok t s) = mutations s"
  "ops (rehydrate okp ok t s) = ops s"
  by (auto simp: rehydrate_def Let_def case_prod_unfold split: option.splits)

lemma New_server_transactions:
  assumes "st_coordination st = Some d"
  shows "transactions (New_server ok okp ok' t t' t'' node (Some st)) = fmmap (\<lambda>tx. fst (load_transaction tx)) (Transactions d)"
    and "ops (New_server ok okp ok' t t' t'' node (Some st)) = fmempty"
  using assms
  by (simp_all add: New_server_def Let_def loadCoordination_def load_journal_def fresh_server_def)

lemma migrate_mode_same:
  "migrate_desired_mode tx = Inr (tx', c) \<Longrightarrow>
     tx_committed tx' = tx_committed tx \<and> tx_generation tx' = tx_generation tx \<and>
     tx_next_recovery tx' = tx_next_recovery tx"
  "migrate_previous_mode tx = Inr (tx', c) \<Longrightarrow>
     tx_committed tx' = tx_committed tx \<and> tx_generation tx' = tx_generation tx \<and>
     tx_next_recovery tx' = tx_next_recovery tx"
  by (auto simp: migrate_desired_mode_def migrate_previous_mode_def split: option.splits sum.splits if_splits)

lemma migrate_same:
  "migrateLegacyTransactionModes tx = (tx', c, e) \<Longrightarrow>
     tx_committed tx' = tx_committed tx \<and> tx_generation tx' = tx_generation tx \<and>
     tx_next_recovery tx' = tx_next_recovery tx"
  by (auto simp: migrateLegacyTransactionModes_def split: sum.splits dest!: migrate_mode_same)

lemma load_transaction_same [simp]:
  "tx_committed (fst (load_transaction tx)) = tx_committed tx"
  "tx_generation (fst (load_transaction tx)) = tx_generation tx"
  "tx_next_recovery (fst (load_transaction tx)) = tx_next_recovery tx"
  by (auto simp: load_transaction_def Let_def split: prod.split option.split dest!: migrate_same)

text \<open>C12: A transaction that is on disk and was not committed when the agent went down is taken up
  by the recovery loop of the restarted agent, whatever the clock and the further disk writes do,
  once its retry delay has passed.\<close>

theorem interrupted_transaction_resumes:
  assumes "persisted s" "store s \<noteq> None"
    and "fmlookup (transactions s) lab = Some tx" "\<not> tx_committed tx" "tx_next_recovery tx \<le> now"
  shows "lab \<in> set (resumeRecoveries now (New_server ok okp ok' t t' t'' node (store s)))"
proof -
  obtain st where st: "store s = Some st" "st_coordination st = Some (journal_of s)"
    using assms(1,2) by (auto simp: persisted_def)
  let ?s = "New_server ok okp ok' t t' t'' node (Some st)"
  have tx: "fmlookup (transactions ?s) lab = Some (fst (load_transaction tx))"
    unfolding New_server_transactions [OF st(2)] using assms(3) by (simp add: journal_of_def)
  have empty: "mutations ?s = fmempty" "ops ?s = fmempty"
    by (rule New_server_restart(1), rule refl) (rule New_server_transactions(2) [OF st(2)])
  have "resumable now ?s lab (fst (load_transaction tx))"
    using assms(4,5) by (auto simp: resumable_def empty)
  then show ?thesis
    using tx st(1) by (auto simp: resumeRecoveries_def)
qed

theorem interrupted_transaction_resumes_witness:
  "''cs'' \<in> set (resumeRecoveries 9 (New_server True True True 5 6 7 ''node1'' (store deployed)))"
proof -
  obtain tx where "fmlookup (transactions deployed) ''cs'' = Some tx \<and> \<not> tx_committed tx \<and> tx_next_recovery tx \<le> 9"
  proof -
    have "(case fmlookup (transactions deployed) ''cs'' of
        None \<Rightarrow> False | Some tx \<Rightarrow> \<not> tx_committed tx \<and> tx_next_recovery tx \<le> 9)"
      by code_simp
    then show thesis
      using that by (auto split: option.splits)
  qed
  moreover have "persisted deployed" "store deployed \<noteq> None"
    by code_simp+
  ultimately show ?thesis
    using interrupted_transaction_resumes by blast
qed

section \<open>A commit survives a restart\<close>

text \<open>The topology records that name the lab carry the generation.\<close>

definition records_agree :: "string \<Rightarrow> string \<Rightarrow> Server \<Rightarrow> bool" where
  "records_agree lab g s \<longleftrightarrow>
     (\<forall>st key raw w tp. store s = Some st \<longrightarrow> fmlookup (st_topology st) key = Some raw \<longrightarrow>
        unmarshal raw = Some w \<longrightarrow> wire_topology w = Some tp \<longrightarrow> top_name tp = lab \<longrightarrow> wire_generation w = g)"

definition committed_is :: "string \<Rightarrow> string \<Rightarrow> Server \<Rightarrow> bool" where
  "committed_is lab g s \<longleftrightarrow> committed (get_or no_generation (generations s) lab) = g"

lemma records_agree_put:
  assumes "records_agree lab g s"
    and "\<And>tp. wire_topology w = Some tp \<Longrightarrow> top_name tp = lab \<Longrightarrow> wire_generation w = g"
  shows "records_agree lab g (put_topology key (Encoded w) s)"
  using assms by (auto simp: records_agree_def put_topology_def unmarshal_def split: option.splits if_splits)

lemma store_frame [simp]:
  "store (loadHolds lab t s) = store s" "store (loadExemptions lab s) = store s"
  "store (rememberHow lab m u s) = store s" "store (beginSemanticConvergenceGrace tp t s) = store s"
  "store (snd (restoreEphemeralLeaseLocked lab ttl g t s)) = store s"
  by (auto simp: loadHolds_def loadExemptions_def rememberHow_def beginSemanticConvergenceGrace_def
      restoreEphemeralLeaseLocked_def Let_def split: option.splits)

lemma install_lab_store [simp]: "store (snd (install_lab t mode wt tp rs)) = store (snd rs)"
  by (simp add: install_lab_def Let_def case_prod_unfold split: option.split)

lemma rehydrate_mode_agree:
  assumes "records_agree lab g s" "store s = Some st" "fmlookup (st_topology st) key = Some raw"
    and "unmarshal raw = Some wt" "rehydrate_mode okp key wt s = (m, s1)"
  shows "records_agree lab g s1"
    and "m = Some (mode, wt') \<Longrightarrow> wire_topology wt' = Some tp \<Longrightarrow> top_name tp = lab \<Longrightarrow> wire_generation wt' = g"
proof -
  have gen: "wire_generation wt = g" if "wire_topology wt = Some tp" "top_name tp = lab" for tp
    using assms(1-4) that by (auto simp: records_agree_def)
  have "records_agree lab g (put_topology key (Encoded (wt\<lparr>wire_mode := ModePlatform, wire_ungraded := 0\<rparr>)) s)"
    by (rule records_agree_put [OF assms(1)]) (auto simp: gen)
  then show "records_agree lab g s1"
    using assms(1,5) by (auto simp: rehydrate_mode_def Let_def split: sum.splits if_splits)
  show "m = Some (mode, wt') \<Longrightarrow> wire_topology wt' = Some tp \<Longrightarrow> top_name tp = lab \<Longrightarrow> wire_generation wt' = g"
    using assms(5) gen by (auto simp: rehydrate_mode_def Let_def split: sum.splits if_splits)
qed

lemma install_lab_commits:
  assumes "records_agree lab g (snd rs)" "committed_is lab g (snd rs)" "g \<noteq> []"
    and "top_name tp = lab \<Longrightarrow> wire_generation wt = g"
  shows "records_agree lab g (snd (install_lab t m wt tp rs)) \<and> committed_is lab g (snd (install_lab t m wt tp rs))"
  using assms by (auto simp: records_agree_def committed_is_def get_or_def rehydrated_generation_def)

lemma rehydrate_lab_commits:
  assumes "records_agree lab g (snd rs)" "committed_is lab g (snd rs)" "g \<noteq> []"
  shows "records_agree lab g (snd (rehydrate_lab okp t key rs)) \<and> committed_is lab g (snd (rehydrate_lab okp t key rs))"
proof (cases "\<exists>st raw wt. store (snd rs) = Some st \<and> fmlookup (st_topology st) key = Some raw \<and> unmarshal raw = Some wt")
  case False
  then show ?thesis
    using assms by (auto simp: rehydrate_lab_def split: option.split)
next
  case True
  then obtain st raw wt where rec: "store (snd rs) = Some st" "fmlookup (st_topology st) key = Some raw"
      "unmarshal raw = Some wt"
    by blast
  obtain m s1 where m: "rehydrate_mode okp key wt (snd rs) = (m, s1)"
    by (cases "rehydrate_mode okp key wt (snd rs)")
  note agree = rehydrate_mode_agree [OF assms(1) rec m]
  have "committed_is lab g s1"
    using rehydrate_mode_frame(4) [of okp key wt "snd rs"] m assms(2) by (simp add: committed_is_def)
  then show ?thesis
    using install_lab_commits [of lab g "(fst rs, s1)"] agree assms(3)
    by (auto simp: rehydrate_lab_def rec m split: option.split)
qed

lemma rehydrate_commits:
  assumes "records_agree lab g s" "committed_is lab g s" "g \<noteq> []"
  shows "committed_is lab g (rehydrate okp ok t s)"
proof -
  have "records_agree lab g (snd (fold (rehydrate_lab okp t) keys rs)) \<and>
      committed_is lab g (snd (fold (rehydrate_lab okp t) keys rs))"
    if "records_agree lab g (snd rs)" "committed_is lab g (snd rs)" for keys rs
    using that assms(3) by (induction keys arbitrary: rs) (simp_all add: rehydrate_lab_commits)
  from this [of "(False, s)"] show ?thesis
    using assms by (auto simp: rehydrate_def Let_def case_prod_unfold committed_is_def split: option.splits)
qed

lemma loadCoordination_commits:
  assumes "st_coordination st = Some d" "s = loadCoordination ok t t' (fresh_server node (Some st))"
  shows "generations s = Generations d" "store s = Some st' \<Longrightarrow> st_topology st' = st_topology st"
  unfolding assms(2) using assms(1)
  by (auto simp: loadCoordination_def load_journal_def fresh_server_def saveCoordinationLocked_def
      expireCoordinationLocked_def Let_def split: if_splits)



end
