(* ===== verification/Handlers.thy ===== *)
theory Handlers
  imports Node_System
begin

text \<open>
  The request handlers of a node that carry a deployment, \<open>internal/agent/apply_transaction.go\<close> and
  \<open>handleApply\<close> of \<open>agent.go\<close>: prepare, apply, commit and finalize, each the sequence of critical sections its source runs,
  with every early return.

  A handler takes the node's state through those sections.  What it learns from the host in between
  (containers, overlays, student state, the plan's outcome) is the record \<open>host\<close> and its
  extensions; the clock readings and the outcomes of journal writes are numbered in the order the
  handler makes them.  A handler that stops early has run a prefix of its sections.
\<close>

section \<open>Handlers\<close>

subsection \<open>Errors and sequencing\<close>

datatype handler_error =
    HAgent agent_error
  | HNoTopology
  | HModeMismatch
  | HEphemeralMismatch
  | HBadTopology
  | HWrongTarget string
  | HWrongDevices
  | HOtherLab
  | HStoreUnavailable
  | HQuorumUnavailable
  | HHeld string
  | HRecoveryPending string transactionPhase
  | HRecapture string
  | HHost string
  | HNoDurableState
  | HUnknownPhase string
  | HNotTransactional
  | HPlacementMoved
  | HNotPreserved
  | HNoLab
  | HInconsistent string
  | HUnknownStrategy string
  | HMissingVNI vni

type_synonym 'a handler = "Server \<Rightarrow> (handler_error, 'a) result \<times> Server"

definition hret :: "'a \<Rightarrow> 'a handler" where
  "hret a s = (Inr a, s)"

definition hfail :: "handler_error \<Rightarrow> 'a handler" where
  "hfail e s = (Inl e, s)"

definition hbind :: "'a handler \<Rightarrow> ('a \<Rightarrow> 'b handler) \<Rightarrow> 'b handler" where
  "hbind m k s = (case m s of (Inl e, s1) \<Rightarrow> (Inl e, s1) | (Inr a, s1) \<Rightarrow> k a s1)"

definition hread :: "(Server \<Rightarrow> 'a) \<Rightarrow> 'a handler" where
  "hread f s = (Inr (f s), s)"

definition hguard :: "bool \<Rightarrow> handler_error \<Rightarrow> unit handler" where
  "hguard b e = (if b then hret () else hfail e)"

definition hoption :: "handler_error \<Rightarrow> 'a option \<Rightarrow> 'a handler" where
  "hoption e oa = (case oa of None \<Rightarrow> hfail e | Some a \<Rightarrow> hret a)"

definition hresult :: "(agent_error, 'a) result \<Rightarrow> 'a handler" where
  "hresult r = (case r of Inl e \<Rightarrow> hfail (HAgent e) | Inr a \<Rightarrow> hret a)"

text \<open>A critical section of the agent, its error passed on; \<open>hignore\<close> ignores the error, as the
  source does with an assignment to the blank identifier.\<close>

definition hagent :: "(Server \<Rightarrow> (agent_error, 'a) result \<times> Server) \<Rightarrow> 'a handler" where
  "hagent op s = (map_error HAgent (fst (op s)), snd (op s))"

definition hignore :: "(Server \<Rightarrow> (agent_error, 'a) result \<times> Server) \<Rightarrow> unit handler" where
  "hignore op s = (Inr (), snd (op s))"

definition hdo :: "(Server \<Rightarrow> Server) \<Rightarrow> unit handler" where
  "hdo f s = (Inr (), f s)"

text \<open>The deferred release of what a handler acquired.\<close>

definition hfinally :: "'a handler \<Rightarrow> (Server \<Rightarrow> Server) \<Rightarrow> 'a handler" where
  "hfinally m f s = (fst (m s), f (snd (m s)))"

subsection \<open>Requests and responses\<close>

record ApplyRequest =
  ar_hold :: string
  ar_fence :: Fence
  ar_phase :: string
  ar_lab :: string
  ar_target :: string
  ar_assigned :: "string list"
  ar_assignment_known :: bool
  ar_expected :: string
  ar_topology :: "Wire option"
  ar_mode :: string
  ar_ungraded :: int
  ar_ephemeral :: bool
  ar_ephemeral_ttl :: int
  ar_ephemeral_owner :: string
  ar_dry_run :: bool
  ar_peers :: "(string \<times> string) list"
  ar_prune :: bool
  ar_generation :: string
  ar_only :: "string list"
  ar_proofs :: "string list"

record ApplyResponse =
  ap_node :: string
  ap_generation :: string
  ap_phase :: string
  ap_images :: "(string \<times> string) list"
  ap_steps :: int
  ap_failures :: "(string \<times> string) list"
  ap_unproven :: "(string, string) fmap"

definition no_response :: ApplyResponse where
  "no_response = \<lparr>ap_node = [], ap_generation = [], ap_phase = [], ap_images = [], ap_steps = 0,
     ap_failures = [], ap_unproven = fmempty\<rparr>"

text \<open>What every handler reads from outside: the clock at its \<open>n\<close>-th reading and the outcome of
  its \<open>n\<close>-th write.\<close>

record host =
  clk :: "nat \<Rightarrow> go_time"
  disk :: "nat \<Rightarrow> bool"

subsection \<open>Checks\<close>

definition devices_on :: "Topology \<Rightarrow> string \<Rightarrow> string list" where
  "devices_on tp node = map fst (filter (\<lambda>d. snd d = node) (top_devices tp))"

definition validateApplyAssignment :: "ApplyRequest \<Rightarrow> Topology \<Rightarrow> string \<Rightarrow> handler_error option" where
  "validateApplyAssignment req tp node =
     (if \<not> ar_assignment_known req then None
      else if ar_target req \<noteq> node then Some (HWrongTarget (ar_target req))
      else if sort (devices_on tp node) \<noteq> sort (ar_assigned req) then Some HWrongDevices
      else None)"

text \<open>Of a prepared wire only one that rehydrates has devices here; \<open>prepare\<close> refuses the others.\<close>

definition validatePreparedPlacement :: "applyTransaction \<Rightarrow> Topology \<Rightarrow> handler_error option" where
  "validatePreparedPlacement tx tp =
     (case unmarshal (tx_requested tx) of
        None \<Rightarrow> Some HBadTopology
      | Some w \<Rightarrow>
          (case wire_topology w of
             None \<Rightarrow> Some HBadTopology
           | Some want \<Rightarrow>
               let place = map_of (rev (top_devices want)) in
               if length (remdups (map fst (top_devices want))) \<noteq> length (top_devices tp)
                 \<or> list_ex (\<lambda>(id, node). place id \<noteq> Some node) (top_devices tp)
               then Some HPlacementMoved else None))"

definition recoveryMutationRefusal :: "string \<Rightarrow> Server \<Rightarrow> handler_error option" where
  "recoveryMutationRefusal lab s =
     map_option (\<lambda>(g, ph). HRecoveryPending g ph) (ordinaryMaintenanceSuppression lab s)"

definition solvePreservationRequired :: "string \<Rightarrow> string \<Rightarrow> bool \<Rightarrow> bool" where
  "solvePreservationRequired desired previous prune \<longleftrightarrow>
     prune \<and> desired = ModeSolve \<and> canonicalMode previous \<noteq> ModeSolve"

definition transactionWritesReference :: "applyTransaction \<Rightarrow> bool" where
  "transactionWritesReference tx \<longleftrightarrow> tx_mode tx = ModeSolve"

definition solveRecaptureRefusal :: "string \<Rightarrow> string \<Rightarrow> Fence \<Rightarrow> Server \<Rightarrow> handler_error option" where
  "solveRecaptureRefusal lab g f s =
     (case fmlookup (transactions s) lab of
        None \<Rightarrow> None
      | Some tx \<Rightarrow>
          if \<not> transactionWritesReference tx then None
          else if tx_generation tx = g \<and> tx_fence_generation tx = Generation f \<and> tx_phase tx = Prepared
          then None
          else Some (HRecapture (tx_generation tx)))"

definition solveApplyRefusal :: "applyTransaction \<Rightarrow> handler_error option" where
  "solveApplyRefusal tx =
     (if \<not> solvePreservationRequired (tx_mode tx) (tx_previous_mode tx) (tx_prune tx) then None
      else if tx_solve tx \<noteq> None then None
      else Some HNotPreserved)"

text \<open>What the prune of a solve may remove: \<open>Inr None\<close> when it reads its own candidates, as any
  other prune does, \<open>Inr (Some ps)\<close> when it may remove exactly what was preserved.\<close>

definition solvePruneEntitlement ::
    "applyTransaction \<Rightarrow> Topology \<Rightarrow> string \<Rightarrow> string
      \<Rightarrow> (handler_error, OrphanPreservation list option) result" where
  "solvePruneEntitlement tx tp node desired =
     (if \<not> solvePreservationRequired desired (tx_previous_mode tx) (tx_prune tx) then Inr None
      else (case tx_solve tx of
              None \<Rightarrow> Inl HNotPreserved
            | Some r \<Rightarrow>
                if \<not> sv_prune r then Inl HNotPreserved
                else if sv_lab r \<noteq> top_name tp \<or> sv_node r \<noteq> node then Inl HNotPreserved
                else if sv_generation r \<noteq> tx_generation tx \<or> sv_fence r \<noteq> tx_fence_generation tx
                then Inl HNotPreserved
                else if sv_mode r \<noteq> tx_mode tx \<or> sv_ungraded r \<noteq> tx_ungraded tx then Inl HNotPreserved
                else if sv_topology r \<noteq> top_hash tp then Inl HNotPreserved
                else Inr (Some (sv_preserved r))))"

definition hcheck :: "handler_error option \<Rightarrow> unit handler" where
  "hcheck oe = (case oe of None \<Rightarrow> hret () | Some e \<Rightarrow> hfail e)"

definition hcheck_now :: "(Server \<Rightarrow> handler_error option) \<Rightarrow> unit handler" where
  "hcheck_now f s = hcheck (f s) s"

definition hcatch :: "'a handler \<Rightarrow> (handler_error \<Rightarrow> unit handler) \<Rightarrow> 'a handler" where
  "hcatch m k s = (case m s of (Inl e, s1) \<Rightarrow> (Inl e, snd (k e s1)) | r \<Rightarrow> r)"

definition hheld :: "string \<Rightarrow> string \<Rightarrow> go_time \<Rightarrow> unit handler" where
  "hheld lab token t s =
     (case refuseMutationIfHeld lab token t s of
        (None, s1) \<Rightarrow> (Inr (), s1)
      | (Some who, s1) \<Rightarrow> (Inl (HHeld who), s1))"

subsection \<open>Prepare\<close>

text \<open>\<open>ph_replicated\<close> and the two \<open>fail_closed\<close> flags are the durability policy of the requested
  and of the previous topology; the rest is what the host answered.\<close>

record prepare_host = host +
  ph_replicated :: bool
  ph_fail_closed :: bool
  ph_previous_fail_closed :: bool
  ph_store_healthy :: bool
  ph_quorum :: bool
  ph_snapshot :: "transactionInventory option"
  ph_observed :: "(string list \<times> string list \<times> (string, string) fmap) option"
  ph_captured :: bool
  ph_snapshots :: "transactionSnapshot list option"
  ph_contracts :: bool
  ph_orphans :: "OrphanPreservation list option"
  ph_copies_left :: bool

definition admit_wire :: "ApplyRequest \<Rightarrow> (string \<times> Wire \<times> Topology) handler" where
  "admit_wire req =
     hbind (hresult (RequireTransactionMode (ar_mode req))) (\<lambda>mode.
     hbind (hoption HNoTopology (ar_topology req)) (\<lambda>w.
     hbind (hresult (RequireTransactionMode (wire_mode w))) (\<lambda>wmode.
     hbind (hguard (wmode = mode \<and> wire_ungraded w = ar_ungraded req) HModeMismatch) (\<lambda>_.
     hbind (hguard (wire_ephemeral w = ar_ephemeral req) HEphemeralMismatch) (\<lambda>_.
     hbind (hoption HBadTopology (wire_topology w)) (\<lambda>tp.
     hbind (hread cfg_node) (\<lambda>node.
     hbind (hcheck (validateApplyAssignment req tp node)) (\<lambda>_.
     hbind (hguard (ar_lab req = [] \<or> ar_lab req = top_name tp) HOtherLab) (\<lambda>_.
     hret (mode, w, tp))))))))))"

definition admit_prepare :: "prepare_host \<Rightarrow> ApplyRequest \<Rightarrow> Topology \<Rightarrow> unit handler" where
  "admit_prepare h req tp =
     hbind (hcheck_now (\<lambda>s. if ph_replicated h \<and> (store s = None \<or> \<not> ph_store_healthy h) \<and> ph_fail_closed h
                            then Some HStoreUnavailable else None)) (\<lambda>_.
     hbind (hguard (ph_quorum h \<or> \<not> ph_fail_closed h) HQuorumUnavailable) (\<lambda>_.
     hbind (hheld (top_name tp) (ar_hold req) (clk h 0)) (\<lambda>_.
     hbind (hagent (requireMutationFence (disk h 0) (top_name tp) (ar_fence req) (clk h 1) (clk h 2))) (\<lambda>_.
     hbind (hcheck_now (recoveryMutationRefusal (top_name tp))) (\<lambda>_.
     hcheck_now (solveRecaptureRefusal (top_name tp) (ar_generation req) (ar_fence req)))))))"

text \<open>Whether the state the deployment will destroy is safe: nothing runs, nothing that runs is
  touched, or what is touched was captured and replicated.\<close>

definition prestate_safety ::
    "prepare_host \<Rightarrow> transactionInventory \<Rightarrow> Topology option \<Rightarrow> string list \<Rightarrow> bool handler" where
  "prestate_safety h pre previous dirty =
     hbind (hread store) (\<lambda>st.
       if inv_containers pre = [] then hret True
       else if previous = None \<or> st = None then hfail HNoDurableState
       else if dirty = [] \<or> ph_captured h then hret True
       else if ph_previous_fail_closed h then hfail (HHost ''capture'')
       else hret False)"

definition capture_prestate ::
    "prepare_host \<Rightarrow> string
      \<Rightarrow> (transactionInventory \<times> string list \<times> string list \<times> (string, string) fmap) handler" where
  "capture_prestate h lab =
     hbind (hoption (HHost ''snapshot'') (ph_snapshot h)) (\<lambda>snapshot.
     hbind (hread (\<lambda>s. fmlookup (current s) lab)) (\<lambda>previous.
     hbind (if previous = None then hret ([], [], fmempty) else hoption (HHost ''observe'') (ph_observed h))
       (\<lambda>(dirty, semantic, unproven).
     hbind (hret (case previous of None \<Rightarrow> snapshot | Some p \<Rightarrow> snapshot\<lparr>inv_topology_hash := top_hash p\<rparr>)) (\<lambda>pre.
     hbind (prestate_safety h pre previous dirty) (\<lambda>safe.
     hbind (if previous \<noteq> None \<and> safe \<and> dirty \<noteq> [] then hoption (HHost ''manifest'') (ph_snapshots h)
            else hret (inv_snapshots pre)) (\<lambda>snaps.
     hbind (hguard (previous = None \<or> ph_contracts h) (HHost ''contracts'')) (\<lambda>_.
     hret (pre\<lparr>inv_state_safe := safe, inv_snapshots := snaps\<rparr>, dirty, semantic, unproven))))))))"

definition prepare_request_of ::
    "ApplyRequest \<Rightarrow> string \<Rightarrow> Wire \<Rightarrow> transactionInventory \<Rightarrow> prepare_request" where
  "prepare_request_of req mode w pre =
     \<lparr>pr_expected = ar_expected req, pr_generation = ar_generation req, pr_requested = Encoded w,
      pr_mode = mode, pr_ungraded = ar_ungraded req, pr_peers = ar_peers req, pr_prune = ar_prune req,
      pr_only = ar_only req, pr_proofs = ar_proofs req, pr_prestate = Some pre\<rparr>"

definition preserveSolveTransition ::
    "prepare_host \<Rightarrow> Topology \<Rightarrow> applyTransaction \<Rightarrow> Fence \<Rightarrow> go_time \<Rightarrow> solveTransition handler" where
  "preserveSolveTransition h tp tx f t =
     hbind (hoption (HHost ''preserve'') (ph_orphans h)) (\<lambda>preserved.
     hbind (hread store) (\<lambda>st.
     hbind (hguard (st = None \<or> ph_copies_left h \<or> \<not> ph_fail_closed h) (HHost ''replicate'')) (\<lambda>_.
     hbind (hread cfg_node) (\<lambda>node.
     hret \<lparr>sv_lab = top_name tp, sv_node = node, sv_generation = tx_generation tx, sv_fence = Generation f,
           sv_topology = top_hash tp, sv_mode = tx_mode tx, sv_ungraded = tx_ungraded tx,
           sv_prune = tx_prune tx, sv_replicated = (st = None \<or> ph_copies_left h), sv_preserved = preserved,
           sv_recorded = t\<rparr>))))"

definition preserve_orphans :: "prepare_host \<Rightarrow> ApplyRequest \<Rightarrow> string \<Rightarrow> Topology \<Rightarrow> unit handler" where
  "preserve_orphans h req mode tp =
     hbind (hread (\<lambda>s. fmlookup (transactions s) (top_name tp))) (\<lambda>otx.
       case otx of
         None \<Rightarrow> hret ()
       | Some tx \<Rightarrow>
           if \<not> solvePreservationRequired mode (tx_previous_mode tx) (tx_prune tx) then hret ()
           else
             hbind (preserveSolveTransition h tp tx (ar_fence req) (clk h 4)) (\<lambda>r.
             hagent (recordGenerationSolveTransition (disk h 2) (ar_generation req) (Some r)
               (top_name tp) (ar_fence req) (clk h 5))))"

definition handleApplyPrepare :: "prepare_host \<Rightarrow> ApplyRequest \<Rightarrow> ApplyResponse handler" where
  "handleApplyPrepare h req =
     hbind (admit_wire req) (\<lambda>(mode, w, tp).
     hbind (admit_prepare h req tp) (\<lambda>_.
     hbind (capture_prestate h (top_name tp)) (\<lambda>(pre, dirty, semantic, unproven).
     hbind (hread (previous_topology (top_name tp))) (\<lambda>previous.
     hbind (hagent (prepareGeneration (disk h 1) previous (prepare_request_of req mode w pre)
              (top_name tp) (ar_fence req) (clk h 3))) (\<lambda>_.
     hbind (preserve_orphans h req mode tp) (\<lambda>_.
     hbind (hagent (recordGenerationDirtyCapture (disk h 3) (ar_generation req) dirty
              (top_name tp) (ar_fence req) (clk h 6))) (\<lambda>_.
     hbind (hagent (recordGenerationSemantic (disk h 4) (ar_generation req) semantic
              (top_name tp) (ar_fence req) (clk h 7))) (\<lambda>_.
     hbind (hread cfg_node) (\<lambda>node.
     hret (no_response\<lparr>ap_node := node, ap_generation := ar_generation req, ap_phase := ''prepare'',
                       ap_unproven := unproven\<rparr>))))))))))"

subsection \<open>Apply\<close>

record apply_host = host +
  ah_failpoint :: bool
  ah_built :: bool
  ah_created :: "string list"
  ah_vnis :: "vni list"
  ah_executed :: bool
  ah_failures :: "(string \<times> string) list"
  ah_images :: "(string \<times> string) list option"
  ah_dirty :: "string list"
  ah_semantic :: "string list"
  ah_unproven :: "(string, string) fmap"
  ah_steps :: int

definition admit_apply :: "apply_host \<Rightarrow> ApplyRequest \<Rightarrow> Topology handler" where
  "admit_apply h req =
     hbind (hoption HNoTopology (ar_topology req)) (\<lambda>w.
     hbind (hoption HBadTopology (wire_topology w)) (\<lambda>tp.
     hbind (hread cfg_node) (\<lambda>node.
     hbind (hcheck (validateApplyAssignment req tp node)) (\<lambda>_.
     hbind (hheld (top_name tp) (ar_hold req) (clk h 0)) (\<lambda>_.
     hbind (if ar_dry_run req then hret ()
            else
              hbind (hguard (ar_phase req = ''apply'') HNotTransactional) (\<lambda>_.
              hbind (hagent (requireMutationFence (disk h 0) (top_name tp) (ar_fence req) (clk h 1) (clk h 2))) (\<lambda>_.
              hbind (hagent (checkPreparedGeneration (ar_generation req) (top_name tp) (ar_fence req) (clk h 3))) (\<lambda>_.
              hagent (requireOverlayReservations (disk h 1) (Some tp) (ar_fence req) (clk h 4)))))) (\<lambda>_.
     hret tp))))))"

definition transactional :: "ApplyRequest \<Rightarrow> bool" where
  "transactional req \<longleftrightarrow> \<not> ar_dry_run req \<and> ar_phase req = ''apply''"

definition prepared_for_apply :: "apply_host \<Rightarrow> ApplyRequest \<Rightarrow> Topology \<Rightarrow> string \<Rightarrow> unit handler" where
  "prepared_for_apply h req tp mode =
     (if \<not> transactional req then hret ()
      else
        hbind (hagent (transactionForApply (ar_generation req) (top_name tp) (ar_fence req) (clk h 6))) (\<lambda>tx.
        hbind (hcheck (validatePreparedPlacement tx tp)) (\<lambda>_.
        hbind (hresult (RequireTransactionMode (tx_mode tx))) (\<lambda>persisted.
        hbind (hguard (mode = persisted \<and> ar_ungraded req = tx_ungraded tx) HModeMismatch) (\<lambda>_.
        hbind (hcheck (solveApplyRefusal tx)) (\<lambda>_.
        if tx_previous_mode tx = [] then hret ()
        else hbind (hresult (RequireTransactionMode (tx_previous_mode tx))) (\<lambda>_. hret ())))))))"

definition mark_rollback :: "bool \<Rightarrow> go_time \<Rightarrow> go_time \<Rightarrow> string \<Rightarrow> ApplyRequest \<Rightarrow> string \<Rightarrow> unit handler" where
  "mark_rollback ok t t' lab req why =
     hignore (markTransactionPhase ok RollbackNeeded why t' (ar_generation req) lab (ar_fence req) t)"

definition begin_apply :: "apply_host \<Rightarrow> ApplyRequest \<Rightarrow> Topology \<Rightarrow> unit handler" where
  "begin_apply h req tp =
     (if \<not> transactional req then hret ()
      else
        hbind (hagent (markGenerationApplying (disk h 2) (ar_generation req) (top_name tp) (ar_fence req) (clk h 7))) (\<lambda>_.
        if \<not> ah_failpoint h then hret ()
        else hbind (mark_rollback (disk h 3) (clk h 8) (clk h 9) (top_name tp) req ''failpoint'') (\<lambda>_.
             hfail (HHost ''failpoint''))))"

definition execute_plan :: "apply_host \<Rightarrow> ApplyRequest \<Rightarrow> Topology \<Rightarrow> (string \<times> string) list handler" where
  "execute_plan h req tp =
     hbind (hguard (ah_built h) (HHost ''build'')) (\<lambda>_.
     hbind (if transactional req
            then hagent (recordGenerationTouched (disk h 4) (ar_generation req) (ah_created h) (ah_vnis h) True
                   (top_name tp) (ar_fence req) (clk h 10))
            else hret ()) (\<lambda>_.
     hbind (if ah_executed h then hret ()
            else hbind (if transactional req
                        then mark_rollback (disk h 5) (clk h 11) (clk h 12) (top_name tp) req
                               ''forward apply execution failed''
                        else hret ()) (\<lambda>_. hfail (HHost ''execute''))) (\<lambda>_.
     if ar_dry_run req then hret []
     else
       (case ah_images h of
          Some digests \<Rightarrow> hret digests
        | None \<Rightarrow>
            hbind (if ar_phase req = ''apply''
                   then mark_rollback (disk h 5) (clk h 11) (clk h 12) (top_name tp) req
                          ''post-apply image verification failed''
                   else hret ()) (\<lambda>_. hfail (HHost ''images''))))))"

text \<open>The end of the apply phase: what the plan touched is journalled, then the outcome.\<close>

definition record_apply :: "apply_host \<Rightarrow> ApplyRequest \<Rightarrow> Topology \<Rightarrow> unit handler" where
  "record_apply h req tp =
     hbind (hagent (recordGenerationDirtyCapture (disk h 6) (ar_generation req) (ah_dirty h)
              (top_name tp) (ar_fence req) (clk h 13))) (\<lambda>_.
     hbind (hagent (recordGenerationSemantic (disk h 7) (ar_generation req) (ah_semantic h)
              (top_name tp) (ar_fence req) (clk h 14))) (\<lambda>_.
     if ah_failures h \<noteq> []
     then mark_rollback (disk h 8) (clk h 15) (clk h 16) (top_name tp) req ''forward apply failed''
     else hagent (markGenerationApplied (disk h 8) (ar_generation req) (top_name tp) (ar_fence req) (clk h 15))))"

text \<open>Outside a transaction only a dry run comes this far, and what remains of the handler for one
  is the peer map it keeps.\<close>

definition keep_peers :: "string \<Rightarrow> (string \<times> string) list \<Rightarrow> Server \<Rightarrow> Server" where
  "keep_peers lab ps s = s\<lparr>peers := fmupd lab ps (peers s)\<rparr>"

definition run_apply :: "apply_host \<Rightarrow> ApplyRequest \<Rightarrow> Topology \<Rightarrow> ApplyResponse handler" where
  "run_apply h req tp =
     hbind (hresult (RequireTransactionMode (ar_mode req))) (\<lambda>mode.
     hbind (prepared_for_apply h req tp mode) (\<lambda>_.
     hbind (begin_apply h req tp) (\<lambda>_.
     hbind (execute_plan h req tp) (\<lambda>digests.
     hbind (if ar_phase req = ''apply'' then record_apply h req tp
            else hdo (keep_peers (top_name tp) (ar_peers req))) (\<lambda>_.
     hbind (hread cfg_node) (\<lambda>node.
     hret (no_response\<lparr>ap_node := node, ap_images := digests, ap_steps := ah_steps h,
             ap_failures := ah_failures h, ap_unproven := ah_unproven h\<rparr>)))))))"

definition applyPhase :: "apply_host \<Rightarrow> ApplyRequest \<Rightarrow> ApplyResponse handler" where
  "applyPhase h req =
     hbind (admit_apply h req) (\<lambda>tp.
     hbind (hagent (acquireOperation (top_name tp) ''apply'' True (clk h 5))) (\<lambda>n.
     hfinally (run_apply h req tp) (releaseOperation (top_name tp) n)))"

subsection \<open>Commit and finalize\<close>

record commit_host = host +
  ch_fail_closed :: bool
  ch_captured :: bool
  ch_semantic :: "string list"
  ch_semantic_ok :: bool
  ch_overlays_ok :: bool
  ch_known_ok :: bool
  ch_failpoint :: "string \<Rightarrow> bool"
  ch_pruned :: "string option"
  ch_overlays_pruned :: "string option"
  ch_alive :: "nat \<Rightarrow> bool"
  ch_observed :: "nat \<Rightarrow> (transactionInventory \<times> transactionInventory) option"
  ch_repaired :: "nat \<Rightarrow> bool"
  ch_owner :: string
  ch_unproven :: "(string, string) fmap"

fun merge_containers ::
    "(string \<Rightarrow> transactionContainer option) \<Rightarrow> string list \<Rightarrow> transactionContainer list
      \<Rightarrow> (transactionContainer list \<times> string list) option" where
  "merge_containers desired seen [] = Some ([], seen)"
| "merge_containers desired seen (c # cs) =
     (case desired (tc_device c) of
        None \<Rightarrow> map_option (\<lambda>(out, seen'). (c # out, seen')) (merge_containers desired seen cs)
      | Some want \<Rightarrow>
          if tc_device c \<in> set seen \<or> tc_name c \<noteq> tc_name want \<or> tc_spec c \<noteq> tc_spec want then None
          else map_option (\<lambda>(out, seen'). (want # out, seen'))
                 (merge_containers desired (tc_device c # seen) cs))"

definition mergePreservedInventory ::
    "transactionInventory \<Rightarrow> transactionInventory \<Rightarrow> (handler_error, transactionInventory) result" where
  "mergePreservedInventory expected actual =
     (let desired = map_of (rev (map (\<lambda>c. (tc_device c, c)) (inv_containers expected))) in
      case merge_containers desired [] (inv_containers actual) of
        None \<Rightarrow> Inl (HHost ''inventory'')
      | Some (out, seen) \<Rightarrow>
          if list_ex (\<lambda>c. tc_device c \<notin> set seen) (inv_containers expected) then Inl (HHost ''inventory'')
          else (case filter (\<lambda>v. v \<notin> set (inv_vnis actual)) (inv_vnis expected) of
                  v # _ \<Rightarrow> Inl (HMissingVNI v)
                | [] \<Rightarrow> Inr (actual\<lparr>inv_generation := inv_generation expected,
                              inv_topology_hash := inv_topology_hash expected, inv_containers := out\<rparr>)))"

definition is_missing_vni :: "handler_error \<Rightarrow> bool" where
  "is_missing_vni e = (case e of HMissingVNI _ \<Rightarrow> True | _ \<Rightarrow> False)"

fun retry_missing ::
    "(nat \<Rightarrow> bool) \<Rightarrow> (nat \<Rightarrow> (handler_error, 'a) result) \<Rightarrow> (nat \<Rightarrow> bool) \<Rightarrow> nat \<Rightarrow> nat
      \<Rightarrow> (handler_error, 'a) result" where
  "retry_missing alive verify repair 0 i = Inl (HHost ''context'')"
| "retry_missing alive verify repair (Suc left) i =
     (if \<not> alive i then Inl (HHost ''context'')
      else (case verify i of
              Inr a \<Rightarrow> Inr a
            | Inl e \<Rightarrow>
                if \<not> is_missing_vni e \<or> left = 0 then Inl e
                else if \<not> repair i then Inl e
                else retry_missing alive verify repair left (Suc i)))"

definition retryMissingDesiredVNI ::
    "nat \<Rightarrow> (nat \<Rightarrow> bool) \<Rightarrow> (nat \<Rightarrow> (handler_error, 'a) result) \<Rightarrow> (nat \<Rightarrow> bool)
      \<Rightarrow> (handler_error, 'a) result" where
  "retryMissingDesiredVNI attempts alive verify repair = retry_missing alive verify repair (max 1 attempts) 0"

text \<open>The inventory the commit records, next to the one it observed.\<close>

definition observe_commit ::
    "commit_host \<Rightarrow> applyTransaction \<Rightarrow> nat \<Rightarrow> (handler_error, transactionInventory \<times> transactionInventory) result" where
  "observe_commit h tx i =
     (case ch_observed h i of
        None \<Rightarrow> Inl (HHost ''snapshot'')
      | Some (actual, expected) \<Rightarrow>
          if tx_prune tx then Inr (actual, expected)
          else (case mergePreservedInventory expected actual of
                  Inl e \<Rightarrow> Inl e
                | Inr merged \<Rightarrow> Inr (actual, merged)))"

definition prune_stage ::
    "commit_host \<Rightarrow> applyTransaction \<Rightarrow> Topology \<Rightarrow> string \<Rightarrow> ((string \<times> string) list \<times> bool) handler" where
  "prune_stage h tx tp desired =
     (if \<not> tx_prune tx then hret ([], False)
      else
        hbind (hguard (\<not> ch_failpoint h ''prune'') (HHost ''failpoint'')) (\<lambda>_.
        hbind (hread cfg_node) (\<lambda>node.
          case solvePruneEntitlement tx tp node desired of
            Inl _ \<Rightarrow> hret ([(''prune'', ''entitlement'')], True)
          | Inr _ \<Rightarrow>
              hret ((case ch_pruned h of None \<Rightarrow> [] | Some e \<Rightarrow> [(''prune'', e)])
                    @ (case ch_overlays_pruned h of None \<Rightarrow> [] | Some e \<Rightarrow> [(''prune'', e)]), False))))"

definition promote_stage ::
    "commit_host \<Rightarrow> Topology \<Rightarrow> Fence \<Rightarrow> (string \<times> string) list handler" where
  "promote_stage h tp f s =
     (let vnis = overlayVNIsOnNode tp (cfg_node s) in
      if vnis = [] then (Inr [], s)
      else (case promoteOverlayReservations (disk h 2) vnis (top_name tp) f (clk h 4) s of
              (Inl _, s1) \<Rightarrow> (Inr [(''overlay'', ''promote'')], s1)
            | (Inr _, s1) \<Rightarrow> (Inr [], s1)))"

definition verify_commit :: "commit_host \<Rightarrow> applyTransaction \<Rightarrow> unit handler" where
  "verify_commit h tx =
     hbind (hread store) (\<lambda>st.
     hbind (hguard (st = None \<or> ch_captured h \<or> \<not> ch_fail_closed h) (HHost ''capture'')) (\<lambda>_.
     hbind (hguard (tx_forward_ack tx \<or> ch_semantic h = [] \<or> ch_semantic_ok h) (HHost ''semantics'')) (\<lambda>_.
     hbind (hguard (ch_overlays_ok h) (HHost ''overlays'')) (\<lambda>_.
     hguard (ch_known_ok h) (HHost ''student state'')))))"

definition finish_commit :: "commit_host \<Rightarrow> applyTransaction \<Rightarrow> Topology \<Rightarrow> Fence \<Rightarrow> unit handler" where
  "finish_commit h tx tp f =
     hbind (case retryMissingDesiredVNI 3 (ch_alive h) (observe_commit h tx) (ch_repaired h) of
              Inl e \<Rightarrow> hfail e | Inr r \<Rightarrow> hret r) (\<lambda>(actual, inventory).
     hbind (hcheck_now (\<lambda>s. case validateInventoryLineage (top_name tp) inventory (tx_generation tx) s of
                              Inl e \<Rightarrow> Some (HAgent e) | Inr _ \<Rightarrow> None)) (\<lambda>_.
     hbind (hguard (inventoryMatchesCommitted inventory actual) (HHost ''inventory'')) (\<lambda>_.
     hbind (hguard (\<not> ch_failpoint h ''commit'') (HHost ''failpoint'')) (\<lambda>_.
     hbind (hagent (finishCommittedGeneration (disk h 3) (Some inventory) (tx_generation tx)
              (top_name tp) f (clk h 5))) (\<lambda>_.
     hdo (beginSemanticConvergenceGrace tp (clk h 6)))))))"

definition commitAppliedTopology ::
    "commit_host \<Rightarrow> Topology \<Rightarrow> Wire \<Rightarrow> Fence \<Rightarrow> applyTransaction \<Rightarrow> ApplyResponse handler" where
  "commitAppliedTopology h tp w f tx =
     hbind (hresult (RequireTransactionMode (tx_mode tx))) (\<lambda>desired.
     hbind (hagent (record_commit (disk h 0) (disk h 1) tx w tp (ch_owner h) (clk h 3))) (\<lambda>_.
     hbind (verify_commit h tx) (\<lambda>_.
     hbind (hread cfg_node) (\<lambda>node.
     hbind (prune_stage h tx tp desired) (\<lambda>(pruneFailures, stopped).
       if stopped
       then hret (no_response\<lparr>ap_node := node, ap_generation := tx_generation tx, ap_phase := ''commit'',
                              ap_failures := pruneFailures\<rparr>)
       else
         hbind (promote_stage h tp f) (\<lambda>overlayFailures.
           if pruneFailures @ overlayFailures \<noteq> []
           then hret (no_response\<lparr>ap_node := node, ap_generation := tx_generation tx, ap_phase := ''commit'',
                                  ap_failures := pruneFailures @ overlayFailures\<rparr>)
           else
             hbind (finish_commit h tx tp f) (\<lambda>_.
             hret (no_response\<lparr>ap_node := node, ap_generation := tx_generation tx, ap_phase := ''commit'',
                               ap_unproven := ch_unproven h\<rparr>))))))))"

definition lab_of :: "ApplyRequest \<Rightarrow> string" where
  "lab_of req =
     (if ar_lab req \<noteq> [] then ar_lab req
      else (case ar_topology req of
              None \<Rightarrow> []
            | Some w \<Rightarrow> (case wire_topology w of None \<Rightarrow> [] | Some tp \<Rightarrow> top_name tp)))"

definition commit_prepared ::
    "commit_host \<Rightarrow> ApplyRequest \<Rightarrow> string \<Rightarrow> Topology \<Rightarrow> Wire \<Rightarrow> applyTransaction \<Rightarrow> ApplyResponse handler" where
  "commit_prepared h req lab tp w tx =
     (if tx_committed tx
      then hbind (hread cfg_node) (\<lambda>node.
           hret (no_response\<lparr>ap_node := node, ap_generation := tx_generation tx, ap_phase := ''commit''\<rparr>))
      else
        hbind (hcatch (commitAppliedTopology h tp w (ar_fence req) tx)
                 (\<lambda>_. mark_rollback (disk h 4) (clk h 7) (clk h 8) lab req ''commit failed'')) (\<lambda>resp.
        hbind (if ap_failures resp \<noteq> []
               then mark_rollback (disk h 4) (clk h 7) (clk h 8) lab req ''commit reported failures''
               else hret ()) (\<lambda>_.
        hret resp)))"

definition handleApplyCommit :: "commit_host \<Rightarrow> ApplyRequest \<Rightarrow> ApplyResponse handler" where
  "handleApplyCommit h req =
     hbind (hguard (lab_of req \<noteq> []) HNoLab) (\<lambda>_.
     hbind (hheld (lab_of req) (ar_hold req) (clk h 0)) (\<lambda>_.
     hbind (hagent (transactionForCommit (ar_generation req) (lab_of req) (ar_fence req) (clk h 1))) (\<lambda>tx.
     hbind (hoption HBadTopology (unmarshal (tx_requested tx))) (\<lambda>w.
     hbind (hoption HBadTopology (wire_topology w)) (\<lambda>tp.
     hbind (hread cfg_node) (\<lambda>node.
     hbind (hcheck (validateApplyAssignment req tp node)) (\<lambda>_.
     hbind (hguard (top_name tp = lab_of req) HOtherLab) (\<lambda>_.
     hbind (hagent (acquireOperation (lab_of req) ''commit'' False (clk h 2))) (\<lambda>_.
     hfinally (commit_prepared h req (lab_of req) tp w tx) (release_lab (lab_of req)))))))))))"

definition handleApplyFinalize :: "host \<Rightarrow> ApplyRequest \<Rightarrow> ApplyResponse handler" where
  "handleApplyFinalize h req =
     hbind (hguard (lab_of req \<noteq> []) HNoLab) (\<lambda>_.
     hbind (hagent (finalizeCommittedGeneration (disk h 0) (ar_generation req) (lab_of req) (ar_fence req) (clk h 0))) (\<lambda>_.
     hbind (hread cfg_node) (\<lambda>node.
     hret (no_response\<lparr>ap_node := node, ap_generation := ar_generation req, ap_phase := ''finalize''\<rparr>))))"

subsection \<open>Verifying restored state\<close>

text \<open>\<open>vh_restored\<close> tells of which devices the restored state matches its proof.\<close>

record verify_host = host +
  vh_restored :: "string \<Rightarrow> bool"

definition handleStateVerify :: "verify_host \<Rightarrow> string \<Rightarrow> Fence \<Rightarrow> string \<Rightarrow> unit handler" where
  "handleStateVerify h lab f g =
     hbind (hguard (lab \<noteq> [] \<and> g \<noteq> []) HNoLab) (\<lambda>_.
     hbind (hagent (transactionForStateVerify g lab f (clk h 0))) (\<lambda>tx.
     hbind (hoption HBadTopology (unmarshal (tx_requested tx))) (\<lambda>w.
     hbind (hoption HBadTopology (wire_topology w)) (\<lambda>tp.
     hbind (hguard (list_all (\<lambda>d. d \<in> fst ` set (top_devices tp) \<and> vh_restored h d) (tx_state_proofs tx))
              (HHost ''restored state'')) (\<lambda>_.
     hagent (markStateVerified (disk h 0) g lab f (clk h 1)))))))"

end
