(* ===== verification/Recover_Handlers.thy ===== *)
theory Recover_Handlers
  imports Handlers
begin

text \<open>
  The recovery of a transaction as the node's handlers run it, \<open>internal/agent/recovery.go\<close>: the
  status a node reports, the migration of a legacy inventory, a rollback through its phases, and
  the forward recovery of the recorded deployment.

  The heartbeats of a phase are taken before its body; what the host did in a phase is \<open>rp_works\<close>.
  Readings of the status whose result the source drops are left out where another one follows.
\<close>

section \<open>Status\<close>

definition phase_name :: "transactionPhase \<Rightarrow> string" where
  "phase_name ph =
     (case ph of
        NoPhase \<Rightarrow> []
      | Prepared \<Rightarrow> ''prepared''
      | Applying \<Rightarrow> ''applying''
      | Applied \<Rightarrow> ''applied''
      | RollbackNeeded \<Rightarrow> ''rollback_needed''
      | Recovering \<Rightarrow> ''recovering''
      | RollbackFailed \<Rightarrow> ''rollback_failed''
      | Committed \<Rightarrow> ''committed'')"

record RecoveryStatus =
  rs_lab :: string
  rs_phase :: string
  rs_generation :: string
  rs_previous :: string
  rs_mode :: string
  rs_ungraded :: int
  rs_previous_mode :: string
  rs_previous_ungraded :: int
  rs_owner :: string
  rs_strategy :: string
  rs_started :: go_time
  rs_progress :: go_time
  rs_deadline :: go_time
  rs_total :: go_time
  rs_lease_expires :: go_time
  rs_target :: string
  rs_takeover :: bool
  rs_pending :: bool
  rs_forward_ack :: bool
  rs_forward_phase :: string
  rs_loss :: "string list"
  rs_expected_containers :: nat
  rs_observed_containers :: nat
  rs_expected_vnis :: nat
  rs_observed_vnis :: nat
  rs_expected_bindings :: nat
  rs_observed_bindings :: nat
  rs_expected_trunks :: nat
  rs_observed_trunks :: nat
  rs_consistent :: bool
  rs_attempts :: int
  rs_error :: string
  rs_allowed :: "string list"

definition status_of :: "string \<Rightarrow> string \<Rightarrow> RecoveryStatus" where
  "status_of lab phase =
     \<lparr>rs_lab = lab, rs_phase = phase, rs_generation = [], rs_previous = [], rs_mode = [], rs_ungraded = 0,
      rs_previous_mode = [], rs_previous_ungraded = 0, rs_owner = [], rs_strategy = [], rs_started = 0,
      rs_progress = 0, rs_deadline = 0, rs_total = 0, rs_lease_expires = 0, rs_target = [],
      rs_takeover = False, rs_pending = False, rs_forward_ack = False, rs_forward_phase = [], rs_loss = [],
      rs_expected_containers = 0, rs_observed_containers = 0, rs_expected_vnis = 0, rs_observed_vnis = 0,
      rs_expected_bindings = 0, rs_observed_bindings = 0, rs_expected_trunks = 0, rs_observed_trunks = 0,
      rs_consistent = False, rs_attempts = 0, rs_error = [], rs_allowed = []\<rparr>"

text \<open>What reading a status meets on the host: the observed inventory, and for a legacy record
  the bindings the topology expects, the live ones, and whether a repair of them succeeded.\<close>

record status_host = host +
  sh_observed :: "transactionInventory option"
  sh_expected :: "(LogicalBinding list \<times> PhysicalTrunk list) option"
  sh_live :: "transactionInventory option"
  sh_repaired :: "transactionInventory option"

subsection \<open>Migration of a legacy inventory\<close>

definition canMigrateLegacyCommitted :: "string \<Rightarrow> Server \<Rightarrow> bool" where
  "canMigrateLegacyCommitted lab s \<longleftrightarrow>
     fmlookup (current s) lab \<noteq> None
     \<or> (case store s of None \<Rightarrow> False | Some st \<Rightarrow> fmlookup (st_topology st) lab \<noteq> None)"

definition bindingVNIs :: "LogicalBinding list \<Rightarrow> vni list" where
  "bindingVNIs bs = sort (remdups (filter (\<lambda>v. v \<noteq> 0) (map lb_vni bs)))"

definition upgraded_inventory ::
    "transactionInventory \<Rightarrow> LogicalBinding list \<times> PhysicalTrunk list \<Rightarrow> transactionInventory" where
  "upgraded_inventory old e =
     old\<lparr>inv_schema := overlayInventorySchema, inv_bindings := fst e, inv_trunks := snd e,
       inv_vnis := bindingVNIs (fst e)\<rparr>"

text \<open>Replacing the recorded inventory, shared by the migration and by an overlay reconciliation.  A
  committed transaction of the same generation goes with it.\<close>

definition replace_inventory ::
    "bool \<Rightarrow> string \<Rightarrow> transactionInventory \<Rightarrow> Server \<Rightarrow> (agent_error, unit) result \<times> Server" where
  "replace_inventory ok lab iv s =
     (let state = get_or no_generation (generations s) lab;
          otx = fmlookup (transactions s) lab;
          s1 = s\<lparr>inventories := fmupd lab iv (inventories s)\<rparr>;
          s2 = (case otx of
                  None \<Rightarrow> s1
                | Some tx \<Rightarrow>
                    if tx_committed tx \<and> tx_generation tx = inv_generation iv
                    then s1\<lparr>transactions := fmdrop lab (transactions s1),
                            generations := (if prepared state = tx_generation tx
                                            then fmupd lab (state\<lparr>prepared := []\<rparr>) (generations s1)
                                            else generations s1)\<rparr>
                    else s1);
          (saved, s3) = saveCoordinationLocked ok s2
      in if saved then (Inr (), s3)
         else (Inl NotPersisted,
               s3\<lparr>inventories := restore_entry lab (fmlookup (inventories s) lab) (inventories s3),
                  transactions := restore_entry lab otx (transactions s3),
                  generations := fmupd lab state (generations s3)\<rparr>))"

definition migrateLegacyCommittedInventory ::
    "status_host \<Rightarrow> string \<Rightarrow> transactionInventory \<Rightarrow> transactionInventory handler" where
  "migrateLegacyCommittedInventory h lab old =
     hbind (hread (recorded_topology lab)) (\<lambda>otp.
     hbind (hoption HBadTopology otp) (\<lambda>_.
     hbind (hoption (HHost ''bindings'') (sh_expected h)) (\<lambda>expected.
     hbind (hoption (HHost ''snapshot'') (sh_live h)) (\<lambda>got.
     hbind (hguard (inv_schema got \<ge> overlayInventorySchema) (HHost ''schema'')) (\<lambda>_.
     hbind (if inventoryMatches (upgraded_inventory old expected) got then hret ()
            else hbind (hoption (HHost ''repair'') (sh_repaired h)) (\<lambda>again.
                 hguard (inventoryMatches (upgraded_inventory old expected) again) (HHost ''repair''))) (\<lambda>_.
     hbind (hread (\<lambda>s. fmlookup (inventories s) lab)) (\<lambda>now.
       case now of
         None \<Rightarrow> hfail (HHost ''disappeared'')
       | Some cur \<Rightarrow>
           if inv_schema cur \<ge> overlayInventorySchema then hret cur
           else hbind (hagent (replace_inventory (disk h 0) lab (upgraded_inventory old expected))) (\<lambda>_.
                hret (upgraded_inventory old expected)))))))))"

subsection \<open>Reading the status\<close>

definition transaction_status ::
    "string \<Rightarrow> applyTransaction \<Rightarrow> clusterLease option \<Rightarrow> go_time \<Rightarrow> RecoveryStatus" where
  "transaction_status lab tx lease t =
     (status_of lab (phase_name (tx_phase tx)))
       \<lparr>rs_generation := tx_generation tx, rs_previous := tx_previous_gen tx,
        rs_mode := tx_mode tx, rs_ungraded := tx_ungraded tx,
        rs_previous_mode := tx_previous_mode tx, rs_previous_ungraded := tx_previous_ungraded tx,
        rs_attempts := tx_attempts tx, rs_error := tx_failure tx,
        rs_owner := (if tx_recovery_owner tx = []
                     then (case lease of Some l \<Rightarrow> if lease_until l \<noteq> 0 then lease_holder l else [] | None \<Rightarrow> [])
                     else tx_recovery_owner tx),
        rs_strategy := tx_recovery_strategy tx, rs_started := tx_recovery_started tx,
        rs_progress := tx_recovery_progress tx, rs_deadline := tx_recovery_deadline tx,
        rs_total := tx_recovery_total tx, rs_target := tx_recovery_target tx,
        rs_lease_expires := (case lease of Some l \<Rightarrow> lease_until l | None \<Rightarrow> 0),
        rs_forward_ack := tx_forward_ack tx, rs_forward_phase := tx_forward_phase tx,
        rs_loss := tx_forward_loss tx,
        rs_takeover := (tx_phase tx = Recovering \<and> tx_recovery_deadline tx \<noteq> 0
                        \<and> \<not> t < tx_recovery_deadline tx),
        rs_pending := tx_committed tx,
        rs_allowed := (if tx_committed tx then [''rollback''] else [''rollback'', ''forward''])\<rparr>"

definition wanted_inventory ::
    "applyTransaction option \<Rightarrow> transactionInventory option \<Rightarrow> transactionInventory" where
  "wanted_inventory otx oi =
     (let recorded = (case oi of None \<Rightarrow> no_inventory | Some i \<Rightarrow> i) in
      case otx of
        None \<Rightarrow> recorded
      | Some tx \<Rightarrow>
          if tx_phase tx \<in> {RollbackNeeded, Recovering, RollbackFailed} then tx_prestate tx else recorded)"

definition expect_counts :: "transactionInventory \<Rightarrow> RecoveryStatus \<Rightarrow> RecoveryStatus" where
  "expect_counts i st =
     st\<lparr>rs_expected_containers := length (inv_containers i), rs_expected_vnis := length (inv_vnis i),
        rs_expected_bindings := length (inv_bindings i), rs_expected_trunks := length (inv_trunks i)\<rparr>"

definition observe_counts :: "transactionInventory \<Rightarrow> RecoveryStatus \<Rightarrow> RecoveryStatus" where
  "observe_counts i st =
     st\<lparr>rs_observed_containers := length (inv_containers i), rs_observed_vnis := length (inv_vnis i),
        rs_observed_bindings := length (inv_bindings i), rs_observed_trunks := length (inv_trunks i)\<rparr>"

definition blame :: "string \<Rightarrow> RecoveryStatus \<Rightarrow> RecoveryStatus" where
  "blame why st = (if rs_error st = [] then st\<lparr>rs_error := why\<rparr> else st)"

definition judge_status ::
    "status_host \<Rightarrow> bool \<Rightarrow> applyTransaction option \<Rightarrow> transactionInventory \<Rightarrow> RecoveryStatus \<Rightarrow> RecoveryStatus" where
  "judge_status h migrated otx want st =
     (case sh_observed h of
        None \<Rightarrow> blame ''inventory unavailable'' (expect_counts want st)
      | Some got \<Rightarrow>
          let st' = observe_counts got (expect_counts want st) in
          if \<not> migrated then st'\<lparr>rs_error := ''migrate legacy committed overlay inventory''\<rparr>
          else if \<not> inventoryMatches want got then blame ''inventory differs'' st'
          else st'\<lparr>rs_consistent := (case otx of None \<Rightarrow> True | Some tx \<Rightarrow> tx_phase tx = Committed)\<rparr>)"

text \<open>Everything but the migrated inventory is read before the migration.\<close>

definition status_from ::
    "status_host \<Rightarrow> string \<Rightarrow> Server \<Rightarrow> bool \<Rightarrow> transactionInventory option \<Rightarrow> Server \<Rightarrow> RecoveryStatus" where
  "status_from h lab s migrated committed' s' =
     (let otx = fmlookup (transactions s) lab;
          want = wanted_inventory otx committed' in
      case otx of
        Some tx \<Rightarrow> judge_status h migrated otx want
                     (transaction_status lab tx (fmlookup (mutations s) lab) (clk h 0))
      | None \<Rightarrow>
          (case committed' of
             None \<Rightarrow> status_of lab ''idle''
           | Some c \<Rightarrow>
               let g = committed (get_or no_generation (generations s) lab) in
               judge_status h migrated otx want
                 ((status_of lab ''committed'')
                    \<lparr>rs_generation := (if g = [] then inv_generation c else g),
                     rs_mode := get_or [] (modes s') lab, rs_ungraded := get_or 0 (ungraded s') lab\<rparr>)))"

definition transactionInventoryStatus :: "status_host \<Rightarrow> string \<Rightarrow> Server \<Rightarrow> RecoveryStatus \<times> Server" where
  "transactionInventoryStatus h lab s =
     (case fmlookup (inventories s) lab of
        None \<Rightarrow> (status_from h lab s True None s, s)
      | Some c \<Rightarrow>
          if inv_schema c < overlayInventorySchema \<and> canMigrateLegacyCommitted lab s
          then (case migrateLegacyCommittedInventory h lab c s of
                  (Inl _, s') \<Rightarrow> (status_from h lab s False (Some c) s', s')
                | (Inr c', s') \<Rightarrow> (status_from h lab s True (Some c') s', s'))
          else (status_from h lab s True (Some c) s, s))"

definition hstatus :: "status_host \<Rightarrow> string \<Rightarrow> RecoveryStatus handler" where
  "hstatus h lab s = (Inr (fst (transactionInventoryStatus h lab s)), snd (transactionInventoryStatus h lab s))"

section \<open>Recovery\<close>

subsection \<open>Phases\<close>

record phase_host = host +
  rp_beats :: "(bool \<times> go_time) list"
  rp_works :: bool

fun run_beats ::
    "recovery_cfg \<Rightarrow> string \<Rightarrow> Fence \<Rightarrow> string \<Rightarrow> go_time \<Rightarrow> (bool \<times> go_time) list \<Rightarrow> Server \<Rightarrow> bool \<times> Server" where
  "run_beats c lab f g hard [] s = (True, s)"
| "run_beats c lab f g hard ((ok, t) # bs) s =
     (case heartbeatRecoveryProgress c ok hard g lab f t s of
        (Inl _, s1) \<Rightarrow> (False, s1)
      | (Inr _, s1) \<Rightarrow> run_beats c lab f g hard bs s1)"

definition with_beats ::
    "recovery_cfg \<Rightarrow> phase_host \<Rightarrow> string \<Rightarrow> Fence \<Rightarrow> string \<Rightarrow> go_time \<Rightarrow> unit handler \<Rightarrow> unit handler" where
  "with_beats c p lab f g hard body s =
     (case run_beats c lab f g hard (rp_beats p) s of
        (fine, s1) \<Rightarrow>
          (case body s1 of (r, s2) \<Rightarrow> (if fine then r else Inl (HHost ''heartbeat''), s2)))"

definition runRecoveryPhaseLimit ::
    "recovery_cfg \<Rightarrow> phase_host \<Rightarrow> string \<Rightarrow> Fence \<Rightarrow> string \<Rightarrow> string \<Rightarrow> duration \<Rightarrow> unit handler \<Rightarrow> unit handler" where
  "runRecoveryPhaseLimit c p lab f g target limit body =
     hbind (hread (boundedRecoveryPhaseLimit lab g limit (clk p 0))) (\<lambda>l.
     hbind (hguard (l > 0) (HAgent DeadlineExceeded)) (\<lambda>_.
     hbind (hagent (recordRecoveryProgress (disk p 0) target
              (recoveryProgressDeadline (clk p 2) (clk p 1 + l) (recoveryPhaseLimit c)) False g lab f (clk p 3))) (\<lambda>_.
     with_beats c p lab f g (clk p 1 + l) body)))"

definition hostwork :: "phase_host \<Rightarrow> string \<Rightarrow> unit handler" where
  "hostwork p what = hguard (rp_works p) (HHost what)"

subsection \<open>Rollback\<close>

text \<open>\<open>rh_phase\<close> is what each phase met: 0 peer, 1 replica, 2 rollback, 3 restore, 4 verify, 5
  controls, 6 replicate, 7 inventory, 8 commit, and 9 and 10 the rewiring and pruning inside an
  exact rollback.  \<open>rh_exact\<close> tells whether the prestate carries runtime contracts.\<close>

record recover_host = host +
  rh_cfg :: recovery_cfg
  rh_items :: int
  rh_workers :: int
  rh_phase :: "nat \<Rightarrow> phase_host"
  rh_status :: status_host
  rh_legacy :: transactionInventory
  rh_store_healthy :: bool
  rh_exact :: bool
  rh_keep_wiring :: bool
  rh_observed :: "transactionInventory option"

definition rollbackExactContracts ::
    "recover_host \<Rightarrow> string \<Rightarrow> Fence \<Rightarrow> applyTransaction \<Rightarrow> unit handler" where
  "rollbackExactContracts h lab f tx =
     hbind (hostwork (rh_phase h 2) ''exact contracts'') (\<lambda>_.
     hbind (if rh_keep_wiring h then hret ()
            else runRecoveryPhaseLimit (rh_cfg h) (rh_phase h 9) lab f (tx_generation tx)
                   ''rollback: rewire prior topology'' (recoveryArtifactLimit (rh_cfg h))
                   (hostwork (rh_phase h 9) ''rewire'')) (\<lambda>_.
     runRecoveryPhaseLimit (rh_cfg h) (rh_phase h 10) lab f (tx_generation tx)
       ''prune: forward-only runtime objects and overlays''
       (recoveryRollbackLimit (rh_cfg h) (rh_items h) (rh_workers h) tx) (hostwork (rh_phase h 10) ''prune'')))"

definition reinstall_previous :: "recover_host \<Rightarrow> string \<Rightarrow> Fence \<Rightarrow> applyTransaction \<Rightarrow> Wire \<Rightarrow> Topology \<Rightarrow> unit handler" where
  "reinstall_previous h lab f tx w tp =
     hbind (hostwork (rh_phase h 2) ''rebuild'') (\<lambda>_.
     hbind (hread store) (\<lambda>st.
     hbind (hguard (st = None \<or> disk (rh_phase h 2) 1) (HAgent NotPersisted)) (\<lambda>_.
     hbind (hdo (\<lambda>s. install_topology lab tp (Some (recoveredMode tx w))
                     (case wire_peers w of None \<Rightarrow> [] | Some ps \<Rightarrow> ps) (put_topology lab (tx_previous tx) s))) (\<lambda>_.
     hbind (\<lambda>s. hagent (restoreOverlayClaims (disk (rh_phase h 2) 2) lab f (overlayVNIsOnNode tp (cfg_node s))) s) (\<lambda>_.
     hdo (beginSemanticConvergenceGrace tp (clk (rh_phase h 2) 4)))))))"

definition rollbackPreparedApply ::
    "recover_host \<Rightarrow> string \<Rightarrow> Fence \<Rightarrow> applyTransaction \<Rightarrow> unit handler" where
  "rollbackPreparedApply h lab f tx =
     (if raw_empty (tx_previous tx)
      then hbind (hostwork (rh_phase h 2) ''destroy'') (\<lambda>_.
           hagent (rollback_first (disk (rh_phase h 2) 1) (disk (rh_phase h 2) 2) lab))
      else
        hbind (hoption HBadTopology (unmarshal (tx_previous tx))) (\<lambda>w.
        hbind (hoption HBadTopology (wire_topology w)) (\<lambda>tp.
          if rh_exact h then rollbackExactContracts h lab f tx
          else reinstall_previous h lab f tx w tp)))"

definition recoveryPreviousTopology :: "string \<Rightarrow> applyTransaction \<Rightarrow> (handler_error, Topology option) result" where
  "recoveryPreviousTopology lab tx =
     (if raw_empty (tx_previous tx) then Inr None
      else (case unmarshal (tx_previous tx) of
              None \<Rightarrow> Inl HBadTopology
            | Some w \<Rightarrow>
                (case wire_topology w of
                   None \<Rightarrow> Inl HBadTopology
                 | Some tp \<Rightarrow> if top_name tp \<noteq> lab then Inl HOtherLab else Inr (Some tp))))"

definition await_peers :: "recover_host \<Rightarrow> string \<Rightarrow> Fence \<Rightarrow> applyTransaction \<Rightarrow> Topology option \<Rightarrow> unit handler" where
  "await_peers h lab f tx otp =
     (if otp = None then hret ()
      else
        hbind (runRecoveryPhaseLimit (rh_cfg h) (rh_phase h 0) lab f (tx_generation tx)
                 ''peer: authenticated live peer quorum'' (recoveryArtifactLimit (rh_cfg h))
                 (hostwork (rh_phase h 0) ''peers'')) (\<lambda>_.
        runRecoveryPhaseLimit (rh_cfg h) (rh_phase h 1) lab f (tx_generation tx)
          ''replica: verify and fetch durable replicas'' (recoveryArtifactLimit (rh_cfg h))
          (hostwork (rh_phase h 1) ''replicas'')))"

definition verify_rollback :: "recover_host \<Rightarrow> string \<Rightarrow> Fence \<Rightarrow> applyTransaction \<Rightarrow> unit handler" where
  "verify_rollback h lab f tx =
     (let limit = recoveryVerifyLimit (rh_cfg h) (rh_items h) (rh_workers h) tx;
          phase = (\<lambda>n target body. runRecoveryPhaseLimit (rh_cfg h) (rh_phase h n) lab f (tx_generation tx) target limit body)
      in hbind (phase 4 ''verify: restored student state and runtime semantics'' (hostwork (rh_phase h 4) ''state'')) (\<lambda>_.
         hbind (phase 5 ''verify: expected FRR control sidecars'' (hostwork (rh_phase h 5) ''controls'')) (\<lambda>_.
         hbind (phase 6 ''replicate: durable peer quorum'' (hostwork (rh_phase h 6) ''replicate'')) (\<lambda>_.
         phase 7 ''verify: exact prior inventory''
           (hbind (hoption (HHost ''snapshot'') (rh_observed h)) (\<lambda>got.
            hbind (hguard (inventoryMatches (tx_prestate tx) got) (HHost ''inventory'')) (\<lambda>_.
            hostwork (rh_phase h 7) ''controls'')))))))"

definition rollback_phases :: "recover_host \<Rightarrow> string \<Rightarrow> Fence \<Rightarrow> applyTransaction \<Rightarrow> unit handler" where
  "rollback_phases h lab f tx =
     hbind (hguard (inv_containers (tx_prestate tx) = [] \<or> inv_state_safe (tx_prestate tx)) (HAgent PrestateUnsafe)) (\<lambda>_.
     hbind (case recoveryPreviousTopology lab tx of Inl e \<Rightarrow> hfail e | Inr otp \<Rightarrow> hret otp) (\<lambda>otp.
     hbind (await_peers h lab f tx otp) (\<lambda>_.
     hbind (runRecoveryPhaseLimit (rh_cfg h) (rh_phase h 2) lab f (tx_generation tx)
              ''rollback: restore prior runtime inventory''
              (recoveryRollbackLimit (rh_cfg h) (rh_items h) (rh_workers h) tx)
              (rollbackPreparedApply h lab f tx)) (\<lambda>_.
     hbind (runRecoveryPhaseLimit (rh_cfg h) (rh_phase h 3) lab f (tx_generation tx)
              ''restore: persist previous topology'' (recoveryPhaseLimit (rh_cfg h))
              (hagent (restoreRecoveredTopology (disk (rh_phase h 3) 1) lab tx))) (\<lambda>_.
     hbind (verify_rollback h lab f tx) (\<lambda>_.
     runRecoveryPhaseLimit (rh_cfg h) (rh_phase h 8) lab f (tx_generation tx)
       ''commit: persist recovered generation'' (recoveryPhaseLimit (rh_cfg h))
       (hagent (finishRecoveredGeneration (disk (rh_phase h 8) 1) (tx_generation tx) lab f (clk (rh_phase h 8) 4)))))))))"

subsection \<open>Forward\<close>

record forward_host = host +
  fw_env :: overlay_env
  fw_captured :: bool
  fw_built :: bool
  fw_created :: "string list"
  fw_vnis :: "vni list"
  fw_semantic :: "string list"
  fw_executed :: bool
  fw_commit :: commit_host

definition forward_phase :: "forward_host \<Rightarrow> nat \<Rightarrow> string \<Rightarrow> string \<Rightarrow> Fence \<Rightarrow> string \<Rightarrow> unit handler" where
  "forward_phase h n lab g f phase =
     hagent (markForwardPhase (disk h n) phase (clk h (2 * n + 1)) g lab f (clk h (2 * n)))"

definition forward_failed :: "forward_host \<Rightarrow> string \<Rightarrow> Fence \<Rightarrow> string \<Rightarrow> string \<Rightarrow> unit handler" where
  "forward_failed h lab f g why =
     hignore (markTransactionPhase (disk h 20) RollbackFailed why (clk h 41) g lab f (clk h 40))"

text \<open>The recovering controller takes the transaction over: its fence replaces the one that
  prepared it.\<close>

definition refence_transaction ::
    "forward_host \<Rightarrow> string \<Rightarrow> Fence \<Rightarrow> string \<Rightarrow> applyTransaction handler" where
  "refence_transaction h lab f g s =
     (case fmlookup (transactions s) lab of
        None \<Rightarrow> (Inl (HHost ''changed''), s)
      | Some cur \<Rightarrow>
          if tx_generation cur \<noteq> g then (Inl (HHost ''changed''), s)
          else
            let cur' = cur\<lparr>tx_fence_generation := Generation f, tx_phase := Applying, tx_failure := []\<rparr> in
            hbind (hagent (put_tx (disk h 1) lab cur')) (\<lambda>_. hret cur') s)"

definition forward_capture ::
    "forward_host \<Rightarrow> string \<Rightarrow> Fence \<Rightarrow> applyTransaction \<Rightarrow> unit handler" where
  "forward_capture h lab f cur =
     hbind (hread (\<lambda>s. fmlookup (current s) lab \<noteq> None \<and> store s \<noteq> None)) (\<lambda>capturing.
       if \<not> capturing \<or> fw_captured h then hret ()
       else if \<not> tx_forward_ack cur
       then hbind (forward_failed h lab f (tx_generation cur) ''forward pre-state capture failed'') (\<lambda>_.
            hfail (HHost ''capture''))
       else hagent (recordForwardDataLoss (disk h 3) ''current-state-capture-unavailable'' (tx_generation cur)
                      lab f (clk h 6)))"

definition forward_build ::
    "forward_host \<Rightarrow> string \<Rightarrow> Fence \<Rightarrow> applyTransaction \<Rightarrow> applyTransaction handler" where
  "forward_build h lab f cur =
     hbind (hresult (require_modes cur)) (\<lambda>_.
     hbind (forward_phase h 4 lab (tx_generation cur) f ''build observed desired diff'') (\<lambda>_.
     hbind (if fw_built h then hret ()
            else hbind (forward_failed h lab f (tx_generation cur) ''build'') (\<lambda>_. hfail (HHost ''build''))) (\<lambda>_.
     hbind (hagent (recordGenerationTouched (disk h 5) (tx_generation cur) (fw_created h) (fw_vnis h)
              (tx_touched_known cur) lab f (clk h 10))) (\<lambda>_.
     hbind (hagent (recordGenerationSemantic (disk h 6) (tx_generation cur) (fw_semantic h) lab f (clk h 12))) (\<lambda>_.
     hbind (hread (\<lambda>s. fmlookup (transactions s) lab)) (\<lambda>otx.
     hoption (HHost ''changed'') otx))))))"

definition forward_apply :: "forward_host \<Rightarrow> string \<Rightarrow> Fence \<Rightarrow> string \<Rightarrow> unit handler" where
  "forward_apply h lab f g =
     hbind (forward_phase h 7 lab g f ''apply remaining desired work'') (\<lambda>_.
     hbind (if fw_executed h then hret ()
            else hbind (forward_failed h lab f g ''forward recovery failed'') (\<lambda>_. hfail (HHost ''execute''))) (\<lambda>_.
     hbind (hagent (markGenerationApplied (disk h 8) g lab f (clk h 16))) (\<lambda>_.
     forward_phase h 9 lab g f ''verify and commit desired inventory'')))"

definition forward_commit ::
    "forward_host \<Rightarrow> string \<Rightarrow> Fence \<Rightarrow> Topology \<Rightarrow> Wire \<Rightarrow> string \<Rightarrow> applyTransaction \<Rightarrow> unit handler" where
  "forward_commit h lab f tp w g cur =
     hbind (hcatch (commitAppliedTopology (fw_commit h) tp w f cur)
              (\<lambda>_. forward_failed h lab f g ''forward commit failed'')) (\<lambda>resp.
       if ap_failures resp \<noteq> []
       then hbind (forward_failed h lab f g ''forward commit reported failures'') (\<lambda>_.
            hfail (HHost ''forward commit reported failures''))
       else hagent (finalizeCommittedGeneration (disk h 10) g lab f (clk h 20)))"

definition forwardTransaction ::
    "forward_host \<Rightarrow> string \<Rightarrow> Fence \<Rightarrow> applyTransaction \<Rightarrow> unit handler" where
  "forwardTransaction h lab f tx =
     hbind (hoption HBadTopology (unmarshal (tx_requested tx))) (\<lambda>w.
     hbind (hoption HBadTopology (wire_topology w)) (\<lambda>tp.
     hbind (hguard (top_name tp = lab) HOtherLab) (\<lambda>_.
     hbind (hguard (tx_state_proofs tx = [] \<or> tx_state_verified tx \<or> tx_forward_ack tx) (HAgent StateNotVerified)) (\<lambda>_.
     hbind (forward_phase h 0 lab (tx_generation tx) f ''reserve desired overlays'') (\<lambda>_.
     hbind (\<lambda>s. hagent (reserveOverlays (fw_env h)
                    \<lparr>or_lab = lab, or_hold = [], or_fence = f, or_vnis = overlayVNIsOnNode tp (cfg_node s)\<rparr> (clk h 2)) s) (\<lambda>_.
     hbind (refence_transaction h lab f (tx_generation tx)) (\<lambda>cur.
     hbind (forward_phase h 2 lab (tx_generation tx) f ''capture current durable state'') (\<lambda>_.
     hbind (forward_capture h lab f cur) (\<lambda>_.
     hbind (forward_build h lab f cur) (\<lambda>cur'.
     hbind (forward_apply h lab f (tx_generation tx)) (\<lambda>_.
     forward_commit h lab f tp w (tx_generation tx) cur')))))))))))"

subsection \<open>The recovery request\<close>

record recovery_options =
  opt_takeover :: bool
  opt_forward_ack :: bool
  opt_rollback_committed :: bool

text \<open>Transactions prepared before inventories were recorded get the inventory their topology
  expects; the outcome of that write is not looked at.\<close>

definition needs_legacy_prestate :: "applyTransaction \<Rightarrow> bool" where
  "needs_legacy_prestate tx \<longleftrightarrow>
     inv_captured_at (tx_prestate tx) = 0 \<and> inv_containers (tx_prestate tx) = [] \<and> \<not> raw_empty (tx_previous tx)"

definition legacy_prestate :: "recover_host \<Rightarrow> string \<Rightarrow> applyTransaction \<Rightarrow> applyTransaction handler" where
  "legacy_prestate h lab tx =
     (if \<not> needs_legacy_prestate tx then hret tx
      else
        hbind (hoption HBadTopology (unmarshal (tx_previous tx))) (\<lambda>w.
        hbind (hoption HBadTopology (wire_topology w)) (\<lambda>_.
        (\<lambda>s. let pre = (rh_legacy h)\<lparr>inv_generation := tx_previous_gen tx, inv_captured_at := clk h 2,
                         inv_state_safe := (store s \<noteq> None \<and> rh_store_healthy h)\<rparr>
             in case fmlookup (transactions s) lab of
                  Some cur \<Rightarrow>
                    if tx_generation cur = tx_generation tx
                    then (Inr (cur\<lparr>tx_prestate := pre\<rparr>), snd (put_tx (disk h 1) lab (cur\<lparr>tx_prestate := pre\<rparr>) s))
                    else (Inr tx, s)
                | None \<Rightarrow> (Inr tx, s)))))"

text \<open>A committed transaction is left as it is, unless the controller that has read the whole
  cluster asks for its rollback.\<close>

definition settle_committed ::
    "recover_host \<Rightarrow> string \<Rightarrow> Fence \<Rightarrow> applyTransaction \<Rightarrow> RecoveryStatus handler" where
  "settle_committed h lab f tx =
     hbind (hstatus (rh_status h) lab) (\<lambda>st.
       if rs_consistent st then hret st
       else hbind (hignore (markTransactionPhase (disk h 2) RollbackFailed ''committed inventory drift''
                      (clk h 4) (tx_generation tx) lab f (clk h 3))) (\<lambda>_. hfail (HInconsistent (rs_error st))))"

definition fail_with_status :: "recover_host \<Rightarrow> string \<Rightarrow> handler_error \<Rightarrow> unit handler" where
  "fail_with_status h lab e = hbind (hstatus (rh_status h) lab) (\<lambda>_. hret ())"

definition failRecovery :: "recover_host \<Rightarrow> string \<Rightarrow> Fence \<Rightarrow> string \<Rightarrow> handler_error \<Rightarrow> unit handler" where
  "failRecovery h lab f g e =
     hignore (markTransactionPhase (disk h 5) RollbackFailed ''recovery failed'' (clk h 9) g lab f (clk h 8))"

definition acquire_recovery :: "recover_host \<Rightarrow> string \<Rightarrow> go_time \<Rightarrow> bool \<Rightarrow> 64 word handler" where
  "acquire_recovery h lab deadline takeover s =
     (case acquireRecoveryOperation lab deadline takeover (clk h 5) s of
        (Acquired n, s1) \<Rightarrow> (Inr n, s1)
      | (Refused e, s1) \<Rightarrow> (Inl (HAgent e), s1)
      | (MustWait kind, s1) \<Rightarrow> (Inl (HAgent (DidNotYield kind)), s1))"

definition forwardRecoveryLimit :: "recover_host \<Rightarrow> applyTransaction \<Rightarrow> Server \<Rightarrow> duration" where
  "forwardRecoveryLimit h tx s =
     (let tp = (case unmarshal (tx_requested tx) of None \<Rightarrow> None | Some w \<Rightarrow> wire_topology w);
          devices = (case tp of None \<Rightarrow> 0 | Some t \<Rightarrow> int (length (devices_on t (cfg_node s))))
      in forwardRecoveryBudget devices (rh_workers h))"

text \<open>The work of a strategy, once the transaction is in recovery.  A forward recovery runs in one
  phase bounded by the recorded total deadline, or by the default one where none is recorded.\<close>

definition recovery_work ::
    "recover_host \<Rightarrow> forward_host \<Rightarrow> string \<Rightarrow> Fence \<Rightarrow> string \<Rightarrow> applyTransaction \<Rightarrow> unit handler" where
  "recovery_work h fw lab f strategy tx =
     (if strategy = ''forward''
      then hbind (hread (\<lambda>s. case fmlookup (transactions s) lab of
                              Some cur \<Rightarrow> if tx_recovery_total cur = 0 then clk h 7 + recoveryTotalLimit (rh_cfg h) (rh_items h) (rh_workers h) None
                                         else tx_recovery_total cur
                            | None \<Rightarrow> clk h 7 + recoveryTotalLimit (rh_cfg h) (rh_items h) (rh_workers h) None)) (\<lambda>deadline.
           runRecoveryPhaseLimit (rh_cfg h) (rh_phase h 0) lab f (tx_generation tx)
             ''forward: recorded desired transaction'' (deadline - clk h 10) (forwardTransaction fw lab f tx))
      else rollback_phases h lab f tx)"

definition recover_uncommitted ::
    "recover_host \<Rightarrow> forward_host \<Rightarrow> string \<Rightarrow> Fence \<Rightarrow> string \<Rightarrow> recovery_options \<Rightarrow> applyTransaction
      \<Rightarrow> RecoveryStatus handler" where
  "recover_uncommitted h fw lab f strategy opts tx =
     hbind (hread (\<lambda>s. if strategy = ''forward'' then forwardRecoveryLimit h tx s
                       else recoveryTotalLimit (rh_cfg h) (rh_items h) (rh_workers h) (Some tx))) (\<lambda>limit.
     hbind (hcatch (acquire_recovery h lab (clk h 4 + limit) (opt_takeover opts)) (fail_with_status h lab)) (\<lambda>n.
     hfinally
       (hbind (hcatch (hagent (beginRecovery (rh_cfg h) (disk h 3) strategy (clk h 4 + limit) (opt_takeover opts)
                 (opt_forward_ack opts) (tx_generation tx) lab f (clk h 6))) (fail_with_status h lab)) (\<lambda>tx'.
        hbind (hcatch (hcatch (recovery_work h fw lab f strategy tx') (failRecovery h lab f (tx_generation tx')))
                 (fail_with_status h lab)) (\<lambda>_.
        hstatus (rh_status h) lab)))
       (releaseOperation lab n)))"

definition recoverTransactionStrategyOptions ::
    "recover_host \<Rightarrow> forward_host \<Rightarrow> string \<Rightarrow> Fence \<Rightarrow> string \<Rightarrow> recovery_options \<Rightarrow> RecoveryStatus handler" where
  "recoverTransactionStrategyOptions h fw lab f strategy opts =
     hbind (hguard (strategy = ''rollback'' \<or> strategy = ''forward'') (HUnknownStrategy strategy)) (\<lambda>_.
     hbind (hagent (requireMutationFence (disk h 0) lab f (clk h 0) (clk h 1))) (\<lambda>_.
     hbind (hread (\<lambda>s. fmlookup (transactions s) lab)) (\<lambda>otx.
       case otx of
         None \<Rightarrow>
           hbind (hstatus (rh_status h) lab) (\<lambda>st.
             if rs_consistent st \<or> rs_phase st = ''idle'' then hret st else hfail (HInconsistent (rs_error st)))
       | Some tx0 \<Rightarrow>
           hbind (legacy_prestate h lab tx0) (\<lambda>tx.
             if \<not> tx_committed tx then recover_uncommitted h fw lab f strategy opts tx
             else if \<not> opt_rollback_committed opts \<or> strategy \<noteq> ''rollback'' then settle_committed h lab f tx
             else
               hbind (hcatch (hagent (reopenCommittedTransaction (disk h 2) (tx_generation tx) lab f (clk h 3)))
                        (fail_with_status h lab)) (\<lambda>tx'.
               recover_uncommitted h fw lab f strategy opts tx')))))"

section \<open>The deployment endpoint\<close>

text \<open>Giving up a deployment is a rollback of its transaction.\<close>

definition handleApplyAbort :: "recover_host \<Rightarrow> forward_host \<Rightarrow> ApplyRequest \<Rightarrow> ApplyResponse handler" where
  "handleApplyAbort h fw req =
     hbind (hguard (lab_of req \<noteq> []) HNoLab) (\<lambda>_.
     hbind (recoverTransactionStrategyOptions h fw (lab_of req) (ar_fence req) ''rollback''
              \<lparr>opt_takeover = False, opt_forward_ack = False, opt_rollback_committed = False\<rparr>) (\<lambda>st.
     hbind (hread cfg_node) (\<lambda>node.
     hret (no_response\<lparr>ap_node := node, ap_generation := rs_generation st, ap_phase := ''abort''\<rparr>))))"

text \<open>The phase a request names picks its handler; without one it is a dry run or refused.\<close>

record endpoint_host =
  eh_prepare :: prepare_host
  eh_apply :: apply_host
  eh_commit :: commit_host
  eh_finalize :: host
  eh_recover :: recover_host
  eh_forward :: forward_host

definition handleApply :: "endpoint_host \<Rightarrow> ApplyRequest \<Rightarrow> ApplyResponse handler" where
  "handleApply h req =
     (if ar_phase req = ''prepare'' then handleApplyPrepare (eh_prepare h) req
      else if ar_phase req = ''commit'' then handleApplyCommit (eh_commit h) req
      else if ar_phase req = ''finalize'' then handleApplyFinalize (eh_finalize h) req
      else if ar_phase req = ''abort'' then handleApplyAbort (eh_recover h) (eh_forward h) req
      else if ar_phase req = [] \<or> ar_phase req = ''apply'' then applyPhase (eh_apply h) req
      else hfail (HUnknownPhase (ar_phase req)))"

end
