(* ===== verification/Cluster_Recovery.thy ===== *)
theory Cluster_Recovery
  imports Recover_Handlers
begin

text \<open>
  The controller's side of a deployment, \<open>internal/client/coordination.go\<close>, \<open>recovery.go\<close> and
  \<open>split_commit.go\<close>: calls to nodes over an unreliable network, the cluster-wide mutation lease,
  and the recovery that brings a cluster back to one generation.

  A cluster is a map from node names to the state of their agents.  A call runs the node's
  handler, unless the request is lost, and its answer may be lost afterwards.  A fan-out calls
  every node at once; as each call touches its own node only, their order does not matter.  While
  a controller works, nothing else changes the lab on its nodes.
\<close>

section \<open>Calls\<close>

datatype delivery = Delivered | RequestLost | ReplyLost

datatype call_error = NoAnswer | Remote handler_error

type_synonym cluster = "string \<Rightarrow> Server"

definition deliver :: "delivery \<Rightarrow> 'a handler \<Rightarrow> Server \<Rightarrow> (call_error, 'a) result \<times> Server" where
  "deliver d m s =
     (case d of
        RequestLost \<Rightarrow> (Inl NoAnswer, s)
      | ReplyLost \<Rightarrow> (Inl NoAnswer, snd (m s))
      | Delivered \<Rightarrow> (map_error Remote (fst (m s)), snd (m s)))"

definition fanOut ::
    "string list \<Rightarrow> (string \<Rightarrow> Server \<Rightarrow> 'r \<times> Server) \<Rightarrow> cluster \<Rightarrow> (string \<times> 'r) list \<times> cluster" where
  "fanOut nodes f cl =
     (map (\<lambda>n. (n, fst (f n (cl n)))) (sort nodes), \<lambda>n. if n \<in> set nodes then snd (f n (cl n)) else cl n)"

text \<open>Calls made one after the other, in a given order.\<close>

fun one_by_one ::
    "(string \<Rightarrow> Server \<Rightarrow> 'r \<times> Server) \<Rightarrow> string list \<Rightarrow> cluster \<Rightarrow> (string \<times> 'r) list \<times> cluster" where
  "one_by_one f [] cl = ([], cl)"
| "one_by_one f (n # ns) cl =
     (let (r, s) = f n (cl n);
          (rs, cl') = one_by_one f ns (cl(n := s))
      in ((n, r) # rs, cl'))"

section \<open>Mutation leases\<close>

record MutationLease =
  ml_lab :: string
  ml_fences :: "(string, Fence) fmap"

definition mutationLeaseSeconds :: int where "mutationLeaseSeconds = 90"

text \<open>Acquiring and releasing on one node; the agent's handlers decode, call the operation and
  encode.\<close>

record acquire_host = host +
  aq_token :: "string option"

definition node_acquire :: "acquire_host \<Rightarrow> string \<Rightarrow> string \<Rightarrow> Fence handler" where
  "node_acquire h holder lab =
     hbind (hagent (acquireMutationLease (disk h 0) \<lparr>acq_lab = lab, acq_holder = holder, acq_ttl = mutationLeaseSeconds\<rparr>
              (aq_token h) (clk h 0))) (\<lambda>r. hret (resp_fence r))"

definition node_release :: "host \<Rightarrow> string \<Rightarrow> Fence \<Rightarrow> unit handler" where
  "node_release h lab f =
     hagent (releaseMutationLease (disk h 0) \<lparr>rel_lab = lab, rel_fence = f\<rparr> (clk h 0))"

definition node_renew :: "host \<Rightarrow> string \<Rightarrow> Fence \<Rightarrow> unit handler" where
  "node_renew h lab f =
     hbind (hagent (renewMutationLease (disk h 0) \<lparr>ren_lab = lab, ren_fence = f, ren_ttl = mutationLeaseSeconds\<rparr>
              (clk h 0))) (\<lambda>_. hret ())"

text \<open>Released in reverse name order; an error leaves the rest of the releases to be made.\<close>

definition release_all ::
    "(string \<Rightarrow> delivery \<times> host) \<Rightarrow> string list \<Rightarrow> string \<Rightarrow> (string, Fence) fmap \<Rightarrow> cluster
      \<Rightarrow> (string \<times> (call_error, unit) result) list \<times> cluster" where
  "release_all env nodes lab fences cl =
     one_by_one (\<lambda>n s. case fmlookup fences n of
                         None \<Rightarrow> (Inr (), s)
                       | Some f \<Rightarrow> deliver (fst (env n)) (node_release (snd (env n)) lab f) s)
       (rev (sort nodes)) cl"

fun acquire_from ::
    "(string \<Rightarrow> delivery \<times> acquire_host) \<Rightarrow> string \<Rightarrow> string \<Rightarrow> string list \<Rightarrow> (string, Fence) fmap \<Rightarrow> cluster
      \<Rightarrow> (string \<times> call_error) option \<times> (string, Fence) fmap \<times> cluster" where
  "acquire_from env holder lab [] fences cl = (None, fences, cl)"
| "acquire_from env holder lab (n # ns) fences cl =
     (case deliver (fst (env n)) (node_acquire (snd (env n)) holder lab) (cl n) of
        (Inl e, s) \<Rightarrow> (Some (n, e), fences, cl(n := s))
      | (Inr f, s) \<Rightarrow> acquire_from env holder lab ns (fmupd n f fences) (cl(n := s)))"

datatype lease_error = LeaseNeedsLab | LeaseRefused string call_error

text \<open>\<open>Inr None\<close> is the lease of an empty cluster.\<close>

definition AcquireMutationLease ::
    "(string \<Rightarrow> delivery \<times> acquire_host) \<Rightarrow> (string \<Rightarrow> delivery \<times> host) \<Rightarrow> string \<Rightarrow> string list \<Rightarrow> string \<Rightarrow> cluster
      \<Rightarrow> (lease_error, MutationLease option) result \<times> cluster" where
  "AcquireMutationLease env undo holder nodes lab cl =
     (if lab = [] then (Inl LeaseNeedsLab, cl)
      else if nodes = [] then (Inr None, cl)
      else (case acquire_from env holder lab (sort nodes) fmempty cl of
              (None, fences, cl1) \<Rightarrow> (Inr (Some \<lparr>ml_lab = lab, ml_fences = fences\<rparr>), cl1)
            | (Some (n, e), fences, cl1) \<Rightarrow>
                (Inl (LeaseRefused n e), snd (release_all undo nodes lab fences cl1))))"

text \<open>One round of the renewal loop: it stops at the first node that refuses, and the lease is
  lost.\<close>

fun renew_round ::
    "(string \<Rightarrow> delivery \<times> host) \<Rightarrow> string \<Rightarrow> (string, Fence) fmap \<Rightarrow> string list \<Rightarrow> cluster \<Rightarrow> bool \<times> cluster" where
  "renew_round env lab fences [] cl = (True, cl)"
| "renew_round env lab fences (n # ns) cl =
     (case fmlookup fences n of
        None \<Rightarrow> renew_round env lab fences ns cl
      | Some f \<Rightarrow>
          (case deliver (fst (env n)) (node_renew (snd (env n)) lab f) (cl n) of
             (Inl _, s) \<Rightarrow> (False, cl(n := s))
           | (Inr _, s) \<Rightarrow> renew_round env lab fences ns (cl(n := s))))"

text \<open>The rounds that fall into a stage of the controller's work; after a lost one the loop has
  ended.\<close>

fun renew_rounds ::
    "(string \<Rightarrow> delivery \<times> host) list \<Rightarrow> string list \<Rightarrow> MutationLease \<Rightarrow> bool \<times> cluster \<Rightarrow> bool \<times> cluster" where
  "renew_rounds [] nodes l (held, cl) = (held, cl)"
| "renew_rounds (env # envs) nodes l (held, cl) =
     (if held then renew_rounds envs nodes l (renew_round env (ml_lab l) (ml_fences l) (sort nodes) cl)
      else (False, cl))"

section \<open>Deciding a recovery\<close>

record RecoveryReport =
  rep_generation :: string
  rep_nodes :: "(string \<times> RecoveryStatus) list"

record splitCommit =
  split_target :: string
  split_rollback :: "string list"

definition unsettled :: "RecoveryStatus \<Rightarrow> bool" where
  "unsettled st \<longleftrightarrow> rs_phase st = ''recovering'' \<or> (rs_phase st \<noteq> ''idle'' \<and> \<not> rs_consistent st)"

definition detectSplitCommit :: "(string \<times> RecoveryStatus) list \<Rightarrow> splitCommit option" where
  "detectSplitCommit nodes =
     (let waiting = filter (\<lambda>(_, st). rs_pending st) nodes;
          settled = filter (\<lambda>(_, st). \<not> rs_pending st) nodes;
          previous = remdups (map (\<lambda>(_, st). rs_previous st) waiting);
          reached = remdups (map (\<lambda>(_, st). rs_generation st) settled)
      in if length nodes < 2 then None
         else if list_ex (\<lambda>(_, st). unsettled st) settled then None
         else if waiting = [] \<or> settled = [] then None
         else if length reached \<noteq> 1 \<or> length previous \<noteq> 1 then None
         else if hd reached = [] then None
         else if hd reached \<notin> set previous then None
         else Some \<lparr>split_target = hd reached, split_rollback = sort (map fst waiting)\<rparr>)"

text \<open>Whether every node reports the same committed generation with its exact inventory, and
  which of them still wait for their finalization.\<close>

definition committed_as :: "string \<Rightarrow> RecoveryStatus option \<Rightarrow> bool" where
  "committed_as g ost =
     (case ost of
        None \<Rightarrow> False
      | Some st \<Rightarrow> rs_phase st = ''committed'' \<and> rs_consistent st \<and> rs_generation st = g \<and> g \<noteq> [])"

definition convergedCommit :: "string list \<Rightarrow> (string \<times> RecoveryStatus) list \<Rightarrow> (string \<times> string list) option" where
  "convergedCommit nodes report =
     (case sort nodes of
        [] \<Rightarrow> None
      | n # _ \<Rightarrow>
          (case map_of report n of
             None \<Rightarrow> None
           | Some st \<Rightarrow>
               if list_all (\<lambda>m. committed_as (rs_generation st) (map_of report m)) (sort nodes)
               then Some (rs_generation st,
                          filter (\<lambda>m. case map_of report m of Some st' \<Rightarrow> rs_pending st' | None \<Rightarrow> False) (sort nodes))
               else None))"

text \<open>Whether a recovery runs already, with which other strategy, and whether every node that
  reports one may be taken over.\<close>

definition recoveryActivity :: "(string \<times> RecoveryStatus) list \<Rightarrow> string \<Rightarrow> bool \<times> string option \<times> bool" where
  "recoveryActivity nodes strategy =
     (let running = filter (\<lambda>(_, st). rs_phase st = ''recovering'') nodes;
          other = filter (\<lambda>(_, st). rs_strategy st \<noteq> [] \<and> rs_strategy st \<noteq> strategy) running
      in case other of
           (_, st) # _ \<Rightarrow> (True, Some (rs_strategy st), False)
         | [] \<Rightarrow> (running \<noteq> [], None, running \<noteq> [] \<and> list_all (\<lambda>(_, st). rs_takeover st) running))"

fun first_generation :: "(string \<times> RecoveryStatus) list \<Rightarrow> string" where
  "first_generation [] = []"
| "first_generation ((_, st) # rest) = (if rs_generation st \<noteq> [] then rs_generation st else first_generation rest)"

definition status_pending :: "string \<Rightarrow> RecoveryStatus \<Rightarrow> bool" where
  "status_pending g st \<longleftrightarrow>
     (rs_generation st \<noteq> [] \<and> rs_generation st \<noteq> g)
     \<or> rs_pending st
     \<or> (rs_phase st \<noteq> ''idle'' \<and> (\<not> rs_consistent st \<or> rs_phase st \<noteq> ''committed''))"

section \<open>Recovering a cluster\<close>

datatype problem =
    NoRecoveryFence string
  | RecoveryCall string call_error
  | AbandonFailed string call_error
  | FinalizeCall string call_error
  | StatusUnavailable string call_error
  | NodeInconsistent string
  | StillPending string
  | OtherGeneration string
  | LeaseLost

type_synonym status_env = "string \<Rightarrow> delivery \<times> status_host"
type_synonym recover_env = "string \<Rightarrow> delivery \<times> recover_host \<times> forward_host"

definition node_status :: "status_env \<Rightarrow> string \<Rightarrow> string \<Rightarrow> Server \<Rightarrow> (call_error, RecoveryStatus) result \<times> Server" where
  "node_status env lab n s = deliver (fst (env n)) (hstatus (snd (env n)) lab) s"

definition node_recover ::
    "recover_env \<Rightarrow> MutationLease \<Rightarrow> string \<Rightarrow> recovery_options \<Rightarrow> string \<Rightarrow> Server
      \<Rightarrow> (problem, RecoveryStatus) result \<times> Server" where
  "node_recover env l strategy opts n s =
     (case fmlookup (ml_fences l) n of
        None \<Rightarrow> (Inl (NoRecoveryFence n), s)
      | Some f \<Rightarrow>
          (case env n of
             (d, h, fw) \<Rightarrow>
               (case deliver d (recoverTransactionStrategyOptions h fw (ml_lab l) f strategy opts) s of
                  (r, s1) \<Rightarrow> (map_error (RecoveryCall n) r, s1))))"

definition problems_of :: "(string \<times> (problem, 'a) result) list \<Rightarrow> problem list" where
  "problems_of rs = concat (map (\<lambda>(_, r). case r of Inl p \<Rightarrow> [p] | Inr _ \<Rightarrow> []) rs)"

definition answers_of :: "(string \<times> ('e, 'a) result) list \<Rightarrow> (string \<times> 'a) list" where
  "answers_of rs = concat (map (\<lambda>(n, r). case r of Inl _ \<Rightarrow> [] | Inr a \<Rightarrow> [(n, a)]) rs)"

text \<open>A node that does not answer keeps what the caller knows of it; if nothing is known the
  cluster is unknowable and the report is empty.\<close>

fun observe_from ::
    "status_env \<Rightarrow> string \<Rightarrow> (string \<times> RecoveryStatus) list \<Rightarrow> string list \<Rightarrow> cluster
      \<Rightarrow> (string \<times> RecoveryStatus) list option \<times> cluster" where
  "observe_from env lab known [] cl = (Some [], cl)"
| "observe_from env lab known (n # ns) cl =
     (case node_status env lab n (cl n) of
        (r, s) \<Rightarrow>
          (case (case r of Inr st \<Rightarrow> Some st | Inl _ \<Rightarrow> map_of known n) of
             None \<Rightarrow> (None, cl(n := s))
           | Some st \<Rightarrow>
               (case observe_from env lab known ns (cl(n := s)) of
                  (rest, cl') \<Rightarrow> (map_option (\<lambda>r. (n, st) # r) rest, cl'))))"

definition observeNodes ::
    "status_env \<Rightarrow> string \<Rightarrow> (string \<times> RecoveryStatus) list \<Rightarrow> string list \<Rightarrow> cluster
      \<Rightarrow> (string \<times> RecoveryStatus) list \<times> cluster" where
  "observeNodes env lab known nodes cl =
     (case observe_from env lab known (sort nodes) cl of
        (None, cl') \<Rightarrow> ([], cl')
      | (Some r, cl') \<Rightarrow> (r, cl'))"

definition abandon_options :: "recovery_options \<Rightarrow> recovery_options" where
  "abandon_options opts = opts\<lparr>opt_rollback_committed := True, opt_forward_ack := False\<rparr>"

definition resolveSplitCommit ::
    "recover_env \<Rightarrow> MutationLease \<Rightarrow> recovery_options \<Rightarrow> splitCommit \<Rightarrow> cluster \<Rightarrow> problem list \<times> cluster" where
  "resolveSplitCommit env l opts split cl =
     (case one_by_one (node_recover env l ''rollback'' (abandon_options opts)) (split_rollback split) cl of
        (rs, cl') \<Rightarrow> (problems_of rs, cl'))"

definition finalize_request :: "string \<Rightarrow> Fence \<Rightarrow> string \<Rightarrow> ApplyRequest" where
  "finalize_request lab f g =
     \<lparr>ar_hold = [], ar_fence = f, ar_phase = ''finalize'', ar_lab = lab, ar_target = [], ar_assigned = [],
      ar_assignment_known = False, ar_expected = [], ar_topology = None, ar_mode = [], ar_ungraded = 0,
      ar_ephemeral = False, ar_ephemeral_ttl = 0, ar_ephemeral_owner = [], ar_dry_run = False, ar_peers = [],
      ar_prune = False, ar_generation = g, ar_only = [], ar_proofs = []\<rparr>"

definition node_finalize ::
    "(string \<Rightarrow> delivery \<times> host) \<Rightarrow> MutationLease \<Rightarrow> string \<Rightarrow> string \<Rightarrow> Server
      \<Rightarrow> (problem, ApplyResponse) result \<times> Server" where
  "node_finalize env l g n s =
     (case fmlookup (ml_fences l) n of
        None \<Rightarrow> (Inl (NoRecoveryFence n), s)
      | Some f \<Rightarrow>
          (case deliver (fst (env n)) (handleApplyFinalize (snd (env n)) (finalize_request (ml_lab l) f g)) s of
             (r, s1) \<Rightarrow> (map_error (FinalizeCall n) r, s1)))"

definition finalizeConvergedCommit ::
    "(string \<Rightarrow> delivery \<times> host) \<Rightarrow> MutationLease \<Rightarrow> string list \<Rightarrow> (string \<times> RecoveryStatus) list \<Rightarrow> cluster
      \<Rightarrow> problem list \<times> cluster" where
  "finalizeConvergedCommit env l nodes report cl =
     (case convergedCommit nodes report of
        None \<Rightarrow> ([], cl)
      | Some (g, waiting) \<Rightarrow>
          (case one_by_one (node_finalize env l g) waiting cl of (rs, cl') \<Rightarrow> (problems_of rs, cl')))"

fun check_statuses ::
    "string \<Rightarrow> (string \<times> (call_error, RecoveryStatus) result) list \<Rightarrow> problem list \<times> string" where
  "check_statuses g [] = ([], g)"
| "check_statuses g ((n, Inl e) # rest) =
     (case check_statuses g rest of (ps, g') \<Rightarrow> (StatusUnavailable n e # ps, g'))"
| "check_statuses g ((n, Inr st) # rest) =
     (if rs_phase st \<noteq> ''idle'' \<and> \<not> rs_consistent st
      then (case check_statuses g rest of (ps, g') \<Rightarrow> (NodeInconsistent n # ps, g'))
      else if rs_pending st
      then (case check_statuses g rest of (ps, g') \<Rightarrow> (StillPending n # ps, g'))
      else if rs_generation st = [] \<or> rs_generation st = g then check_statuses g rest
      else if g = [] then check_statuses (rs_generation st) rest
      else (case check_statuses g rest of (ps, g') \<Rightarrow> (OtherGeneration n # ps, g')))"

record recovery_env =
  re_renew :: "(string \<Rightarrow> delivery \<times> host) list"
  re_recover :: recover_env
  re_observe :: status_env
  re_abandon :: recover_env
  re_observe_again :: status_env
  re_finalize :: "string \<Rightarrow> delivery \<times> host"
  re_status :: status_env

text \<open>After the first pass a rollback looks for a split and resolves it, and when nothing failed so
  far a generation that every node committed is finalized.\<close>

definition resolve_split ::
    "recovery_env \<Rightarrow> string list \<Rightarrow> MutationLease \<Rightarrow> string \<Rightarrow> recovery_options
      \<Rightarrow> (string \<times> RecoveryStatus) list \<Rightarrow> cluster \<Rightarrow> problem list \<times> cluster" where
  "resolve_split env nodes l strategy opts known cl =
     (if strategy \<noteq> ''rollback'' then ([], cl)
      else
        (case observeNodes (re_observe env) (ml_lab l) known nodes cl of
           (seen, cl1) \<Rightarrow>
             (case detectSplitCommit seen of
                None \<Rightarrow> ([], cl1)
              | Some split \<Rightarrow> resolveSplitCommit (re_abandon env) l opts split cl1)))"

definition finish_converged ::
    "recovery_env \<Rightarrow> string list \<Rightarrow> MutationLease \<Rightarrow> (string \<times> RecoveryStatus) list \<Rightarrow> problem list \<Rightarrow> cluster
      \<Rightarrow> problem list \<times> cluster" where
  "finish_converged env nodes l known problems cl =
     (if problems \<noteq> [] then ([], cl)
      else
        (case observeNodes (re_observe_again env) (ml_lab l) known nodes cl of
           (seen, cl1) \<Rightarrow> finalizeConvergedCommit (re_finalize env) l nodes seen cl1))"

definition recoverWithLeaseStrategyOptions ::
    "recovery_env \<Rightarrow> string list \<Rightarrow> MutationLease \<Rightarrow> string \<Rightarrow> recovery_options \<Rightarrow> bool \<times> cluster
      \<Rightarrow> (problem list \<times> string) \<times> bool \<times> cluster" where
  "recoverWithLeaseStrategyOptions env nodes l strategy opts hc =
     (let (held, cl0) = renew_rounds (re_renew env) nodes l hc;
          (rs, cl1) = fanOut nodes (node_recover (re_recover env) l strategy opts) cl0;
          known = answers_of rs;
          (ps1, cl2) = resolve_split env nodes l strategy opts known cl1;
          (ps2, cl3) = finish_converged env nodes l known (problems_of rs @ ps1) cl2;
          (sts, cl4) = one_by_one (node_status (re_status env) (ml_lab l)) (sort nodes) cl3;
          (ps3, g) = check_statuses [] sts;
          ps4 = (if held then [] else [LeaseLost])
      in ((problems_of rs @ ps1 @ ps2 @ ps3 @ ps4, g), held, cl4))"

end
