(* ===== verification/Cluster.thy ===== *)
theory Cluster
  imports Cluster_Recovery
begin

text \<open>
  A deployment over a whole cluster, \<open>coordinatedApply\<close> of \<open>internal/client/coordination.go\<close>: under a
  cluster-wide lease every node prepares, then every node applies, then every node commits, and a
  failure before the last commit is answered by a recovery of all of them.

  The rounds in which the lease is renewed are taken at the beginning of a stage.
\<close>

section \<open>Requests\<close>

definition cross_node :: "TopoLink \<Rightarrow> (string \<times> string) option" where
  "cross_node l =
     (if link_vni l = 0 then None
      else (case (link_a l, link_b l) of
              (Some a, Some b) \<Rightarrow> if a = b then None else Some (a, b)
            | _ \<Rightarrow> None))"

definition overlayReservations :: "Topology \<Rightarrow> string \<Rightarrow> vni list" where
  "overlayReservations tp node =
     sort (remdups (map link_vni
       (filter (\<lambda>l. case cross_node l of None \<Rightarrow> False | Some (a, b) \<Rightarrow> a = node \<or> b = node) (top_links tp))))"

text \<open>\<open>digest\<close> is the hash of the encoded wire, used when nothing else names the generation.\<close>

definition generatedGeneration :: "(Wire \<Rightarrow> string) \<Rightarrow> Topology \<Rightarrow> ApplyRequest \<Rightarrow> string \<Rightarrow> string" where
  "generatedGeneration digest tp req cur =
     (if ar_only req \<noteq> [] \<and> cur \<noteq> [] then cur
      else if ar_generation req \<noteq> [] then ar_generation req
      else if top_hash tp \<noteq> [] then top_hash tp
      else ''sha256:'' @ digest (serialise tp))"

definition assignedWireDevices :: "Wire \<Rightarrow> string \<Rightarrow> string list" where
  "assignedWireDevices w node =
     (case wire_topology w of None \<Rightarrow> [] | Some tp \<Rightarrow> sort (devices_on tp node))"

definition wire_lab :: "Wire \<Rightarrow> string" where
  "wire_lab w = (case wire_topology w of None \<Rightarrow> [] | Some tp \<Rightarrow> top_name tp)"

definition applyRequestForNode ::
    "ApplyRequest \<Rightarrow> Wire \<Rightarrow> (string \<times> string) list \<Rightarrow> MutationLease \<Rightarrow> string \<Rightarrow> string \<Rightarrow> string \<Rightarrow> string
      \<Rightarrow> ApplyRequest" where
  "applyRequestForNode req w ps l node phase expected g =
     req\<lparr>ar_topology := Some w, ar_peers := ps, ar_lab := wire_lab w, ar_phase := phase,
         ar_expected := expected, ar_generation := g, ar_target := node, ar_assignment_known := True,
         ar_assigned := assignedWireDevices w node,
         ar_fence := (case fmlookup (ml_fences l) node of None \<Rightarrow> \<lparr>Token = [], Generation = 0\<rparr> | Some f \<Rightarrow> f)\<rparr>"

definition deployment_wire :: "Topology \<Rightarrow> ApplyRequest \<Rightarrow> Wire" where
  "deployment_wire tp req =
     (serialise tp)\<lparr>wire_mode := ar_mode req, wire_ungraded := ar_ungraded req,
        wire_ephemeral := (ar_ephemeral req \<or> top_ephemeral tp),
        wire_ephemeral_ttl := (if ar_ephemeral_ttl req = 0 then top_ephemeral_ttl tp else ar_ephemeral_ttl req)\<rparr>"

section \<open>Outcomes\<close>

datatype cause =
    NeedsLease
  | BadRequestMode agent_error
  | GenerationUnknown
  | NoGeneration
  | ReserveFailed string
  | PrepareFailed string
  | ApplyFailed string
  | LostLease
  | ImagesDiffer string
  | RestoreUnverified string
  | CommitFailed string
  | FinalizeFailed string
  | InventoryUnverified
  | Recovered cause
  | Unrecovered cause "problem list"

datatype apply_error = DidNotCommit cause | ErrCommitted string cause

type_synonym node_result = "string \<times> ApplyResponse \<times> apply_error option"

definition with_error :: "string list \<Rightarrow> (string \<times> ApplyResponse) list \<Rightarrow> apply_error option \<Rightarrow> node_result list" where
  "with_error nodes values oe =
     map (\<lambda>n. (n, case map_of values n of None \<Rightarrow> no_response | Some r \<Rightarrow> r, oe)) (sort nodes)"

definition transactionFailure :: "string list \<Rightarrow> (string \<times> ApplyResponse) list \<Rightarrow> cause \<Rightarrow> node_result list" where
  "transactionFailure nodes values c = with_error nodes values (Some (DidNotCommit c))"

definition postCommitFailure ::
    "string list \<Rightarrow> (string \<times> ApplyResponse) list \<Rightarrow> string \<Rightarrow> cause \<Rightarrow> node_result list" where
  "postCommitFailure nodes values stage c = with_error nodes values (Some (ErrCommitted stage c))"

definition CommittedResults :: "node_result list \<Rightarrow> bool" where
  "CommittedResults rs \<longleftrightarrow>
     list_ex (\<lambda>(_, _, oe). oe \<noteq> None) rs
     \<and> list_all (\<lambda>(_, _, oe). case oe of Some (DidNotCommit _) \<Rightarrow> False | _ \<Rightarrow> True) rs"

definition succeeded :: "node_result list \<Rightarrow> bool" where
  "succeeded rs \<longleftrightarrow> list_all (\<lambda>(_, _, oe). oe = None) rs"

definition mergeUnprovenNamespaces ::
    "(string, string) fmap \<Rightarrow> (string, string) fmap \<Rightarrow> (string, string) fmap" where
  "mergeUnprovenNamespaces a b = a ++\<^sub>f b"

section \<open>The stages\<close>

record apply_env =
  ae_renew :: "nat \<Rightarrow> (string \<Rightarrow> delivery \<times> host) list"
  ae_generation :: status_env
  ae_reserve :: "string \<Rightarrow> delivery \<times> overlay_env \<times> host"
  ae_prepare :: "string \<Rightarrow> delivery \<times> prepare_host"
  ae_apply :: "string \<Rightarrow> delivery \<times> apply_host"
  ae_images :: "string \<Rightarrow> ApplyResponse \<Rightarrow> bool"
  ae_verify :: "string \<Rightarrow> delivery \<times> verify_host"
  ae_commit :: "string \<Rightarrow> delivery \<times> commit_host"
  ae_finalize :: "string \<Rightarrow> delivery \<times> host"
  ae_check :: status_env
  ae_recovery :: recovery_env
  ae_digest :: "Wire \<Rightarrow> string"
  ae_underlay :: "(string \<times> string) list"

definition node_generation ::
    "status_env \<Rightarrow> string \<Rightarrow> string \<Rightarrow> Server \<Rightarrow> (call_error, string) result \<times> Server" where
  "node_generation env lab n s =
     deliver (fst (env n))
       (hbind (hread (\<lambda>s. get_or [] (committedGenerations s) lab)) (\<lambda>g.
        hbind (hstatus (snd (env n)) lab) (\<lambda>_. hret g))) s"

text \<open>The answers have to agree on one value.\<close>

definition single_value :: "(string \<times> ('e, string) result) list \<Rightarrow> string option" where
  "single_value rs =
     (case rs of
        [] \<Rightarrow> Some []
      | (_, r) # _ \<Rightarrow> if list_all (\<lambda>(_, r'). is_ok r' \<and> r' = r) rs then (case r of Inr g \<Rightarrow> Some g | Inl _ \<Rightarrow> None)
                     else None)"

definition clusterGeneration ::
    "status_env \<Rightarrow> string list \<Rightarrow> string \<Rightarrow> cluster \<Rightarrow> string option \<times> cluster" where
  "clusterGeneration env nodes lab cl =
     (case fanOut nodes (node_generation env lab) cl of (rs, cl') \<Rightarrow> (single_value rs, cl'))"

text \<open>Calls in name order until one fails, which is named.\<close>

fun until_failure ::
    "(string \<Rightarrow> Server \<Rightarrow> ('e, 'a) result \<times> Server) \<Rightarrow> string list \<Rightarrow> cluster \<Rightarrow> string option \<times> cluster" where
  "until_failure f [] cl = (None, cl)"
| "until_failure f (n # ns) cl =
     (case f n (cl n) of
        (Inl _, s) \<Rightarrow> (Some n, cl(n := s))
      | (Inr _, s) \<Rightarrow> until_failure f ns (cl(n := s)))"

definition node_reserve ::
    "(string \<Rightarrow> delivery \<times> overlay_env \<times> host) \<Rightarrow> MutationLease \<Rightarrow> Topology \<Rightarrow> string \<Rightarrow> string \<Rightarrow> Server
      \<Rightarrow> (call_error, unit) result \<times> Server" where
  "node_reserve env l tp token n s =
     (if overlayReservations tp n = [] then (Inr (), s)
      else (case fmlookup (ml_fences l) n of
              None \<Rightarrow> (Inl NoAnswer, s)
            | Some f \<Rightarrow>
                (case env n of
                   (d, oe, h) \<Rightarrow>
                     deliver d
                       (hbind (hheld (top_name tp) token (clk h 0)) (\<lambda>_.
                        hbind (hagent (reserveOverlays oe
                          \<lparr>or_lab = top_name tp, or_hold = token, or_fence = f, or_vnis = overlayReservations tp n\<rparr>
                          (clk h 1))) (\<lambda>_. hret ()))) s)))"

definition first_failure :: "(string \<times> ('e, 'a) result) list \<Rightarrow> string option" where
  "first_failure rs = (case filter (\<lambda>(_, r). \<not> is_ok r) rs of [] \<Rightarrow> None | (n, _) # _ \<Rightarrow> Some n)"

text \<open>An answer that lists failures is one.\<close>

definition responseFailure :: "(call_error, ApplyResponse) result \<Rightarrow> (call_error, ApplyResponse) result" where
  "responseFailure r =
     (case r of Inl e \<Rightarrow> Inl e
      | Inr resp \<Rightarrow> if ap_failures resp = [] then Inr resp else Inl (Remote (HHost ''failures'')))"

definition carry_over :: "(string \<times> ApplyResponse) list \<Rightarrow> string \<times> ApplyResponse \<Rightarrow> string \<times> ApplyResponse" where
  "carry_over applied nr =
     (case nr of
        (n, resp) \<Rightarrow>
          (n, case map_of applied n of
                None \<Rightarrow> resp
              | Some a \<Rightarrow> resp\<lparr>ap_images := ap_images a, ap_steps := ap_steps a,
                            ap_unproven := mergeUnprovenNamespaces (ap_unproven a) (ap_unproven resp)\<rparr>))"

subsection \<open>One mutation\<close>

text \<open>What the stages share: the nodes, the lease, and the request as completed for this deployment.\<close>

record mutation =
  mu_nodes :: "string list"
  mu_lease :: MutationLease
  mu_topology :: Topology
  mu_request :: ApplyRequest
  mu_wire :: Wire
  mu_expected :: string
  mu_generation :: string
  mu_proofs :: "(string \<Rightarrow> string list) option"

definition request_for :: "apply_env \<Rightarrow> mutation \<Rightarrow> string \<Rightarrow> string \<Rightarrow> ApplyRequest" where
  "request_for env d phase n =
     applyRequestForNode (mu_request d) (mu_wire d) (ae_underlay env) (mu_lease d) n phase (mu_expected d) (mu_generation d)"

definition proofs_of :: "mutation \<Rightarrow> string \<Rightarrow> string list" where
  "proofs_of d n = (case mu_proofs d of None \<Rightarrow> [] | Some p \<Rightarrow> p n)"

definition renewing :: "apply_env \<Rightarrow> nat \<Rightarrow> mutation \<Rightarrow> bool \<times> cluster \<Rightarrow> bool \<times> cluster" where
  "renewing env k d hc = renew_rounds (ae_renew env k) (mu_nodes d) (mu_lease d) hc"

definition reserve_stage :: "apply_env \<Rightarrow> mutation \<Rightarrow> bool \<times> cluster \<Rightarrow> cause option \<times> bool \<times> cluster" where
  "reserve_stage env d hc =
     (let (held, cl) = renewing env 1 d hc;
          (bad, cl') = until_failure (node_reserve (ae_reserve env) (mu_lease d) (mu_topology d) (ar_hold (mu_request d)))
                         (sort (mu_nodes d)) cl
      in (map_option ReserveFailed bad, held, cl'))"

definition node_prepare ::
    "apply_env \<Rightarrow> mutation \<Rightarrow> string \<Rightarrow> Server \<Rightarrow> (call_error, ApplyResponse) result \<times> Server" where
  "node_prepare env d n s =
     (let req = request_for env d ''prepare'' n;
          req' = (case mu_proofs d of None \<Rightarrow> req | Some p \<Rightarrow> req\<lparr>ar_proofs := p n\<rparr>)
      in deliver (fst (ae_prepare env n)) (handleApplyPrepare (snd (ae_prepare env n)) req') s)"

definition prepare_stage :: "apply_env \<Rightarrow> mutation \<Rightarrow> bool \<times> cluster \<Rightarrow> cause option \<times> bool \<times> cluster" where
  "prepare_stage env d hc =
     (let (held, cl) = renewing env 2 d hc;
          (rs, cl') = fanOut (mu_nodes d) (node_prepare env d) cl
      in (map_option PrepareFailed (first_failure rs), held, cl'))"

definition node_apply ::
    "apply_env \<Rightarrow> mutation \<Rightarrow> string \<Rightarrow> Server \<Rightarrow> (call_error, ApplyResponse) result \<times> Server" where
  "node_apply env d n s =
     deliver (fst (ae_apply env n)) (applyPhase (snd (ae_apply env n)) (request_for env d ''apply'' n)) s"

text \<open>All applies run to their end before the outcome is looked at.  Of several failures the source
  names the first to arrive, the model the first by name.\<close>

definition apply_stage ::
    "apply_env \<Rightarrow> mutation \<Rightarrow> bool \<times> cluster
      \<Rightarrow> ((string \<times> ApplyResponse) list \<times> cause option) \<times> bool \<times> cluster" where
  "apply_stage env d hc =
     (let (held, cl) = renewing env 3 d hc;
          (rs, cl') = fanOut (mu_nodes d) (node_apply env d) cl;
          bad = first_failure (map (\<lambda>(n, r). (n, responseFailure r)) rs)
      in ((answers_of rs,
           case bad of Some n \<Rightarrow> Some (ApplyFailed n) | None \<Rightarrow> if held then None else Some LostLease),
          held, cl'))"

definition images_stage :: "apply_env \<Rightarrow> mutation \<Rightarrow> (string \<times> ApplyResponse) list \<Rightarrow> cause option" where
  "images_stage env d values =
     (case filter (\<lambda>n. \<not> ae_images env n (case map_of values n of None \<Rightarrow> no_response | Some r \<Rightarrow> r)) (sort (mu_nodes d)) of
        [] \<Rightarrow> None
      | n # _ \<Rightarrow> Some (ImagesDiffer n))"

definition node_verify :: "apply_env \<Rightarrow> mutation \<Rightarrow> string \<Rightarrow> Server \<Rightarrow> (call_error, unit) result \<times> Server" where
  "node_verify env d n s =
     (if proofs_of d n = [] then (Inr (), s)
      else (case fmlookup (ml_fences (mu_lease d)) n of
              None \<Rightarrow> (Inl NoAnswer, s)
            | Some f \<Rightarrow>
                deliver (fst (ae_verify env n))
                  (handleStateVerify (snd (ae_verify env n)) (top_name (mu_topology d)) f (mu_generation d)) s))"

definition verify_stage :: "apply_env \<Rightarrow> mutation \<Rightarrow> bool \<times> cluster \<Rightarrow> cause option \<times> bool \<times> cluster" where
  "verify_stage env d hc =
     (let (held, cl) = renewing env 4 d hc;
          (bad, cl') = until_failure (node_verify env d) (sort (mu_nodes d)) cl
      in (map_option RestoreUnverified bad, held, cl'))"

definition node_commit ::
    "apply_env \<Rightarrow> mutation \<Rightarrow> string \<Rightarrow> Server \<Rightarrow> (call_error, ApplyResponse) result \<times> Server" where
  "node_commit env d n s =
     (case deliver (fst (ae_commit env n))
             (handleApplyCommit (snd (ae_commit env n)) ((request_for env d ''commit'' n)\<lparr>ar_topology := None\<rparr>)) s of
        (r, s') \<Rightarrow> (responseFailure r, s'))"

text \<open>Answers are taken in name order up to the first failure; each carries over what the apply of
  its node reported.\<close>

definition commit_stage ::
    "apply_env \<Rightarrow> mutation \<Rightarrow> (string \<times> ApplyResponse) list \<Rightarrow> bool \<times> cluster
      \<Rightarrow> ((string \<times> ApplyResponse) list \<times> cause option) \<times> bool \<times> cluster" where
  "commit_stage env d values hc =
     (let (held, cl) = renewing env 5 d hc;
          (rs, cl') = fanOut (mu_nodes d) (node_commit env d) cl;
          taken = answers_of (takeWhile (\<lambda>(_, r). is_ok r) rs)
      in ((map (carry_over values) taken @ values, map_option CommitFailed (first_failure rs)), held, cl'))"

definition node_finish ::
    "apply_env \<Rightarrow> mutation \<Rightarrow> string \<Rightarrow> Server \<Rightarrow> (call_error, ApplyResponse) result \<times> Server" where
  "node_finish env d n s =
     deliver (fst (ae_finalize env n))
       (handleApplyFinalize (snd (ae_finalize env n)) ((request_for env d ''finalize'' n)\<lparr>ar_topology := None\<rparr>)) s"

definition finalize_stage :: "apply_env \<Rightarrow> mutation \<Rightarrow> bool \<times> cluster \<Rightarrow> cause option \<times> bool \<times> cluster" where
  "finalize_stage env d hc =
     (let (held, cl) = renewing env 6 d hc;
          (rs, cl') = fanOut (mu_nodes d) (node_finish env d) cl
      in (map_option FinalizeFailed (first_failure rs), held, cl'))"

definition verified_as :: "string \<Rightarrow> (call_error, RecoveryStatus) result \<Rightarrow> bool" where
  "verified_as g r = (case r of Inl _ \<Rightarrow> False | Inr st \<Rightarrow> rs_consistent st \<and> rs_generation st = g)"

definition verifyCommittedRecovery :: "apply_env \<Rightarrow> mutation \<Rightarrow> bool \<times> cluster \<Rightarrow> cause option \<times> bool \<times> cluster" where
  "verifyCommittedRecovery env d hc =
     (let (held, cl) = renewing env 7 d hc;
          (sts, cl') = one_by_one (node_status (ae_check env) (top_name (mu_topology d))) (sort (mu_nodes d)) cl
      in (if list_all (\<lambda>(_, r). verified_as (mu_generation d) r) sts then None else Some InventoryUnverified, held, cl'))"

subsection \<open>The whole deployment\<close>

definition plain_recovery :: recovery_options where
  "plain_recovery = \<lparr>opt_takeover = False, opt_forward_ack = False, opt_rollback_committed = False\<rparr>"

definition recoverFailedApply :: "apply_env \<Rightarrow> mutation \<Rightarrow> cause \<Rightarrow> bool \<times> cluster \<Rightarrow> cause \<times> bool \<times> cluster" where
  "recoverFailedApply env d c hc =
     (case recoverWithLeaseStrategyOptions (ae_recovery env) (mu_nodes d) (mu_lease d) ''rollback'' plain_recovery hc of
        ((problems, _), hc') \<Rightarrow> (if problems = [] then Recovered c else Unrecovered c problems, hc'))"

type_synonym outcome = "node_result list \<times> bool \<times> cluster"

definition failed ::
    "apply_env \<Rightarrow> mutation \<Rightarrow> (string \<times> ApplyResponse) list \<Rightarrow> cause \<Rightarrow> bool \<times> cluster \<Rightarrow> outcome" where
  "failed env d values c hc =
     (case recoverFailedApply env d c hc of (c', hc') \<Rightarrow> (transactionFailure (mu_nodes d) values c', hc'))"

definition after_commit ::
    "apply_env \<Rightarrow> mutation \<Rightarrow> (string \<times> ApplyResponse) list \<Rightarrow> bool \<times> cluster \<Rightarrow> outcome" where
  "after_commit env d values hc =
     (case finalize_stage env d hc of
        (Some c, hc1) \<Rightarrow> (postCommitFailure (mu_nodes d) values ''finalization'' c, hc1)
      | (None, hc1) \<Rightarrow>
          (case verifyCommittedRecovery env d hc1 of
             (Some c, hc2) \<Rightarrow> (postCommitFailure (mu_nodes d) values ''post-commit inventory verification'' c, hc2)
           | (None, hc2) \<Rightarrow>
               if fst hc2 then (with_error (mu_nodes d) values None, hc2)
               else (case recoverFailedApply env d LostLease hc2 of
                       (c, hc3) \<Rightarrow> (postCommitFailure (mu_nodes d) values ''the fenced mutation lease'' c, hc3))))"

definition after_apply ::
    "apply_env \<Rightarrow> mutation \<Rightarrow> (string \<times> ApplyResponse) list \<Rightarrow> bool \<times> cluster \<Rightarrow> outcome" where
  "after_apply env d values hc =
     (case images_stage env d values of
        Some c \<Rightarrow> failed env d values c hc
      | None \<Rightarrow>
          (case verify_stage env d hc of
             (Some c, hc1) \<Rightarrow> failed env d values c hc1
           | (None, hc1) \<Rightarrow>
               (case commit_stage env d values hc1 of
                  ((values', Some c), hc2) \<Rightarrow> failed env d values' c hc2
                | ((values', None), hc2) \<Rightarrow> after_commit env d values' hc2)))"

definition deploy :: "apply_env \<Rightarrow> mutation \<Rightarrow> bool \<times> cluster \<Rightarrow> outcome" where
  "deploy env d hc =
     (case reserve_stage env d hc of
        (Some c, hc1) \<Rightarrow> (transactionFailure (mu_nodes d) [] c, hc1)
      | (None, hc1) \<Rightarrow>
          (case prepare_stage env d hc1 of
             (Some c, hc2) \<Rightarrow> failed env d [] c hc2
           | (None, hc2) \<Rightarrow>
               (case apply_stage env d hc2 of
                  ((values, Some c), hc3) \<Rightarrow> failed env d values c hc3
                | ((values, None), hc3) \<Rightarrow> after_apply env d values hc3)))"

definition plan_mutation ::
    "apply_env \<Rightarrow> string list \<Rightarrow> MutationLease \<Rightarrow> Topology \<Rightarrow> ApplyRequest \<Rightarrow> (string \<Rightarrow> string list) option \<Rightarrow> string \<Rightarrow> string
      \<Rightarrow> mutation" where
  "plan_mutation env nodes l tp req proofs mode expected =
     (let req1 = req\<lparr>ar_mode := mode\<rparr>;
          w = deployment_wire tp req1
      in \<lparr>mu_nodes = nodes, mu_lease = l, mu_topology = tp,
          mu_request = req1\<lparr>ar_ephemeral := wire_ephemeral w, ar_ephemeral_ttl := wire_ephemeral_ttl w\<rparr>,
          mu_wire = w, mu_expected = expected,
          mu_generation = generatedGeneration (ae_digest env) tp req1 expected, mu_proofs = proofs\<rparr>)"

definition coordinatedApplyWithLease ::
    "apply_env \<Rightarrow> string list \<Rightarrow> MutationLease option \<Rightarrow> Topology \<Rightarrow> ApplyRequest \<Rightarrow> (string \<Rightarrow> string list) option
      \<Rightarrow> bool \<times> cluster \<Rightarrow> outcome" where
  "coordinatedApplyWithLease env nodes lease tp req proofs hc =
     (case lease of
        None \<Rightarrow> (transactionFailure nodes [] NeedsLease, hc)
      | Some l \<Rightarrow>
          (case RequireTransactionMode (ar_mode req) of
             Inl e \<Rightarrow> (transactionFailure nodes [] (BadRequestMode e), hc)
           | Inr mode \<Rightarrow>
               let (held, cl) = renew_rounds (ae_renew env 0) nodes l hc;
                   (oexpected, cl') = clusterGeneration (ae_generation env) nodes (top_name tp) cl
               in (case oexpected of
                     None \<Rightarrow> (transactionFailure nodes [] GenerationUnknown, held, cl')
                   | Some expected \<Rightarrow>
                       let d = plan_mutation env nodes l tp req proofs mode expected in
                       if mu_generation d = [] then (transactionFailure nodes [] NoGeneration, held, cl')
                       else deploy env d (held, cl'))))"

end
