(* ===== verification/Two_Phase.thy ===== *)
theory Two_Phase
  imports Node_System
begin

text \<open>
  The deployment protocol of one node between two starts of its agent.  What one lab's transaction
  and generation record can do in one step is a small relation; every request of the node acts on
  one lab by it, it keeps the two records in agreement, and seen from outside it is a state
  machine of four states.
\<close>

section \<open>The agreement of transaction and generation\<close>

definition lab_agrees :: "applyTransaction option \<Rightarrow> generationState \<Rightarrow> bool" where
  "lab_agrees otx g \<longleftrightarrow>
     (case otx of
        None \<Rightarrow> prepared g = []
      | Some tx \<Rightarrow>
          if tx_committed tx then committed g = tx_generation tx \<and> prepared g = []
          else committed g = tx_previous_gen tx \<and> prepared g \<in> {[], tx_generation tx})"

definition gen_of :: "Server \<Rightarrow> string \<Rightarrow> generationState" where
  "gen_of s lab = get_or no_generation (generations s) lab"

definition two_phase :: "Server \<Rightarrow> bool" where
  "two_phase s \<longleftrightarrow> (\<forall>lab. lab_agrees (fmlookup (transactions s) lab) (gen_of s lab))"

text \<open>What the callers check before they finish a generation: the commit handler answers at once for
  a transaction that is committed already (\<open>apply_transaction.go\<close>, \<open>handleCommit\<close>), and a recovery
  reopens a committed transaction before it works on it.  A restart is outside this protocol: it
  takes the committed generation from the topology record.\<close>

definition uncommitted :: "string \<Rightarrow> Server \<Rightarrow> bool" where
  "uncommitted lab s = (case fmlookup (transactions s) lab of None \<Rightarrow> True | Some tx \<Rightarrow> \<not> tx_committed tx)"

fun orderly :: "move \<Rightarrow> Sys \<Rightarrow> bool" where
  "orderly (Request (Fenced (FinishCommitted ok oinv g) lab f t)) y = uncommitted lab (sys_server y)"
| "orderly (Request (Fenced (FinishRecovered ok g) lab f t)) y = uncommitted lab (sys_server y)"
| "orderly (Crash ok okp ok' t t' t'') y = False"
| "orderly _ y = True"

text \<open>Requests outside the protocol leave both records alone.\<close>

definition same_tx :: "Server \<Rightarrow> Server \<Rightarrow> bool" where
  "same_tx s s' \<longleftrightarrow> transactions s' = transactions s \<and> generations s' = generations s"

lemma same_tx_refl [simp]: "same_tx s s"
  by (simp add: same_tx_def)

lemma same_tx_save [simp]: "same_tx s (snd (saveCoordinationLocked ok s')) = same_tx s s'"
  by (simp add: same_tx_def)

lemma same_tx_expire [simp]: "same_tx s (snd (expireCoordinationLocked t s')) = same_tx s s'"
  by (simp add: same_tx_def)

lemma same_tx_fields [simp]:
  "same_tx s (s'\<lparr>overlayClaims := a\<rparr>) = same_tx s s'" "same_tx s (s'\<lparr>mutations := b\<rparr>) = same_tx s s'"
  "same_tx s (s'\<lparr>store := c\<rparr>) = same_tx s s'" "same_tx s (s'\<lparr>inventories := d\<rparr>) = same_tx s s'"
  "same_tx s (s'\<lparr>overlayLineage := e\<rparr>) = same_tx s s'" "same_tx s (s'\<lparr>ephemeral := f\<rparr>) = same_tx s s'"
  "same_tx s (s'\<lparr>gcCollecting := g\<rparr>) = same_tx s s'" "same_tx s (s'\<lparr>ops := h\<rparr>) = same_tx s s'"
  "same_tx s (s'\<lparr>opSequence := i\<rparr>) = same_tx s s'" "same_tx s (s'\<lparr>holds := j\<rparr>) = same_tx s s'"
  "same_tx s (s'\<lparr>repairFails := k\<rparr>) = same_tx s s'" "same_tx s (s'\<lparr>repairNext := m\<rparr>) = same_tx s s'"
  "same_tx s (s'\<lparr>semanticCycles := n\<rparr>) = same_tx s s'" "same_tx s (s'\<lparr>repairTerminal := p\<rparr>) = same_tx s s'"
  "same_tx s (s'\<lparr>semanticGraceUntil := q\<rparr>) = same_tx s s'" "same_tx s (s'\<lparr>exempt := r\<rparr>) = same_tx s s'"
  "same_tx s (s'\<lparr>partial := u\<rparr>) = same_tx s s'" "same_tx s (s'\<lparr>gcSeen := v\<rparr>) = same_tx s s'"
  "same_tx s (s'\<lparr>current := w\<rparr>) = same_tx s s'" "same_tx s (s'\<lparr>modes := x\<rparr>) = same_tx s s'"
  "same_tx s (s'\<lparr>ungraded := y\<rparr>) = same_tx s s'" "same_tx s (s'\<lparr>peers := z\<rparr>) = same_tx s s'"
  "same_tx s (s'\<lparr>fenceHighWater := hh\<rparr>) = same_tx s s'"
  by (simp_all add: same_tx_def)

interpretation outside: bystander same_tx
  by unfold_locales simp_all

section \<open>One lab in one step\<close>

type_synonym lab_view = "applyTransaction option \<times> generationState"

definition view :: "Server \<Rightarrow> string \<Rightarrow> lab_view" where
  "view s lab = (fmlookup (transactions s) lab, gen_of s lab)"

text \<open>The fields the protocol speaks of.\<close>

definition same_shape :: "applyTransaction \<Rightarrow> applyTransaction \<Rightarrow> bool" where
  "same_shape tx tx' \<longleftrightarrow> tx_committed tx' = tx_committed tx \<and> tx_generation tx' = tx_generation tx \<and>
     tx_previous_gen tx' = tx_previous_gen tx"

inductive lab_step :: "lab_view \<Rightarrow> lab_view \<Rightarrow> bool" where
  same: "lab_step v v"
| update: "same_shape tx tx' \<Longrightarrow> lab_step (Some tx, g) (Some tx', g)"
| prepare: "\<not> tx_committed tx \<Longrightarrow> tx_previous_gen tx = committed g \<Longrightarrow>
    lab_step (None, g) (Some tx, g\<lparr>prepared := tx_generation tx\<rparr>)"
| unprepare: "lab_step (None, g) (None, g\<lparr>prepared := []\<rparr>)"
| commit: "\<not> tx_committed tx \<Longrightarrow> tx_committed tx' \<Longrightarrow> tx_generation tx' = tx_generation tx \<Longrightarrow>
    tx_previous_gen tx' = tx_previous_gen tx \<Longrightarrow>
    lab_step (Some tx, g) (Some tx', g\<lparr>committed := tx_generation tx, prepared := [], ancestors := as\<rparr>)"
| finalize: "tx_committed tx \<Longrightarrow> lab_step (Some tx, g) (None, g)"
| reopen: "tx_committed tx \<Longrightarrow> \<not> tx_committed tx' \<Longrightarrow> tx_generation tx' = tx_generation tx \<Longrightarrow>
    tx_previous_gen tx' = tx_previous_gen tx \<Longrightarrow>
    lab_step (Some tx, g) (Some tx', g\<lparr>committed := tx_previous_gen tx, prepared := tx_generation tx\<rparr>)"
| recover: "\<not> tx_committed tx \<Longrightarrow>
    lab_step (Some tx, g) (None, g\<lparr>committed := tx_previous_gen tx, prepared := []\<rparr>)"
| unrecover: "\<not> tx_committed tx \<Longrightarrow>
    lab_step (Some tx, g) (Some tx, g\<lparr>committed := tx_previous_gen tx, prepared := []\<rparr>)"
| destroy: "lab_step v (None, no_generation)"

inductive_cases lab_stepE: "lab_step v w"

definition effect :: "string \<Rightarrow> Server \<Rightarrow> Server \<Rightarrow> bool" where
  "effect lab s s' \<longleftrightarrow> (\<forall>k. k \<noteq> lab \<longrightarrow> view s' k = view s k) \<and> lab_step (view s lab) (view s' lab)"

lemma effect_refl [simp]: "effect lab s s"
  by (simp add: effect_def lab_step.same)

lemma effect_same: "same_tx s s' \<Longrightarrow> effect lab s s'"
  by (simp add: effect_def view_def gen_of_def same_tx_def lab_step.same)

lemma effect_fenced: "effect lab s (snd k) \<Longrightarrow> effect lab s (snd (fenced lab f t s k))"
  by (auto simp: fenced_def split: option.splits)

text \<open>An effect by the two maps it writes.\<close>

lemma effectI:
  assumes "fmlookup (transactions s) lab = otx" "lab_step (otx, gen_of s lab) (otx', g)"
    and "fmlookup (transactions s') lab = otx'" "gen_of s' lab = g"
    and "\<And>k. k \<noteq> lab \<Longrightarrow> fmlookup (transactions s') k = fmlookup (transactions s) k"
    and "\<And>k. k \<noteq> lab \<Longrightarrow> fmlookup (generations s') k = fmlookup (generations s) k"
  shows "effect lab s s'"
  using assms by (simp add: effect_def view_def gen_of_def get_or_def)

lemma prepared_tx_Some: "prepared_tx lab f g s = Some tx \<Longrightarrow> fmlookup (transactions s) lab = Some tx \<and> tx_generation tx = g"
  by (auto simp: prepared_tx_def split: option.splits if_splits)

lemma recovery_tx_Some: "recovery_tx lab g s = Some tx \<Longrightarrow> fmlookup (transactions s) lab = Some tx \<and> tx_generation tx = g"
  by (auto simp: recovery_tx_def split: option.splits if_splits)

section \<open>Every request acts by such a step\<close>

text \<open>The requests that replace the transaction by one of the same shape.\<close>

lemma effect_put_tx:
  assumes "fmlookup (transactions s) lab = Some tx" "same_shape tx tx'"
  shows "effect lab s (snd (put_tx ok lab tx' s))"
  by (rule effectI [OF assms(1) lab_step.update [OF assms(2)]])
    (auto simp: put_tx_def gen_of_def Let_def case_prod_unfold)

lemma same_shape_mark_phase:
  "tx_committed (mark_phase ph failure t tx) = tx_committed tx"
  "tx_generation (mark_phase ph failure t tx) = tx_generation tx"
  "tx_previous_gen (mark_phase ph failure t tx) = tx_previous_gen tx"
  by (simp_all add: mark_phase_def Let_def)

lemmas shape_simps = same_shape_def prepared_tx_Some recovery_tx_Some same_shape_mark_phase

lemma update_effect:
  assumes "\<And>tx. otx = Some tx \<Longrightarrow> fmlookup (transactions s) lab = Some tx" "\<And>tx. same_shape tx (upd tx)"
  shows "effect lab s (snd (fenced lab f t s (case otx of None \<Rightarrow> (Inl e, s) | Some tx \<Rightarrow> put_tx ok lab (upd tx) s)))"
  using assms by (cases otx) (auto intro!: effect_fenced effect_put_tx)

lemma prepared_updates_effect:
  "effect lab s (snd (markGenerationApplying ok g lab f t s))"
  "effect lab s (snd (markGenerationApplied ok g lab f t s))"
  "effect lab s (snd (recordGenerationDirtyCapture ok g ids lab f t s))"
  "effect lab s (snd (recordGenerationSemantic ok g ids lab f t s))"
  "effect lab s (snd (recordGenerationTouched ok g ids vs known lab f t s))"
  unfolding markGenerationApplying_def markGenerationApplied_def recordGenerationDirtyCapture_def
    recordGenerationSemantic_def recordGenerationTouched_def
  by (rule update_effect; simp add: shape_simps)+

lemma recovery_updates_effect:
  "effect lab s (snd (markForwardPhase ok ph t' g lab f t s))"
  "effect lab s (snd (recordForwardDataLoss ok detail g lab f t s))"
  "effect lab s (snd (markTransactionPhase ok phs failure t' g lab f t s))"
  unfolding markForwardPhase_def recordForwardDataLoss_def markTransactionPhase_def
  by (rule update_effect; simp add: shape_simps)+

lemma solve_effect: "effect lab s (snd (recordGenerationSolveTransition ok g rec lab f t s))"
  unfolding recordGenerationSolveTransition_def
  by (cases rec; simp) (rule update_effect; simp add: shape_simps)

lemma verified_effect: "effect lab s (snd (markStateVerified ok g lab f t s))"
  unfolding markStateVerified_def
  by (cases "prepared_tx lab f g s") (auto intro!: effect_fenced effect_put_tx simp: shape_simps)

text \<open>The recovery requests also move a deadline that is kept elsewhere.\<close>

lemma set_recovery_deadline_frame [simp]:
  "transactions (set_recovery_deadline lab d s) = transactions s"
  "generations (set_recovery_deadline lab d s) = generations s"
  by (auto simp: set_recovery_deadline_def split: option.splits)

lemma effect_deadline:
  assumes "fmlookup (transactions s) lab = Some tx" "same_shape tx tx'"
  shows "effect lab s (snd (saveCoordinationLocked ok
           (set_recovery_deadline lab d (s\<lparr>transactions := fmupd lab tx' (transactions s)\<rparr>))))"
    and "effect lab s (set_recovery_deadline lab d (s\<lparr>transactions := fmupd lab tx' (transactions s)\<rparr>))"
  by (rule effectI [OF assms(1) lab_step.update [OF assms(2)]]; simp add: gen_of_def)+

lemma progress_effect:
  "effect lab s (snd (recordRecoveryProgress ok target deadline force g lab f t s))"
  "effect lab s (snd (heartbeatRecoveryProgress c ok hard g lab f t s))"
  unfolding recordRecoveryProgress_def heartbeatRecoveryProgress_def
  by (auto intro!: effect_fenced effect_deadline simp: Let_def case_prod_unfold same_shape_def
      dest!: recovery_tx_Some split: option.split)

lemma same_shape_begin: "begin_forward strategy ack tx = Inr tx' \<Longrightarrow> same_shape tx tx'"
  by (auto simp: begin_forward_def same_shape_def Let_def split: if_splits)

lemma beginRecovery_effect: "effect lab s (snd (beginRecovery c ok strategy tot takeover ack g lab f t s))"
proof -
  have shape: "same_shape tx (tx1\<lparr>tx_recovery_started := a, tx_recovery_progress := b, tx_recovery_deadline := d,
      tx_recovery_total := e, tx_recovery_target := tgt\<rparr>)"
    if "begin_forward strategy ack (tx\<lparr>tx_phase := Recovering, tx_failure := [], tx_attempts := n,
      tx_last_recovery := t, tx_next_recovery := 0, tx_recovery_owner := own, tx_recovery_strategy := strategy\<rparr>)
      = Inr tx1" for tx tx1 n own a b d e tgt
    using same_shape_begin [OF that] by (simp add: same_shape_def)
  show ?thesis
    unfolding beginRecovery_def
    by (auto intro!: effect_fenced effect_deadline(1) [OF _ shape] simp: Let_def case_prod_unfold
        dest!: recovery_tx_Some split: option.split sum.split)
qed

text \<open>The requests that move the generation.\<close>

lemma prepareGeneration_effect: "effect lab s (snd (prepareGeneration ok previous req lab f t s))"
proof (cases "\<exists>d m. validate_prepare req = Inr d \<and> fenceErrorLocked lab f t s = None \<and>
    fmlookup (transactions s) lab = None \<and> committed (gen_of s lab) = pr_expected req \<and>
    RequireTransactionMode (fst (previous_mode lab previous s)) = Inr m")
  case False
  then have "snd (prepareGeneration ok previous req lab f t s) = s"
    by (auto simp: prepareGeneration_def fenced_def gen_of_def Let_def case_prod_unfold split: sum.splits option.splits)
  then show ?thesis
    by simp
next
  case True
  then obtain d m where c: "validate_prepare req = Inr d" "fenceErrorLocked lab f t s = None"
      "fmlookup (transactions s) lab = None" "committed (gen_of s lab) = pr_expected req"
      "RequireTransactionMode (fst (previous_mode lab previous s)) = Inr m"
    by blast
  let ?tx = "new_transaction req f d previous (committed (gen_of s lab)) (fst (previous_mode lab previous s))
    (snd (previous_mode lab previous s))"
  have step: "lab_step (None, gen_of s lab) (Some ?tx, gen_of s lab\<lparr>prepared := pr_generation req\<rparr>)"
    using lab_step.prepare [of ?tx "gen_of s lab"] by (simp add: new_transaction_def)
  show ?thesis
  proof (cases "fst (saveCoordinationLocked ok (s\<lparr>transactions := fmupd lab ?tx (transactions s),
      generations := fmupd lab (gen_of s lab\<lparr>prepared := pr_generation req\<rparr>) (generations s)\<rparr>))")
    case True
    then show ?thesis
      using c by (intro effectI [OF c(3) step])
        (auto simp: prepareGeneration_def fenced_def gen_of_def get_or_def Let_def case_prod_unfold)
  next
    case False
    then show ?thesis
      using c by (intro effectI [OF c(3) lab_step.unprepare])
        (auto simp: prepareGeneration_def fenced_def gen_of_def get_or_def Let_def case_prod_unfold)
  qed
qed

lemma finishCommittedGeneration_effect:
  assumes "uncommitted lab s"
  shows "effect lab s (snd (finishCommittedGeneration ok oinv g lab f t s))"
proof (cases "\<exists>tx. fenceErrorLocked lab f t s = None \<and> prepared_tx lab f g s = Some tx \<and> tx_applied tx")
  case False
  then have "snd (finishCommittedGeneration ok oinv g lab f t s) = s"
    by (auto simp: finishCommittedGeneration_def fenced_def split: option.splits)
  then show ?thesis
    by simp
next
  case True
  then obtain tx where tx: "fenceErrorLocked lab f t s = None" "prepared_tx lab f g s = Some tx" "tx_applied tx"
    by blast
  note p = prepared_tx_Some [OF tx(2)]
  have un: "\<not> tx_committed tx"
    using assms p by (simp add: uncommitted_def)
  let ?tx = "tx\<lparr>tx_committed := True, tx_phase := Committed, tx_failure := []\<rparr>"
  let ?g = "gen_of s lab\<lparr>committed := tx_generation tx, prepared := [],
    ancestors := appendGenerationLineage (ancestors (gen_of s lab)) (committed (gen_of s lab)) g\<rparr>"
  have commit: "lab_step (Some tx, gen_of s lab) (Some ?tx, ?g)"
    by (rule lab_step.commit) (simp_all add: un)
  have undone: "lab_step (Some tx, gen_of s lab) (Some (?tx\<lparr>tx_committed := False\<rparr>), gen_of s lab)"
    by (rule lab_step.update) (simp add: same_shape_def un)
  let ?s' = "snd (finishCommittedGeneration ok oinv g lab f t s)"
  have "fmlookup (transactions ?s') lab = Some ?tx \<and> gen_of ?s' lab = ?g \<or>
      fmlookup (transactions ?s') lab = Some (?tx\<lparr>tx_committed := False\<rparr>) \<and> gen_of ?s' lab = gen_of s lab"
    using tx p by (auto simp: finishCommittedGeneration_def fenced_def Let_def case_prod_unfold gen_of_def
        get_or_def split: option.splits)
  moreover have "fmlookup (transactions ?s') k = fmlookup (transactions s) k"
    "fmlookup (generations ?s') k = fmlookup (generations s) k" if "k \<noteq> lab" for k
    using tx that by (auto simp: finishCommittedGeneration_def fenced_def Let_def case_prod_unfold split: option.splits)
  ultimately show ?thesis
    using effectI [OF conjunct1 [OF p] commit] effectI [OF conjunct1 [OF p] undone] by blast
qed

lemma finalize_effect: "effect lab s (snd (finalizeCommittedGeneration ok g lab f t s))"
proof (cases "\<exists>tx. fenceErrorLocked lab f t s = None \<and> prepared_tx lab f g s = Some tx \<and> tx_committed tx")
  case False
  then have "snd (finalizeCommittedGeneration ok g lab f t s) = s"
    by (auto simp: finalizeCommittedGeneration_def fenced_def split: option.splits)
  then show ?thesis
    by simp
next
  case True
  then obtain tx where tx: "fenceErrorLocked lab f t s = None" "prepared_tx lab f g s = Some tx" "tx_committed tx"
    by blast
  have p: "fmlookup (transactions s) lab = Some tx"
    using prepared_tx_Some [OF tx(2)] by simp
  show ?thesis
    using tx p effectI [OF p lab_step.finalize] effectI [OF p lab_step.same]
    by (auto simp: finalizeCommittedGeneration_def fenced_def Let_def case_prod_unfold gen_of_def)
qed

lemma finishRecovered_effect:
  assumes "uncommitted lab s"
  shows "effect lab s (snd (finishRecoveredGeneration ok g lab f t s))"
proof (cases "\<exists>tx. fenceErrorLocked lab f t s = None \<and> fmlookup (transactions s) lab = Some tx \<and> tx_generation tx = g")
  case False
  then have "snd (finishRecoveredGeneration ok g lab f t s) = s"
    by (auto simp: finishRecoveredGeneration_def fenced_def split: option.splits)
  then show ?thesis
    by simp
next
  case True
  then obtain tx where tx: "fenceErrorLocked lab f t s = None" "fmlookup (transactions s) lab = Some tx" "tx_generation tx = g"
    by blast
  have un: "\<not> tx_committed tx"
    using assms tx(2) by (simp add: uncommitted_def)
  show ?thesis
    using tx effectI [OF tx(2) lab_step.recover [OF un]] effectI [OF tx(2) lab_step.unrecover [OF un]]
    by (auto simp: finishRecoveredGeneration_def fenced_def forget_repairs_def Let_def case_prod_unfold gen_of_def
        get_or_def)
qed

lemma finishDestroyed_effect: "effect lab s (snd (finishDestroyedLab ok lab f t s))"
proof (cases "fenceErrorLocked lab f t s")
  case (Some e)
  then show ?thesis
    by (simp add: finishDestroyedLab_def fenced_def)
next
  case None
  let ?s' = "snd (finishDestroyedLab ok lab f t s)"
  have "view ?s' lab = (None, no_generation) \<or> view ?s' lab = view s lab"
    using None by (auto simp: view_def finishDestroyedLab_def fenced_def forget_repairs_def restore_entry_def Let_def
        case_prod_unfold gen_of_def get_or_def split: option.splits)
  moreover have "view ?s' k = view s k" if "k \<noteq> lab" for k
    using None that by (auto simp: view_def finishDestroyedLab_def fenced_def forget_repairs_def restore_entry_def Let_def
        case_prod_unfold gen_of_def get_or_def split: option.splits)
  ultimately show ?thesis
    by (auto simp: effect_def intro: lab_step.same lab_step.destroy)
qed

lemma reopen_effect: "effect lab s (snd (reopenCommittedTransaction ok g lab f t s))"
proof (cases "\<exists>tx. fenceErrorLocked lab f t s = None \<and> recovery_tx lab g s = Some tx \<and> tx_committed tx")
  case False
  then have "snd (reopenCommittedTransaction ok g lab f t s) = s"
    by (auto simp: reopenCommittedTransaction_def fenced_def split: option.splits)
  then show ?thesis
    by simp
next
  case True
  then obtain tx where tx: "fenceErrorLocked lab f t s = None" "recovery_tx lab g s = Some tx" "tx_committed tx"
    by blast
  note p = recovery_tx_Some [OF tx(2)]
  let ?tx = "tx\<lparr>tx_committed := False, tx_phase := RollbackNeeded,
    tx_failure := ''cluster split commit: another node did not commit this generation''\<rparr>"
  have "lab_step (Some tx, gen_of s lab) (Some ?tx, gen_of s lab\<lparr>committed := tx_previous_gen tx, prepared := g\<rparr>)"
    using lab_step.reopen [OF tx(3), of ?tx] p by simp
  then show ?thesis
    using tx p effectI [OF conjunct1 [OF p], of "Some ?tx"] effectI [OF conjunct1 [OF p] lab_step.same]
    by (auto simp: reopenCommittedTransaction_def fenced_def Let_def case_prod_unfold gen_of_def get_or_def)
qed

lemma readers_effect:
  "effect lab s (snd (checkPreparedGeneration g lab f t s))" "effect lab s (snd (transactionForApply g lab f t s))"
  "effect lab s (snd (transactionForCommit g lab f t s))" "effect lab s (snd (transactionForStateVerify g lab f t s))"
  by (auto simp: checkPreparedGeneration_def transactionForApply_def transactionForCommit_def
      transactionForStateVerify_def intro!: effect_fenced split: option.split)

lemma promote_effect: "effect lab s (snd (promoteOverlayReservations ok vs lab f t s))"
  by (rule effect_same) (auto simp: promoteOverlayReservations_def Let_def case_prod_unfold split: option.split)

lemmas request_effects = prepared_updates_effect recovery_updates_effect solve_effect verified_effect progress_effect
  beginRecovery_effect prepareGeneration_effect finishCommittedGeneration_effect finalize_effect
  finishRecovered_effect finishDestroyed_effect reopen_effect readers_effect promote_effect

lemma fenced_effect:
  assumes "orderly (Request (Fenced r lab f t)) y"
  shows "effect lab (sys_server y) (snd (exec_fenced r lab f t (sys_server y)))"
  using assms by (cases r) (simp_all add: request_effects)

lemma acquire_same_tx:
  "acquireMutationLease ok req token t s = (r, s') \<Longrightarrow> same_tx s s'"
  "acquireRecoveryFence ok ok' limit lab token t s = (r', s') \<Longrightarrow> same_tx s s'"
  by (auto simp: acquireMutationLease_def acquireRecoveryFence_def issue_lease_def drop_lease_def Let_def
      case_prod_unfold split: option.splits if_splits)

lemma play1_effect:
  assumes "orderly m y"
  shows "\<exists>lab. effect lab (sys_server y) (sys_server (play1 m y))"
proof (cases m)
  case (Request r)
  then show ?thesis
    using assms effect_same [OF outside.unfenced_R]
    by (cases "\<exists>fr lab f t. r = Fenced fr lab f t") (auto simp: moved_def dest!: fenced_effect)
next
  case (Acquire ok req token t)
  then show ?thesis
    using effect_same [OF acquire_same_tx(1)]
    by (auto simp: moved_def granted_def split: prod.split sum.split)
next
  case (RecoveryFence ok ok' limit lab token t)
  then show ?thesis
    using effect_same [OF acquire_same_tx(2)]
    by (auto simp: moved_def granted_def split: prod.split sum.split)
next
  case (Crash ok okp ok' t t' t'')
  then show ?thesis
    using assms by simp
qed

section \<open>The records agree\<close>

lemma lab_step_agrees: "lab_step v w \<Longrightarrow> lab_agrees (fst v) (snd v) \<Longrightarrow> lab_agrees (fst w) (snd w)"
  by (induction rule: lab_step.induct) (auto simp: lab_agrees_def same_shape_def no_generation_def split: if_splits)

lemma effect_two_phase: "effect lab s s' \<Longrightarrow> two_phase s \<Longrightarrow> two_phase s'"
  using lab_step_agrees [of "view s lab" "view s' lab"]
  by (auto simp: two_phase_def effect_def view_def)

interpretation protocol: inductive_invariant sys_init "sys_step orderly" "\<lambda>y. two_phase (sys_server y)"
proof unfold_locales
  show "two_phase (sys_server y)" if "sys_init y" for y
    using that by (auto simp: sys_init_def fresh_server_def two_phase_def gen_of_def get_or_def lab_agrees_def
        no_generation_def)
  show "two_phase (sys_server y')" if "two_phase (sys_server y)" "sys_step orderly y y'" for y y'
    using that(2,1) by (auto elim!: sys_stepE dest!: play1_effect intro: effect_two_phase)
qed


definition commit_run :: "move list" where
  "commit_run = deploy_run @ [Request (Fenced (FinishCommitted True None ''g1'') ''cs'' demo_fence 4)]"


section \<open>The deployment of a lab as a state machine\<close>

datatype deployment = Idle string | Deploying string string | Landed string string

definition deployment_of_view :: "lab_view \<Rightarrow> deployment" where
  "deployment_of_view v =
     (case fst v of
        None \<Rightarrow> Idle (committed (snd v))
      | Some tx \<Rightarrow>
          if tx_committed tx then Landed (tx_previous_gen tx) (tx_generation tx)
          else Deploying (tx_previous_gen tx) (tx_generation tx))"

definition deployment_of :: "Server \<Rightarrow> string \<Rightarrow> deployment" where
  "deployment_of s lab = deployment_of_view (view s lab)"

inductive deployment_step :: "deployment \<Rightarrow> deployment \<Rightarrow> bool" where
  stays: "deployment_step d d"
| prepares: "deployment_step (Idle a) (Deploying a b)"
| commits: "deployment_step (Deploying a b) (Landed a b)"
| finalizes: "deployment_step (Landed a b) (Idle b)"
| reopens: "deployment_step (Landed a b) (Deploying a b)"
| rolls_back: "deployment_step (Deploying a b) (Idle a)"
| destroys: "deployment_step d (Idle [])"

lemma lab_step_deployment:
  assumes "lab_step v w" "lab_agrees (fst v) (snd v)"
  shows "deployment_step (deployment_of_view v) (deployment_of_view w)"
  using assms
  by (induction rule: lab_step.induct)
    (auto simp: deployment_of_view_def lab_agrees_def same_shape_def no_generation_def intro: deployment_step.intros)



end
