(* ===== verification/Handler_Effects.thy ===== *)
theory Handler_Effects
  imports Two_Phase Recover_Handlers
begin

text \<open>
  What the handlers of a node do to the deployment of a lab: which of them can move the committed
  generation, and from where to where.  A handler is followed section by section; most sections
  keep the generation and the shape of the transaction.
\<close>

section \<open>Following a handler\<close>

definition hinv :: "(Server \<Rightarrow> bool) \<Rightarrow> 'a handler \<Rightarrow> bool" where
  "hinv P m \<longleftrightarrow> (\<forall>s. P s \<longrightarrow> P (snd (m s)))"

named_theorems hinv_intros

lemma hinvD: "hinv P m \<Longrightarrow> P s \<Longrightarrow> P (snd (m s))"
  by (simp add: hinv_def)

lemma hinv_hbind [hinv_intros]:
  assumes "hinv P m" "\<And>a. hinv P (k a)"
  shows "hinv P (hbind m k)"
proof (unfold hinv_def, intro allI impI)
  fix s assume "P s"
  then have "P (snd (m s))"
    by (rule hinvD [OF assms(1)])
  then show "P (snd (hbind m k s))"
    using hinvD [OF assms(2)] by (cases "m s") (auto simp: hbind_def split: sum.split)
qed

lemma hinv_basic [hinv_intros]:
  "hinv P (hret a)" "hinv P (hfail e)" "hinv P (hread g)" "hinv P (hguard b e)" "hinv P (hoption e oa)"
  "hinv P (hresult r)" "hinv P (hcheck oe)" "hinv P (hcheck_now h)"
  by (auto simp: hinv_def hret_def hfail_def hread_def hguard_def hoption_def hresult_def hcheck_def hcheck_now_def
      split: option.splits sum.splits)

lemma hinv_hagent [hinv_intros]: "(\<And>s. P s \<Longrightarrow> P (snd (op s))) \<Longrightarrow> hinv P (hagent op)"
  by (simp add: hinv_def hagent_def)

lemma hinv_hignore [hinv_intros]: "(\<And>s. P s \<Longrightarrow> P (snd (op s))) \<Longrightarrow> hinv P (hignore op)"
  by (simp add: hinv_def hignore_def)

lemma hinv_hdo [hinv_intros]: "(\<And>s. P s \<Longrightarrow> P (f s)) \<Longrightarrow> hinv P (hdo f)"
  by (simp add: hinv_def hdo_def)

lemma hinv_hfinally [hinv_intros]: "hinv P m \<Longrightarrow> (\<And>s. P s \<Longrightarrow> P (f s)) \<Longrightarrow> hinv P (hfinally m f)"
  by (simp add: hinv_def hfinally_def)

lemma hinv_hcatch [hinv_intros]: "hinv P m \<Longrightarrow> (\<And>e. hinv P (k e)) \<Longrightarrow> hinv P (hcatch m k)"
  by (fastforce simp: hinv_def hcatch_def split: prod.split sum.split)

lemma hinv_case_prod [hinv_intros]: "(\<And>a b. hinv P (k a b)) \<Longrightarrow> hinv P (case_prod k x)"
  by (cases x) simp

lemma hinv_case_option [hinv_intros]: "hinv P m \<Longrightarrow> (\<And>a. hinv P (k a)) \<Longrightarrow> hinv P (case x of None \<Rightarrow> m | Some a \<Rightarrow> k a)"
  by (cases x) simp_all

lemma hinv_case_sum [hinv_intros]: "(\<And>e. hinv P (m e)) \<Longrightarrow> (\<And>a. hinv P (k a)) \<Longrightarrow> hinv P (case x of Inl e \<Rightarrow> m e | Inr a \<Rightarrow> k a)"
  by (cases x) simp_all

lemma hinv_if [hinv_intros]: "hinv P m \<Longrightarrow> hinv P m' \<Longrightarrow> hinv P (if b then m else m')"
  by simp

text \<open>A handler that answers has run all its sections.\<close>

lemma hbind_Inr: "hbind m k s = (Inr b, s') \<longleftrightarrow> (\<exists>a s1. m s = (Inr a, s1) \<and> k a s1 = (Inr b, s'))"
  by (cases "m s") (auto simp: hbind_def split: sum.splits)

lemma basic_Inr:
  "hret a s = (Inr b, s') \<longleftrightarrow> b = a \<and> s' = s" "hfail e s = (Inr b, s') \<longleftrightarrow> False"
  "hread g s = (Inr b, s') \<longleftrightarrow> b = g s \<and> s' = s" "hguard c e s = (Inr u, s') \<longleftrightarrow> c \<and> s' = s"
  "hoption e oa s = (Inr b, s') \<longleftrightarrow> oa = Some b \<and> s' = s"
  "hresult r s = (Inr b, s') \<longleftrightarrow> r = Inr b \<and> s' = s"
  "hcheck oe s = (Inr u, s') \<longleftrightarrow> oe = None \<and> s' = s"
  "hcheck_now h s = (Inr u, s') \<longleftrightarrow> h s = None \<and> s' = s"
  by (auto simp: hret_def hfail_def hread_def hguard_def hoption_def hresult_def hcheck_def hcheck_now_def
      split: option.splits sum.splits)

lemma section_Inr:
  "hagent op s = (Inr b, s') \<longleftrightarrow> op s = (Inr b, s')"
  "hignore op s = (Inr u, s') \<longleftrightarrow> s' = snd (op s)"
  "hdo f s = (Inr u, s') \<longleftrightarrow> s' = f s"
  by (auto simp: hagent_def hignore_def hdo_def map_error_def intro: prod_eqI split: sum.splits)

lemma wrapped_Inr:
  "hfinally m f s = (Inr b, s') \<longleftrightarrow> (\<exists>s1. m s = (Inr b, s1) \<and> s' = f s1)"
  "hcatch m h s = (Inr b, s') \<longleftrightarrow> m s = (Inr b, s')"
  by (cases "m s"; auto simp: hfinally_def hcatch_def split: sum.splits)+

lemmas answered_simps = hbind_Inr basic_Inr section_Inr wrapped_Inr

section \<open>Sections that keep the deployment\<close>

definition kept :: "string \<Rightarrow> Server \<Rightarrow> Server \<Rightarrow> bool" where
  "kept lab s s' \<longleftrightarrow> committed (gen_of s' lab) = committed (gen_of s lab) \<and>
     rel_option same_shape (fmlookup (transactions s) lab) (fmlookup (transactions s') lab)"

lemma same_shape_refl [simp]: "same_shape tx tx"
  by (simp add: same_shape_def)

lemma kept_refl [simp]: "kept lab s s"
  by (simp add: kept_def option.rel_refl)

lemma kept_same: "same_tx s s' \<Longrightarrow> kept lab s s'"
  by (simp add: kept_def same_tx_def gen_of_def option.rel_refl)

lemma kept_fenced: "kept lab s (snd k) \<Longrightarrow> kept lab s (snd (fenced lab' f t s k))"
  by (auto simp: fenced_def split: option.splits)

lemma kept_put_tx:
  assumes "fmlookup (transactions s) lab = Some tx" "same_shape tx tx'"
  shows "kept lab s (snd (put_tx ok lab tx' s))"
  using assms by (auto simp: kept_def put_tx_def gen_of_def Let_def case_prod_unfold)

lemma kept_update:
  assumes "\<And>tx. otx = Some tx \<Longrightarrow> fmlookup (transactions s) lab = Some tx" "\<And>tx. same_shape tx (upd tx)"
  shows "kept lab s (snd (fenced lab f t s (case otx of None \<Rightarrow> (Inl e, s) | Some tx \<Rightarrow> put_tx ok lab (upd tx) s)))"
  using assms by (cases otx) (auto intro!: kept_fenced kept_put_tx)

lemma kept_updates:
  "kept lab s (snd (markGenerationApplying ok g lab f t s))"
  "kept lab s (snd (markGenerationApplied ok g lab f t s))"
  "kept lab s (snd (recordGenerationDirtyCapture ok g ids lab f t s))"
  "kept lab s (snd (recordGenerationSemantic ok g ids lab f t s))"
  "kept lab s (snd (recordGenerationTouched ok g ids vs known lab f t s))"
  "kept lab s (snd (markForwardPhase ok ph t' g lab f t s))"
  "kept lab s (snd (recordForwardDataLoss ok detail g lab f t s))"
  "kept lab s (snd (markTransactionPhase ok phs failure t' g lab f t s))"
  unfolding markGenerationApplying_def markGenerationApplied_def recordGenerationDirtyCapture_def
    recordGenerationSemantic_def recordGenerationTouched_def markForwardPhase_def recordForwardDataLoss_def
    markTransactionPhase_def
  by (rule kept_update; simp add: shape_simps)+

lemma kept_solve: "kept lab s (snd (recordGenerationSolveTransition ok g rec lab f t s))"
  unfolding recordGenerationSolveTransition_def
  by (cases rec; simp) (rule kept_update; simp add: shape_simps)

lemma kept_verified: "kept lab s (snd (markStateVerified ok g lab f t s))"
  unfolding markStateVerified_def
  by (cases "prepared_tx lab f g s") (auto intro!: kept_fenced kept_put_tx simp: shape_simps)

lemma kept_deadline:
  assumes "fmlookup (transactions s) lab = Some tx" "same_shape tx tx'"
  shows "kept lab s (snd (saveCoordinationLocked ok
           (set_recovery_deadline lab d (s\<lparr>transactions := fmupd lab tx' (transactions s)\<rparr>))))"
    and "kept lab s (set_recovery_deadline lab d (s\<lparr>transactions := fmupd lab tx' (transactions s)\<rparr>))"
  using assms by (simp_all add: kept_def gen_of_def)

lemma kept_progress:
  "kept lab s (snd (recordRecoveryProgress ok target deadline force g lab f t s))"
  "kept lab s (snd (heartbeatRecoveryProgress c ok hard g lab f t s))"
  unfolding recordRecoveryProgress_def heartbeatRecoveryProgress_def
  by (auto intro!: kept_fenced kept_deadline simp: Let_def case_prod_unfold same_shape_def
      dest!: recovery_tx_Some split: option.split)

lemma kept_begin: "kept lab s (snd (beginRecovery c ok strategy tot takeover ack g lab f t s))"
proof -
  have shape: "same_shape tx (tx1\<lparr>tx_recovery_started := a, tx_recovery_progress := b, tx_recovery_deadline := d,
      tx_recovery_total := e, tx_recovery_target := tgt\<rparr>)"
    if "begin_forward strategy ack (tx\<lparr>tx_phase := Recovering, tx_failure := [], tx_attempts := n,
      tx_last_recovery := t, tx_next_recovery := 0, tx_recovery_owner := own, tx_recovery_strategy := strategy\<rparr>)
      = Inr tx1" for tx tx1 n own a b d e tgt
    using same_shape_begin [OF that] by (simp add: same_shape_def)
  show ?thesis
    unfolding beginRecovery_def
    by (auto intro!: kept_fenced kept_deadline(1) [OF _ shape] simp: Let_def case_prod_unfold
        dest!: recovery_tx_Some split: option.split sum.split)
qed

lemma kept_readers:
  "kept lab s (snd (checkPreparedGeneration g lab f t s))" "kept lab s (snd (transactionForApply g lab f t s))"
  "kept lab s (snd (transactionForCommit g lab f t s))" "kept lab s (snd (transactionForStateVerify g lab f t s))"
  by (auto simp: checkPreparedGeneration_def transactionForApply_def transactionForCommit_def
      transactionForStateVerify_def intro!: kept_fenced split: option.split)

lemma kept_promote: "kept lab s (snd (promoteOverlayReservations ok vs lab' f t s))"
  by (rule kept_same) (auto simp: promoteOverlayReservations_def Let_def case_prod_unfold split: option.split)

text \<open>The requests outside the transaction protocol.\<close>

lemma kept_unfenced: "\<nexists>fr lab f t. r = Fenced fr lab f t \<Longrightarrow> kept lab s (exec r s)"
  by (rule kept_same) (rule outside.unfenced_R)

lemma kept_others:
  "kept lab s (snd (requireMutationFence ok lab' f t t' s))"
  "kept lab s (snd (renewMutationLease ok rn t s))"
  "kept lab s (snd (releaseMutationLease ok rl t s))"
  "kept lab s (snd (reserveOverlays env rs t s))"
  "kept lab s (snd (requireOverlayReservations ok otp f t s))"
  "kept lab s (snd (restoreOverlayClaims ok lab' f vs s))"
  "kept lab s (snd (record_commit okp ok tx w tp owner t s))"
  "kept lab s (snd (restoreRecoveredTopology okp lab' tx s))"
  "kept lab s (snd (rollback_first ok okf lab' s))"
  "kept lab s (snd (acquireOperation lab' kind c t s))"
  "kept lab s (snd (acquireRecoveryOperation lab' deadline takeover t s))"
  "kept lab s (releaseOperation lab' n s)"
  "kept lab s (snd (refuseMutationIfHeld lab' token t s))"
  "kept lab s (beginSemanticConvergenceGrace tp t s)"
  using kept_unfenced [of "RequireFence ok lab' f t t'"] kept_unfenced [of "RenewLease ok rn t"]
    kept_unfenced [of "ReleaseLease ok rl t"] kept_unfenced [of "Reserve env rs t"]
    kept_unfenced [of "RequireReservations ok otp f t"] kept_unfenced [of "RestoreClaims ok lab' f vs"]
    kept_unfenced [of "RecordCommit okp ok tx w tp owner t"] kept_unfenced [of "RestoreTopology okp lab' tx"]
    kept_unfenced [of "RollbackFirst ok okf lab'"] kept_unfenced [of "StartOperation lab' kind c t"]
    kept_unfenced [of "StartRecovery lab' deadline takeover t"] kept_unfenced [of "EndOperation lab' n"]
    kept_unfenced [of "RefuseMutation lab' token t"] kept_unfenced [of "StartGrace tp t"]
  by simp_all

lemma kept_acquire: "kept lab s (snd (acquireMutationLease ok rq token t s))"
  by (rule kept_same) (rule acquire_same_tx(1) [OF surjective_pairing])

lemma kept_installs:
  "kept lab s (install_topology lab' tp how ps (put_topology lab' raw s))" "kept lab s (keep_peers lab' ps s)"
  "kept lab s (release_lab lab' s)"
  by (rule kept_same, auto simp: same_tx_def install_topology_def put_topology_def rememberHow_def keep_peers_def
      release_lab_def Let_def split: option.splits)+

lemma kept_held: "kept lab s (snd (hheld lab' token t s))"
  using kept_others(13) [of lab s lab' token t]
  by (cases "refuseMutationIfHeld lab' token t s") (auto simp: hheld_def split: option.split)

lemmas kept_sections = kept_updates kept_solve kept_verified kept_progress kept_begin kept_readers kept_promote
  kept_others kept_acquire kept_installs kept_held

section \<open>The deployment before its commit\<close>

text \<open>Generation \<open>c\<close> is committed, and an open transaction would go back to it.\<close>

definition based :: "string \<Rightarrow> string \<Rightarrow> Server \<Rightarrow> bool" where
  "based lab c s \<longleftrightarrow> committed (gen_of s lab) = c \<and>
     (\<forall>tx. fmlookup (transactions s) lab = Some tx \<longrightarrow> \<not> tx_committed tx \<and> tx_previous_gen tx = c)"

text \<open>Generation \<open>g\<close> is committed over \<open>c\<close> and waits for its finalization.\<close>

definition landed :: "string \<Rightarrow> string \<Rightarrow> string \<Rightarrow> Server \<Rightarrow> bool" where
  "landed lab c g s \<longleftrightarrow> committed (gen_of s lab) = g \<and>
     (\<exists>tx. fmlookup (transactions s) lab = Some tx \<and> tx_committed tx \<and> tx_generation tx = g \<and> tx_previous_gen tx = c)"

definition idle :: "string \<Rightarrow> string \<Rightarrow> Server \<Rightarrow> bool" where
  "idle lab c s \<longleftrightarrow> committed (gen_of s lab) = c \<and> fmlookup (transactions s) lab = None"

lemma kept_based: "kept lab s s' \<Longrightarrow> based lab c s \<Longrightarrow> based lab c s'"
  by (auto simp: kept_def based_def same_shape_def option_rel_Some2)

lemma kept_landed: "kept lab s s' \<Longrightarrow> landed lab c g s \<Longrightarrow> landed lab c g s'"
  by (auto simp: kept_def landed_def same_shape_def option_rel_Some1)

lemma kept_idle: "kept lab s s' \<Longrightarrow> idle lab c s \<Longrightarrow> idle lab c s'"
  by (auto simp: kept_def idle_def)

lemma idle_based: "idle lab c s \<Longrightarrow> based lab c s"
  by (simp add: idle_def based_def)

section \<open>Sections that move it\<close>

lemma prepare_based:
  assumes "based lab c s"
  shows "based lab c (snd (prepareGeneration ok previous req lab f t s))"
  using assms
  by (auto simp: prepareGeneration_def fenced_def based_def gen_of_def get_or_def new_transaction_def Let_def
      case_prod_unfold split: sum.splits option.splits if_splits)

text \<open>The transaction an acknowledged prepare leaves.\<close>

definition opened :: "string \<Rightarrow> Fence \<Rightarrow> string \<Rightarrow> Server \<Rightarrow> bool" where
  "opened lab f g s \<longleftrightarrow> (\<exists>tx. fmlookup (transactions s) lab = Some tx \<and> \<not> tx_committed tx \<and> tx_generation tx = g)"

lemma kept_opened: "kept lab s s' \<Longrightarrow> opened lab f g s \<Longrightarrow> opened lab f g s'"
  by (auto simp: kept_def opened_def same_shape_def option_rel_Some1)

lemma prepare_opens:
  assumes "prepareGeneration ok previous req lab f t s = (Inr u, s')" "fmlookup (transactions s) lab = None"
  shows "opened lab f (pr_generation req) s'"
  using assms
  by (auto simp: prepareGeneration_def opened_def new_transaction_def Let_def case_prod_unfold dest!: fenced_Inr
      split: sum.splits option.splits if_splits)

lemma finalize_based: "based lab c s \<Longrightarrow> based lab c (snd (finalizeCommittedGeneration ok g lab f t s))"
  by (auto simp: finalizeCommittedGeneration_def fenced_def based_def prepared_tx_def Let_def case_prod_unfold
      split: option.splits if_splits)

lemma finalize_landed:
  assumes "landed lab c g s"
  shows "landed lab c g (snd (finalizeCommittedGeneration ok g' lab f t s)) \<or>
    idle lab g (snd (finalizeCommittedGeneration ok g' lab f t s))"
  using assms
  by (auto simp: finalizeCommittedGeneration_def fenced_def landed_def idle_def gen_of_def prepared_tx_def Let_def
      case_prod_unfold split: option.splits if_splits)

lemma finalize_ends: "finalizeCommittedGeneration ok g' lab f t s = (Inr u, s') \<Longrightarrow> fmlookup (transactions s') lab = None"
  by (auto simp: finalizeCommittedGeneration_def Let_def case_prod_unfold dest!: fenced_Inr
      split: option.splits if_splits)

lemma finalize_idle: "idle lab c s \<Longrightarrow> snd (finalizeCommittedGeneration ok g' lab f t s) = s"
  by (auto simp: finalizeCommittedGeneration_def fenced_def idle_def prepared_tx_def split: option.splits)

lemma recovered_based: "based lab c s \<Longrightarrow> based lab c (snd (finishRecoveredGeneration ok g lab f t s))"
  by (auto simp: finishRecoveredGeneration_def fenced_def based_def forget_repairs_def gen_of_def get_or_def Let_def
      case_prod_unfold split: option.splits if_splits)

lemma recovered_ends:
  assumes "finishRecoveredGeneration ok g lab f t s = (Inr u, s')" "based lab c s"
  shows "idle lab c s'"
  using assms
  by (auto simp: finishRecoveredGeneration_def based_def idle_def forget_repairs_def gen_of_def get_or_def Let_def
      case_prod_unfold dest!: fenced_Inr split: option.splits if_splits)

lemma reopen_landed:
  assumes "landed lab c g s"
  shows "landed lab c g (snd (reopenCommittedTransaction ok g' lab f t s)) \<or>
    based lab c (snd (reopenCommittedTransaction ok g' lab f t s))"
  using assms
  by (auto simp: reopenCommittedTransaction_def fenced_def landed_def based_def gen_of_def get_or_def recovery_tx_def
      Let_def case_prod_unfold split: option.splits if_splits)

lemma reopen_reopens:
  assumes "reopenCommittedTransaction ok g' lab f t s = (Inr tx, s')" "landed lab c g s"
  shows "based lab c s'"
  using assms
  by (auto simp: reopenCommittedTransaction_def landed_def based_def gen_of_def get_or_def recovery_tx_def
      Let_def case_prod_unfold dest!: fenced_Inr split: option.splits if_splits)

lemma reopen_based: "based lab c s \<Longrightarrow> snd (reopenCommittedTransaction ok g' lab f t s) = s"
  by (auto simp: reopenCommittedTransaction_def fenced_def based_def recovery_tx_def split: option.splits if_splits)

lemma commit_lands:
  assumes "finishCommittedGeneration ok oinv g lab f t s = (Inr u, s')" "based lab c s"
  shows "landed lab c g s'"
  using assms
  by (auto simp: finishCommittedGeneration_def based_def landed_def gen_of_def get_or_def prepared_tx_def
      Let_def case_prod_unfold dest!: fenced_Inr split: option.splits if_splits)

lemma commit_refused:
  assumes "finishCommittedGeneration ok oinv g lab f t s = (Inl e, s')" "based lab c s"
  shows "based lab c s'"
proof (cases "\<exists>tx. fenceErrorLocked lab f t s = None \<and> prepared_tx lab f g s = Some tx \<and> tx_applied tx")
  case False
  then have "s' = s"
    using assms(1) by (auto simp: finishCommittedGeneration_def fenced_def split: option.splits)
  then show ?thesis
    using assms(2) by simp
next
  case True
  then obtain tx where tx: "fenceErrorLocked lab f t s = None" "prepared_tx lab f g s = Some tx" "tx_applied tx"
    by blast
  have "fmlookup (transactions s') lab = Some (tx\<lparr>tx_committed := False, tx_phase := Committed, tx_failure := []\<rparr>)"
    "gen_of s' lab = gen_of s lab"
    using assms(1) tx
    by (auto simp: finishCommittedGeneration_def fenced_def Let_def case_prod_unfold gen_of_def get_or_def
        split: if_splits)
  then show ?thesis
    using assms(2) prepared_tx_Some [OF tx(2)] by (simp add: based_def)
qed

lemma commit_outcomes:
  assumes "based lab c s"
  shows "based lab c (snd (finishCommittedGeneration ok oinv g lab f t s)) \<or>
    landed lab c g (snd (finishCommittedGeneration ok oinv g lab f t s))"
proof (cases "finishCommittedGeneration ok oinv g lab f t s")
  case (Pair r s')
  then show ?thesis
    using commit_lands [OF _ assms] commit_refused [OF _ assms] by (cases r) auto
qed

lemma replace_inventory_based: "based lab c s \<Longrightarrow> based lab c (snd (replace_inventory ok lab iv s))"
  by (auto simp: replace_inventory_def based_def gen_of_def get_or_def restore_entry_def Let_def case_prod_unfold
      split: option.splits if_splits)

lemma replace_inventory_idle: "idle lab c s \<Longrightarrow> idle lab c (snd (replace_inventory ok lab iv s))"
  by (auto simp: replace_inventory_def idle_def gen_of_def get_or_def restore_entry_def Let_def case_prod_unfold
      split: option.splits if_splits)

lemma replace_inventory_committed: "committed (gen_of (snd (replace_inventory ok lab iv s)) lab) = committed (gen_of s lab)"
  by (auto simp: replace_inventory_def gen_of_def get_or_def restore_entry_def Let_def case_prod_unfold
      split: option.splits if_splits)

section \<open>Other labs\<close>

definition elsewhere :: "string \<Rightarrow> Server \<Rightarrow> Server \<Rightarrow> bool" where
  "elsewhere lab s s' \<longleftrightarrow> (\<forall>k. k \<noteq> lab \<longrightarrow> view s' k = view s k)"

lemma effect_elsewhere: "effect lab s s' \<Longrightarrow> elsewhere lab s s'"
  by (simp add: effect_def elsewhere_def)

lemma elsewhere_ends:
  "elsewhere lab s (snd (finishCommittedGeneration ok oinv g lab f t s))"
  "elsewhere lab s (snd (finishRecoveredGeneration ok' g lab f t s))"
  "elsewhere lab s (snd (replace_inventory ok'' lab iv s))"
  by (auto simp: elsewhere_def view_def gen_of_def get_or_def finishCommittedGeneration_def finishRecoveredGeneration_def
      replace_inventory_def restore_entry_def forget_repairs_def fenced_def Let_def case_prod_unfold
      split: option.split)

lemma kept_anywhere: "elsewhere lab' s s' \<Longrightarrow> kept lab' s s' \<Longrightarrow> kept lab s s'"
  by (cases "lab' = lab") (simp_all add: elsewhere_def view_def kept_def option.rel_refl)

lemma based_anywhere:
  assumes "elsewhere lab' s s'" "based lab' c s \<Longrightarrow> based lab' c s'" "based lab c s"
  shows "based lab c s'"
proof (cases "lab' = lab")
  case True
  then show ?thesis
    using assms(2,3) by metis
next
  case False
  then have "view s' lab = view s lab"
    using assms(1) by (simp add: elsewhere_def)
  then show ?thesis
    using assms(3) by (simp add: view_def based_def)
qed

lemma kept_anywhere_updates:
  "kept lab s (snd (markGenerationApplying ok g lab' f t s))"
  "kept lab s (snd (markGenerationApplied ok g lab' f t s))"
  "kept lab s (snd (recordGenerationDirtyCapture ok g ids lab' f t s))"
  "kept lab s (snd (recordGenerationSemantic ok g ids lab' f t s))"
  "kept lab s (snd (recordGenerationTouched ok g ids vs known lab' f t s))"
  "kept lab s (snd (markForwardPhase ok ph t' g lab' f t s))"
  "kept lab s (snd (recordForwardDataLoss ok detail g lab' f t s))"
  "kept lab s (snd (markTransactionPhase ok phs failure t' g lab' f t s))"
  "kept lab s (snd (recordGenerationSolveTransition ok g rec lab' f t s))"
  "kept lab s (snd (markStateVerified ok g lab' f t s))"
  "kept lab s (snd (recordRecoveryProgress ok target deadline force g lab' f t s))"
  "kept lab s (snd (heartbeatRecoveryProgress c ok hard g lab' f t s))"
  "kept lab s (snd (beginRecovery c ok strategy tot takeover ack g lab' f t s))"
  "kept lab s (snd (checkPreparedGeneration g lab' f t s))"
  "kept lab s (snd (transactionForApply g lab' f t s))"
  "kept lab s (snd (transactionForCommit g lab' f t s))"
  "kept lab s (snd (transactionForStateVerify g lab' f t s))"
  by (rule kept_anywhere [of lab'], (rule effect_elsewhere request_effects kept_sections)+)+

lemma kept_anywhere_put_tx:
  "fmlookup (transactions s) lab' = Some tx \<Longrightarrow> same_shape tx tx' \<Longrightarrow> kept lab s (snd (put_tx ok lab' tx' s))"
  by (rule kept_anywhere [of lab']) (rule effect_elsewhere, erule (1) effect_put_tx, erule (1) kept_put_tx)

lemmas kept_all = kept_anywhere_updates kept_promote kept_others kept_acquire kept_installs kept_held

lemma based_moves:
  "based lab c s \<Longrightarrow> based lab c (snd (prepareGeneration ok previous req lab' f t s))"
  "based lab c s \<Longrightarrow> based lab c (snd (finalizeCommittedGeneration ok g lab' f t s))"
  "based lab c s \<Longrightarrow> based lab c (snd (finishRecoveredGeneration ok g lab' f t s))"
  "based lab c s \<Longrightarrow> based lab c (snd (replace_inventory ok lab' iv s))"
  by (rule based_anywhere [of lab'], (rule effect_elsewhere request_effects elsewhere_ends)+,
      (erule prepare_based finalize_based recovered_based replace_inventory_based), assumption)+

section \<open>The handlers before a commit\<close>

lemmas based_sections = kept_all [THEN kept_based] based_moves

lemma hheld_based [hinv_intros]: "hinv (based lab c) (hheld lab' token t)"
  by (simp add: hinv_def based_sections)

lemma handleApplyPrepare_based: "hinv (based lab c) (handleApplyPrepare h req)"
  unfolding handleApplyPrepare_def admit_wire_def admit_prepare_def capture_prestate_def prestate_safety_def
    preserve_orphans_def preserveSolveTransition_def
  by (intro hinv_intros; erule based_sections)

lemma applyPhase_based: "hinv (based lab c) (applyPhase h req)"
  unfolding applyPhase_def admit_apply_def run_apply_def prepared_for_apply_def begin_apply_def execute_plan_def
    record_apply_def mark_rollback_def
  by (intro hinv_intros; erule based_sections)

lemma handleStateVerify_based: "hinv (based lab c) (handleStateVerify h lab' f g)"
  unfolding handleStateVerify_def
  by (intro hinv_intros; erule based_sections)

lemma handleApplyFinalize_based: "hinv (based lab c) (handleApplyFinalize h req)"
  unfolding handleApplyFinalize_def
  by (intro hinv_intros; erule based_sections)

lemma hstatus_hinv:
  assumes "\<And>old. hinv P (migrateLegacyCommittedInventory h lab' old)"
  shows "hinv P (hstatus h lab')"
proof (unfold hinv_def, intro allI impI)
  fix s assume "P s"
  then have "P (snd (migrateLegacyCommittedInventory h lab' old s))" for old
    by (rule hinvD [OF assms])
  then show "P (snd (hstatus h lab' s))"
    using \<open>P s\<close>
    by (auto simp: hstatus_def transactionInventoryStatus_def split: option.split prod.split sum.split)
      (metis snd_conv)+
qed

lemma hstatus_based [hinv_intros]: "hinv (based lab c) (hstatus h lab')"
  unfolding migrateLegacyCommittedInventory_def
  by (rule hstatus_hinv) (unfold migrateLegacyCommittedInventory_def, intro hinv_intros; erule based_sections)

end
