(* ===== verification/Recovery_Effects.thy ===== *)
theory Recovery_Effects
  imports Handler_Effects
begin

text \<open>
  What a commit, a finalization and a rollback of one node do to the deployment of a lab, as whole
  handlers: from which of the states \<open>based\<close>, \<open>landed\<close> and \<open>idle\<close> to which.
\<close>

section \<open>Rollback\<close>

lemma run_beats_based: "based lab c s \<Longrightarrow> based lab c (snd (run_beats cf lab' f g hard bs s))"
proof (induction bs arbitrary: s)
  case (Cons b bs)
  obtain ok t where b: "b = (ok, t)"
    by (cases b)
  have "based lab c (snd (heartbeatRecoveryProgress cf ok hard g lab' f t s))"
    using Cons.prems by (rule based_sections)
  then show ?case
    using Cons.IH b by (auto split: prod.split sum.split)
qed simp

lemma with_beats_based [hinv_intros]:
  assumes "hinv (based lab c) body"
  shows "hinv (based lab c) (with_beats cf p lab' f g hard body)"
  using run_beats_based [of lab c _ cf lab' f g hard "rp_beats p"] hinvD [OF assms]
  by (auto simp: hinv_def with_beats_def split: prod.split) (metis snd_conv)

lemma phase_based [hinv_intros]:
  "hinv (based lab c) body \<Longrightarrow> hinv (based lab c) (runRecoveryPhaseLimit cf p lab' f g target limit body)"
  unfolding runRecoveryPhaseLimit_def
  by (intro hinv_intros; (assumption | erule based_sections))

lemma hostwork_based [hinv_intros]: "hinv P (hostwork p what)"
  unfolding hostwork_def by (rule hinv_intros)

lemma rollback_pieces_based [hinv_intros]:
  "hinv (based lab c) (await_peers h lab' f tx otp)"
  "hinv (based lab c) (rollbackPreparedApply h lab' f tx)"
  "hinv (based lab c) (verify_rollback h lab' f tx)"
proof -
  have claims: "hinv (based lab c) (\<lambda>s. hagent (restoreOverlayClaims ok lab' f (vs s)) s)" for ok vs
    by (simp add: hinv_def hagent_def based_sections)
  show "hinv (based lab c) (await_peers h lab' f tx otp)" "hinv (based lab c) (rollbackPreparedApply h lab' f tx)"
    "hinv (based lab c) (verify_rollback h lab' f tx)"
    unfolding await_peers_def rollbackPreparedApply_def rollbackExactContracts_def reinstall_previous_def
      verify_rollback_def Let_def
    by (intro hinv_intros claims; erule based_sections)+
qed

lemma rollback_phases_based [hinv_intros]: "hinv (based lab c) (rollback_phases h lab' f tx)"
  unfolding rollback_phases_def
  by (intro hinv_intros; erule based_sections)

text \<open>A phase that answers has run its body.\<close>

lemma phase_Inr:
  assumes "runRecoveryPhaseLimit cf p lab' f g target limit body s = (Inr u, s')" "based lab c s"
  obtains s1 where "based lab c s1" "body s1 = (Inr u, s')"
proof -
  obtain s0 dl l where s0: "recordRecoveryProgress (disk p 0) target dl False g lab' f (clk p 3) s = (Inr (), s0)"
    and w: "with_beats cf p lab' f g (clk p 1 + l) body s0 = (Inr u, s')"
    using assms(1) by (auto simp: runRecoveryPhaseLimit_def answered_simps)
  have "based lab c (snd (recordRecoveryProgress (disk p 0) target dl False g lab' f (clk p 3) s))"
    using assms(2) by (rule based_sections)
  then have "based lab c s0"
    using s0 by simp
  then have "based lab c (snd (run_beats cf lab' f g (clk p 1 + l) (rp_beats p) s0))"
    by (rule run_beats_based)
  then show thesis
    using w that by (auto simp: with_beats_def split: prod.splits if_splits)
qed

text \<open>What a handler that answers has reached.\<close>

definition hends :: "(Server \<Rightarrow> bool) \<Rightarrow> ('a \<Rightarrow> Server \<Rightarrow> bool) \<Rightarrow> 'a handler \<Rightarrow> bool" where
  "hends P Q m \<longleftrightarrow> (\<forall>s a s'. P s \<longrightarrow> m s = (Inr a, s') \<longrightarrow> Q a s')"

named_theorems hends_intros

lemma hendsD: "hends P Q m \<Longrightarrow> m s = (Inr a, s') \<Longrightarrow> P s \<Longrightarrow> Q a s'"
  by (auto simp: hends_def)

lemma hends_bind [hends_intros]:
  assumes "hinv P m" "\<And>a. hends P Q (k a)"
  shows "hends P Q (hbind m k)"
  using hinvD [OF assms(1)] hendsD [OF assms(2)] by (fastforce simp: hends_def answered_simps)

lemma hends_value:
  assumes "hinv P m" "hends P (\<lambda>a _. A a) m" "\<And>a. A a \<Longrightarrow> hends P Q (k a)"
  shows "hends P Q (hbind m k)"
  using hinvD [OF assms(1)] hendsD [OF assms(2)] hendsD [OF assms(3)] by (fastforce simp: hends_def answered_simps)

lemma hends_then:
  assumes "hends P R m" "\<And>a. hends (R a) Q (k a)"
  shows "hends P Q (hbind m k)"
  using hendsD [OF assms(1)] hendsD [OF assms(2)] by (fastforce simp: hends_def answered_simps)

lemma hends_hinv: "hinv P m \<Longrightarrow> hends P (\<lambda>_. P) m"
  by (simp add: hends_def hinv_def) (metis snd_conv)

lemma hends_basic [hends_intros]:
  "(\<And>s. P s \<Longrightarrow> Q a s) \<Longrightarrow> hends P Q (hret a)" "hends P Q (hfail e)"
  by (auto simp: hends_def answered_simps)

lemma hends_wrapped [hends_intros]:
  "hends P Q m \<Longrightarrow> (\<And>a s. Q a s \<Longrightarrow> Q a (f s)) \<Longrightarrow> hends P Q (hfinally m f)"
  "hends P Q m \<Longrightarrow> hends P Q (hcatch m k)"
  by (auto simp: hends_def answered_simps)

lemma hends_cases [hends_intros]:
  "(b \<Longrightarrow> hends P Q m) \<Longrightarrow> (\<not> b \<Longrightarrow> hends P Q n) \<Longrightarrow> hends P Q (if b then m else n)"
  "(\<And>x y. z = (x, y) \<Longrightarrow> hends P Q (j x y)) \<Longrightarrow> hends P Q (case_prod j z)"
  by (simp_all add: case_prod_unfold)

lemma hends_phase [hends_intros]:
  assumes "hends (based lab c) Q body"
  shows "hends (based lab c) Q (runRecoveryPhaseLimit cf p lab' f g target limit body)"
  using hendsD [OF assms] by (auto simp: hends_def elim!: phase_Inr)

lemma rollback_phases_idle: "hends (based lab c) (\<lambda>_. idle lab c) (rollback_phases h lab f tx)"
proof -
  have recovered: "hends (based lab c) (\<lambda>_. idle lab c) (hagent (finishRecoveredGeneration ok g lab f t))" for ok g t
    by (auto simp: hends_def answered_simps dest: recovered_ends)
  show ?thesis
    unfolding rollback_phases_def
    by (intro hends_intros recovered hinv_intros; erule based_sections)
qed

section \<open>The deployment from its preparation on\<close>

text \<open>A node on its way from \<open>c\<close> to \<open>g\<close>, in either direction.\<close>

definition within :: "string \<Rightarrow> string \<Rightarrow> string \<Rightarrow> Server \<Rightarrow> bool" where
  "within lab c g s \<longleftrightarrow> based lab c s \<or> landed lab c g s \<or> idle lab g s"

text \<open>No transaction is open other than a committed one.\<close>

definition settled :: "string \<Rightarrow> string \<Rightarrow> string \<Rightarrow> Server \<Rightarrow> bool" where
  "settled lab c g s \<longleftrightarrow> idle lab c s \<or> landed lab c g s \<or> idle lab g s"

lemma settled_within: "settled lab c g s \<Longrightarrow> within lab c g s"
  by (auto simp: settled_def within_def idle_based)

lemma kept_within: "kept lab s s' \<Longrightarrow> within lab c g s \<Longrightarrow> within lab c g s'"
  unfolding within_def by (metis kept_based kept_landed kept_idle)

lemma kept_settled: "kept lab s s' \<Longrightarrow> settled lab c g s \<Longrightarrow> settled lab c g s'"
  unfolding settled_def by (metis kept_landed kept_idle)

lemma replace_inventory_settles:
  assumes "landed lab c g s"
  shows "landed lab c g (snd (replace_inventory ok lab iv s)) \<or> idle lab g (snd (replace_inventory ok lab iv s))"
  using assms
  by (auto simp: replace_inventory_def landed_def idle_def gen_of_def get_or_def restore_entry_def Let_def case_prod_unfold
      split: option.splits if_splits)

lemma replace_inventory_moves:
  "idle lab c s \<Longrightarrow> idle lab c (snd (replace_inventory ok lab iv s))"
  "settled lab c g s \<Longrightarrow> settled lab c g (snd (replace_inventory ok lab iv s))"
  "within lab c g s \<Longrightarrow> within lab c g (snd (replace_inventory ok lab iv s))"
  unfolding settled_def within_def
  using replace_inventory_idle replace_inventory_settles replace_inventory_based by metis+

lemma finalize_moves:
  "idle lab c s \<Longrightarrow> idle lab c (snd (finalizeCommittedGeneration ok g' lab f t s))"
  "settled lab c g s \<Longrightarrow> settled lab c g (snd (finalizeCommittedGeneration ok g' lab f t s))"
  "within lab c g s \<Longrightarrow> within lab c g (snd (finalizeCommittedGeneration ok g' lab f t s))"
  unfolding settled_def within_def
  using finalize_idle finalize_landed finalize_based by metis+

lemmas idle_sections = kept_all [THEN kept_idle] replace_inventory_moves(1) finalize_moves(1)
lemmas settled_sections = kept_all [THEN kept_settled] replace_inventory_moves(2) finalize_moves(2)
lemmas within_sections = kept_all [THEN kept_within] replace_inventory_moves(3) finalize_moves(3)

lemma hstatus_moves [hinv_intros]:
  "hinv (idle lab c) (hstatus h lab)" "hinv (settled lab c g) (hstatus h lab)" "hinv (within lab c g) (hstatus h lab)"
  by (rule hstatus_hinv, unfold migrateLegacyCommittedInventory_def,
      (intro hinv_intros; (erule idle_sections settled_sections within_sections)))+

section \<open>Commit\<close>

lemma verify_commit_hinv [hinv_intros]: "hinv P (verify_commit h tx)"
  unfolding verify_commit_def by (intro hinv_intros)

lemma prune_stage_hinv [hinv_intros]: "hinv P (prune_stage h tx tp desired)"
  unfolding prune_stage_def by (intro hinv_intros)

lemma promote_stage_kept: "kept lab s (snd (promote_stage h tp f s))"
  using kept_promote [of lab s "disk h 2" "overlayVNIsOnNode tp (cfg_node s)" "top_name tp" f "clk h 4"]
  by (auto simp: promote_stage_def Let_def split: prod.split sum.split)

text \<open>Where a handler may leave a node, whether it answers or fails.\<close>

definition hmoves :: "(Server \<Rightarrow> bool) \<Rightarrow> (Server \<Rightarrow> bool) \<Rightarrow> 'a handler \<Rightarrow> bool" where
  "hmoves P Q m \<longleftrightarrow> (\<forall>s. P s \<longrightarrow> Q (snd (m s)))"

named_theorems hmoves_intros

lemma hmovesD: "hmoves P Q m \<Longrightarrow> P s \<Longrightarrow> Q (snd (m s))"
  by (simp add: hmoves_def)

lemma hmoves_weaken: "hinv P m \<Longrightarrow> (\<And>s. P s \<Longrightarrow> Q s) \<Longrightarrow> hmoves P Q m"
  by (simp add: hmoves_def hinv_def)

lemma hmoves_bind:
  assumes "hinv P m" "\<And>s. P s \<Longrightarrow> Q s" "\<And>a. hmoves P Q (k a)"
  shows "hmoves P Q (hbind m k)"
proof (unfold hmoves_def, intro allI impI)
  fix s assume "P s"
  then have "P (snd (m s))"
    by (rule hinvD [OF assms(1)])
  then show "Q (snd (hbind m k s))"
    using assms(2) hmovesD [OF assms(3)] by (cases "m s") (auto simp: hbind_def split: sum.split)
qed

lemma hmoves_value:
  assumes "hinv P m" "\<And>s. P s \<Longrightarrow> Q s" "hends P (\<lambda>a _. A a) m" "\<And>a. A a \<Longrightarrow> hmoves P Q (k a)"
  shows "hmoves P Q (hbind m k)"
proof (unfold hmoves_def, intro allI impI)
  fix s assume s: "P s"
  then have "P (snd (m s))"
    by (rule hinvD [OF assms(1)])
  then show "Q (snd (hbind m k s))"
    using assms(2) hmovesD [OF assms(4)] hendsD [OF assms(3) _ s]
    by (cases "m s") (auto simp: hbind_def split: sum.split)
qed

lemma hmoves_then:
  assumes "hmoves P Q m" "\<And>a. hinv Q (k a)"
  shows "hmoves P Q (hbind m k)"
proof (unfold hmoves_def, intro allI impI)
  fix s assume "P s"
  then have "Q (snd (m s))"
    by (rule hmovesD [OF assms(1)])
  then show "Q (snd (hbind m k s))"
    using hinvD [OF assms(2)] by (cases "m s") (auto simp: hbind_def split: sum.split)
qed

lemma hmoves_ends:
  assumes "hmoves P Q m" "hends P (\<lambda>_. R) m" "\<And>a. hmoves R Q (k a)"
  shows "hmoves P Q (hbind m k)"
  using hmovesD [OF assms(1)] hendsD [OF assms(2)] hmovesD [OF assms(3)]
  by (fastforce simp: hmoves_def hbind_def split: prod.split sum.split)

lemma hmoves_wrapped:
  "hmoves P Q m \<Longrightarrow> (\<And>s. Q s \<Longrightarrow> Q (f s)) \<Longrightarrow> hmoves P Q (hfinally m f)"
  "hmoves P Q m \<Longrightarrow> (\<And>e. hinv Q (k e)) \<Longrightarrow> hmoves P Q (hcatch m k)"
  by (auto simp: hmoves_def hfinally_def hinv_def hcatch_def split: prod.split sum.split)

lemma hmoves_cases:
  "hmoves P Q m \<Longrightarrow> hmoves P Q n \<Longrightarrow> hmoves P Q (if b then m else n)"
  "(\<And>x y. hmoves P Q (j x y)) \<Longrightarrow> hmoves P Q (case_prod j z)"
  by (simp_all add: case_prod_unfold)

lemma finish_commit_lands:
  assumes "top_name tp = lab" "tx_generation tx = g"
  shows "hends (based lab c) (\<lambda>_. landed lab c g) (finish_commit h tx tp f)"
    and "hmoves (based lab c) (within lab c g) (finish_commit h tx tp f)"
proof -
  have lands: "hends (based lab c) (\<lambda>_. landed lab c g) (hagent (finishCommittedGeneration ok oinv g lab f t))" for ok oinv t
    by (auto simp: hends_def answered_simps dest: commit_lands)
  have grace: "hends (landed lab c g) (\<lambda>_. landed lab c g) (hdo (beginSemanticConvergenceGrace tp t))" for t
    by (auto simp: hends_def answered_simps intro: kept_landed [OF kept_others(14)])
  show "hends (based lab c) (\<lambda>_. landed lab c g) (finish_commit h tx tp f)"
    unfolding finish_commit_def assms
    by (intro hends_intros(1) hends_cases(2) hinv_intros hends_then [OF lands] grace)
  have moves: "hmoves (based lab c) (within lab c g) (hagent (finishCommittedGeneration ok oinv g lab f t))" for ok oinv t
    using commit_outcomes [of lab c _ ok oinv g f t] by (auto simp: hmoves_def hagent_def within_def)
  show "hmoves (based lab c) (within lab c g) (finish_commit h tx tp f)"
    unfolding finish_commit_def assms
    by (intro hmoves_then [OF moves] hmoves_bind hmoves_cases(2) hinv_intros;
        (erule within_sections | simp add: within_def))
qed

lemma based_within: "based lab c s \<Longrightarrow> within lab c g s"
  by (simp add: within_def)

lemma commit_pieces [hinv_intros]:
  "hinv (based lab c) (promote_stage h tp f)" "hinv (within lab c g) (promote_stage h tp f)"
  "hinv (within lab c g) (mark_rollback ok t t' lab' req why)" "hinv (landed lab c g) (mark_rollback ok t t' lab' req why)"
  "hinv (based lab c) (hagent (record_commit ok ok' tx w tp owner t))"
  by (auto simp: hinv_def mark_rollback_def hignore_def hagent_def
      intro: promote_stage_kept [THEN kept_based] promote_stage_kept [THEN kept_within] within_sections based_sections
        kept_anywhere_updates [THEN kept_landed])

lemma prune_stage_stops: "hends P (\<lambda>r _. snd r \<longrightarrow> fst r \<noteq> []) (prune_stage h tx tp desired)"
  unfolding prune_stage_def by (auto simp: hends_def answered_simps split: sum.splits)

lemma commitAppliedTopology_moves:
  assumes "top_name tp = lab" "tx_generation tx = g"
  shows "hmoves (based lab c) (within lab c g) (commitAppliedTopology h tp w f tx)"
  unfolding commitAppliedTopology_def
  by (intro hmoves_then [OF finish_commit_lands(2) [OF assms]] hmoves_bind hmoves_cases hinv_intros
      hmoves_weaken [OF hinv_basic(1)] based_within)

lemma commitAppliedTopology_lands:
  assumes "top_name tp = lab" "tx_generation tx = g"
  shows "hends (based lab c) (\<lambda>resp s. ap_failures resp = [] \<longrightarrow> landed lab c g s) (commitAppliedTopology h tp w f tx)"
proof -
  have finish: "hends (based lab c) (\<lambda>resp s. ap_failures resp = [] \<longrightarrow> landed lab c g s)
      (hbind (finish_commit h tx tp f) (\<lambda>_. hret resp))" for resp
    by (rule hends_then [OF finish_commit_lands(1) [OF assms]], rule hends_basic) simp
  show ?thesis
    unfolding commitAppliedTopology_def
    by (intro hends_value [OF prune_stage_hinv prune_stage_stops] finish hends_intros hinv_intros) auto
qed

lemma commit_reads:
  "transactionForCommit g lab f t s = (Inr tx, s') \<Longrightarrow>
    fmlookup (transactions s) lab = Some tx \<and> tx_generation tx = g"
  by (auto simp: transactionForCommit_def require_modes_def dest!: fenced_Inr split: option.splits sum.splits if_splits
      dest: prepared_tx_Some)

lemma commit_prepared_moves:
  assumes "\<not> tx_committed tx" "top_name tp = lab" "tx_generation tx = g"
  shows "hmoves (based lab c) (within lab c g) (commit_prepared h req lab' tp w tx)"
    and "hends (based lab c) (\<lambda>resp s. ap_failures resp = [] \<longrightarrow> landed lab c g s) (commit_prepared h req lab' tp w tx)"
proof -
  show "hmoves (based lab c) (within lab c g) (commit_prepared h req lab' tp w tx)"
    unfolding commit_prepared_def if_not_P [OF assms(1)]
    by (intro hmoves_then hmoves_wrapped(2) commitAppliedTopology_moves assms(2,3) hinv_intros)
  have answer: "hends (\<lambda>s. ap_failures resp = [] \<longrightarrow> landed lab c g s)
      (\<lambda>resp s. ap_failures resp = [] \<longrightarrow> landed lab c g s)
      (hbind (if ap_failures resp \<noteq> [] then mark_rollback ok t t' lab' req why else hret ()) (\<lambda>_. hret resp))"
    for resp :: ApplyResponse and ok t t' why
    by (auto simp: hends_def answered_simps)
  show "hends (based lab c) (\<lambda>resp s. ap_failures resp = [] \<longrightarrow> landed lab c g s) (commit_prepared h req lab' tp w tx)"
    unfolding commit_prepared_def if_not_P [OF assms(1)]
    by (rule hends_then [OF hends_wrapped(2) [OF commitAppliedTopology_lands [OF assms(2,3)]] answer])
qed

text \<open>The commit of a node that has not committed; an answer without failures is a commit.\<close>

lemma hends_guard: "hends P (\<lambda>_ _. b) (hguard b e)"
  by (auto simp: hends_def answered_simps)

lemma reads_based: "hends (based lab c) (\<lambda>tx _. \<not> tx_committed tx \<and> tx_generation tx = g)
    (hagent (transactionForCommit g lab f t))"
  by (auto simp: hends_def answered_simps based_def dest!: commit_reads)

lemma reads_landed: "hends (landed lab c g) (\<lambda>tx _. tx_committed tx) (hagent (transactionForCommit g' lab f t))"
  by (auto simp: hends_def answered_simps landed_def dest!: commit_reads)

lemma reads_idle: "hends (idle lab c) (\<lambda>tx _. False) (hagent (transactionForCommit g' lab f t))"
  by (auto simp: hends_def answered_simps idle_def dest!: commit_reads)

lemma handleApplyCommit_lands:
  assumes "lab_of req = lab"
  shows "hends (based lab c) (\<lambda>resp s. ap_failures resp = [] \<longrightarrow> landed lab c (ar_generation req) s) (handleApplyCommit h req)"
proof -
  let ?g = "ar_generation req"
  have work: "hends (based lab c) (\<lambda>resp s. ap_failures resp = [] \<longrightarrow> landed lab c ?g s)
      (hfinally (commit_prepared h req lab tp w tx) (release_lab lab))"
    if "\<not> tx_committed tx \<and> tx_generation tx = ?g" "top_name tp = lab" for tx tp w
    using that by (intro hends_wrapped commit_prepared_moves(2)) (auto intro: kept_landed [OF kept_installs(3)])
  have start: "hinv (based lab c) (hagent (acquireOperation lab k False t))"
    "hinv (based lab c) (hagent (transactionForCommit ?g lab f t))" for k f t
    by (simp_all add: hinv_def hagent_def based_sections)
  show ?thesis
    unfolding handleApplyCommit_def assms
    by (rule hends_bind [OF hinv_basic(4)], rule hends_bind [OF hheld_based], rule hends_value [OF start(2) reads_based],
        (rule hends_bind [OF hinv_basic(5)])+, rule hends_bind [OF hinv_basic(3)], rule hends_bind [OF hinv_basic(7)],
        rule hends_value [OF hinv_basic(4) hends_guard], rule hends_bind [OF start(1)], rule work)
qed

lemma handleApplyCommit_hmoves:
  assumes "lab_of req = lab" and P: "\<And>s s'. kept lab s s' \<Longrightarrow> P s \<Longrightarrow> P s'" "\<And>s. P s \<Longrightarrow> Q s"
    and Q: "\<And>s s'. kept lab s s' \<Longrightarrow> Q s \<Longrightarrow> Q s'"
    and reads: "\<And>f t. hends P (\<lambda>tx _. A tx) (hagent (transactionForCommit (ar_generation req) lab f t))"
    and commits: "\<And>tx tp w. A tx \<Longrightarrow> top_name tp = lab \<Longrightarrow> hmoves P Q (commit_prepared h req lab tp w tx)"
  shows "hmoves P Q (handleApplyCommit h req)"
proof -
  have start: "hinv P (hheld lab tok t)" "hinv P (hagent (transactionForCommit (ar_generation req) lab f t))"
    "hinv P (hagent (acquireOperation lab k False t))" for tok f k t
    by (auto simp: hinv_def hagent_def intro: P(1) kept_all)
  have work: "hmoves P Q (hfinally (commit_prepared h req lab tp w tx) (release_lab lab))"
    if "A tx" "top_name tp = lab" for tx tp w
    using that by (intro hmoves_wrapped(1) commits) (auto intro: Q [OF kept_installs(3)])
  show ?thesis
    unfolding handleApplyCommit_def assms(1)
    by (rule hmoves_bind [OF hinv_basic(4) P(2)], assumption, rule hmoves_bind [OF start(1) P(2)], assumption,
        rule hmoves_value [OF start(2) P(2) reads], assumption, (rule hmoves_bind [OF hinv_basic(5) P(2)], assumption)+,
        rule hmoves_bind [OF hinv_basic(3) P(2)], assumption, rule hmoves_bind [OF hinv_basic(7) P(2)], assumption,
        rule hmoves_value [OF hinv_basic(4) P(2) hends_guard], assumption, rule hmoves_bind [OF start(3) P(2)], assumption,
        rule work)
qed

lemma handleApplyCommit_based:
  assumes "lab_of req = lab"
  shows "hmoves (based lab c) (within lab c (ar_generation req)) (handleApplyCommit h req)"
  by (rule handleApplyCommit_hmoves [OF assms _ based_within _ reads_based])
    (auto intro: kept_based kept_within commit_prepared_moves(1))

lemma handleApplyCommit_within:
  assumes "lab_of req = lab" "g = ar_generation req"
  shows "hinv (within lab c g) (handleApplyCommit h req)"
proof -
  have committed: "hmoves P P (commit_prepared h req lab tp w tx)" if "tx_committed tx" for P tp w tx
    using that by (auto simp: commit_prepared_def hmoves_def hbind_def hread_def hret_def)
  have landed: "hmoves (landed lab c g) (landed lab c g) (handleApplyCommit h req)"
    by (rule handleApplyCommit_hmoves [OF assms(1) kept_landed _ kept_landed reads_landed]) (assumption | erule committed)+
  have idle: "hmoves (idle lab g) (idle lab g) (handleApplyCommit h req)"
    by (rule handleApplyCommit_hmoves [OF assms(1) kept_idle _ kept_idle reads_idle]) auto
  show ?thesis
    using hmovesD [OF handleApplyCommit_based [OF assms(1)]] hmovesD [OF landed] hmovesD [OF idle] assms(2)
    by (auto simp: hinv_def within_def)
qed

section \<open>Finalize\<close>

lemma handleApplyFinalize_moves:
  assumes "lab_of req = lab"
  shows "hinv (idle lab c) (handleApplyFinalize h req)" "hinv (settled lab c g) (handleApplyFinalize h req)"
    "hinv (within lab c g) (handleApplyFinalize h req)"
  unfolding handleApplyFinalize_def assms
  by (intro hinv_intros; erule idle_sections settled_sections within_sections)+

lemma handleApplyFinalize_ends:
  assumes "lab_of req = lab"
  shows "hends (landed lab c g) (\<lambda>_. idle lab g) (handleApplyFinalize h req)"
proof -
  have "idle lab g s'" if "finalizeCommittedGeneration ok g' lab f t s = (Inr u, s')" "landed lab c g s" for ok g' f t s u s'
    using finalize_landed [OF that(2), of ok g' f t] finalize_ends [OF that(1)] that(1)
    by (auto simp: landed_def idle_def)
  then show ?thesis
    unfolding handleApplyFinalize_def assms by (auto simp: hends_def answered_simps)
qed

section \<open>Recovery\<close>

lemma acquire_recovery_kept: "kept lab s (snd (acquire_recovery h lab' deadline takeover s))"
  using kept_others(11) [of lab s lab' deadline takeover "clk h 5"]
  by (auto simp: acquire_recovery_def split: prod.splits attempt.splits)

lemma legacy_prestate_kept: "kept lab s (snd (legacy_prestate h lab' tx s))"
proof -
  have shape: "same_shape cur (cur\<lparr>tx_prestate := pre\<rparr>)" for cur pre
    by (simp add: same_shape_def)
  show ?thesis
    by (auto simp: legacy_prestate_def hbind_def hoption_def hret_def hfail_def Let_def
        intro: kept_anywhere_put_tx [OF _ shape] split: option.split)
qed

lemma recovery_pieces [hinv_intros]:
  "hinv (based lab c) (acquire_recovery h lab' deadline takeover)"
  "hinv (based lab c) (failRecovery h lab' f g e)" "hinv (based lab c) (fail_with_status h lab' e)"
  "hinv (within lab c g') (fail_with_status h lab e)"
  "hinv (based lab c) (legacy_prestate h lab' tx)"
proof -
  show "hinv (based lab c) (acquire_recovery h lab' deadline takeover)"
    "hinv (based lab c) (legacy_prestate h lab' tx)" "hinv (based lab c) (failRecovery h lab' f g e)"
    by (auto simp: hinv_def failRecovery_def hignore_def
        intro: kept_based [OF acquire_recovery_kept] kept_based [OF legacy_prestate_kept] based_sections)
  show "hinv (based lab c) (fail_with_status h lab' e)" "hinv (within lab c g') (fail_with_status h lab e)"
    unfolding fail_with_status_def by (intro hinv_intros)+
qed

lemma recover_uncommitted_based: "hinv (based lab c) (recover_uncommitted h fw lab' f ''rollback'' opts tx)"
  unfolding recover_uncommitted_def recovery_work_def
  by (simp only: if_False list.inject char.inject simp_thms) (intro hinv_intros; erule based_sections)

lemma recover_uncommitted_idle:
  "hends (based lab c) (\<lambda>_. idle lab c) (recover_uncommitted h fw lab f ''rollback'' opts tx)"
proof -
  have start: "hinv (based lab c) (hagent (beginRecovery cf ok st dl takeover ack g lab f t))" for cf ok st dl takeover ack g t
    by (simp add: hinv_def hagent_def based_sections)
  have work: "hends (based lab c) (\<lambda>_. idle lab c)
     (hbind (hcatch (hcatch (rollback_phases h lab f tx') k) k') (\<lambda>_. hstatus h' lab))" for tx' k k' h'
    by (rule hends_then [OF hends_wrapped(2) [OF hends_wrapped(2) [OF rollback_phases_idle]]])
      (rule hends_hinv, rule hstatus_moves)
  show ?thesis
    unfolding recover_uncommitted_def recovery_work_def
    by (simp, rule hends_bind [OF hinv_basic(3)], rule hends_bind, intro hinv_intros, rule hends_wrapped(1), rule hends_bind,
      intro hinv_hcatch start hinv_intros, rule work, erule idle_sections)
qed

text \<open>A recovery goes by what it finds: an open transaction is rolled back, a committed one is left or,
  when the controller abandons the generation, reopened first.\<close>

definition busy :: "string \<Rightarrow> string \<Rightarrow> Server \<Rightarrow> bool" where
  "busy lab c s \<longleftrightarrow> based lab c s \<and> fmlookup (transactions s) lab \<noteq> None"

lemma based_cases: "based lab c s \<longleftrightarrow> busy lab c s \<or> idle lab c s"
  by (auto simp: based_def busy_def idle_def)

lemma kept_busy: "kept lab s s' \<Longrightarrow> busy lab c s \<Longrightarrow> busy lab c s'"
  by (auto simp: busy_def kept_based) (auto simp: kept_def option_rel_Some1)

lemma legacy_prestate_reads:
  "tx_committed tx \<Longrightarrow> hends (landed lab c g) (\<lambda>tx' _. tx_committed tx') (legacy_prestate h lab tx)"
  "\<not> tx_committed tx \<Longrightarrow> hends (busy lab c) (\<lambda>tx' _. \<not> tx_committed tx') (legacy_prestate h lab tx)"
  by (auto simp: hends_def legacy_prestate_def answered_simps landed_def busy_def based_def Let_def
      split: option.splits if_splits)

lemma recover_busy:
  "hends (busy lab c) (\<lambda>_. idle lab c) (recoverTransactionStrategyOptions h fw lab f ''rollback'' opts)"
proof -
  have keeps: "hinv (busy lab c) (hagent (requireMutationFence ok lab f t t'))" "hinv (busy lab c) (legacy_prestate h lab tx)" for ok t t' tx
    by (auto simp: hinv_def hagent_def intro: kept_busy kept_all legacy_prestate_kept)
  have reads: "hends (busy lab c) (\<lambda>otx _. \<exists>tx. otx = Some tx \<and> \<not> tx_committed tx) (hread (\<lambda>s. fmlookup (transactions s) lab))"
    by (auto simp: hends_def answered_simps busy_def based_def)
  have work: "hends (busy lab c) (\<lambda>_. idle lab c) (recover_uncommitted h fw lab f ''rollback'' opts tx)" for tx
    using recover_uncommitted_idle [of lab c h fw f opts tx] by (auto simp: hends_def busy_def)
  have tail: "hends (busy lab c) (\<lambda>_. idle lab c) (hbind (legacy_prestate h lab tx0) (\<lambda>tx.
      if \<not> tx_committed tx then recover_uncommitted h fw lab f ''rollback'' opts tx else k tx))"
    if "\<not> tx_committed tx0" for tx0 k
    by (rule hends_value [OF keeps(2) legacy_prestate_reads(2) [OF that]]) (simp add: work)
  show ?thesis
    unfolding recoverTransactionStrategyOptions_def
    by (rule hends_bind [OF hinv_basic(4)], rule hends_bind [OF keeps(1)], rule hends_value [OF hinv_basic(3) reads])
      (auto intro: tail)
qed

lemma recover_idle: "hinv (idle lab c) (recoverTransactionStrategyOptions h fw lab f strategy opts)"
proof -
  have reads: "hends (idle lab c) (\<lambda>otx _. otx = None) (hread (\<lambda>s. fmlookup (transactions s) lab))"
    by (auto simp: hends_def answered_simps idle_def)
  have start: "hinv (idle lab c) (hagent (requireMutationFence ok lab f t t'))" for ok t t'
    by (simp add: hinv_def hagent_def idle_sections)
  have none: "hmoves (idle lab c) (idle lab c) (hbind (hstatus h' lab) (\<lambda>st.
      if rs_consistent st \<or> rs_phase st = ''idle'' then hret st else hfail (HInconsistent (rs_error st))))" for h'
    by (rule hmoves_weaken) (intro hinv_intros)
  have "hmoves (idle lab c) (idle lab c) (recoverTransactionStrategyOptions h fw lab f strategy opts)"
    unfolding recoverTransactionStrategyOptions_def
    by (rule hmoves_bind [OF hinv_basic(4)], assumption, rule hmoves_bind [OF start], assumption,
        rule hmoves_value [OF hinv_basic(3) _ reads], assumption) (auto intro: none)
  then show ?thesis
    by (simp add: hinv_def hmoves_def)
qed

lemma settle_committed_hinv [hinv_intros]: "hinv (settled lab c g) (settle_committed h lab f tx)"
  unfolding settle_committed_def by (intro hinv_intros; erule settled_sections)

lemma reopen_moves: "hmoves (landed lab c g) (within lab c g) (hagent (reopenCommittedTransaction ok g' lab f t))"
  using reopen_landed [of lab c g _ ok g' f t] by (auto simp: hmoves_def hagent_def within_def)

lemma reopen_ends: "hends (landed lab c g) (\<lambda>_. based lab c) (hagent (reopenCommittedTransaction ok g' lab f t))"
  by (auto simp: hends_def answered_simps dest: reopen_reopens)

lemma abandon_moves:
  "hmoves (landed lab c g) (within lab c g)
     (hbind (hcatch (hagent (reopenCommittedTransaction ok g' lab f t)) (fail_with_status h lab)) (\<lambda>tx'.
      recover_uncommitted h fw lab f ''rollback'' opts tx'))"
  by (rule hmoves_ends [OF hmoves_wrapped(2) [OF reopen_moves] hends_wrapped(2) [OF reopen_ends]])
    (auto intro: hinv_intros hmoves_weaken [OF recover_uncommitted_based] based_within)

lemma abandon_ends:
  "hends (landed lab c g) (\<lambda>_. settled lab c g)
     (hbind (hcatch (hagent (reopenCommittedTransaction ok g' lab f t)) (fail_with_status h lab)) (\<lambda>tx'.
      recover_uncommitted h fw lab f ''rollback'' opts tx'))"
proof -
  have "hends (based lab c) (\<lambda>_. settled lab c g) (recover_uncommitted h fw lab f ''rollback'' opts tx')" for tx'
    using recover_uncommitted_idle [of lab c h fw f opts tx'] by (auto simp: hends_def settled_def)
  then show ?thesis
    by (rule hends_then [OF hends_wrapped(2) [OF reopen_ends]])
qed

lemma landed_settled: "landed lab c g s \<Longrightarrow> settled lab c g s"
  by (simp add: settled_def)

lemma landed_within: "landed lab c g s \<Longrightarrow> within lab c g s"
  by (simp add: within_def)

lemma recover_landed:
  "hmoves (landed lab c g) (within lab c g) (recoverTransactionStrategyOptions h fw lab f ''rollback'' opts)"
  "hends (landed lab c g) (\<lambda>_. settled lab c g) (recoverTransactionStrategyOptions h fw lab f ''rollback'' opts)"
proof -
  have keeps: "hinv (landed lab c g) (hagent (requireMutationFence ok lab f t t'))"
    "hinv (landed lab c g) (legacy_prestate h lab tx)" for ok t t' tx
    by (auto simp: hinv_def hagent_def intro: kept_landed kept_all legacy_prestate_kept)
  have reads: "hends (landed lab c g) (\<lambda>otx _. \<exists>tx. otx = Some tx \<and> tx_committed tx) (hread (\<lambda>s. fmlookup (transactions s) lab))"
    by (auto simp: hends_def answered_simps landed_def)
  have settle: "hmoves (landed lab c g) (within lab c g) (settle_committed h lab f tx)"
    "hends (landed lab c g) (\<lambda>_. settled lab c g) (settle_committed h lab f tx)" for tx
    using hinvD [OF settle_committed_hinv, of lab c g _ h f tx] hendsD [OF hends_hinv [OF settle_committed_hinv], of h lab f tx _ _ _ c g]
    by (auto simp: hmoves_def hends_def landed_settled settled_within)
  have tail: "hmoves (landed lab c g) (within lab c g) (hbind (legacy_prestate h lab tx0) (\<lambda>tx.
      if \<not> tx_committed tx then k tx else if b then settle_committed h lab f tx
      else hbind (hcatch (hagent (reopenCommittedTransaction ok (tx_generation tx) lab f t)) (fail_with_status h lab)) (\<lambda>tx'.
        recover_uncommitted h fw lab f ''rollback'' opts tx')))"
    "hends (landed lab c g) (\<lambda>_. settled lab c g) (hbind (legacy_prestate h lab tx0) (\<lambda>tx.
      if \<not> tx_committed tx then k tx else if b then settle_committed h lab f tx
      else hbind (hcatch (hagent (reopenCommittedTransaction ok (tx_generation tx) lab f t)) (fail_with_status h lab)) (\<lambda>tx'.
        recover_uncommitted h fw lab f ''rollback'' opts tx')))"
    if "tx_committed tx0" for tx0 k b ok t
    by (rule hmoves_value [OF keeps(2) landed_within legacy_prestate_reads(1) [OF that]], assumption,
        simp add: settle abandon_moves)
      (rule hends_value [OF keeps(2) legacy_prestate_reads(1) [OF that]], simp add: settle abandon_ends)
  show "hmoves (landed lab c g) (within lab c g) (recoverTransactionStrategyOptions h fw lab f ''rollback'' opts)"
    unfolding recoverTransactionStrategyOptions_def
    by (rule hmoves_bind [OF hinv_basic(4) landed_within], assumption, rule hmoves_bind [OF keeps(1) landed_within], assumption,
        rule hmoves_value [OF hinv_basic(3) landed_within reads], assumption) (auto intro: tail(1))
  show "hends (landed lab c g) (\<lambda>_. settled lab c g) (recoverTransactionStrategyOptions h fw lab f ''rollback'' opts)"
    unfolding recoverTransactionStrategyOptions_def
    by (rule hends_bind [OF hinv_basic(4)], rule hends_bind [OF keeps(1)], rule hends_value [OF hinv_basic(3) reads])
      (auto intro: tail(2))
qed

lemma recover_based: "hinv (based lab c) (recoverTransactionStrategyOptions h fw lab f ''rollback'' opts)"
proof -
  have reopen: "hinv (based lab c) (hagent (reopenCommittedTransaction ok g lab f t))" for ok g t
    by (simp add: hinv_def hagent_def reopen_based)
  show ?thesis
    unfolding recoverTransactionStrategyOptions_def settle_committed_def
    by (intro hinv_intros reopen recover_uncommitted_based; erule based_sections)
qed

lemma recover_within: "hinv (within lab c g) (recoverTransactionStrategyOptions h fw lab f ''rollback'' opts)"
  using hinvD [OF recover_based] hmovesD [OF recover_landed(1)] hinvD [OF recover_idle]
  by (auto simp: hinv_def within_def)

lemma recover_settles:
  "hends (within lab c g) (\<lambda>_. settled lab c g) (recoverTransactionStrategyOptions h fw lab f ''rollback'' opts)"
proof (unfold hends_def, intro allI impI)
  fix s st s' assume s: "within lab c g s"
    and r: "recoverTransactionStrategyOptions h fw lab f ''rollback'' opts s = (Inr st, s')"
  have "idle lab k s'" if "idle lab k s" for k
    using hinvD [OF recover_idle that, of h fw f "''rollback''" opts] r by simp
  moreover have "idle lab c s'" if "busy lab c s"
    using hendsD [OF recover_busy r that] .
  moreover have "settled lab c g s'" if "landed lab c g s"
    using hendsD [OF recover_landed(2) r that] .
  ultimately show "settled lab c g s'"
    using s by (auto simp: within_def based_cases settled_def)
qed

section \<open>Status\<close>

text \<open>A committed transaction is reported as pending, and a node without one reports its
  generation as soon as it has an inventory.\<close>

lemma judge_status_keeps:
  "rs_pending (judge_status h migrated otx want st) = rs_pending st"
  "rs_generation (judge_status h migrated otx want st) = rs_generation st"
  by (auto simp: judge_status_def blame_def expect_counts_def observe_counts_def Let_def split: option.split)

definition stocked :: "string \<Rightarrow> Server \<Rightarrow> bool" where
  "stocked lab s \<longleftrightarrow> fmlookup (inventories s) lab \<noteq> None"

lemma hstatus_from:
  assumes "hstatus h lab s = (Inr st, s')"
  obtains m oc where "st = status_from h lab s m oc s'" "oc = None \<longleftrightarrow> \<not> stocked lab s"
proof (cases "fmlookup (inventories s) lab")
  case None
  then show thesis
    using assms that [of True None] by (auto simp: hstatus_def transactionInventoryStatus_def stocked_def)
next
  case (Some i)
  then have "stocked lab s"
    by (simp add: stocked_def)
  with Some assms show thesis
    using that [of True "Some i"] that [of False "Some i"] that [of True "Some _"]
    by (auto simp: hstatus_def transactionInventoryStatus_def split: if_splits prod.splits sum.splits)
qed

lemma hstatus_landed:
  assumes "hstatus h lab s = (Inr st, s')" "landed lab c g s"
  shows "rs_pending st"
proof -
  obtain m oc where "st = status_from h lab s m oc s'"
    using hstatus_from [OF assms(1)] .
  then show ?thesis
    using assms(2) by (auto simp: status_from_def landed_def judge_status_keeps transaction_status_def Let_def)
qed

lemma hstatus_idle:
  assumes "hstatus h lab s = (Inr st, s')" "idle lab c s" "stocked lab s" "c \<noteq> []"
  shows "rs_generation st = c"
proof -
  obtain m oc where "st = status_from h lab s m oc s'" "oc = None \<longleftrightarrow> \<not> stocked lab s"
    using hstatus_from [OF assms(1)] .
  then show ?thesis
    using assms(2-4) by (auto simp: status_from_def idle_def gen_of_def judge_status_keeps Let_def)
qed

end
