(* ===== verification/Inventory_Effects.thy ===== *)
theory Inventory_Effects
  imports Recovery_Effects
begin

text \<open>
  What the handlers do to the recorded inventory of a lab, whose presence decides what a node
  reports as its generation.
\<close>

section \<open>Recorded inventories\<close>

text \<open>Once a lab has an inventory, nothing but its destruction takes it away.\<close>

definition same_stock :: "Server \<Rightarrow> Server \<Rightarrow> bool" where
  "same_stock s s' \<longleftrightarrow> inventories s' = inventories s"

lemma same_stock_refl [simp]: "same_stock s s"
  by (simp add: same_stock_def)

interpretation stores: bystander same_stock
  by unfold_locales (simp_all add: same_stock_def)

lemma stocked_same: "same_stock s s' \<Longrightarrow> stocked lab s \<Longrightarrow> stocked lab s'"
  by (simp add: same_stock_def stocked_def)

lemma stock_fenced: "same_stock s (snd k) \<Longrightarrow> same_stock s (snd (fenced lab' f t s k))"
  by (auto simp: fenced_def split: option.splits)

lemma stock_put_tx: "same_stock s (snd (put_tx ok lab tx s))"
  by (auto simp: same_stock_def put_tx_def Let_def case_prod_unfold)

lemma stock_deadline:
  "same_stock s (snd (saveCoordinationLocked ok (set_recovery_deadline lab d (s\<lparr>transactions := txs\<rparr>))))"
  "same_stock s (set_recovery_deadline lab d (s\<lparr>transactions := txs\<rparr>))"
  by (simp_all add: same_stock_def set_recovery_deadline_def split: option.split)

lemma stock_updates:
  "same_stock s (snd (markGenerationApplying ok g lab' f t s))"
  "same_stock s (snd (markGenerationApplied ok g lab' f t s))"
  "same_stock s (snd (recordGenerationDirtyCapture ok g ids lab' f t s))"
  "same_stock s (snd (recordGenerationSemantic ok g ids lab' f t s))"
  "same_stock s (snd (recordGenerationTouched ok g ids vs known lab' f t s))"
  "same_stock s (snd (markForwardPhase ok ph t' g lab' f t s))"
  "same_stock s (snd (recordForwardDataLoss ok detail g lab' f t s))"
  "same_stock s (snd (markTransactionPhase ok phs failure t' g lab' f t s))"
  "same_stock s (snd (recordGenerationSolveTransition ok g rec lab' f t s))"
  "same_stock s (snd (markStateVerified ok g lab' f t s))"
  unfolding markGenerationApplying_def markGenerationApplied_def recordGenerationDirtyCapture_def
    recordGenerationSemantic_def recordGenerationTouched_def markForwardPhase_def recordForwardDataLoss_def
    markTransactionPhase_def recordGenerationSolveTransition_def markStateVerified_def
  by (auto intro!: stock_fenced stock_put_tx split: option.split)

lemma stock_recovery:
  "same_stock s (snd (recordRecoveryProgress ok target deadline force g lab' f t s))"
  "same_stock s (snd (heartbeatRecoveryProgress c ok hard g lab' f t s))"
  "same_stock s (snd (beginRecovery c ok strategy tot takeover ack g lab' f t s))"
  unfolding recordRecoveryProgress_def heartbeatRecoveryProgress_def beginRecovery_def
  by (auto intro!: stock_fenced stock_deadline simp: Let_def case_prod_unfold split: option.split sum.split)

lemma stock_readers:
  "same_stock s (snd (checkPreparedGeneration g lab' f t s))" "same_stock s (snd (transactionForApply g lab' f t s))"
  "same_stock s (snd (transactionForCommit g lab' f t s))" "same_stock s (snd (transactionForStateVerify g lab' f t s))"
  by (auto simp: checkPreparedGeneration_def transactionForApply_def transactionForCommit_def
      transactionForStateVerify_def intro!: stock_fenced split: option.split)

lemma stock_unfenced: "\<nexists>fr lab f t. r = Fenced fr lab f t \<Longrightarrow> same_stock s (exec r s)"
  by (rule stores.unfenced_R)

lemma stock_others:
  "same_stock s (snd (requireMutationFence ok lab' f t t' s))"
  "same_stock s (snd (renewMutationLease ok rn t s))"
  "same_stock s (snd (releaseMutationLease ok rl t s))"
  "same_stock s (snd (reserveOverlays env rs t s))"
  "same_stock s (snd (requireOverlayReservations ok otp f t s))"
  "same_stock s (snd (restoreOverlayClaims ok lab' f vs s))"
  "same_stock s (snd (record_commit okp ok tx w tp owner t s))"
  "same_stock s (snd (restoreRecoveredTopology okp lab' tx s))"
  "same_stock s (snd (rollback_first ok okf lab' s))"
  "same_stock s (snd (acquireOperation lab' kind c t s))"
  "same_stock s (snd (acquireRecoveryOperation lab' deadline takeover t s))"
  "same_stock s (releaseOperation lab' n s)"
  "same_stock s (snd (refuseMutationIfHeld lab' token t s))"
  "same_stock s (beginSemanticConvergenceGrace tp t s)"
  using stock_unfenced [of "RequireFence ok lab' f t t'"] stock_unfenced [of "RenewLease ok rn t"]
    stock_unfenced [of "ReleaseLease ok rl t"] stock_unfenced [of "Reserve env rs t"]
    stock_unfenced [of "RequireReservations ok otp f t"] stock_unfenced [of "RestoreClaims ok lab' f vs"]
    stock_unfenced [of "RecordCommit okp ok tx w tp owner t"] stock_unfenced [of "RestoreTopology okp lab' tx"]
    stock_unfenced [of "RollbackFirst ok okf lab'"] stock_unfenced [of "StartOperation lab' kind c t"]
    stock_unfenced [of "StartRecovery lab' deadline takeover t"] stock_unfenced [of "EndOperation lab' n"]
    stock_unfenced [of "RefuseMutation lab' token t"] stock_unfenced [of "StartGrace tp t"]
  by simp_all

lemma stock_promote: "same_stock s (snd (promoteOverlayReservations ok vs lab' f t s))"
  by (auto simp: same_stock_def promoteOverlayReservations_def fenced_def Let_def case_prod_unfold split: option.split)

lemma stock_acquire: "same_stock s (snd (acquireMutationLease ok rq token t s))"
  by (auto simp: same_stock_def acquireMutationLease_def issue_lease_def drop_lease_def Let_def case_prod_unfold
      split: option.splits)

lemma stock_installs:
  "same_stock s (install_topology lab' tp how ps (put_topology lab' raw s))" "same_stock s (keep_peers lab' ps s)"
  "same_stock s (release_lab lab' s)"
  by (auto simp: same_stock_def install_topology_def put_topology_def rememberHow_def keep_peers_def
      release_lab_def Let_def split: option.splits)

lemma stock_held: "same_stock s (snd (hheld lab' token t s))"
  using stock_others(13) [of s lab' token t]
  by (cases "refuseMutationIfHeld lab' token t s") (auto simp: hheld_def split: option.split)

lemma stock_moves:
  "same_stock s (snd (prepareGeneration ok previous req lab' f t s))"
  "same_stock s (snd (finalizeCommittedGeneration ok g lab' f t s))"
  "same_stock s (snd (reopenCommittedTransaction ok g lab' f t s))"
  by (auto simp: same_stock_def prepareGeneration_def finalizeCommittedGeneration_def reopenCommittedTransaction_def
      fenced_def Let_def case_prod_unfold split: option.splits sum.splits)

lemma stocked_moves:
  "stocked lab s \<Longrightarrow> stocked lab (snd (finishCommittedGeneration ok oinv g lab' f t s))"
  "stocked lab s \<Longrightarrow> stocked lab (snd (finishRecoveredGeneration ok g lab' f t s))"
  "stocked lab s \<Longrightarrow> stocked lab (snd (replace_inventory ok lab' iv s))"
  by (auto simp: stocked_def finishCommittedGeneration_def finishRecoveredGeneration_def replace_inventory_def
      restore_entry_def forget_repairs_def fenced_def Let_def case_prod_unfold split: option.splits)

lemmas stocked_sections = stock_updates [THEN stocked_same] stock_recovery [THEN stocked_same] stock_readers [THEN stocked_same]
  stock_others [THEN stocked_same] stock_promote [THEN stocked_same] stock_acquire [THEN stocked_same]
  stock_installs [THEN stocked_same] stock_held [THEN stocked_same] stock_moves [THEN stocked_same] stocked_moves

section \<open>The handlers\<close>

lemma hheld_stocked [hinv_intros]: "hinv (stocked lab) (hheld lab' token t)"
  by (simp add: hinv_def stocked_sections)

lemma hstatus_stocked [hinv_intros]: "hinv (stocked lab) (hstatus h lab')"
  by (rule hstatus_hinv) (unfold migrateLegacyCommittedInventory_def, intro hinv_intros; erule stocked_sections)

lemma deploy_handlers_stocked:
  "hinv (stocked lab) (handleApplyPrepare ph req)" "hinv (stocked lab) (applyPhase ah req)"
  "hinv (stocked lab) (handleStateVerify vh lab' f g)" "hinv (stocked lab) (handleApplyFinalize h req)"
proof -
  show "hinv (stocked lab) (handleApplyPrepare ph req)"
    unfolding handleApplyPrepare_def admit_wire_def admit_prepare_def capture_prestate_def prestate_safety_def
      preserve_orphans_def preserveSolveTransition_def
    by (intro hinv_intros; erule stocked_sections)
  show "hinv (stocked lab) (applyPhase ah req)"
    unfolding applyPhase_def admit_apply_def run_apply_def prepared_for_apply_def begin_apply_def execute_plan_def
      record_apply_def mark_rollback_def
    by (intro hinv_intros; erule stocked_sections)
  show "hinv (stocked lab) (handleStateVerify vh lab' f g)" "hinv (stocked lab) (handleApplyFinalize h req)"
    unfolding handleStateVerify_def handleApplyFinalize_def
    by (intro hinv_intros; erule stocked_sections)+
qed

lemma promote_stage_stocked [hinv_intros]: "hinv (stocked lab) (promote_stage h tp f)"
  using stock_promote [THEN stocked_same]
  by (auto simp: hinv_def promote_stage_def Let_def split: prod.split sum.split) (metis snd_conv)+

lemma handleApplyCommit_stocked: "hinv (stocked lab) (handleApplyCommit h req)"
  unfolding handleApplyCommit_def commit_prepared_def commitAppliedTopology_def finish_commit_def mark_rollback_def
  by (intro hinv_intros; erule stocked_sections)

lemma run_beats_stocked: "stocked lab s \<Longrightarrow> stocked lab (snd (run_beats cf lab' f g hard bs s))"
proof (induction bs arbitrary: s)
  case (Cons b bs)
  obtain ok t where b: "b = (ok, t)"
    by (cases b)
  have "stocked lab (snd (heartbeatRecoveryProgress cf ok hard g lab' f t s))"
    using Cons.prems by (rule stocked_sections)
  then show ?case
    using Cons.IH b by (auto split: prod.split sum.split)
qed simp

lemma phase_stocked [hinv_intros]:
  assumes "hinv (stocked lab) body"
  shows "hinv (stocked lab) (runRecoveryPhaseLimit cf p lab' f g target limit body)"
proof -
  have beats: "hinv (stocked lab) (with_beats cf p lab' f g hard body)" for hard
    using run_beats_stocked [of lab _ cf lab' f g hard "rp_beats p"] hinvD [OF assms]
    by (auto simp: hinv_def with_beats_def split: prod.split) (metis snd_conv)
  show ?thesis
    unfolding runRecoveryPhaseLimit_def by (intro hinv_intros beats; erule stocked_sections)
qed

lemma recovery_pieces_stocked [hinv_intros]:
  "hinv (stocked lab) (acquire_recovery h lab' deadline takeover)" "hinv (stocked lab) (legacy_prestate h lab' tx)"
  "hinv (stocked lab) (\<lambda>s. hagent (restoreOverlayClaims ok lab' f (vs s)) s)"
proof -
  show "hinv (stocked lab) (acquire_recovery h lab' deadline takeover)"
    using stock_others(11) [of _ lab' deadline takeover "clk h 5", THEN stocked_same]
    by (auto simp: hinv_def acquire_recovery_def split: prod.splits attempt.splits) (metis snd_conv)+
  show "hinv (stocked lab) (legacy_prestate h lab' tx)"
    by (auto simp: hinv_def legacy_prestate_def hbind_def hoption_def hret_def hfail_def Let_def
        intro: stocked_same [OF stock_put_tx] split: option.split)
  show "hinv (stocked lab) (\<lambda>s. hagent (restoreOverlayClaims ok lab' f (vs s)) s)"
    by (simp add: hinv_def hagent_def stocked_sections)
qed

lemma recover_stocked: "hinv (stocked lab) (recoverTransactionStrategyOptions h fw lab' f ''rollback'' opts)"
  unfolding recoverTransactionStrategyOptions_def settle_committed_def recover_uncommitted_def recovery_work_def
    fail_with_status_def failRecovery_def rollback_phases_def await_peers_def rollbackPreparedApply_def
    rollbackExactContracts_def reinstall_previous_def verify_rollback_def hostwork_def Let_def
  by (simp only: if_False list.inject char.inject simp_thms) (intro hinv_intros; erule stocked_sections)

end
