(* ===== verification/Cluster_Effects.thy ===== *)
theory Cluster_Effects
  imports Cluster Inventory_Effects
begin

text \<open>
  What the controller's calls do to the nodes of a cluster: a property every handler keeps holds on
  every node after any number of calls, delivered or not, and the stages of a deployment carry
  every node from its old generation towards the new one.
\<close>

section \<open>Calls\<close>

definition everywhere :: "string list \<Rightarrow> (Server \<Rightarrow> bool) \<Rightarrow> cluster \<Rightarrow> bool" where
  "everywhere nodes P cl \<longleftrightarrow> (\<forall>n\<in>set nodes. P (cl n))"

lemma everywhere_mono: "everywhere nodes P cl \<Longrightarrow> (\<And>s. P s \<Longrightarrow> Q s) \<Longrightarrow> everywhere nodes Q cl"
  by (simp add: everywhere_def)

lemma everywhere_upd: "everywhere nodes P cl \<Longrightarrow> P s \<Longrightarrow> everywhere nodes P (cl(n := s))"
  by (simp add: everywhere_def)

lemma deliver_moves: "hmoves P Q m \<Longrightarrow> P s \<Longrightarrow> (\<And>s. P s \<Longrightarrow> Q s) \<Longrightarrow> Q (snd (deliver d m s))"
  by (simp add: deliver_def hmovesD split: delivery.split)

lemma deliver_hinv: "hinv P m \<Longrightarrow> P s \<Longrightarrow> P (snd (deliver d m s))"
  by (rule deliver_moves [of P P]) (auto simp: hmoves_def hinv_def)

lemma deliver_Inr: "deliver d m s = (Inr a, s') \<Longrightarrow> m s = (Inr a, s')"
  by (cases "m s") (auto simp: deliver_def map_error_def split: delivery.splits sum.splits)

lemma fanOut_moves:
  assumes "\<And>n s. P s \<Longrightarrow> Q (snd (f n s))" "everywhere nodes P cl"
  shows "everywhere nodes Q (snd (fanOut nodes f cl))"
  using assms by (simp add: everywhere_def fanOut_def)

lemma fanOut_ends:
  assumes "\<And>n s a s'. P s \<Longrightarrow> f n s = (Inr a, s') \<Longrightarrow> Q s'" "everywhere nodes P cl"
    and "\<forall>(n, r)\<in>set (fst (fanOut nodes f cl)). is_ok r"
  shows "everywhere nodes Q (snd (fanOut nodes f cl))"
proof (unfold everywhere_def, intro ballI)
  fix n assume n: "n \<in> set nodes"
  then have "is_ok (fst (f n (cl n)))"
    using assms(3) by (auto simp: fanOut_def)
  then obtain a where "f n (cl n) = (Inr a, snd (f n (cl n)))"
    by (cases "f n (cl n)"; cases "fst (f n (cl n))") auto
  then show "Q (snd (fanOut nodes f cl) n)"
    using assms(1) [of "cl n"] assms(2) n by (auto simp: everywhere_def fanOut_def)
qed

lemma first_failure_None: "first_failure rs = None \<longleftrightarrow> (\<forall>(n, r)\<in>set rs. is_ok r)"
proof -
  have "(case xs of [] \<Rightarrow> None | (n, r) # _ \<Rightarrow> Some n) = None \<longleftrightarrow> xs = []" for xs :: "(string \<times> ('a, 'b) result) list"
    by (cases xs) auto
  then show ?thesis
    by (fastforce simp: first_failure_def filter_empty_conv)
qed

lemma one_by_one_keeps:
  assumes "\<And>n s. P s \<Longrightarrow> P (snd (f n s))" "everywhere nodes P cl"
  shows "everywhere nodes P (snd (one_by_one f ns cl))"
  using assms(2)
proof (induction ns arbitrary: cl)
  case (Cons n ns)
  then have "everywhere nodes P (cl(n := snd (f n (cl n))))"
    by (simp add: everywhere_def assms(1))
  then show ?case
    using Cons.IH [of "cl(n := snd (f n (cl n)))"] by (simp add: Let_def case_prod_unfold del: fun_upd_apply)
qed simp

lemma until_failure_keeps:
  assumes "\<And>n s. P s \<Longrightarrow> P (snd (f n s))" "everywhere nodes P cl"
  shows "everywhere nodes P (snd (until_failure f ns cl))"
  using assms(2)
proof (induction ns arbitrary: cl)
  case (Cons n ns)
  then have "everywhere nodes P (cl(n := snd (f n (cl n))))"
    by (simp add: everywhere_def assms(1))
  then show ?case
    using Cons.IH [of "cl(n := snd (f n (cl n)))"]
    by (cases "f n (cl n)") (auto simp del: fun_upd_apply split: sum.split)
qed simp

text \<open>A property of a lab that depends on nothing but its deployment and its inventory is kept by the
  renewals of the lease.\<close>

definition steady :: "string \<Rightarrow> (Server \<Rightarrow> bool) \<Rightarrow> bool" where
  "steady lab P \<longleftrightarrow> (\<forall>s s'. kept lab s s' \<longrightarrow> same_stock s s' \<longrightarrow> P s \<longrightarrow> P s')"

lemma steadyD: "steady lab P \<Longrightarrow> kept lab s s' \<Longrightarrow> same_stock s s' \<Longrightarrow> P s \<Longrightarrow> P s'"
  by (auto simp: steady_def)

lemma steady_instances:
  "steady lab (based lab c)" "steady lab (landed lab c g)" "steady lab (idle lab c)" "steady lab (within lab c g)"
  "steady lab (settled lab c g)" "steady lab (stocked lab)"
  by (auto simp: steady_def intro: kept_based kept_landed kept_idle kept_within kept_settled stocked_same)

lemma renew_round_keeps:
  assumes "steady lab P" "everywhere nodes P cl"
  shows "everywhere nodes P (snd (renew_round env lab' fences ns cl))"
  using assms(2)
proof (induction ns arbitrary: cl)
  case (Cons n ns)
  show ?case
  proof (cases "fmlookup fences n")
    case None
    then show ?thesis
      using Cons by simp
  next
    case (Some f)
    have "hinv P (node_renew (snd (env n)) lab' f)"
      unfolding node_renew_def
      by (intro hinv_intros; rule steadyD [OF assms(1) kept_others(2) stock_others(2)])
    then have "everywhere nodes P (cl(n := snd (deliver (fst (env n)) (node_renew (snd (env n)) lab' f) (cl n))))"
      using Cons.prems by (simp add: everywhere_def deliver_hinv)
    then show ?thesis
      using Some Cons.IH
      by (cases "deliver (fst (env n)) (node_renew (snd (env n)) lab' f) (cl n)")
        (auto simp del: fun_upd_apply split: sum.split)
  qed
qed simp

lemma renew_rounds_keeps:
  assumes "steady lab P" "everywhere nodes P (snd hc)"
  shows "everywhere nodes P (snd (renew_rounds envs nodes' l hc))"
  using assms(2)
proof (induction envs nodes' l hc rule: renew_rounds.induct)
  case (2 env envs nodes' l held cl)
  then show ?case
    using renew_round_keeps [OF assms(1), of nodes cl env "ml_lab l" "ml_fences l" "sort nodes'"] by simp
qed simp

section \<open>Recovering a cluster\<close>

lemma lab_of_finalize: "lab_of (finalize_request lab f g) = lab"
  by (simp add: lab_of_def finalize_request_def)

text \<open>What a reading of the status and a finalization keep, and what a rollback keeps as well.\<close>

locale status_invariant =
  fixes lab :: string and P :: "Server \<Rightarrow> bool"
  assumes unmoved: "steady lab P"
    and status: "hinv P (hstatus sh lab)"
    and finalize: "lab_of req = lab \<Longrightarrow> hinv P (handleApplyFinalize h req)"
begin

lemma node_status_keeps: "P s \<Longrightarrow> P (snd (node_status env lab n s))"
  by (simp add: node_status_def deliver_hinv status)

lemma node_finalize_keeps:
  assumes "ml_lab l = lab" "P s"
  shows "P (snd (node_finalize env l g n s))"
proof (cases "fmlookup (ml_fences l) n")
  case (Some f)
  have "P (snd (deliver (fst (env n)) (handleApplyFinalize (snd (env n)) (finalize_request lab f g)) s))"
    by (rule deliver_hinv [OF finalize [OF lab_of_finalize] assms(2)])
  then show ?thesis
    using Some assms(1) by (simp add: node_finalize_def case_prod_unfold)
qed (simp add: node_finalize_def assms)

lemma observe_keeps: "everywhere nodes P cl \<Longrightarrow> everywhere nodes P (snd (observe_from env lab known ns cl))"
proof (induction ns arbitrary: cl)
  case (Cons n ns)
  then have "everywhere nodes P (cl(n := snd (node_status env lab n (cl n))))"
    by (simp add: everywhere_def node_status_keeps)
  then show ?case
    using Cons.IH by (auto simp: case_prod_unfold simp del: fun_upd_apply split: option.split)
qed simp

lemma observeNodes_keeps: "everywhere nodes P cl \<Longrightarrow> everywhere nodes P (snd (observeNodes env lab known nodes' cl))"
  using observe_keeps [of nodes cl env known "sort nodes'"]
  by (auto simp: observeNodes_def split: prod.split option.split)

lemma finish_converged_keeps:
  assumes "ml_lab l = lab" "everywhere nodes P cl"
  shows "everywhere nodes P (snd (finish_converged env nodes' l known problems cl))"
proof -
  have "everywhere nodes P (snd (finalizeConvergedCommit fe l nodes' seen cl'))" if "everywhere nodes P cl'" for fe seen cl'
    using one_by_one_keeps [OF node_finalize_keeps [OF assms(1)] that] that
    by (auto simp: finalizeConvergedCommit_def case_prod_unfold split: option.split)
  then show ?thesis
    using observeNodes_keeps [OF assms(2), of "re_observe_again env" known nodes'] assms
    by (auto simp: finish_converged_def case_prod_unfold)
qed

end

locale recovery_invariant = status_invariant +
  assumes recover: "hinv P (recoverTransactionStrategyOptions rh fw lab f ''rollback'' opts)"
begin

lemma node_recover_keeps:
  assumes "ml_lab l = lab" "P s"
  shows "P (snd (node_recover env l ''rollback'' opts n s))"
proof (cases "fmlookup (ml_fences l) n")
  case (Some f)
  obtain d rh fw where env: "env n = (d, rh, fw)"
    by (cases "env n") auto
  have "P (snd (deliver d (recoverTransactionStrategyOptions rh fw lab f ''rollback'' opts) s))"
    by (rule deliver_hinv [OF recover assms(2)])
  then show ?thesis
    using Some env assms(1) by (simp add: node_recover_def case_prod_unfold)
qed (simp add: node_recover_def assms)

lemma resolve_split_keeps:
  assumes "ml_lab l = lab" "everywhere nodes P cl"
  shows "everywhere nodes P (snd (resolve_split env nodes' l strategy opts known cl))"
proof -
  have split: "everywhere nodes P (snd (resolveSplitCommit re l opts sp cl'))" if "everywhere nodes P cl'" for re sp cl'
    using one_by_one_keeps [OF node_recover_keeps [OF assms(1)] that] by (simp add: resolveSplitCommit_def case_prod_unfold)
  show ?thesis
    using observeNodes_keeps [OF assms(2), of "re_observe env" known nodes'] split assms
    by (auto simp: resolve_split_def case_prod_unfold split: option.split)
qed

lemma recovery_keeps:
  assumes "ml_lab l = lab" "everywhere nodes P (snd hc)"
  shows "everywhere nodes P (snd (snd (recoverWithLeaseStrategyOptions env nodes l ''rollback'' opts hc)))"
proof -
  have "everywhere nodes P (snd (renew_rounds (re_renew env) nodes l hc))"
    by (rule renew_rounds_keeps [OF unmoved assms(2)])
  then have "everywhere nodes P (snd (fanOut nodes (node_recover (re_recover env) l ''rollback'' opts)
      (snd (renew_rounds (re_renew env) nodes l hc))))"
    by (rule fanOut_moves [rotated]) (rule node_recover_keeps [OF assms(1)])
  then show ?thesis
    unfolding recoverWithLeaseStrategyOptions_def Let_def case_prod_unfold assms(1) snd_conv
    by (intro one_by_one_keeps node_status_keeps finish_converged_keeps resolve_split_keeps assms(1))
qed

end

interpretation on_settled: status_invariant lab "settled lab c g" for lab c g
  by unfold_locales (rule steady_instances hstatus_moves, (erule handleApplyFinalize_moves)?)+

interpretation on_based: recovery_invariant lab "based lab c" for lab c
  by unfold_locales (rule steady_instances hstatus_based recover_based handleApplyFinalize_based)+

interpretation on_idle: recovery_invariant lab "idle lab c" for lab c
  by unfold_locales (rule steady_instances hstatus_moves recover_idle, (erule handleApplyFinalize_moves)?)+

interpretation on_within: recovery_invariant lab "within lab c g" for lab c g
  by unfold_locales (rule steady_instances hstatus_moves recover_within, (erule handleApplyFinalize_moves)?)+

interpretation on_stock: recovery_invariant lab "stocked lab" for lab
  by unfold_locales (rule steady_instances hstatus_stocked recover_stocked deploy_handlers_stocked)+

section \<open>A recovery without problems\<close>

lemma problems_of_Nil: "problems_of rs = [] \<longleftrightarrow> (\<forall>(n, r)\<in>set rs. is_ok r)"
  by (induction rs) (auto simp: problems_of_def split: sum.splits)

lemma one_by_one_answers:
  assumes "\<And>n s a s'. P s \<Longrightarrow> f n s = (Inr a, s') \<Longrightarrow> P s'" "everywhere nodes P cl"
    and "\<forall>(n, r)\<in>set (fst (one_by_one f ns cl)). is_ok r"
  shows "everywhere nodes P (snd (one_by_one f ns cl))"
  using assms(2,3)
proof (induction ns arbitrary: cl)
  case (Cons n ns)
  then have "is_ok (fst (f n (cl n)))"
    by (auto simp: case_prod_unfold Let_def)
  then obtain a s where f: "f n (cl n) = (Inr a, s)"
    by (cases "f n (cl n)"; cases "fst (f n (cl n))") auto
  then have "everywhere nodes P (cl(n := s))"
    using Cons.prems(1) assms(1) by (auto simp: everywhere_def)
  then show ?case
    using Cons.IH Cons.prems(2) f by (auto simp: case_prod_unfold Let_def simp del: fun_upd_apply)
qed simp

lemma node_recover_settles:
  assumes "ml_lab l = lab" "within lab c g s" "node_recover env l ''rollback'' opts n s = (Inr st, s')"
  shows "settled lab c g s'"
proof -
  obtain d rh fw where env: "env n = (d, rh, fw)"
    by (cases "env n") auto
  obtain f where "deliver d (recoverTransactionStrategyOptions rh fw lab f ''rollback'' opts) s = (Inr st, s')"
    using assms(1,3) env by (auto simp: node_recover_def map_error_def split: option.splits prod.splits sum.splits)
  from deliver_Inr [OF this] show ?thesis
    using hendsD [OF recover_settles _ assms(2)] by blast
qed

lemma resolve_split_settled:
  assumes "ml_lab l = lab" "everywhere nodes (settled lab c g) cl"
    and "fst (resolve_split env nodes' l strategy opts known cl) = []"
  shows "everywhere nodes (settled lab c g) (snd (resolve_split env nodes' l strategy opts known cl))"
proof -
  define cl1 where "cl1 = snd (observeNodes (re_observe env) lab known nodes' cl)"
  have cl1: "everywhere nodes (settled lab c g) cl1"
    unfolding cl1_def by (rule on_settled.observeNodes_keeps [OF assms(2)])
  have split: "everywhere nodes (settled lab c g) (snd (resolveSplitCommit (re_abandon env) l opts sp cl1))"
    if "fst (resolveSplitCommit (re_abandon env) l opts sp cl1) = []" for sp
  proof -
    let ?run = "one_by_one (node_recover (re_abandon env) l ''rollback'' (abandon_options opts)) (split_rollback sp) cl1"
    have "everywhere nodes (settled lab c g) (snd ?run)"
      using that
      by (intro one_by_one_answers [OF _ cl1] node_recover_settles [OF assms(1)])
        (auto intro: settled_within simp: resolveSplitCommit_def case_prod_unfold problems_of_Nil)
    then show ?thesis
      by (simp add: resolveSplitCommit_def case_prod_unfold)
  qed
  show ?thesis
    using cl1 split assms by (auto simp: resolve_split_def case_prod_unfold cl1_def split: option.splits)
qed

text \<open>A final reading without problems finds every node without a transaction, and what it reports is
  its generation.\<close>

lemma check_statuses_fine:
  assumes "check_statuses g0 sts = ([], g1)"
  shows "(\<forall>(n, r)\<in>set sts. \<exists>st. r = Inr st \<and> \<not> rs_pending st \<and> (rs_generation st = [] \<or> rs_generation st = g1)) \<and>
    (g0 \<noteq> [] \<longrightarrow> g1 = g0)"
  using assms
  by (induction g0 sts rule: check_statuses.induct) (auto split: if_splits prod.splits)

lemma status_reads:
  assumes "node_status env lab n s = (Inr st, s')" "settled lab c g s" "stocked lab s" "\<not> rs_pending st" "c \<noteq> []" "g \<noteq> []"
  shows "\<exists>k\<in>{c, g}. idle lab k s' \<and> rs_generation st = k"
proof -
  have st: "hstatus (snd (env n)) lab s = (Inr st, s')"
    using assms(1) by (auto simp: node_status_def dest: deliver_Inr)
  then have "idle lab c s \<or> idle lab g s"
    using hstatus_landed assms(2,4) by (auto simp: settled_def)
  then obtain k where k: "k \<in> {c, g}" "idle lab k s"
    by auto
  then have "idle lab k s'"
    using hinvD [OF hstatus_moves(1) k(2)] st by (metis snd_conv)
  then show ?thesis
    using hstatus_idle [OF st k(2) assms(3)] k assms(5,6) by auto
qed

lemma final_statuses:
  assumes "everywhere ns (\<lambda>s. settled lab c g s \<and> stocked lab s) cl" "c \<noteq> []" "g \<noteq> []"
    and "\<forall>(n, r)\<in>set (fst (one_by_one (node_status env lab) ns cl)).
      \<exists>st. r = Inr st \<and> \<not> rs_pending st \<and> (rs_generation st = [] \<or> rs_generation st = g1)"
  shows "\<forall>n\<in>set ns. g1 \<in> {c, g} \<and> idle lab g1 (snd (one_by_one (node_status env lab) ns cl) n)"
  using assms(1,4)
proof (induction ns arbitrary: cl)
  case (Cons n ns)
  obtain r s where rs: "node_status env lab n (cl n) = (r, s)"
    by (cases "node_status env lab n (cl n)")
  then obtain st where st: "node_status env lab n (cl n) = (Inr st, s)" "\<not> rs_pending st"
      "rs_generation st = [] \<or> rs_generation st = g1"
    using Cons.prems(2) by (auto simp: case_prod_unfold Let_def)
  have n: "settled lab c g (cl n)" "stocked lab (cl n)"
    using Cons.prems(1) by (simp_all add: everywhere_def)
  then have idle: "g1 \<in> {c, g}" "idle lab g1 s"
    using status_reads [OF st(1) n st(2) assms(2,3)] st(3) assms(2,3) by auto
  have "settled lab c g s" "stocked lab s"
    using on_settled.node_status_keeps [OF n(1), of env n] on_stock.node_status_keeps [OF n(2), of env n] st(1) by simp_all
  then have "everywhere ns (\<lambda>s. settled lab c g s \<and> stocked lab s) (cl(n := s))"
    using Cons.prems(1) by (auto simp: everywhere_def)
  from Cons.IH [OF this] have rest: "\<forall>m\<in>set ns. g1 \<in> {c, g} \<and> idle lab g1 (snd (one_by_one (node_status env lab) ns (cl(n := s))) m)"
    using Cons.prems(2) st(1) by (simp add: case_prod_unfold Let_def del: fun_upd_apply)
  have "everywhere [n] (idle lab g1) (snd (one_by_one (node_status env lab) ns (cl(n := s))))"
    using idle(2) by (intro one_by_one_keeps on_idle.node_status_keeps) (simp_all add: everywhere_def)
  then have "idle lab g1 (snd (one_by_one (node_status env lab) ns (cl(n := s))) n)"
    by (simp add: everywhere_def)
  then show ?case
    using rest idle(1) st(1) by (simp add: case_prod_unfold Let_def)
qed simp

lemma recovery_uniform:
  assumes l: "ml_lab l = lab" and start: "everywhere nodes (within lab c g) (snd hc)" "everywhere nodes (stocked lab) (snd hc)"
    and gens: "c \<noteq> []" "g \<noteq> []"
    and ends: "recoverWithLeaseStrategyOptions env nodes l ''rollback'' opts hc = (([], g1), held, cl)"
  shows "\<forall>n\<in>set nodes. g1 \<in> {c, g} \<and> idle lab g1 (cl n)"
proof -
  define cl0 where "cl0 = snd (renew_rounds (re_renew env) nodes l hc)"
  define r1 where "r1 = fanOut nodes (node_recover (re_recover env) l ''rollback'' opts) cl0"
  define r2 where "r2 = resolve_split env nodes l ''rollback'' opts (answers_of (fst r1)) (snd r1)"
  define r3 where "r3 = finish_converged env nodes l (answers_of (fst r1)) (problems_of (fst r1) @ fst r2) (snd r2)"
  define r4 where "r4 = one_by_one (node_status (re_status env) lab) (sort nodes) (snd r3)"
  have fine: "problems_of (fst r1) = []" "fst r2 = []" "fst (check_statuses [] (fst r4)) = []"
    "snd (check_statuses [] (fst r4)) = g1" "cl = snd r4"
    using ends by (auto simp: recoverWithLeaseStrategyOptions_def Let_def case_prod_unfold l
        cl0_def r1_def r2_def r3_def r4_def)
  have cl0: "everywhere nodes (within lab c g) cl0" "everywhere nodes (stocked lab) cl0"
    unfolding cl0_def using start by (auto intro: renew_rounds_keeps steady_instances)
  have "everywhere nodes (settled lab c g) (snd r1)"
    unfolding r1_def
    by (rule fanOut_ends [OF _ cl0(1) fine(1) [unfolded r1_def problems_of_Nil]]) (rule node_recover_settles [OF l])
  moreover have "everywhere nodes (stocked lab) (snd r1)"
    unfolding r1_def using cl0(2) by (rule fanOut_moves [rotated]) (rule on_stock.node_recover_keeps [OF l])
  ultimately have "everywhere nodes (settled lab c g) (snd r3)" "everywhere nodes (stocked lab) (snd r3)"
    using fine(2) unfolding r2_def r3_def
    by (auto intro!: on_settled.finish_converged_keeps [OF l] on_stock.finish_converged_keeps [OF l]
        resolve_split_settled [OF l] on_stock.resolve_split_keeps [OF l])
  then have "everywhere (sort nodes) (\<lambda>s. settled lab c g s \<and> stocked lab s) (snd r3)"
    by (simp add: everywhere_def)
  from final_statuses [OF this gens, of "re_status env" g1] show ?thesis
    using check_statuses_fine [of "[]" "fst r4" g1] fine(3-5) by (auto simp: r4_def prod_eq_iff)
qed

end
