(* ===== verification/Cluster_Demo.thy ===== *)
theory Cluster_Demo
  imports Cluster
begin

text \<open>
  A cluster of two nodes that is upgraded from one generation to the next: what each node answers at
  each stage, computed from the handlers.  The replies to the commit and to the finalization may
  be lost on the way.
\<close>

section \<open>The cluster\<close>

definition lab_topology :: Topology where
  "lab_topology = \<lparr>top_name = ''cs'', top_hash = ''h2'', top_ephemeral = False, top_ephemeral_ttl = 0,
     top_links = [], top_devices = []\<rparr>"

definition node_inventory :: "string \<Rightarrow> transactionInventory" where
  "node_inventory g = no_inventory\<lparr>inv_schema := overlayInventorySchema, inv_topology_hash := ''h2'', inv_generation := g\<rparr>"

definition lease_fence_of :: "string \<Rightarrow> Fence" where
  "lease_fence_of n = \<lparr>Token = n, Generation = 1\<rparr>"

definition demo_node :: "string \<Rightarrow> Server" where
  "demo_node n = (fresh_server n None)
     \<lparr>mutations := fmupd ''cs'' \<lparr>lease_holder = ''ctl'', lease_fence = lease_fence_of n, lease_until = 1000\<rparr> fmempty,
      fenceHighWater := fmupd ''cs'' 1 fmempty,
      generations := fmupd ''cs'' (no_generation\<lparr>committed := ''g1''\<rparr>) fmempty,
      inventories := fmupd ''cs'' (node_inventory ''g1'') fmempty\<rparr>"

definition demo_lease :: MutationLease where
  "demo_lease = \<lparr>ml_lab = ''cs'', 
     ml_fences = fmupd ''n1'' (lease_fence_of ''n1'') (fmupd ''n2'' (lease_fence_of ''n2'') fmempty)\<rparr>"

definition demo_request :: ApplyRequest where
  "demo_request = (finalize_request [] \<lparr>Token = [], Generation = 0\<rparr> ''g2'')\<lparr>ar_mode := ''platform'', ar_phase := []\<rparr>"

definition demo_host :: host where
  "demo_host = \<lparr>clk = \<lambda>_. 10, disk = \<lambda>_. True\<rparr>"

definition demo_status :: status_host where
  "demo_status = host.extend demo_host
     (status_host.fields (Some (node_inventory ''g2'')) None None None)"

definition demo_prepare_host :: prepare_host where
  "demo_prepare_host = host.extend demo_host
     (prepare_host.fields False False False True True (Some no_inventory) None True None True None True)"

definition demo_apply_host :: apply_host where
  "demo_apply_host = host.extend demo_host
     (apply_host.fields False True [] [] True [] (Some []) [] [] fmempty 1)"

definition demo_commit_host :: commit_host where
  "demo_commit_host = host.extend demo_host
     (commit_host.fields False True [] True True True (\<lambda>_. False) None None (\<lambda>_. True)
        (\<lambda>_. Some (node_inventory ''g2'', node_inventory ''g2'')) (\<lambda>_. True) [] fmempty)"

definition demo_verify_host :: verify_host where
  "demo_verify_host = host.extend demo_host (verify_host.fields (\<lambda>_. True))"

definition demo_phase_host :: phase_host where
  "demo_phase_host = host.extend demo_host (phase_host.fields [] True)"

definition demo_recover_host :: recover_host where
  "demo_recover_host = host.extend demo_host
     (recover_host.fields \<lparr>rc_phase = 0, rc_total = 0, rc_lease = 0, rc_heartbeat = 0, rc_max = 0\<rparr> 1 1
        (\<lambda>_. demo_phase_host) demo_status no_inventory True False False (Some (node_inventory ''g1'')))"

definition demo_forward_host :: forward_host where
  "demo_forward_host = host.extend demo_host
     (forward_host.fields \<lparr>env_owners = None, env_adopt = \<lambda>_. True, env_revert = \<lambda>_. True, env_save = True,
        env_save_adopted = True, env_save_rollback = True\<rparr> True True [] [] [] True demo_commit_host)"

definition demo_recovery_env :: recovery_env where
  "demo_recovery_env =
     \<lparr>re_renew = [], re_recover = (\<lambda>_. (Delivered, demo_recover_host, demo_forward_host)),
      re_observe = (\<lambda>_. (Delivered, demo_status)),
      re_abandon = (\<lambda>_. (Delivered, demo_recover_host, demo_forward_host)),
      re_observe_again = (\<lambda>_. (Delivered, demo_status)), re_finalize = (\<lambda>_. (Delivered, demo_host)),
      re_status = (\<lambda>_. (Delivered, demo_status))\<rparr>"

text \<open>\<open>lost\<close> tells of which nodes the reply to the commit is lost, and \<open>lost'\<close> of which the reply to the
  finalization.\<close>

definition demo_env :: "string list \<Rightarrow> string list \<Rightarrow> apply_env" where
  "demo_env lost lost' =
     \<lparr>ae_renew = (\<lambda>_. []), ae_generation = (\<lambda>_. (Delivered, demo_status)),
      ae_reserve = (\<lambda>_. (Delivered, fw_env demo_forward_host, demo_host)),
      ae_prepare = (\<lambda>_. (Delivered, demo_prepare_host)), ae_apply = (\<lambda>_. (Delivered, demo_apply_host)),
      ae_images = (\<lambda>_ _. True), ae_verify = (\<lambda>_. (Delivered, demo_verify_host)),
      ae_commit = (\<lambda>n. (if n \<in> set lost then ReplyLost else Delivered, demo_commit_host)),
      ae_finalize = (\<lambda>n. (if n \<in> set lost' then ReplyLost else Delivered, demo_host)),
      ae_check = (\<lambda>_. (Delivered, demo_status)), ae_recovery = demo_recovery_env,
      ae_digest = (\<lambda>_. []), ae_underlay = []\<rparr>"

definition demo_deploy :: "string list \<Rightarrow> string list \<Rightarrow> outcome" where
  "demo_deploy lost lost' =
     coordinatedApplyWithLease (demo_env lost lost') [''n1'', ''n2''] (Some demo_lease) lab_topology demo_request None
       (True, demo_node)"

definition demo_mutation :: mutation where
  "demo_mutation =
     plan_mutation (demo_env [] []) [''n1'', ''n2''] demo_lease lab_topology demo_request None ''platform'' ''g1''"

section \<open>Computing\<close>

named_theorems demo_eval

lemmas demo_hosts [demo_eval] = demo_host_def demo_status_def demo_prepare_host_def demo_apply_host_def
  demo_commit_host_def demo_verify_host_def demo_phase_host_def demo_recover_host_def demo_forward_host_def
  demo_recovery_env_def demo_env_def host.defs prepare_host.defs status_host.defs apply_host.defs commit_host.defs
  verify_host.defs phase_host.defs recover_host.defs forward_host.defs

lemmas demo_data [demo_eval] = lab_topology_def node_inventory_def lease_fence_of_def demo_request_def plan_mutation_def
  no_response_def no_inventory_def finalize_request_def deployment_wire_def serialise_def

lemmas handler_steps [demo_eval] = hbind_def hret_def hfail_def hread_def hguard_def hoption_def hresult_def hagent_def
  hignore_def hdo_def hfinally_def hcheck_def hcheck_now_def hcatch_def hheld_def map_error_def deliver_def Let_def

lemmas section_steps [demo_eval] = refuseMutationIfHeld_def live_hold_def refused_by_def requireMutationFence_def
  expireCoordinationLocked_def fenced_def fenceErrorLocked_def saveCoordinationLocked_def put_tx_def prepared_tx_def
  get_or_def no_generation_def raw_empty_def unmarshal_def new_transaction_def

lemma demo_modes [demo_eval]: "RequireTransactionMode ''platform'' = Inr ''platform''" "ModePlatform = ''platform''"
  by code_simp+

lemma demo_sorted [demo_eval]: "sort [''n1'', ''n2''] = [''n1'', ''n2'']"
  by code_simp

lemma demo_node_fields [demo_eval]:
  "cfg_node (demo_node n) = n" "store (demo_node n) = None" "current (demo_node n) = fmempty" "modes (demo_node n) = fmempty"
  "ops (demo_node n) = fmempty" "holds (demo_node n) = fmempty" "transactions (demo_node n) = fmempty"
  "overlayClaims (demo_node n) = fmempty" "ungraded (demo_node n) = fmempty" "opSequence (demo_node n) = 0"
  "peers (demo_node n) = fmempty" "overlayLineage (demo_node n) = fmempty" "ephemeral (demo_node n) = fmempty"
  "repairFails (demo_node n) = fmempty" "repairNext (demo_node n) = fmempty" "semanticCycles (demo_node n) = fmempty"
  "repairTerminal (demo_node n) = fmempty" "semanticGraceUntil (demo_node n) = fmempty" "partial (demo_node n) = fmempty"
  "mutations (demo_node n) = fmupd ''cs'' \<lparr>lease_holder = ''ctl'', lease_fence = lease_fence_of n, lease_until = 1000\<rparr> fmempty"
  "generations (demo_node n) = fmupd ''cs'' (no_generation\<lparr>committed := ''g1''\<rparr>) fmempty"
  "inventories (demo_node n) = fmupd ''cs'' (node_inventory ''g1'') fmempty"
  by (simp_all add: demo_node_def fresh_server_def)

lemma fm_single [demo_eval]:
  "fm_exists P (fmupd k v fmempty) = P k v" "fm_exists P fmempty = False"
  "fm_keep P (fmupd k v fmempty) = (if P k v then fmupd k v fmempty else fmempty)" "fm_keep P fmempty = fmempty"
  by (auto simp: fm_exists_def fm_keep_def fmfilter_alt_defs intro!: fmap_ext)

lemma fm_again [demo_eval]:
  "fmdrop k (fmupd k v m) = fmdrop k m" "fmupd k v (fmupd k w m) = fmupd k v m" "fmdrop k fmempty = fmempty"
  by (auto intro!: fmap_ext)

section \<open>What a node answers\<close>

definition demo_tx :: applyTransaction where
  "demo_tx =
     (new_transaction
        \<lparr>pr_expected = ''g1'', pr_generation = ''g2'', pr_requested = Encoded (deployment_wire lab_topology demo_request),
         pr_mode = ''platform'', pr_ungraded = 0, pr_peers = [], pr_prune = False, pr_only = [], pr_proofs = [],
         pr_prestate = Some (no_inventory\<lparr>inv_state_safe := True\<rparr>)\<rparr>
        \<lparr>Token = [], Generation = 1\<rparr> ''platform'' NoMessage ''g1'' ''platform'' 0)
     \<lparr>tx_dirty_known := True, tx_semantic_known := True\<rparr>"

definition prepared_node :: "string \<Rightarrow> Server" where
  "prepared_node n = (demo_node n)
     \<lparr>generations := fmupd ''cs'' \<lparr>committed = ''g1'', prepared = ''g2'', ancestors = []\<rparr> fmempty,
      transactions := fmupd ''cs'' demo_tx fmempty\<rparr>"

definition applied_node :: "string \<Rightarrow> Server" where
  "applied_node n = (prepared_node n)
     \<lparr>opSequence := 1,
      transactions := fmupd ''cs'' (demo_tx\<lparr>tx_touched_known := True, tx_phase := Applied, tx_applied := True\<rparr>) fmempty\<rparr>"

lemma generation_answer:
  "node_generation (\<lambda>_. (Delivered, demo_status)) ''cs'' n (demo_node n) = (Inr ''g1'', demo_node n)"
  by (simp add: demo_eval node_generation_def committedGenerations_def hstatus_def transactionInventoryStatus_def)

lemma prepare_answer:
  assumes "fmlookup (ml_fences demo_lease) n = Some (lease_fence_of n)" "n \<noteq> []"
  shows "node_prepare (demo_env lost lost') demo_mutation n (demo_node n) =
    (Inr (no_response\<lparr>ap_node := n, ap_generation := ''g2'', ap_phase := ''prepare''\<rparr>), prepared_node n)"
  using assms
  by (simp add: demo_eval node_prepare_def request_for_def applyRequestForNode_def handleApplyPrepare_def admit_wire_def
      admit_prepare_def capture_prestate_def prestate_safety_def prepare_request_of_def preserve_orphans_def
      validateApplyAssignment_def devices_on_def assignedWireDevices_def wire_lab_def recoveryMutationRefusal_def
      ordinaryMaintenanceSuppression_def solveRecaptureRefusal_def prepareGeneration_def validate_prepare_def
      previous_mode_def previous_topology_def solvePreservationRequired_def recordGenerationDirtyCapture_def
      recordGenerationSemantic_def generatedGeneration_def demo_mutation_def demo_tx_def prepared_node_def demo_node_def
      fresh_server_def)

lemmas request_steps = request_for_def applyRequestForNode_def validateApplyAssignment_def devices_on_def
  assignedWireDevices_def wire_lab_def generatedGeneration_def demo_mutation_def demo_tx_def demo_node_def fresh_server_def

lemma apply_answer:
  assumes "fmlookup (ml_fences demo_lease) n = Some (lease_fence_of n)" "n \<noteq> []"
  shows "node_apply (demo_env lost lost') demo_mutation n (prepared_node n) =
    (Inr (no_response\<lparr>ap_node := n, ap_steps := 1\<rparr>), applied_node n)"
  using assms
  by (simp add: demo_eval request_steps node_apply_def applyPhase_def admit_apply_def run_apply_def prepared_for_apply_def
      begin_apply_def execute_plan_def record_apply_def transactional_def checkPreparedGeneration_def
      requireOverlayReservations_def overlayVNIsOnNode_def acquireOperation_def start_operation_def releaseOperation_def
      transactionForApply_def require_modes_def validatePreparedPlacement_def solveApplyRefusal_def
      solvePreservationRequired_def markGenerationApplying_def recordGenerationTouched_def appendTouchedStrings_def
      appendTouchedVNIs_def recordGenerationDirtyCapture_def recordGenerationSemantic_def markGenerationApplied_def
      prepared_node_def applied_node_def)

definition committed_node :: "string \<Rightarrow> Server" where
  "committed_node n = (applied_node n)
     \<lparr>opSequence := 2, current := fmupd ''cs'' lab_topology fmempty, modes := fmupd ''cs'' ''platform'' fmempty,
      ungraded := fmupd ''cs'' 0 fmempty, peers := fmupd ''cs'' [] fmempty,
      generations := fmupd ''cs'' \<lparr>committed = ''g2'', prepared = [], ancestors = [''g1'', ''g2'']\<rparr> fmempty,
      transactions := fmupd ''cs''
        (demo_tx\<lparr>tx_touched_known := True, tx_phase := Committed, tx_applied := True, tx_committed := True\<rparr>) fmempty,
      inventories := fmupd ''cs'' (node_inventory ''g2'') fmempty, overlayLineage := fmupd ''cs'' fmempty fmempty,
      semanticGraceUntil := fmupd ''cs'' (10 + semanticConvergenceGraceFor (Some lab_topology)) fmempty\<rparr>"

lemma retry_first: "alive 0 \<Longrightarrow> v 0 = Inr a \<Longrightarrow> retryMissingDesiredVNI k alive v r = Inr a"
  by (cases "max 1 k") (auto simp: retryMissingDesiredVNI_def)

lemma commit_answer:
  assumes "fmlookup (ml_fences demo_lease) n = Some (lease_fence_of n)" "n \<noteq> []"
  shows "node_commit (demo_env lost lost') demo_mutation n (applied_node n) =
    (if n \<in> set lost then Inl NoAnswer
     else Inr (no_response\<lparr>ap_node := n, ap_generation := ''g2'', ap_phase := ''commit''\<rparr>), committed_node n)"
  using assms
  by (simp add: demo_eval request_steps node_commit_def handleApplyCommit_def commit_prepared_def commitAppliedTopology_def
      finish_commit_def lab_of_def transactionForCommit_def require_modes_def acquireOperation_def start_operation_def
      release_lab_def record_commit_def committed_wire_def modeToPersist_def put_topology_def install_topology_def
      rememberHow_def forgetEphemeralLease_def dropEphemeralLease_def verify_commit_def prune_stage_def promote_stage_def
      overlayVNIsOnNode_def retry_first observe_commit_def mergePreservedInventory_def validateInventoryLineage_def
      allowed_generations_def inventoryMatchesCommitted_def inventoryMatches_def overlayInventoryMatches_def nonLegacyTrunks_def
      finishCommittedGeneration_def lineage_of_def appendGenerationLineage_def beginSemanticConvergenceGrace_def responseFailure_def
      prepared_node_def applied_node_def committed_node_def)

text \<open>The finalization drops the transaction, and the status before and after it.\<close>

definition finished_node :: "string \<Rightarrow> Server" where
  "finished_node n = (committed_node n)\<lparr>transactions := fmempty\<rparr>"

lemma finish_answer:
  assumes "fmlookup (ml_fences demo_lease) n = Some (lease_fence_of n)" "n \<noteq> []"
  shows "node_finish (demo_env lost lost') demo_mutation n (committed_node n) =
    (if n \<in> set lost' then Inl NoAnswer
     else Inr (no_response\<lparr>ap_node := n, ap_generation := ''g2'', ap_phase := ''finalize''\<rparr>), finished_node n)"
  using assms
  by (simp add: demo_eval request_steps node_finish_def handleApplyFinalize_def finalizeCommittedGeneration_def lab_of_def
      prepared_node_def applied_node_def committed_node_def finished_node_def)

definition pending_status :: "string \<Rightarrow> RecoveryStatus" where
  "pending_status n = fst (transactionInventoryStatus demo_status ''cs'' (committed_node n))"

definition final_status :: "string \<Rightarrow> RecoveryStatus" where
  "final_status n = fst (transactionInventoryStatus demo_status ''cs'' (finished_node n))"

lemmas status_steps = transactionInventoryStatus_def status_from_def judge_status_def wanted_inventory_def
  transaction_status_def status_of_def expect_counts_def observe_counts_def blame_def phase_name_def inventoryMatches_def
  overlayInventoryMatches_def nonLegacyTrunks_def prepared_node_def applied_node_def committed_node_def finished_node_def

lemma pending_status_fields:
  "rs_pending (pending_status n)" "rs_consistent (pending_status n)" "rs_phase (pending_status n) = ''committed''"
  "rs_generation (pending_status n) = ''g2''"
  by (simp_all add: pending_status_def demo_eval request_steps status_steps)

lemma final_status_fields:
  "\<not> rs_pending (final_status n)" "rs_consistent (final_status n)" "rs_phase (final_status n) = ''committed''"
  "rs_generation (final_status n) = ''g2''"
  by (simp_all add: final_status_def demo_eval request_steps status_steps)

lemma status_answers:
  "hstatus demo_status ''cs'' (committed_node n) = (Inr (pending_status n), committed_node n)"
  "hstatus demo_status ''cs'' (finished_node n) = (Inr (final_status n), finished_node n)"
proof -
  have "snd (transactionInventoryStatus demo_status ''cs'' (committed_node n)) = committed_node n"
    "snd (transactionInventoryStatus demo_status ''cs'' (finished_node n)) = finished_node n"
    by (simp_all add: demo_eval transactionInventoryStatus_def prepared_node_def applied_node_def committed_node_def
        finished_node_def)
  then show "hstatus demo_status ''cs'' (committed_node n) = (Inr (pending_status n), committed_node n)"
    "hstatus demo_status ''cs'' (finished_node n) = (Inr (final_status n), finished_node n)"
    by (simp_all add: hstatus_def pending_status_def final_status_def)
qed

text \<open>A recovery leaves a committed transaction alone; the finalization it asks for later drops it.\<close>

lemma recover_answer:
  assumes "fmlookup (ml_fences demo_lease) n = Some (lease_fence_of n)" "n \<noteq> []"
  shows "node_recover (re_recover demo_recovery_env) demo_lease ''rollback'' plain_recovery n (committed_node n) =
    (Inr (pending_status n), committed_node n)"
proof -
  have lab: "ml_lab demo_lease = ''cs''"
    by (simp add: demo_lease_def)
  have fence: "requireMutationFence (disk demo_recover_host 0) ''cs'' (lease_fence_of n) (clk demo_recover_host 0)
      (clk demo_recover_host 1) (committed_node n) = (Inr (), committed_node n)"
    using assms(2) by (simp add: demo_eval demo_node_def fresh_server_def prepared_node_def applied_node_def committed_node_def)
  have tx: "fmlookup (transactions (committed_node n)) ''cs'' =
      Some (demo_tx\<lparr>tx_touched_known := True, tx_phase := Committed, tx_applied := True, tx_committed := True\<rparr>)"
    by (simp add: committed_node_def)
  have status: "rh_status demo_recover_host = demo_status"
    by (simp add: demo_recover_host_def host.defs recover_host.defs)
  have "recoverTransactionStrategyOptions demo_recover_host demo_forward_host ''cs'' (lease_fence_of n) ''rollback''
      plain_recovery (committed_node n) = (Inr (pending_status n), committed_node n)"
    using fence tx
    by (simp add: recoverTransactionStrategyOptions_def handler_steps legacy_prestate_def needs_legacy_prestate_def
        settle_committed_def status status_answers pending_status_fields plain_recovery_def demo_tx_def new_transaction_def
        raw_empty_def)
  then show ?thesis
    using assms(1) lab by (simp add: node_recover_def demo_recovery_env_def deliver_def map_error_def)
qed

lemma recovery_finalize_answer:
  assumes "fmlookup (ml_fences demo_lease) n = Some (lease_fence_of n)" "n \<noteq> []"
  shows "node_finalize (re_finalize demo_recovery_env) demo_lease ''g2'' n (committed_node n) =
    (Inr (no_response\<lparr>ap_node := n, ap_generation := ''g2'', ap_phase := ''finalize''\<rparr>), finished_node n)"
proof -
  have lab: "ml_lab demo_lease = ''cs''"
    by (simp add: demo_lease_def)
  then show ?thesis
    using assms
    by (simp add: demo_eval request_steps node_finalize_def handleApplyFinalize_def finalizeCommittedGeneration_def
        lab_of_def prepared_node_def applied_node_def committed_node_def finished_node_def)
qed

section \<open>Whole deployments\<close>

lemma one_by_one_all:
  "distinct ns \<Longrightarrow> one_by_one f ns cl =
    (map (\<lambda>n. (n, fst (f n (cl n)))) ns, \<lambda>n. if n \<in> set ns then snd (f n (cl n)) else cl n)"
proof (induction ns arbitrary: cl)
  case (Cons n ns)
  then have "map (\<lambda>m. (m, fst (f m ((cl(n := s)) m)))) ns = map (\<lambda>m. (m, fst (f m (cl m)))) ns" for s
    by (auto intro!: map_cong)
  then show ?case
    using Cons by (auto simp: case_prod_unfold Let_def fun_eq_iff)
qed simp

lemma fanOut_in_order: "distinct nodes \<Longrightarrow> fanOut nodes f cl = one_by_one f (sort nodes) cl"
  by (simp add: fanOut_def one_by_one_all)

lemma demo_fences: "fmlookup (ml_fences demo_lease) ''n1'' = Some (lease_fence_of ''n1'')"
  "fmlookup (ml_fences demo_lease) ''n2'' = Some (lease_fence_of ''n2'')"
  by (simp_all add: demo_lease_def)

lemmas demo_answers = demo_fences prepare_answer apply_answer commit_answer finish_answer recover_answer
  recovery_finalize_answer

definition with_nodes :: "(string \<Rightarrow> Server) \<Rightarrow> cluster" where
  "with_nodes f = demo_node(''n1'' := f ''n1'', ''n2'' := f ''n2'')"

lemma demo_mutation_parts:
  "mu_nodes demo_mutation = [''n1'', ''n2'']" "mu_lease demo_mutation = demo_lease" "mu_topology demo_mutation = lab_topology"
  "mu_proofs demo_mutation = None" "mu_generation demo_mutation = ''g2''"
  by (simp_all add: demo_mutation_def plan_mutation_def Let_def generatedGeneration_def demo_request_def finalize_request_def)

lemma demo_quiet: "renewing (demo_env lost lost') k d hc = hc" "ae_generation (demo_env lost lost') = (\<lambda>_. (Delivered, demo_status))"
  "ae_check (demo_env lost lost') = (\<lambda>_. (Delivered, demo_status))" "ae_images (demo_env lost lost') n resp"
  by (cases hc, simp_all add: renewing_def demo_env_def)

lemma in_order:
  "fanOut [''n1'', ''n2''] f cl = one_by_one f [''n1'', ''n2''] cl"
  by (simp add: fanOut_in_order demo_sorted)

lemma demo_start: "demo_deploy lost lost' = deploy (demo_env lost lost') demo_mutation (True, demo_node)"
proof -
  have "clusterGeneration (\<lambda>_. (Delivered, demo_status)) [''n1'', ''n2''] ''cs'' demo_node = (Some ''g1'', demo_node)"
    by (simp add: clusterGeneration_def in_order generation_answer single_value_def)
  moreover have "plan_mutation (demo_env lost lost') nodes l tp req proofs mode e = plan_mutation (demo_env [] []) nodes l tp req proofs mode e"
    for nodes l tp req proofs mode e
    by (simp add: plan_mutation_def demo_env_def)
  moreover have "ae_renew (demo_env lost lost') 0 = []" "ar_mode demo_request = ''platform''" "top_name lab_topology = ''cs''"
    by (simp_all add: demo_env_def demo_request_def lab_topology_def)
  ultimately show ?thesis
    using demo_mutation_parts(5)
    by (simp add: demo_deploy_def coordinatedApplyWithLease_def demo_modes demo_quiet demo_mutation_def)
qed

lemma demo_reserve: "reserve_stage (demo_env lost lost') demo_mutation (True, cl) = (None, True, cl)"
  by (simp add: reserve_stage_def demo_quiet demo_mutation_parts demo_sorted node_reserve_def overlayReservations_def
      lab_topology_def)

lemma demo_prepare_stage:
  "prepare_stage (demo_env lost lost') demo_mutation (True, demo_node) = (None, True, with_nodes prepared_node)"
  by (simp add: prepare_stage_def demo_quiet demo_mutation_parts in_order demo_answers first_failure_def with_nodes_def)

lemma demo_apply_stage:
  "apply_stage (demo_env lost lost') demo_mutation (True, with_nodes prepared_node) =
    (([(''n1'', no_response\<lparr>ap_node := ''n1'', ap_steps := 1\<rparr>), (''n2'', no_response\<lparr>ap_node := ''n2'', ap_steps := 1\<rparr>)], None),
     True, with_nodes applied_node)"
  by (simp add: apply_stage_def demo_quiet demo_mutation_parts in_order demo_answers first_failure_def with_nodes_def
      responseFailure_def no_response_def answers_of_def)

lemma demo_checks:
  "images_stage (demo_env lost lost') demo_mutation vs = None"
  "verify_stage (demo_env lost lost') demo_mutation (True, cl) = (None, True, cl)"
  by (simp_all add: images_stage_def verify_stage_def demo_quiet demo_mutation_parts demo_sorted node_verify_def proofs_of_def)

lemma demo_commit_stage:
  "\<exists>vs'. commit_stage (demo_env lost lost') demo_mutation vs (True, with_nodes applied_node) =
    ((vs', map_option CommitFailed (find (\<lambda>n. n \<in> set lost) [''n1'', ''n2''])), True, with_nodes committed_node)"
  by (auto simp: commit_stage_def demo_quiet demo_mutation_parts in_order demo_answers first_failure_def with_nodes_def)

lemma demo_finalize_stage:
  "finalize_stage (demo_env lost lost') demo_mutation (True, with_nodes committed_node) =
    (map_option FinalizeFailed (find (\<lambda>n. n \<in> set lost') [''n1'', ''n2'']), True, with_nodes finished_node)"
  by (auto simp: finalize_stage_def demo_quiet demo_mutation_parts in_order demo_answers first_failure_def with_nodes_def)

lemma demo_verified:
  "verifyCommittedRecovery (demo_env lost lost') demo_mutation (True, with_nodes finished_node) =
    (None, True, with_nodes finished_node)"
  by (simp add: verifyCommittedRecovery_def demo_quiet demo_mutation_parts demo_sorted node_status_def status_answers
      deliver_def map_error_def lab_topology_def verified_as_def final_status_fields with_nodes_def)

lemmas demo_run = demo_start deploy_def after_apply_def after_commit_def demo_reserve demo_prepare_stage demo_apply_stage
  demo_checks demo_mutation_parts

text \<open>A run in which nothing is lost, and one in which the reply to a finalization is.\<close>

lemma demo_after_apply:
  "\<exists>vs. demo_deploy lost lost' = after_apply (demo_env lost lost') demo_mutation vs (True, with_nodes applied_node)"
  by (auto simp: demo_start deploy_def demo_reserve demo_prepare_stage demo_apply_stage)

lemma demo_succeeds: "\<exists>vs. demo_deploy [] [] = (with_error [''n1'', ''n2''] vs None, True, with_nodes finished_node)"
proof -
  obtain vs where start: "demo_deploy [] [] = after_apply (demo_env [] []) demo_mutation vs (True, with_nodes applied_node)"
    using demo_after_apply by blast
  obtain vs' where "commit_stage (demo_env [] []) demo_mutation vs (True, with_nodes applied_node) =
      ((vs', None), True, with_nodes committed_node)"
    using demo_commit_stage [of "[]" "[]" vs] by auto
  then show ?thesis
    by (auto simp: start after_apply_def demo_checks after_commit_def demo_finalize_stage demo_verified demo_mutation_parts)
qed

lemma demo_unfinished:
  "\<exists>vs. demo_deploy [] [''n2''] = (postCommitFailure [''n1'', ''n2''] vs ''finalization'' (FinalizeFailed ''n2''),
     True, with_nodes finished_node)"
proof -
  obtain vs where start: "demo_deploy [] [''n2''] = after_apply (demo_env [] [''n2'']) demo_mutation vs (True, with_nodes applied_node)"
    using demo_after_apply by blast
  obtain vs' where "commit_stage (demo_env [] [''n2'']) demo_mutation vs (True, with_nodes applied_node) =
      ((vs', None), True, with_nodes committed_node)"
    using demo_commit_stage [of "[]" "[''n2'']" vs] by auto
  then show ?thesis
    by (auto simp: start after_apply_def demo_checks after_commit_def demo_finalize_stage demo_mutation_parts)
qed

text \<open>A lost reply to a commit: the recovery finds the generation committed everywhere and finalizes it.\<close>

lemma demo_observed: "observeNodes (\<lambda>_. (Delivered, demo_status)) ''cs'' known [''n1'', ''n2''] (with_nodes committed_node) =
    ([(''n1'', pending_status ''n1''), (''n2'', pending_status ''n2'')], with_nodes committed_node)"
  by (simp add: observeNodes_def demo_sorted node_status_def deliver_def map_error_def status_answers with_nodes_def fun_upd_idem_iff)

lemma demo_recovery:
  "recoverWithLeaseStrategyOptions demo_recovery_env [''n1'', ''n2''] demo_lease ''rollback'' plain_recovery
     (True, with_nodes committed_node) = (([], ''g2''), True, with_nodes finished_node)"
proof -
  have parts: "re_renew demo_recovery_env = []" "ml_lab demo_lease = ''cs''"
    "re_observe demo_recovery_env = (\<lambda>_. (Delivered, demo_status))"
    "re_observe_again demo_recovery_env = (\<lambda>_. (Delivered, demo_status))"
    "re_status demo_recovery_env = (\<lambda>_. (Delivered, demo_status))"
    by (simp_all add: demo_recovery_env_def demo_lease_def)
  have recovered: "fanOut [''n1'', ''n2''] (node_recover (re_recover demo_recovery_env) demo_lease ''rollback'' plain_recovery)
      (with_nodes committed_node) =
      ([(''n1'', Inr (pending_status ''n1'')), (''n2'', Inr (pending_status ''n2''))], with_nodes committed_node)"
    by (simp add: in_order demo_answers with_nodes_def fun_upd_idem_iff)
  have "detectSplitCommit [(''n1'', pending_status ''n1''), (''n2'', pending_status ''n2'')] = None"
    by (simp add: detectSplitCommit_def pending_status_fields Let_def)
  then have split: "resolve_split demo_recovery_env [''n1'', ''n2''] demo_lease ''rollback'' plain_recovery known
      (with_nodes committed_node) = ([], with_nodes committed_node)" for known
    by (simp add: resolve_split_def parts demo_observed)
  have "convergedCommit [''n1'', ''n2''] [(''n1'', pending_status ''n1''), (''n2'', pending_status ''n2'')] =
      Some (''g2'', [''n1'', ''n2''])"
    by (simp add: convergedCommit_def demo_sorted committed_as_def pending_status_fields)
  moreover have "one_by_one (node_finalize (re_finalize demo_recovery_env) demo_lease ''g2'') [''n1'', ''n2''] (with_nodes committed_node) =
      ([(''n1'', Inr (no_response\<lparr>ap_node := ''n1'', ap_generation := ''g2'', ap_phase := ''finalize''\<rparr>)),
        (''n2'', Inr (no_response\<lparr>ap_node := ''n2'', ap_generation := ''g2'', ap_phase := ''finalize''\<rparr>))], with_nodes finished_node)"
    by (simp add: demo_answers with_nodes_def)
  ultimately have finish: "finish_converged demo_recovery_env [''n1'', ''n2''] demo_lease known [] (with_nodes committed_node) =
      ([], with_nodes finished_node)" for known
    by (simp add: finish_converged_def parts demo_observed finalizeConvergedCommit_def problems_of_def)
  have "one_by_one (node_status (\<lambda>_. (Delivered, demo_status)) ''cs'') [''n1'', ''n2''] (with_nodes finished_node) =
      ([(''n1'', Inr (final_status ''n1'')), (''n2'', Inr (final_status ''n2''))], with_nodes finished_node)"
    by (simp add: node_status_def deliver_def map_error_def status_answers with_nodes_def fun_upd_idem_iff)
  then show ?thesis
    by (simp add: recoverWithLeaseStrategyOptions_def parts recovered split finish problems_of_def demo_sorted
        final_status_fields)
qed

lemma demo_commit_reply_lost:
  "\<exists>vs. demo_deploy [''n1''] [] = (transactionFailure [''n1'', ''n2''] vs (Recovered (CommitFailed ''n1'')),
     True, with_nodes finished_node)"
proof -
  obtain vs where start: "demo_deploy [''n1''] [] = after_apply (demo_env [''n1''] []) demo_mutation vs (True, with_nodes applied_node)"
    using demo_after_apply by blast
  obtain vs' where "commit_stage (demo_env [''n1''] []) demo_mutation vs (True, with_nodes applied_node) =
      ((vs', Some (CommitFailed ''n1'')), True, with_nodes committed_node)"
    using demo_commit_stage [of "[''n1'']" "[]" vs] by auto
  moreover have "ae_recovery (demo_env [''n1''] []) = demo_recovery_env"
    by (simp add: demo_env_def)
  ultimately show ?thesis
    by (auto simp: start after_apply_def demo_checks failed_def recoverFailedApply_def demo_recovery demo_mutation_parts)
qed

text \<open>A partition: after the preparation the second node is out of reach, and then both are.\<close>

definition partition_env :: apply_env where
  "partition_env = (demo_env [] [])
     \<lparr>ae_apply := (\<lambda>n. (if n = ''n2'' then RequestLost else Delivered, demo_apply_host)),
      ae_recovery := \<lparr>re_renew = [], re_recover = (\<lambda>_. (RequestLost, demo_recover_host, demo_forward_host)),
        re_observe = (\<lambda>_. (RequestLost, demo_status)),
        re_abandon = (\<lambda>_. (RequestLost, demo_recover_host, demo_forward_host)),
        re_observe_again = (\<lambda>_. (RequestLost, demo_status)), re_finalize = (\<lambda>_. (RequestLost, demo_host)),
        re_status = (\<lambda>_. (RequestLost, demo_status))\<rparr>\<rparr>"

definition partition_deploy :: outcome where
  "partition_deploy =
     coordinatedApplyWithLease partition_env [''n1'', ''n2''] (Some demo_lease) lab_topology demo_request None (True, demo_node)"

lemma partition_start: "partition_deploy = deploy partition_env demo_mutation (True, demo_node)"
proof -
  have "ae_renew partition_env = ae_renew (demo_env [] [])" "ae_generation partition_env = ae_generation (demo_env [] [])"
    "plan_mutation partition_env nodes l tp req proofs mode e = plan_mutation (demo_env [] []) nodes l tp req proofs mode e"
    for nodes l tp req proofs mode e
    by (simp_all add: partition_env_def plan_mutation_def)
  moreover have "clusterGeneration (\<lambda>_. (Delivered, demo_status)) [''n1'', ''n2''] ''cs'' demo_node = (Some ''g1'', demo_node)"
    by (simp add: clusterGeneration_def in_order generation_answer single_value_def)
  moreover have "ae_renew (demo_env [] []) 0 = []" "ar_mode demo_request = ''platform''" "top_name lab_topology = ''cs''"
    by (simp_all add: demo_env_def demo_request_def lab_topology_def)
  ultimately show ?thesis
    using demo_mutation_parts(5)
    by (simp add: partition_deploy_def coordinatedApplyWithLease_def demo_modes demo_quiet demo_mutation_def)
qed

lemma partition_stages:
  "renewing partition_env k d hc = hc"
  "reserve_stage partition_env demo_mutation (True, demo_node) = (None, True, demo_node)"
  "prepare_stage partition_env demo_mutation (True, demo_node) = (None, True, with_nodes prepared_node)"
proof -
  show quiet: "renewing partition_env k d hc = hc" for k d hc
    by (cases hc) (simp add: renewing_def partition_env_def demo_env_def)
  have "node_prepare partition_env d n s = node_prepare (demo_env [] []) d n s" for d n s
    by (simp add: node_prepare_def partition_env_def request_for_def)
  then show "prepare_stage partition_env demo_mutation (True, demo_node) = (None, True, with_nodes prepared_node)"
    by (simp add: prepare_stage_def quiet demo_mutation_parts in_order demo_answers first_failure_def with_nodes_def)
  show "reserve_stage partition_env demo_mutation (True, demo_node) = (None, True, demo_node)"
    by (simp add: reserve_stage_def quiet demo_mutation_parts demo_sorted node_reserve_def overlayReservations_def
        lab_topology_def)
qed

lemma partition_applies:
  "\<exists>vs. apply_stage partition_env demo_mutation (True, with_nodes prepared_node) =
    ((vs, Some (ApplyFailed ''n2'')), True, (with_nodes prepared_node)(''n1'' := applied_node ''n1''))"
proof -
  have "node_apply partition_env d ''n1'' s = node_apply (demo_env [] []) d ''n1'' s"
    "node_apply partition_env d ''n2'' s = (Inl NoAnswer, s)" for d s
    by (simp_all add: node_apply_def partition_env_def request_for_def demo_env_def deliver_def)
  then show ?thesis
    by (simp add: apply_stage_def partition_stages demo_mutation_parts in_order demo_answers first_failure_def with_nodes_def
        responseFailure_def no_response_def fun_upd_twist)
qed

lemma partition_unrecovered:
  "\<exists>ps hc'. recoverFailedApply partition_env demo_mutation why (True, cl) = (Unrecovered why ps, hc') \<and> snd hc' = cl"
  by (simp add: recoverFailedApply_def recoverWithLeaseStrategyOptions_def partition_env_def demo_mutation_parts in_order
      demo_sorted node_recover_def demo_fences deliver_def map_error_def problems_of_def answers_of_def resolve_split_def
      observeNodes_def node_status_def detectSplitCommit_def finish_converged_def demo_lease_def)

lemma demo_partition:
  "\<exists>vs ps. fst partition_deploy = transactionFailure [''n1'', ''n2''] vs (Unrecovered (ApplyFailed ''n2'') ps) \<and>
     snd (snd partition_deploy) = (with_nodes prepared_node)(''n1'' := applied_node ''n1'')"
proof -
  obtain vs where a: "apply_stage partition_env demo_mutation (True, with_nodes prepared_node) =
      ((vs, Some (ApplyFailed ''n2'')), True, (with_nodes prepared_node)(''n1'' := applied_node ''n1''))"
    using partition_applies by blast
  obtain ps hc' where r: "recoverFailedApply partition_env demo_mutation (ApplyFailed ''n2'')
      (True, (with_nodes prepared_node)(''n1'' := applied_node ''n1'')) = (Unrecovered (ApplyFailed ''n2'') ps, hc')"
      "snd hc' = (with_nodes prepared_node)(''n1'' := applied_node ''n1'')"
    using partition_unrecovered by blast
  show ?thesis
    by (auto simp: partition_start deploy_def partition_stages a failed_def r demo_mutation_parts)
qed

end
