(* ===== verification/Cluster_Atomic.thy ===== *)
theory Cluster_Atomic
  imports Cluster_Effects Cluster_Demo
begin

text \<open>
  The two-phase commit of a deployment over a cluster: what the controller reports about its nodes
  and what holds on them, whatever is lost between them and whatever fails on a node.
\<close>

section \<open>Before the commit\<close>

text \<open>A property that every handler before the commit keeps.\<close>

locale deploy_invariant = recovery_invariant +
  assumes prepare: "hinv P (handleApplyPrepare ph req)"
    and apply_phase: "hinv P (applyPhase ah req)"
    and verify: "hinv P (handleStateVerify vh lab' f' g')"
begin

lemma node_generation_keeps: "P s \<Longrightarrow> P (snd (node_generation env lab n s))"
  unfolding node_generation_def by (rule deliver_hinv [of P]) (intro hinv_intros status)

lemma clusterGeneration_keeps:
  "everywhere nodes P cl \<Longrightarrow> everywhere nodes P (snd (clusterGeneration env nodes lab cl))"
  unfolding clusterGeneration_def case_prod_unfold snd_conv
  by (erule fanOut_moves [rotated]) (rule node_generation_keeps)

lemma renewing_keeps: "everywhere nodes P (snd hc) \<Longrightarrow> everywhere nodes P (snd (renewing env k d hc))"
  unfolding renewing_def by (rule renew_rounds_keeps [OF unmoved])

lemma node_reserve_keeps:
  assumes "P s"
  shows "P (snd (node_reserve env l tp token n s))"
proof -
  have held: "hinv P (hheld (top_name tp) token t)" for t
    using steadyD [OF unmoved kept_held stock_held] by (simp add: hinv_def)
  have "hinv P (hbind (hheld (top_name tp) token t) (\<lambda>_. hbind (hagent (reserveOverlays oe rq t')) (\<lambda>_. hret ())))" for t oe rq t'
    by (intro hinv_intros held steadyD [OF unmoved kept_others(4) stock_others(4)])
  from deliver_hinv [OF this assms] show ?thesis
    using assms by (auto simp: node_reserve_def case_prod_unfold split: option.split)
qed

lemma stages_keep:
  assumes "everywhere (mu_nodes d) P (snd hc)"
  shows "everywhere (mu_nodes d) P (snd (snd (reserve_stage env d hc)))"
    and "everywhere (mu_nodes d) P (snd (snd (prepare_stage env d hc)))"
    and "everywhere (mu_nodes d) P (snd (snd (apply_stage env d hc)))"
    and "everywhere (mu_nodes d) P (snd (snd (verify_stage env d hc)))"
proof -
  note start = renewing_keeps [OF assms]
  show "everywhere (mu_nodes d) P (snd (snd (reserve_stage env d hc)))"
    unfolding reserve_stage_def Let_def case_prod_unfold snd_conv
    by (intro until_failure_keeps node_reserve_keeps start)
  have calls: "P (snd (node_prepare env d n s))" "P (snd (node_apply env d n s))" if "P s" for n s
    unfolding node_prepare_def node_apply_def Let_def
    by (rule deliver_hinv [OF prepare that], rule deliver_hinv [OF apply_phase that])
  show "everywhere (mu_nodes d) P (snd (snd (prepare_stage env d hc)))"
    "everywhere (mu_nodes d) P (snd (snd (apply_stage env d hc)))"
    unfolding prepare_stage_def apply_stage_def Let_def case_prod_unfold snd_conv
    by (rule fanOut_moves [OF _ start], erule calls)+
  have "P (snd (node_verify env d n s))" if "P s" for n s
    using deliver_hinv [OF verify that] that by (auto simp: node_verify_def split: option.split)
  then show "everywhere (mu_nodes d) P (snd (snd (verify_stage env d hc)))"
    unfolding verify_stage_def Let_def case_prod_unfold snd_conv
    by (rule until_failure_keeps [OF _ start])
qed

end

interpretation deploy_based: deploy_invariant lab "based lab c" for lab c
  by unfold_locales (rule handleApplyPrepare_based applyPhase_based handleStateVerify_based)+

interpretation deploy_stock: deploy_invariant lab "stocked lab" for lab
  by unfold_locales (rule deploy_handlers_stocked)+

section \<open>From the commit on\<close>

definition coherent :: "mutation \<Rightarrow> string \<Rightarrow> bool" where
  "coherent d lab \<longleftrightarrow> lab \<noteq> [] \<and> ml_lab (mu_lease d) = lab \<and> top_name (mu_topology d) = lab \<and> wire_lab (mu_wire d) = lab"

lemma request_lab:
  assumes "coherent d lab"
  shows "lab_of ((request_for env d phase n)\<lparr>ar_topology := None\<rparr>) = lab"
    and "ar_generation ((request_for env d phase n)\<lparr>ar_topology := None\<rparr>) = mu_generation d"
  using assms by (simp_all add: lab_of_def request_for_def applyRequestForNode_def coherent_def)

lemma renewing_steady: "steady lab P \<Longrightarrow> everywhere nodes P (snd hc) \<Longrightarrow> everywhere nodes P (snd (renewing env k d hc))"
  unfolding renewing_def by (rule renew_rounds_keeps)

lemma responseFailure_Inr: "responseFailure r = Inr resp \<longleftrightarrow> r = Inr resp \<and> ap_failures resp = []"
  by (auto simp: responseFailure_def split: sum.splits)

lemma node_commit_moves:
  assumes "coherent d lab"
  shows "based lab c s \<Longrightarrow> within lab c (mu_generation d) (snd (node_commit env d n s))"
    and "within lab c (mu_generation d) s \<Longrightarrow> within lab c (mu_generation d) (snd (node_commit env d n s))"
    and "based lab c s \<Longrightarrow> node_commit env d n s = (Inr resp, s') \<Longrightarrow> landed lab c (mu_generation d) s'"
    and "stocked lab s \<Longrightarrow> stocked lab (snd (node_commit env d n s))"
proof -
  let ?req = "(request_for env d ''commit'' n)\<lparr>ar_topology := None\<rparr>"
  note req = request_lab [OF assms, of env "''commit''" n]
  show "within lab c (mu_generation d) (snd (node_commit env d n s))" if "within lab c (mu_generation d) s"
    using deliver_hinv [OF handleApplyCommit_within [OF req(1) req(2) [symmetric]] that]
    by (simp add: node_commit_def case_prod_unfold)
  then show "within lab c (mu_generation d) (snd (node_commit env d n s))" if "based lab c s"
    using that by (simp add: based_within)
  show "stocked lab (snd (node_commit env d n s))" if "stocked lab s"
    using deliver_hinv [OF handleApplyCommit_stocked that] by (simp add: node_commit_def case_prod_unfold)
  show "landed lab c (mu_generation d) s'" if "based lab c s" "node_commit env d n s = (Inr resp, s')"
  proof -
    have "handleApplyCommit (snd (ae_commit env n)) ?req s = (Inr resp, s')" "ap_failures resp = []"
      using that(2) by (auto simp: node_commit_def responseFailure_Inr split: prod.splits dest: deliver_Inr)
    then show ?thesis
      using hendsD [OF handleApplyCommit_lands [OF req(1)] _ that(1)] req(2) by metis
  qed
qed

lemma commit_stage_moves:
  assumes "coherent d lab" "everywhere (mu_nodes d) (based lab c) (snd hc)"
  shows "everywhere (mu_nodes d) (within lab c (mu_generation d)) (snd (snd (commit_stage env d values hc)))"
    and "snd (fst (commit_stage env d values hc)) = None \<Longrightarrow>
      everywhere (mu_nodes d) (landed lab c (mu_generation d)) (snd (snd (commit_stage env d values hc)))"
proof -
  have start: "everywhere (mu_nodes d) (based lab c) (snd (renewing env 5 d hc))"
    by (rule renewing_steady [OF steady_instances(1) assms(2)])
  show "everywhere (mu_nodes d) (within lab c (mu_generation d)) (snd (snd (commit_stage env d values hc)))"
    unfolding commit_stage_def Let_def case_prod_unfold snd_conv
    by (rule fanOut_moves [OF _ start], erule node_commit_moves(1) [OF assms(1)])
  show "everywhere (mu_nodes d) (landed lab c (mu_generation d)) (snd (snd (commit_stage env d values hc)))"
    if "snd (fst (commit_stage env d values hc)) = None"
    using that unfolding commit_stage_def Let_def case_prod_unfold snd_conv fst_conv
    by (intro fanOut_ends [OF node_commit_moves(3) [OF assms(1)] start]) (simp_all add: first_failure_None)
qed

lemma commit_stage_stocked:
  assumes "coherent d lab" "everywhere (mu_nodes d) (stocked lab) (snd hc)"
  shows "everywhere (mu_nodes d) (stocked lab) (snd (snd (commit_stage env d values hc)))"
  unfolding commit_stage_def Let_def case_prod_unfold snd_conv
  by (rule fanOut_moves [OF _ renewing_steady [OF steady_instances(6) assms(2)]], erule node_commit_moves(4) [OF assms(1)])

lemma finalize_stage_moves:
  assumes "coherent d lab" "everywhere (mu_nodes d) (landed lab c g) (snd hc)"
  shows "everywhere (mu_nodes d) (\<lambda>s. landed lab c g s \<or> idle lab g s) (snd (snd (finalize_stage env d hc)))"
    and "fst (finalize_stage env d hc) = None \<Longrightarrow> everywhere (mu_nodes d) (idle lab g) (snd (snd (finalize_stage env d hc)))"
proof -
  have start: "everywhere (mu_nodes d) (landed lab c g) (snd (renewing env 6 d hc))"
    by (rule renewing_steady [OF steady_instances(2) assms(2)])
  have moves: "landed lab c g (snd (node_finish env d n s)) \<or> idle lab g (snd (node_finish env d n s))"
    if "landed lab c g s" for n s
  proof -
    have "hmoves (landed lab c g) (\<lambda>s. landed lab c g s \<or> idle lab g s)
        (handleApplyFinalize (snd (ae_finalize env n)) ((request_for env d ''finalize'' n)\<lparr>ar_topology := None\<rparr>))"
      using finalize_landed by (auto simp: handleApplyFinalize_def request_lab [OF assms(1)] hmoves_def hbind_def
          hguard_def hret_def hfail_def hagent_def hread_def map_error_def split: sum.split)
    from deliver_moves [OF this that] show ?thesis
      by (simp add: node_finish_def)
  qed
  have ends: "idle lab g s'" if "landed lab c g s" "node_finish env d n s = (Inr resp, s')" for n s resp s'
    using hendsD [OF handleApplyFinalize_ends [OF request_lab(1) [OF assms(1)]] _ that(1)] that(2) deliver_Inr
    unfolding node_finish_def by metis
  show "everywhere (mu_nodes d) (\<lambda>s. landed lab c g s \<or> idle lab g s) (snd (snd (finalize_stage env d hc)))"
    unfolding finalize_stage_def Let_def case_prod_unfold snd_conv
    by (rule fanOut_moves [OF _ start], erule moves)
  show "everywhere (mu_nodes d) (idle lab g) (snd (snd (finalize_stage env d hc)))"
    if "fst (finalize_stage env d hc) = None"
    using that unfolding finalize_stage_def Let_def case_prod_unfold snd_conv fst_conv
    by (intro fanOut_ends [OF ends start]) (simp_all add: first_failure_None)
qed

lemma check_keeps:
  assumes "coherent d lab" "everywhere (mu_nodes d) (idle lab g) (snd hc)"
  shows "everywhere (mu_nodes d) (idle lab g) (snd (snd (verifyCommittedRecovery env d hc)))"
proof -
  have lab: "top_name (mu_topology d) = lab"
    using assms(1) by (simp add: coherent_def)
  show ?thesis
    unfolding verifyCommittedRecovery_def Let_def case_prod_unfold snd_conv lab
    by (rule one_by_one_keeps [OF _ renewing_steady [OF steady_instances(3) assms(2)]], erule on_idle.node_status_keeps)
qed

section \<open>Outcomes\<close>

lemma recoverFailedApply_keeps:
  assumes "coherent d lab"
  shows "everywhere (mu_nodes d) (based lab c) (snd hc) \<Longrightarrow>
      everywhere (mu_nodes d) (based lab c) (snd (snd (recoverFailedApply env d why hc)))"
    and "everywhere (mu_nodes d) (idle lab c) (snd hc) \<Longrightarrow>
      everywhere (mu_nodes d) (idle lab c) (snd (snd (recoverFailedApply env d why hc)))"
    and "everywhere (mu_nodes d) (within lab c g) (snd hc) \<Longrightarrow>
      everywhere (mu_nodes d) (within lab c g) (snd (snd (recoverFailedApply env d why hc)))"
  using assms unfolding recoverFailedApply_def case_prod_unfold snd_conv coherent_def
  by (simp_all add: on_based.recovery_keeps on_idle.recovery_keeps on_within.recovery_keeps)

lemma recoverFailedApply_uniform:
  assumes "coherent d lab" "everywhere (mu_nodes d) (within lab c g) (snd hc)"
    and "everywhere (mu_nodes d) (stocked lab) (snd hc)" "c \<noteq> []" "g \<noteq> []"
    and "recoverFailedApply env d why hc = (Recovered why, hc')"
  shows "everywhere (mu_nodes d) (idle lab c) (snd hc') \<or> everywhere (mu_nodes d) (idle lab g) (snd hc')"
proof -
  obtain g1 held cl where run: "recoverWithLeaseStrategyOptions (ae_recovery env) (mu_nodes d) (mu_lease d)
      ''rollback'' plain_recovery hc = (([], g1), held, cl)" "hc' = (held, cl)"
    using assms(6) by (cases hc') (auto simp: recoverFailedApply_def split: prod.splits if_splits)
  have "ml_lab (mu_lease d) = lab"
    using assms(1) by (simp add: coherent_def)
  from recovery_uniform [OF this assms(2-5) run(1)] show ?thesis
    using run(2) by (auto simp: everywhere_def)
qed

lemma after_commit_outcomes:
  assumes d: "coherent d lab" and landed: "everywhere (mu_nodes d) (landed lab c g) (snd hc)"
    and run: "after_commit env d values hc = (rs, hc')" and r: "(n, resp, oe) \<in> set rs"
  shows "(oe = None \<and> everywhere (mu_nodes d) (idle lab g) (snd hc')) \<or>
    ((\<exists>stage why. oe = Some (ErrCommitted stage why)) \<and> everywhere (mu_nodes d) (\<lambda>s. landed lab c g s \<or> idle lab g s) (snd hc'))"
proof -
  note final = finalize_stage_moves [OF d landed, of env]
  obtain fo hc1 where f: "finalize_stage env d hc = (fo, hc1)"
    by (cases "finalize_stage env d hc")
  show ?thesis
  proof (cases fo)
    case (Some why)
    then show ?thesis
      using final(1) f run r by (auto simp: after_commit_def postCommitFailure_def with_error_def)
  next
    case None
    then have "everywhere (mu_nodes d) (idle lab g) (snd hc1)"
      using final(2) f by simp
    note ch = check_keeps [OF d this, of env]
    obtain oc hc2 where c: "verifyCommittedRecovery env d hc1 = (oc, hc2)"
      by (cases "verifyCommittedRecovery env d hc1")
    have idle: "everywhere (mu_nodes d) (idle lab g) (snd hc2)"
      using ch c by simp
    note rec = recoverFailedApply_keeps(2) [OF d idle, of env LostLease]
    show ?thesis
      using None f c idle rec run r
      by (auto simp: after_commit_def postCommitFailure_def with_error_def intro: everywhere_mono
          split: option.splits if_splits prod.splits)
  qed
qed

text \<open>Whether a failure came up before any node was asked to commit, and whether the recovery after it
  reported no problem.\<close>

fun before_commit :: "cause \<Rightarrow> bool" where
  "before_commit (CommitFailed _) = False"
| "before_commit (Recovered c) = before_commit c"
| "before_commit (Unrecovered c _) = before_commit c"
| "before_commit _ = True"

definition is_recovered :: "cause \<Rightarrow> bool" where
  "is_recovered c = (case c of Recovered _ \<Rightarrow> True | _ \<Rightarrow> False)"

text \<open>What a report about one node promises of all of them; \<open>sure\<close> tells that a recovered report says
  that the cluster is at one generation.\<close>

definition promised :: "bool \<Rightarrow> string \<Rightarrow> string \<Rightarrow> string \<Rightarrow> string list \<Rightarrow> apply_error option \<Rightarrow> cluster \<Rightarrow> bool" where
  "promised sure lab c g nodes oe cl =
     (case oe of
        None \<Rightarrow> everywhere nodes (idle lab g) cl
      | Some (ErrCommitted _ _) \<Rightarrow> everywhere nodes (\<lambda>s. landed lab c g s \<or> idle lab g s) cl
      | Some (DidNotCommit why) \<Rightarrow>
          everywhere nodes (within lab c g) cl
          \<and> (before_commit why \<longrightarrow> everywhere nodes (based lab c) cl)
          \<and> (sure \<and> is_recovered why \<longrightarrow> everywhere nodes (idle lab c) cl \<or> everywhere nodes (idle lab g) cl))"

lemma failed_promised:
  assumes names: "coherent d lab" and deployed: "sure \<longrightarrow> c \<noteq> [] \<and> mu_generation d \<noteq> []"
    and asm: "everywhere (mu_nodes d) (within lab c (mu_generation d)) (snd hc)" "sure \<longrightarrow> everywhere (mu_nodes d) (stocked lab) (snd hc)"
      "before_commit why \<Longrightarrow> everywhere (mu_nodes d) (based lab c) (snd hc)" "\<not> is_recovered why"
      "failed env d values why hc = (rs, hc')" "(n, resp, oe) \<in> set rs"
  shows "promised sure lab c (mu_generation d) (mu_nodes d) oe (snd hc')"
proof -
  obtain why' where rec: "recoverFailedApply env d why hc = (why', hc')" and oe: "oe = Some (DidNotCommit why')"
    using asm(5,6) by (auto simp: failed_def transactionFailure_def with_error_def split: prod.splits)
  then have why': "why' = Recovered why \<or> (\<exists>ps. why' = Unrecovered why ps)"
    by (auto simp: recoverFailedApply_def split: prod.splits if_splits)
  have "everywhere (mu_nodes d) (within lab c (mu_generation d)) (snd hc')"
    using recoverFailedApply_keeps(3) [OF names asm(1), of env why] rec by simp
  moreover have "everywhere (mu_nodes d) (based lab c) (snd hc')" if "before_commit why"
    using recoverFailedApply_keeps(1) [OF names asm(3) [OF that], of env why] rec by simp
  moreover have "everywhere (mu_nodes d) (idle lab c) (snd hc') \<or> everywhere (mu_nodes d) (idle lab (mu_generation d)) (snd hc')"
    if "why' = Recovered why" sure
    using recoverFailedApply_uniform [OF names asm(1)] asm(2) deployed rec that by simp
  ultimately show ?thesis
    using why' oe by (auto simp: promised_def is_recovered_def)
qed

lemma failed_before:
  assumes names: "coherent d lab" and deployed: "sure \<longrightarrow> c \<noteq> [] \<and> mu_generation d \<noteq> []"
    and asm: "everywhere (mu_nodes d) (based lab c) (snd hc)" "sure \<longrightarrow> everywhere (mu_nodes d) (stocked lab) (snd hc)"
      "failed env d values why hc = (rs, hc')" "(n, resp, oe) \<in> set rs" "\<not> is_recovered why"
  shows "promised sure lab c (mu_generation d) (mu_nodes d) oe (snd hc')"
  using failed_promised [OF names deployed everywhere_mono [OF asm(1) based_within] asm(2) asm(1) asm(5,3,4)] .

lemma after_apply_promised:
  assumes names: "coherent d lab" and deployed: "sure \<longrightarrow> c \<noteq> [] \<and> mu_generation d \<noteq> []"
    and based: "everywhere (mu_nodes d) (based lab c) (snd hc)" and stock: "sure \<longrightarrow> everywhere (mu_nodes d) (stocked lab) (snd hc)"
    and run: "after_apply env d values hc = (rs, hc')" and r: "(n, resp, oe) \<in> set rs"
  shows "promised sure lab c (mu_generation d) (mu_nodes d) oe (snd hc')"
proof (cases "images_stage env d values")
  case (Some why)
  then have "\<not> is_recovered why"
    by (auto simp: images_stage_def is_recovered_def split: list.splits)
  then show ?thesis
    using failed_before [OF names deployed based stock _ r] run Some by (simp add: after_apply_def)
next
  case images: None
  obtain ov hc1 where v: "verify_stage env d hc = (ov, hc1)"
    by (cases "verify_stage env d hc")
  have based1: "everywhere (mu_nodes d) (based lab c) (snd hc1)" "sure \<longrightarrow> everywhere (mu_nodes d) (stocked lab) (snd hc1)"
    using deploy_based.stages_keep(4) [OF based, of env] deploy_stock.stages_keep(4) [of d lab hc env] stock v by simp_all
  show ?thesis
  proof (cases ov)
    case (Some why)
    then have "\<not> is_recovered why"
      using v by (auto simp: verify_stage_def Let_def is_recovered_def split: prod.splits)
    then show ?thesis
      using failed_before [OF names deployed based1 _ r] run images v Some by (simp add: after_apply_def)
  next
    case None
    obtain values' oc hc2 where c: "commit_stage env d values hc1 = ((values', oc), hc2)"
      by (cases "commit_stage env d values hc1") auto
    note commit = commit_stage_moves [OF names based1(1), of env "values"] commit_stage_stocked [OF names, of hc1 env "values"]
    show ?thesis
    proof (cases oc)
      case why: (Some why)
      then have "\<not> is_recovered why" "\<not> before_commit why"
        using c by (auto simp: commit_stage_def Let_def is_recovered_def split: prod.splits)
      moreover have f: "failed env d values' why hc2 = (rs, hc')"
        using run images v None c why by (simp add: after_apply_def)
      ultimately show ?thesis
        using failed_promised [OF names deployed _ _ _ _ f r] commit based1(2) c by simp
    next
      case acked: None
      then have "everywhere (mu_nodes d) (landed lab c (mu_generation d)) (snd hc2)"
        using commit(2) c by simp
      moreover have "after_commit env d values' hc2 = (rs, hc')"
        using run images v None c acked by (simp add: after_apply_def)
      ultimately show ?thesis
        using after_commit_outcomes [OF names _ _ r] by (fastforce simp: promised_def)
    qed
  qed
qed

lemma deploy_promised:
  assumes names: "coherent d lab" and deployed: "sure \<longrightarrow> c \<noteq> [] \<and> mu_generation d \<noteq> []"
    and based: "everywhere (mu_nodes d) (based lab c) (snd hc)" and stock: "sure \<longrightarrow> everywhere (mu_nodes d) (stocked lab) (snd hc)"
    and run: "deploy env d hc = (rs, hc')" and r: "(n, resp, oe) \<in> set rs"
  shows "promised sure lab c (mu_generation d) (mu_nodes d) oe (snd hc')"
proof -
  note keep = deploy_based.stages_keep deploy_stock.stages_keep
  obtain or hc1 op hc2 ov oa hc3 where s: "reserve_stage env d hc = (or, hc1)" "prepare_stage env d hc1 = (op, hc2)"
    "apply_stage env d hc2 = ((ov, oa), hc3)"
    by (metis prod.exhaust)
  have 1: "everywhere (mu_nodes d) (based lab c) (snd hc1)" "sure \<longrightarrow> everywhere (mu_nodes d) (stocked lab) (snd hc1)"
    using keep(1) [OF based, of env] keep(5) [of d lab hc env] stock s(1) by simp_all
  have 2: "everywhere (mu_nodes d) (based lab c) (snd hc2)" "sure \<longrightarrow> everywhere (mu_nodes d) (stocked lab) (snd hc2)"
    using keep(2) [OF 1(1), of env] keep(6) [of d lab hc1 env] 1(2) s(2) by simp_all
  have 3: "everywhere (mu_nodes d) (based lab c) (snd hc3)" "sure \<longrightarrow> everywhere (mu_nodes d) (stocked lab) (snd hc3)"
    using keep(3) [OF 2(1), of env] keep(7) [of d lab hc2 env] 2(2) s(3) by simp_all
  have causes: "or = Some why \<Longrightarrow> \<not> is_recovered why" "op = Some why \<Longrightarrow> \<not> is_recovered why"
    "oa = Some why \<Longrightarrow> \<not> is_recovered why" for why
    using s by (auto simp: reserve_stage_def prepare_stage_def apply_stage_def Let_def is_recovered_def
        split: prod.splits option.splits if_splits)
  show ?thesis
  proof (cases or)
    case (Some why)
    then have "rs = transactionFailure (mu_nodes d) [] why" "hc' = hc1"
      using run s(1) by (simp_all add: deploy_def)
    then show ?thesis
      using r 1(1) causes(1) [OF Some] everywhere_mono [OF 1(1) based_within]
      by (auto simp: transactionFailure_def with_error_def promised_def)
  next
    case ors: None
    show ?thesis
    proof (cases op)
      case (Some why)
      then show ?thesis
        using failed_before [OF names deployed 2 _ r causes(2) [OF Some]] run s ors by (simp add: deploy_def)
    next
      case ops: None
      show ?thesis
        using failed_before [OF names deployed 3 _ r causes(3)] after_apply_promised [OF names deployed 3 _ r] run s ors ops
        by (cases oa) (simp_all add: deploy_def)
    qed
  qed
qed

lemma reads_generation:
  assumes "based lab c s" "node_generation env lab n s = (Inr g, s')"
  shows "g = c"
proof -
  have "get_or [] (committedGenerations s) lab = committed (gen_of s lab)"
    by (auto simp: committedGenerations_def get_or_def gen_of_def no_generation_def fmlookup_fm_keep split: option.split)
  then show ?thesis
    using assms by (auto simp: node_generation_def answered_simps based_def dest!: deliver_Inr)
qed

lemma cluster_generation:
  assumes "everywhere nodes (based lab c) cl" "nodes \<noteq> []" "fst (clusterGeneration env nodes lab cl) = Some e"
  shows "e = c"
proof -
  obtain n ns where n: "sort nodes = n # ns"
    using assms(2) by (cases "sort nodes") (metis set_sort set_empty, blast)
  then have "n \<in> set nodes"
    by (metis list.set_intros(1) set_sort)
  moreover have "fst (node_generation env lab n (cl n)) = Inr e"
    using assms(3) n
    by (auto simp: clusterGeneration_def fanOut_def single_value_def case_prod_unfold split: if_splits sum.splits)
  ultimately show ?thesis
    using reads_generation assms(1) unfolding everywhere_def by (metis prod.collapse)
qed

lemma plan_coherent:
  "ml_lab l = top_name tp \<Longrightarrow> top_name tp \<noteq> [] \<Longrightarrow> coherent (plan_mutation env nodes l tp req proofs mode e) (top_name tp)"
  by (simp add: coherent_def plan_mutation_def wire_lab_def deployment_wire_def serialise_def Let_def)

lemma plan_generation:
  "mu_generation (plan_mutation env nodes l tp req proofs mode e) = generatedGeneration (ae_digest env) tp req e"
  "mu_nodes (plan_mutation env nodes l tp req proofs mode e) = nodes"
  by (simp_all add: plan_mutation_def generatedGeneration_def Let_def)

lemma coordinated_promised:
  assumes lab: "ml_lab l = top_name tp" "top_name tp \<noteq> []" and nodes: "nodes \<noteq> []"
    and based: "everywhere nodes (based (top_name tp) c) (snd hc)"
    and sure: "sure \<longrightarrow> c \<noteq> [] \<and> everywhere nodes (stocked (top_name tp)) (snd hc)"
    and run: "coordinatedApplyWithLease env nodes (Some l) tp req proofs hc = (rs, hc')" and r: "(n, resp, oe) \<in> set rs"
  shows "promised sure (top_name tp) c (generatedGeneration (ae_digest env) tp req c) nodes oe (snd hc')"
proof (cases "RequireTransactionMode (ar_mode req)")
  case (Inl e)
  then show ?thesis
    using run r based everywhere_mono [OF based based_within]
    by (auto simp: coordinatedApplyWithLease_def transactionFailure_def with_error_def promised_def is_recovered_def)
next
  case (Inr mode)
  define hc1 where "hc1 = renew_rounds (ae_renew env 0) nodes l hc"
  obtain oe' cl2 where g: "clusterGeneration (ae_generation env) nodes (top_name tp) (snd hc1) = (oe', cl2)"
    by (cases "clusterGeneration (ae_generation env) nodes (top_name tp) (snd hc1)")
  have 1: "everywhere nodes (based (top_name tp) c) (snd hc1)" "sure \<longrightarrow> everywhere nodes (stocked (top_name tp)) (snd hc1)"
    unfolding hc1_def using based sure by (auto intro: renew_rounds_keeps steady_instances)
  have 2: "everywhere nodes (based (top_name tp) c) cl2" "sure \<longrightarrow> everywhere nodes (stocked (top_name tp)) cl2"
    using deploy_based.clusterGeneration_keeps [OF 1(1), of "ae_generation env"]
      deploy_stock.clusterGeneration_keeps [of nodes "top_name tp" "snd hc1" "ae_generation env"] 1(2) g by simp_all
  have early: ?thesis if "rs = transactionFailure nodes [] why" "hc' = (fst hc1, cl2)" "\<not> is_recovered why" for why
    using that r 2(1) everywhere_mono [OF 2(1) based_within]
    by (auto simp: transactionFailure_def with_error_def promised_def)
  have unrecovered: "\<not> is_recovered GenerationUnknown" "\<not> is_recovered NoGeneration"
    by (simp_all add: is_recovered_def)
  show ?thesis
  proof (cases oe')
    case None
    then show ?thesis
      using early [OF _ _ unrecovered(1)] run Inr g by (auto simp: coordinatedApplyWithLease_def hc1_def case_prod_unfold)
  next
    case (Some e)
    then have e: "e = c"
      using cluster_generation [OF 1(1) nodes, of "ae_generation env" e] g by simp
    let ?d = "plan_mutation env nodes l tp req proofs mode c"
    show ?thesis
    proof (cases "mu_generation ?d = []")
      case True
      then show ?thesis
        using early [OF _ _ unrecovered(2)] run Inr g Some e
        by (auto simp: coordinatedApplyWithLease_def hc1_def case_prod_unfold)
    next
      case False
      then have "deploy env ?d (fst hc1, cl2) = (rs, hc')"
        using run Inr g Some e by (simp add: coordinatedApplyWithLease_def hc1_def case_prod_unfold)
      from deploy_promised [OF plan_coherent [OF lab] _ _ _ this r, of sure c] show ?thesis
        using False 2 sure by (simp add: plan_generation)
    qed
  qed
qed

text \<open>Every outcome reports on every node.\<close>

lemma with_error_nodes:
  "map fst (with_error nodes vs oe) = sort nodes" "map fst (transactionFailure nodes vs why) = sort nodes"
  "map fst (postCommitFailure nodes vs stage why) = sort nodes"
  by (simp_all add: with_error_def transactionFailure_def postCommitFailure_def comp_def)

lemma failed_nodes: "map fst (fst (failed env d vs why hc)) = sort (mu_nodes d)"
  by (simp add: failed_def case_prod_unfold with_error_nodes)

lemma after_commit_nodes: "map fst (fst (after_commit env d vs hc)) = sort (mu_nodes d)"
  by (auto simp: after_commit_def with_error_nodes split: prod.split option.split)

lemma deploy_nodes: "map fst (fst (deploy env d hc)) = sort (mu_nodes d)"
  by (auto simp: deploy_def after_apply_def with_error_nodes failed_nodes after_commit_nodes split: prod.split option.split)

lemma reports_all:
  "map fst (fst (coordinatedApplyWithLease env nodes (Some l) tp req proofs hc)) = sort nodes"
  by (auto simp: coordinatedApplyWithLease_def with_error_nodes deploy_nodes plan_generation Let_def
      split: sum.split prod.split option.split)

lemma reports_some:
  assumes "coordinatedApplyWithLease env nodes (Some l) tp req proofs hc = (rs, hc')" "nodes \<noteq> []"
  obtains n resp oe where "(n, resp, oe) \<in> set rs"
proof -
  have "map fst rs = sort nodes"
    using reports_all [of env nodes l tp req proofs hc] assms(1) by simp
  then have "rs \<noteq> []"
    using assms(2) by (metis list.map_disc_iff set_empty set_sort)
  then show thesis
    using that by (cases rs) (auto intro: that)
qed

lemma demo_based: "based ''cs'' ''g1'' (demo_node n)" "stocked ''cs'' (demo_node n)"
  by (simp_all add: based_def stocked_def gen_of_def get_or_def demo_node_fields no_generation_def)

lemma demo_names: "ml_lab demo_lease = ''cs''" "top_name lab_topology = ''cs''"
  "generatedGeneration (ae_digest (demo_env lost lost')) lab_topology demo_request ''g1'' = ''g2''"
  by (simp_all add: demo_lease_def lab_topology_def generatedGeneration_def demo_request_def finalize_request_def)

text \<open>C1: When a deployment is reported as successful, every node of the cluster has committed and
  finalized the new generation and holds no transaction; the generation is the one derived from the
  request, the topology and the generation every node had before.\<close>

theorem deployment_succeeds_everywhere:
  assumes "ml_lab l = top_name tp" "top_name tp \<noteq> []" "nodes \<noteq> []"
    and "\<forall>n\<in>set nodes. based (top_name tp) c (cl n)"
    and "coordinatedApplyWithLease env nodes (Some l) tp req proofs (held, cl) = (rs, held', cl')" "succeeded rs"
  shows "\<forall>n\<in>set nodes. idle (top_name tp) (generatedGeneration (ae_digest env) tp req c) (cl' n)"
proof -
  obtain n resp oe where r: "(n, resp, oe) \<in> set rs"
    by (rule reports_some [OF assms(5,3)])
  then have "oe = None"
    using assms(6) by (auto simp: succeeded_def list_all_iff)
  then show ?thesis
    using coordinated_promised [OF assms(1-3) _ _ assms(5) r, of c False] assms(4)
    by (simp add: everywhere_def promised_def)
qed

theorem deployment_succeeds_everywhere_witness:
  "succeeded (fst (demo_deploy [] [])) \<and> idle ''cs'' ''g2'' (snd (snd (demo_deploy [] [])) ''n1'') \<and> idle ''cs'' ''g2'' (snd (snd (demo_deploy [] [])) ''n2'')"
proof -
  obtain vs where run: "demo_deploy [] [] = (with_error [''n1'', ''n2''] vs None, True, with_nodes finished_node)"
    using demo_succeeds by blast
  then have s: "succeeded (fst (demo_deploy [] []))"
    by (auto simp: succeeded_def with_error_def list_all_iff)
  have "\<forall>n\<in>set [''n1'', ''n2'']. idle (top_name lab_topology)
      (generatedGeneration (ae_digest (demo_env [] [])) lab_topology demo_request ''g1'') (with_nodes finished_node n)"
    by (rule deployment_succeeds_everywhere [OF _ _ _ _ run [unfolded demo_deploy_def]])
      (use s run in \<open>simp_all add: demo_names demo_based\<close>)
  then show ?thesis
    using s run by (simp add: demo_names)
qed

text \<open>C3: When the only errors a deployment reports are of the kind that says the mutation is
  committed and durable, the new generation is committed on every node.\<close>

theorem committed_results_are_live:
  assumes "ml_lab l = top_name tp" "top_name tp \<noteq> []" "nodes \<noteq> []"
    and "\<forall>n\<in>set nodes. based (top_name tp) c (cl n)"
    and "coordinatedApplyWithLease env nodes (Some l) tp req proofs (held, cl) = (rs, held', cl')" "CommittedResults rs"
  shows "\<forall>n\<in>set nodes. committed (gen_of (cl' n) (top_name tp)) = generatedGeneration (ae_digest env) tp req c"
proof -
  obtain n resp e where r: "(n, resp, Some e) \<in> set rs"
    using assms(6) by (auto simp: CommittedResults_def list_ex_iff)
  then have "\<exists>stage why. e = ErrCommitted stage why"
    using assms(6) by (cases e) (auto simp: CommittedResults_def list_all_iff)
  then show ?thesis
    using coordinated_promised [OF assms(1-3) _ _ assms(5) r, of c False] assms(4)
    by (auto simp: everywhere_def promised_def landed_def idle_def)
qed

theorem committed_results_are_live_witness:
  "CommittedResults (fst (demo_deploy [] [''n2''])) \<and>
   committed (gen_of (snd (snd (demo_deploy [] [''n2''])) ''n1'') ''cs'') = ''g2'' \<and>
   committed (gen_of (snd (snd (demo_deploy [] [''n2''])) ''n2'') ''cs'') = ''g2''"
proof -
  obtain vs where run: "demo_deploy [] [''n2''] = (postCommitFailure [''n1'', ''n2''] vs ''finalization'' (FinalizeFailed ''n2''),
      True, with_nodes finished_node)"
    using demo_unfinished by blast
  then have s: "CommittedResults (fst (demo_deploy [] [''n2'']))"
    by (auto simp: CommittedResults_def postCommitFailure_def with_error_def list_all_iff list_ex_iff demo_sorted)
  have "\<forall>n\<in>set [''n1'', ''n2'']. committed (gen_of (with_nodes finished_node n) (top_name lab_topology)) =
      generatedGeneration (ae_digest (demo_env [] [''n2''])) lab_topology demo_request ''g1''"
    by (rule committed_results_are_live [OF _ _ _ _ run [unfolded demo_deploy_def]])
      (use s run in \<open>simp_all add: demo_names demo_based\<close>)
  then show ?thesis
    using s run by (simp add: demo_names)
qed

text \<open>C4: No node commits before every node has prepared, applied and verified: when a deployment
  fails for a reason that came up before the commit stage, on no node has the committed generation
  changed, and whatever transaction is left goes back to it.\<close>

theorem no_commit_before_all_applied:
  assumes "ml_lab l = top_name tp" "top_name tp \<noteq> []" "nodes \<noteq> []"
    and "\<forall>n\<in>set nodes. based (top_name tp) c (cl n)"
    and "coordinatedApplyWithLease env nodes (Some l) tp req proofs (held, cl) = (rs, held', cl')"
    and "(n, resp, Some (DidNotCommit why)) \<in> set rs" "before_commit why"
  shows "\<forall>n\<in>set nodes. based (top_name tp) c (cl' n)"
  using coordinated_promised [OF assms(1-3) _ _ assms(5,6), of c False] assms(4,7)
  by (simp add: everywhere_def promised_def)

theorem no_commit_before_all_applied_witness:
  "(\<exists>ps. (''n2'', DidNotCommit (Unrecovered (ApplyFailed ''n2'') ps)) \<in> (\<lambda>(n, r, e). (n, the e)) ` set (fst partition_deploy)) \<and>
   based ''cs'' ''g1'' (snd (snd partition_deploy) ''n1'') \<and> based ''cs'' ''g1'' (snd (snd partition_deploy) ''n2'')"
proof -
  obtain vs ps where run: "fst partition_deploy = transactionFailure [''n1'', ''n2''] vs (Unrecovered (ApplyFailed ''n2'') ps)"
    using demo_partition by blast
  obtain held' cl' where eq: "partition_deploy = (fst partition_deploy, held', cl')"
    by (metis prod.collapse)
  define r where "r = (case map_of vs ''n2'' of None \<Rightarrow> no_response | Some r \<Rightarrow> r)"
  have s: "(''n2'', r, Some (DidNotCommit (Unrecovered (ApplyFailed ''n2'') ps))) \<in> set (fst partition_deploy)"
    unfolding run by (simp add: transactionFailure_def with_error_def demo_sorted r_def)
  have "\<forall>n\<in>set [''n1'', ''n2'']. based (top_name lab_topology) ''g1'' (cl' n)"
    by (rule no_commit_before_all_applied [OF _ _ _ _ eq [unfolded partition_deploy_def] s [unfolded partition_deploy_def]])
      (simp_all add: demo_names demo_based)
  moreover have "snd (snd partition_deploy) = cl'"
    by (subst eq) simp
  ultimately show ?thesis
    using s by (force simp: demo_names)
qed

text \<open>C2: When an upgrade fails and the controller reports that the cluster was recovered, the
  cluster is at one generation, and no node holds a transaction: either the old generation
  everywhere or the new one everywhere, whichever replies were lost on the way.\<close>

theorem recovered_cluster_agrees:
  assumes "ml_lab l = top_name tp" "top_name tp \<noteq> []" "nodes \<noteq> []"
    and "\<forall>n\<in>set nodes. based (top_name tp) c (cl n) \<and> stocked (top_name tp) (cl n)" "c \<noteq> []"
    and "coordinatedApplyWithLease env nodes (Some l) tp req proofs (held, cl) = (rs, held', cl')"
    and "(n, resp, Some (DidNotCommit (Recovered why))) \<in> set rs"
  shows "(\<forall>n\<in>set nodes. idle (top_name tp) c (cl' n)) \<or>
    (\<forall>n\<in>set nodes. idle (top_name tp) (generatedGeneration (ae_digest env) tp req c) (cl' n))"
  using coordinated_promised [OF assms(1-3) _ _ assms(6,7), of c True] assms(4,5)
  by (simp add: everywhere_def promised_def is_recovered_def)

text \<open>The reply of one node to the commit is lost: the report says that the cluster did not commit and
  was recovered, and the new generation is committed and finalized on both nodes.\<close>

theorem recovered_cluster_agrees_witness:
  "(''n1'', DidNotCommit (Recovered (CommitFailed ''n1''))) \<in> (\<lambda>(n, r, e). (n, the e)) ` set (fst (demo_deploy [''n1''] [])) \<and>
   idle ''cs'' ''g2'' (snd (snd (demo_deploy [''n1''] [])) ''n1'') \<and> idle ''cs'' ''g2'' (snd (snd (demo_deploy [''n1''] [])) ''n2'')"
proof -
  obtain vs where run: "demo_deploy [''n1''] [] = (transactionFailure [''n1'', ''n2''] vs (Recovered (CommitFailed ''n1'')),
      True, with_nodes finished_node)"
    using demo_commit_reply_lost by blast
  define r where "r = (case map_of vs ''n1'' of None \<Rightarrow> no_response | Some r \<Rightarrow> r)"
  have s: "(''n1'', r, Some (DidNotCommit (Recovered (CommitFailed ''n1''))))
      \<in> set (transactionFailure [''n1'', ''n2''] vs (Recovered (CommitFailed ''n1'')))"
    by (simp add: transactionFailure_def with_error_def demo_sorted r_def)
  have "(\<forall>n\<in>set [''n1'', ''n2'']. idle (top_name lab_topology) ''g1'' (with_nodes finished_node n)) \<or>
    (\<forall>n\<in>set [''n1'', ''n2'']. idle (top_name lab_topology)
      (generatedGeneration (ae_digest (demo_env [''n1''] [])) lab_topology demo_request ''g1'') (with_nodes finished_node n))"
    by (rule recovered_cluster_agrees [OF _ _ _ _ _ run [unfolded demo_deploy_def] s]) (simp_all add: demo_names demo_based)
  moreover have "\<not> idle ''cs'' ''g1'' (with_nodes finished_node ''n1'')"
    by (simp add: with_nodes_def idle_def gen_of_def get_or_def finished_node_def committed_node_def)
  ultimately show ?thesis
    using s run by (force simp: demo_names)
qed

end
