(* ===== verification/Frames.thy ===== *)
theory Frames
  imports Node_System
begin

text \<open>
  What most requests of a node leave alone: the leases, the overlay claims, the identifiers being
  collected and the lifetimes.  A relation that depends on nothing else is kept by all of them, so
  that an invariant about claims or lifetimes has to look only at the few requests that touch
  those.
\<close>

lemma play1_server:
  "sys_server (play1 (Request r) y) = exec r (sys_server y)"
  "sys_server (play1 (Acquire ok req token t) y) = snd (acquireMutationLease ok req token t (sys_server y))"
  "sys_server (play1 (RecoveryFence ok ok' limit lab token t) y) =
     snd (acquireRecoveryFence ok ok' limit lab token t (sys_server y))"
  "sys_server (play1 (Crash ok okp ok' t t' t'') y) =
     New_server ok okp ok' t t' t'' (cfg_node (sys_server y)) (store (sys_server y))"
  by (auto simp: moved_def granted_def split: prod.split sum.split)

locale onlooker =
  fixes R :: "Server \<Rightarrow> Server \<Rightarrow> bool"
  assumes refl: "R s s"
    and save: "R s s' \<Longrightarrow> R s (snd (saveCoordinationLocked ok s'))"
    and other_file: "R s s' \<Longrightarrow> store s' = Some st \<Longrightarrow> st_coordination st' = st_coordination st \<Longrightarrow>
      R s (s'\<lparr>store := Some st'\<rparr>)"
    and field: "R s s' \<Longrightarrow> R s (s'\<lparr>transactions := a\<rparr>)" "R s s' \<Longrightarrow> R s (s'\<lparr>generations := b\<rparr>)"
      "R s s' \<Longrightarrow> R s (s'\<lparr>inventories := c\<rparr>)" "R s s' \<Longrightarrow> R s (s'\<lparr>ops := d\<rparr>)"
      "R s s' \<Longrightarrow> R s (s'\<lparr>opSequence := e\<rparr>)" "R s s' \<Longrightarrow> R s (s'\<lparr>holds := f\<rparr>)"
      "R s s' \<Longrightarrow> R s (s'\<lparr>repairFails := g\<rparr>)" "R s s' \<Longrightarrow> R s (s'\<lparr>repairNext := h\<rparr>)"
      "R s s' \<Longrightarrow> R s (s'\<lparr>semanticCycles := i\<rparr>)" "R s s' \<Longrightarrow> R s (s'\<lparr>repairTerminal := j\<rparr>)"
      "R s s' \<Longrightarrow> R s (s'\<lparr>semanticGraceUntil := k\<rparr>)" "R s s' \<Longrightarrow> R s (s'\<lparr>exempt := m\<rparr>)"
      "R s s' \<Longrightarrow> R s (s'\<lparr>partial := n\<rparr>)" "R s s' \<Longrightarrow> R s (s'\<lparr>gcSeen := p\<rparr>)"
      "R s s' \<Longrightarrow> R s (s'\<lparr>current := q\<rparr>)" "R s s' \<Longrightarrow> R s (s'\<lparr>modes := r\<rparr>)"
      "R s s' \<Longrightarrow> R s (s'\<lparr>ungraded := v\<rparr>)" "R s s' \<Longrightarrow> R s (s'\<lparr>peers := w\<rparr>)"
      "R s s' \<Longrightarrow> R s (s'\<lparr>overlayLineage := x\<rparr>)"
begin

lemmas rules [simp] = refl save other_file field

lemma fenced_R: "R s (snd k) \<Longrightarrow> R s (snd (fenced lab fc t s k))"
  by (auto simp: fenced_def split: option.splits)

lemma put_tx_R [simp]: "R s (snd (put_tx ok lab tx s))"
  by (auto simp: put_tx_def Let_def case_prod_unfold)

lemma forget_repairs_R [simp]: "R s s' \<Longrightarrow> R s (forget_repairs lab s')"
  by (simp add: forget_repairs_def)

lemma deadline_R [simp]: "R s s' \<Longrightarrow> R s (set_recovery_deadline lab dl s')"
  by (auto simp: set_recovery_deadline_def split: option.splits)

lemma readers_R:
  "R s (snd (checkPreparedGeneration g lab fc t s))" "R s (snd (transactionForApply g lab fc t s))"
  "R s (snd (transactionForCommit g lab fc t s))" "R s (snd (transactionForStateVerify g lab fc t s))"
  by (auto simp: checkPreparedGeneration_def transactionForApply_def transactionForCommit_def
      transactionForStateVerify_def intro!: fenced_R split: option.splits)

lemma updates_R:
  "R s (snd (markGenerationApplying ok g lab fc t s))" "R s (snd (markGenerationApplied ok g lab fc t s))"
  "R s (snd (recordGenerationSolveTransition ok g rec lab fc t s))"
  "R s (snd (recordGenerationDirtyCapture ok g ids lab fc t s))"
  "R s (snd (recordGenerationSemantic ok g ids lab fc t s))"
  "R s (snd (recordGenerationTouched ok g ids vnis known lab fc t s))"
  "R s (snd (markStateVerified ok g lab fc t s))"
  by (auto simp: markGenerationApplying_def markGenerationApplied_def recordGenerationSolveTransition_def
      recordGenerationDirtyCapture_def recordGenerationSemantic_def recordGenerationTouched_def
      markStateVerified_def intro!: fenced_R split: option.splits)

lemma recovery_R:
  "R s (snd (markForwardPhase ok ph t' g lab fc t s))" "R s (snd (recordForwardDataLoss ok detail g lab fc t s))"
  "R s (snd (recordRecoveryProgress ok target deadline force g lab fc t s))"
  "R s (snd (heartbeatRecoveryProgress cfg ok hard g lab fc t s))"
  "R s (snd (markTransactionPhase ok phs failure t' g lab fc t s))"
  by (auto simp: markForwardPhase_def recordForwardDataLoss_def recordRecoveryProgress_def
      heartbeatRecoveryProgress_def markTransactionPhase_def Let_def case_prod_unfold
      intro!: fenced_R split: option.splits)

lemma prepare_R: "R s (snd (prepareGeneration ok prev req lab fc t s))"
  by (auto simp: prepareGeneration_def Let_def case_prod_unfold intro!: fenced_R split: option.splits sum.splits)

lemma commit_R: "R s (snd (finishCommittedGeneration ok oinv g lab fc t s))"
  by (auto simp: finishCommittedGeneration_def Let_def case_prod_unfold intro!: fenced_R split: option.splits)

lemma endings_R:
  "R s (snd (finalizeCommittedGeneration ok g lab fc t s))"
  "R s (snd (finishRecoveredGeneration ok g lab fc t s))"
  "R s (snd (reopenCommittedTransaction ok g lab fc t s))"
  by (auto simp: finalizeCommittedGeneration_def finishRecoveredGeneration_def reopenCommittedTransaction_def
      Let_def case_prod_unfold intro!: fenced_R split: option.splits)

lemma begin_R: "R s (snd (beginRecovery cfg ok strategy tot takeover ack g lab fc t s))"
  by (auto simp: beginRecovery_def Let_def case_prod_unfold intro!: fenced_R split: option.splits sum.splits)

lemma operations_R:
  "R s (snd (acquireOperation lab kind cb t s))"
  "R s (snd (acquireForcedOperation lab kind stale t s))"
  "R s (snd (acquireRecoveryOperation lab deadline takeover t s))"
  "R s s' \<Longrightarrow> R s (releaseOperation lab oid s')"
  by (auto simp: acquireOperation_def acquireForcedOperation_def acquireRecoveryOperation_def
      start_operation_def releaseOperation_def Let_def split: option.splits)

lemma records_R: "R s (snd (beginLabRecordCollection lab t s))"
  using operations_R(1) [of s lab "''gc''" False t]
  by (cases "acquireOperation lab ''gc'' False t s")
    (auto simp: beginLabRecordCollection_def operations_R(4) split: sum.splits)

lemma saveHolds_R [simp]: "R s s' \<Longrightarrow> R s (snd (saveHoldsLocked ok lab t s'))"
  by (auto simp: saveHoldsLocked_def Let_def split: option.splits)

lemma live_hold_R [simp]: "R s s' \<Longrightarrow> R s (snd (live_hold lab t s'))"
  by (auto simp: live_hold_def split: option.splits)

lemma holds_R:
  "R s (snd (applyHold ok req t1 t2 t3 s))"
  "R s (snd (heldBy lab t s))"
  "R s (snd (refuseMutationIfHeld lab token t s))"
  "R s (snd (refuseIfHeldByAnother container token t s))"
  by (auto simp: applyHold_def heldBy_def refuseMutationIfHeld_def refuseIfHeldByAnother_def Let_def
      case_prod_unfold split: option.splits)

lemma setExempt_R: "R s (snd (setExempt ok req s))"
  by (auto simp: setExempt_def saveExemptLocked_def Let_def case_prod_unfold split: option.splits)

lemma repair_R:
  "R s (snd (repairFailed lab device t s))"
  "R s (snd (deferSemanticRepair lab device reason t s))"
  "R s (repairSucceeded lab device s)"
  "R s (snd (partialCount lab device advance s))"
  "R s (wholeAgain lab device s)"
  "R s (beginSemanticConvergenceGrace tp t s)"
  by (auto simp: repairFailed_def deferSemanticRepair_def repairSucceeded_def partialCount_def wholeAgain_def
      beginSemanticConvergenceGrace_def Let_def)

lemma store_R:
  "R s s' \<Longrightarrow> R s (store_forget ok lab s')"
  "R s s' \<Longrightarrow> R s (put_topology lab raw s')"
  "R s s' \<Longrightarrow> R s (forget_topology lab s')"
  "R s s' \<Longrightarrow> R s (install_topology lab tp how ps s')"
  by (auto simp: store_forget_def put_topology_def forget_topology_def rememberHow_def install_topology_def Let_def
      split: option.splits)

lemma restoreTopology_R: "R s (snd (restoreRecoveredTopology okp lab tx s))"
  by (auto simp: restoreRecoveredTopology_def Let_def store_R split: sum.splits option.splits)

lemma gcEligible_R: "R s s' \<Longrightarrow> R s (snd (gcEligible grace key t s'))"
  by (auto simp: gcEligible_def split: option.splits)

text \<open>The fenced requests that only work on the transaction.\<close>

lemma fenced_request_R:
  assumes "\<nexists>ok vs. r = Promote ok vs" "\<nexists>ok. r = FinishDestroyed ok"
  shows "R s (snd (exec_fenced r lab fc t s))"
  using assms by (cases r)
    (simp_all add: readers_R updates_R recovery_R prepare_R commit_R endings_R begin_R)

end

text \<open>The requests that an onlooker does not cover: those that touch leases, claims, collections or
  lifetimes.\<close>

fun touches :: "request \<Rightarrow> bool" where
  "touches (Fenced r lab f t) = (case r of Promote _ _ \<Rightarrow> True | FinishDestroyed _ \<Rightarrow> True | _ \<Rightarrow> False)"
| "touches (RequireFence ok lab f t t') = True"
| "touches (LeaseHolder lab t) = True"
| "touches (RenewLease ok req t) = True"
| "touches (ReleaseLease ok req t) = True"
| "touches (Reserve env req t) = True"
| "touches (RequireReservations ok otp f t) = True"
| "touches (ReleaseClaims ok lab vs) = True"
| "touches (RestoreClaims ok lab f vs) = True"
| "touches (RecordCommit okp ok tx w tp owner t) = True"
| "touches (RollbackFirst ok okf lab) = True"
| "touches (RenewLifetime ok req t) = True"
| "touches (DropLifetime ok lab) = True"
| "touches (BeginCollect v owner t) = True"
| "touches (EndCollect ok v owner) = True"
| "touches (ProtectedLabs ok listed t) = True"
| "touches (ReleaseStale ok prot grace t) = True"
| "touches r = False"

context onlooker
begin

lemma untouched_R: "\<not> touches r \<Longrightarrow> R s (exec r s)"
proof (cases r)
  case (Fenced fr lab fc t)
  then show "\<not> touches r \<Longrightarrow> ?thesis"
    using fenced_request_R [of fr] by (cases fr) auto
qed (simp_all add: operations_R records_R holds_R setExempt_R repair_R store_R restoreTopology_R)

end

text \<open>A start that brings the labs on disk back: it installs topologies, their modes, holds and
  exemptions, and may restore lifetimes; \<open>P\<close> is what is known of the clock.\<close>

locale reviver =
  fixes R :: "Server \<Rightarrow> Server \<Rightarrow> bool" and P :: "go_time \<Rightarrow> bool"
  assumes same: "R s s"
    and saved: "R s s' \<Longrightarrow> R s (snd (saveCoordinationLocked ok s'))"
    and topology_file: "R s s' \<Longrightarrow> store s' = Some st \<Longrightarrow> R s (s'\<lparr>store := Some (st\<lparr>st_topology := a\<rparr>)\<rparr>)"
    and lifetimes: "R s s' \<Longrightarrow> P t \<Longrightarrow> R s (snd (restoreEphemeralLeaseLocked lab ttl g t s'))"
    and revived: "R s s' \<Longrightarrow> R s (s'\<lparr>generations := b\<rparr>)" "R s s' \<Longrightarrow> R s (s'\<lparr>current := q\<rparr>)"
      "R s s' \<Longrightarrow> R s (s'\<lparr>modes := r\<rparr>)" "R s s' \<Longrightarrow> R s (s'\<lparr>ungraded := v\<rparr>)"
      "R s s' \<Longrightarrow> R s (s'\<lparr>peers := w\<rparr>)" "R s s' \<Longrightarrow> R s (s'\<lparr>holds := f\<rparr>)" "R s s' \<Longrightarrow> R s (s'\<lparr>exempt := m\<rparr>)"
      "R s s' \<Longrightarrow> R s (s'\<lparr>repairFails := c\<rparr>)" "R s s' \<Longrightarrow> R s (s'\<lparr>repairNext := h\<rparr>)"
      "R s s' \<Longrightarrow> R s (s'\<lparr>semanticCycles := i\<rparr>)" "R s s' \<Longrightarrow> R s (s'\<lparr>repairTerminal := j\<rparr>)"
      "R s s' \<Longrightarrow> R s (s'\<lparr>semanticGraceUntil := k\<rparr>)"
begin

lemmas start_rules [simp] = same saved topology_file revived

lemma load_R [simp]:
  "R s s' \<Longrightarrow> R s (loadExemptions lab s')" "R s s' \<Longrightarrow> R s (loadHolds lab t s')"
  "R s s' \<Longrightarrow> R s (rememberHow lab md u s')" "R s s' \<Longrightarrow> R s (beginSemanticConvergenceGrace tp t s')"
  by (auto simp: loadExemptions_def loadHolds_def rememberHow_def beginSemanticConvergenceGrace_def Let_def
      split: option.splits)

lemma install_lab_R: "R s (snd rs) \<Longrightarrow> P t \<Longrightarrow> R s (snd (install_lab t mode wt tp rs))"
  by (auto simp: install_lab_def Let_def case_prod_unfold lifetimes split: option.splits)

lemma rehydrate_mode_R: "R s s' \<Longrightarrow> R s (snd (rehydrate_mode okp lab wt s'))"
  by (auto simp: rehydrate_mode_def put_topology_def Let_def split: sum.splits option.splits)

lemma rehydrate_lab_R:
  assumes "R s (snd rs)" "P t"
  shows "R s (snd (rehydrate_lab okp t lab rs))"
proof -
  have "R s s1" if "rehydrate_mode okp lab wt (snd rs) = (mo, s1)" for mo s1 wt
    using rehydrate_mode_R [OF assms(1), of okp lab wt] that by simp
  then show ?thesis
    using assms by (auto simp: rehydrate_lab_def install_lab_R split: option.splits prod.splits)
qed

lemma rehydrate_R:
  assumes "P t"
  shows "R s (rehydrate okp ok t s)"
proof -
  have "R s (snd (fold (rehydrate_lab okp t) labs rs))" if "R s (snd rs)" for labs rs
    using that assms by (induction labs arbitrary: rs) (simp_all add: rehydrate_lab_R)
  from this [of "(False, s)"] show ?thesis
    by (auto simp: rehydrate_def Let_def case_prod_unfold split: option.splits)
qed

lemma New_server_R:
  "P t'' \<Longrightarrow> R (loadCoordination ok t t' (fresh_server node st)) (New_server ok okp ok' t t' t'' node st)"
proof (cases st)
  case None
  then show ?thesis
    by (simp add: New_server_def loadCoordination_def fresh_server_def)
qed (simp add: New_server_def Let_def rehydrate_R)

end

text \<open>An onlooker that the restored lifetimes do not concern sees nothing of a start.\<close>

locale starter = onlooker +
  fixes P :: "go_time \<Rightarrow> bool"
  assumes restored: "R s s' \<Longrightarrow> P t \<Longrightarrow> R s (snd (restoreEphemeralLeaseLocked lab ttl g t s'))"

sublocale starter \<subseteq> start: reviver R P
  by unfold_locales (simp_all add: restored)

end
