(* ===== verification/Tunnels.thy ===== *)
theory Tunnels
  imports Frames
begin

text \<open>
  What the overlay claims of a node guarantee: two labs never hold the same identifier, a
  reservation is worth a tunnel until its lease runs out, and the collector never removes an
  identifier that a lab holds.
\<close>

section \<open>What a reservation changes\<close>

definition ours :: "string \<Rightarrow> vni list \<Rightarrow> (vni, overlayClaim) fmap \<Rightarrow> bool" where
  "ours lab vs m \<longleftrightarrow> (\<forall>v\<in>set vs. case fmlookup m v of None \<Rightarrow> True | Some c \<Rightarrow> claim_lab c = lab)"

lemma ours_iff: "ours lab vs m \<longleftrightarrow> (\<forall>v\<in>set vs. \<forall>c. fmlookup m v = Some c \<longrightarrow> claim_lab c = lab)"
  by (auto simp: ours_def split: option.split)

text \<open>Outside the identifiers asked for nothing changes, and inside everything is the lab's.\<close>

definition claims_for :: "string \<Rightarrow> vni list \<Rightarrow> (vni, overlayClaim) fmap \<Rightarrow> (vni, overlayClaim) fmap \<Rightarrow> bool" where
  "claims_for lab vs m m' \<longleftrightarrow> ours lab vs m' \<and> (\<forall>v. v \<notin> set vs \<longrightarrow> fmlookup m' v = fmlookup m v)"

lemma claims_for_refl: "ours lab vs m \<Longrightarrow> claims_for lab vs m m"
  by (simp add: claims_for_def)

lemma claims_for_upd:
  "claims_for lab vs m m' \<Longrightarrow> v \<in> set vs \<Longrightarrow> claim_lab c = lab \<Longrightarrow> claims_for lab vs m (fmupd v c m')"
  by (auto simp: claims_for_def ours_iff)

lemma claims_for_drop: "claims_for lab vs m m' \<Longrightarrow> v \<in> set vs \<Longrightarrow> claims_for lab vs m (fmdrop v m')"
  by (auto simp: claims_for_def ours_iff)

lemma claims_for_claim_vni:
  assumes "claims_for lab vs m m'" "v \<in> set vs"
  shows "claims_for lab vs m (claim_vni lab g u v m')"
proof -
  have "claim_lab c = lab" if "fmlookup m' v = Some c" for c
    using assms that by (auto simp: claims_for_def ours_iff)
  then show ?thesis
    using assms by (cases "fmlookup m' v")
      (auto simp: claim_vni_def Let_def get_or_def no_claim_def intro!: claims_for_upd)
qed

lemma claims_for_fold:
  assumes "\<And>v m'. v \<in> set vs \<Longrightarrow> claims_for lab vs m m' \<Longrightarrow> claims_for lab vs m (h v m')"
    and "set ws \<subseteq> set vs" "claims_for lab vs m m'"
  shows "claims_for lab vs m (fold h ws m')"
  using assms by (induction ws arbitrary: m') auto

definition priors_ours :: "string \<Rightarrow> vni list \<Rightarrow> claims_before \<Rightarrow> bool" where
  "priors_ours lab vs before \<longleftrightarrow>
     (\<forall>v prior. (v, prior) \<in> set before \<longrightarrow> v \<in> set vs \<and> (\<forall>c. prior = Some c \<longrightarrow> claim_lab c = lab))"

lemma priors_ours_Cons:
  "priors_ours lab vs ((v, prior) # before) \<longleftrightarrow>
     v \<in> set vs \<and> (\<forall>c. prior = Some c \<longrightarrow> claim_lab c = lab) \<and> priors_ours lab vs before"
  by (auto simp: priors_ours_def)

lemma priors_ours_filter: "priors_ours lab vs before \<Longrightarrow> priors_ours lab vs (filter P before)"
  by (auto simp: priors_ours_def)

lemma claims_for_restore:
  assumes "claims_for lab vs m m'" "priors_ours lab vs before"
  shows "claims_for lab vs m (restoreOverlayClaimsLocked before m')"
  using assms
  by (induction before m' rule: restoreOverlayClaimsLocked.induct)
    (auto simp: priors_ours_Cons claims_for_upd claims_for_drop split: option.split)

lemma claims_for_adopt: "claims_for lab vs m m' \<Longrightarrow> v \<in> set vs \<Longrightarrow> claims_for lab vs m (adopt_vni lab g v m')"
  by (simp add: adopt_vni_def claims_for_upd)

lemma claims_for_keep: "claims_for lab vs m m' \<Longrightarrow> v \<in> set vs \<Longrightarrow> claims_for lab vs m (keep_adopted lab v m')"
  by (simp add: keep_adopted_def claims_for_upd)

definition prior_of :: "vni list \<Rightarrow> (vni, overlayClaim) fmap \<Rightarrow> claims_before" where
  "prior_of vs m = map (\<lambda>v. (v, fmlookup m v)) vs"

lemma prior_of_ours:
  "ours lab vs m \<Longrightarrow> priors_ours lab vs (prior_of vs m)"
  by (auto simp: prior_of_def ours_iff priors_ours_def)

lemma claims_for_rollback:
  assumes "claims_for lab vs m (overlayClaims s)" "ours lab vs m" "set adopted \<subseteq> set vs"
  shows "claims_for lab vs m (overlayClaims (rollbackLegacyAdoptionsLocked env lab adopted (prior_of vs m) s))"
  using assms prior_of_ours [OF assms(2)]
  by (auto simp: rollbackLegacyAdoptionsLocked_def Let_def
      intro!: claims_for_restore claims_for_fold claims_for_keep priors_ours_filter)

lemma claims_for_adopt_loop:
  assumes "claims_for lab vs m (overlayClaims s)" "ours lab vs m" "set adopted \<subseteq> set vs" "set ws \<subseteq> set vs"
  shows "claims_for lab vs m (overlayClaims (snd (adopt_loop env lab g (prior_of vs m) adopted ws s)))"
  using assms
  by (induction env lab g "prior_of vs m" adopted ws s rule: adopt_loop.induct)
    (auto intro: claims_for_rollback claims_for_adopt)

lemma check_reservable_Inr:
  assumes "check_reservable lab g owners s vs = Inr legacy"
  shows "ours lab vs (overlayClaims s)" "set vs \<inter> gcCollecting s = {}" "set legacy \<subseteq> set vs"
    "\<forall>v\<in>set vs. \<forall>c. fmlookup (overlayClaims s) v = Some c \<longrightarrow> claim_live c \<or> claim_generation c = g"
  using assms
  by (induction vs arbitrary: legacy)
    (auto simp: ours_iff claim_refusal_def collectingOverlayLocked_def split: option.splits sum.splits if_splits)

lemma reserve_accepted_claims:
  "overlayClaims (snd (reserve_accepted env owners lab f vs changed s)) = overlayClaims s \<or>
   claims_for lab vs (overlayClaims s) (overlayClaims (snd (reserve_accepted env owners lab f vs changed s))) \<and>
   ours lab vs (overlayClaims s) \<and> set vs \<inter> gcCollecting s = {}"
proof (cases "check_reservable lab (Generation f) owners s vs")
  case (Inl e)
  then show ?thesis
    by (simp add: reserve_accepted_def)
next
  case (Inr legacy)
  note c = check_reservable_Inr [OF Inr]
  let ?m = "overlayClaims s"
  let ?u = "lease_until (the (fmlookup (mutations s) lab))"
  let ?m1 = "fold (claim_vni lab (Generation f) ?u) vs ?m"
  have m1: "claims_for lab vs ?m ?m1"
    by (rule claims_for_fold) (simp_all add: claims_for_claim_vni claims_for_refl c)
  have prior: "map (\<lambda>v. (v, fmlookup ?m v)) vs = prior_of vs ?m"
    by (simp add: prior_of_def)
  have loop: "claims_for lab vs ?m (overlayClaims (snd (adopt_loop env lab (Generation f) (prior_of vs ?m) [] legacy s2)))"
    if "overlayClaims s2 = ?m1" for s2
    using claims_for_adopt_loop [of lab vs ?m s2 "[]" legacy env "Generation f"] that m1 c by simp
  have undone: "claims_for lab vs ?m (restoreOverlayClaimsLocked (prior_of vs ?m) ?m1)"
    using claims_for_restore [OF m1 prior_of_ours [OF c(1)]] .
  show ?thesis
    using c m1 undone
    by (simp add: reserve_accepted_def Inr prior Let_def case_prod_unfold loop split: option.split)
qed

section \<open>What the other requests change\<close>

text \<open>They may drop claims or rewrite them, but give none out and pass none on.\<close>

definition keeps_to :: "(vni, overlayClaim) fmap \<Rightarrow> (vni, overlayClaim) fmap \<Rightarrow> bool" where
  "keeps_to m m' \<longleftrightarrow>
     (\<forall>v c'. fmlookup m' v = Some c' \<longrightarrow> (\<exists>c. fmlookup m v = Some c \<and> claim_lab c' = claim_lab c))"

definition shrinks :: "Server \<Rightarrow> Server \<Rightarrow> bool" where
  "shrinks s s' \<longleftrightarrow> keeps_to (overlayClaims s) (overlayClaims s') \<and> gcCollecting s' = gcCollecting s"

lemma keeps_to_rules:
  "keeps_to m m" "keeps_to m m' \<Longrightarrow> keeps_to m (fm_keep P m')" "keeps_to m m' \<Longrightarrow> keeps_to m (fmdrop v m')"
  "keeps_to m m' \<Longrightarrow> keeps_to m (extend_claims lab g u m')"
  "keeps_to m m' \<Longrightarrow> keeps_to m' m'' \<Longrightarrow> keeps_to m m''"
  by (auto simp: keeps_to_def extend_claims_def split: if_splits) metis+

lemma keeps_to_upd:
  "keeps_to m m' \<Longrightarrow> fmlookup m' v = Some c \<Longrightarrow> claim_lab c' = claim_lab c \<Longrightarrow> keeps_to m (fmupd v c' m')"
  by (auto simp: keeps_to_def)

lemma keeps_to_promote: "keeps_to m m' \<Longrightarrow> keeps_to m (snd (snd (promote_loop lab g vs b m')))"
  by (induction lab g vs b m' rule: promote_loop.induct) (auto simp: keeps_to_upd split: option.split)

lemma keeps_to_destroy:
  "keeps_to m (fm_keep (\<lambda>_ c. claim_lab c \<noteq> lab) m ++\<^sub>f fm_keep (\<lambda>_ c. claim_lab c = lab) m)"
  by (auto simp: keeps_to_def fmlookup_fm_keep split: option.splits if_splits)

interpretation claims: starter shrinks "\<lambda>_. True"
  by unfold_locales
    (auto simp: shrinks_def keeps_to_rules restoreEphemeralLeaseLocked_def Let_def split: option.split)

lemma shrinks_fields [simp]:
  "shrinks s (s'\<lparr>mutations := a\<rparr>) = shrinks s s'" "shrinks s (s'\<lparr>ephemeral := b\<rparr>) = shrinks s s'"
  "shrinks s (s'\<lparr>fenceHighWater := c\<rparr>) = shrinks s s'" "shrinks s (s'\<lparr>gcSeen := d\<rparr>) = shrinks s s'"
  "shrinks s (snd (saveCoordinationLocked ok s')) = shrinks s s'"
  by (simp_all add: shrinks_def)

lemma shrinks_expire [simp]: "shrinks s s' \<Longrightarrow> shrinks s (snd (expireCoordinationLocked t s'))"
  by (simp add: shrinks_def keeps_to_rules)

lemma shrinks_claims: "shrinks s s' \<Longrightarrow> keeps_to (overlayClaims s') m \<Longrightarrow> shrinks s (s'\<lparr>overlayClaims := m\<rparr>)"
  using keeps_to_rules(5) by (auto simp: shrinks_def)

lemma shrinks_refuse [simp]: "shrinks s s' \<Longrightarrow> shrinks s (snd (refuse ok changed e s'))"
  by (simp add: refuse_def)

lemma shrinks_leases:
  "shrinks s (snd (requireMutationFence ok lab f t t' s))"
  "shrinks s (snd (mutationLeaseHolder lab t s))"
  "shrinks s (snd (releaseMutationLease ok req t s))"
  "shrinks s (snd (renewMutationLease ok req' t s))"
  by (auto simp: requireMutationFence_def mutationLeaseHolder_def releaseMutationLease_def renewMutationLease_def
      Let_def case_prod_unfold keeps_to_rules intro!: shrinks_claims simp del: expire_components split: option.split)

lemma shrinks_acquire:
  "shrinks s (snd (acquireMutationLease ok req token t s))"
  "shrinks s (snd (acquireRecoveryFence ok ok' limit lab token t s))"
  by (auto simp: acquireMutationLease_def acquireRecoveryFence_def issue_lease_def drop_lease_def
      Let_def case_prod_unfold simp del: expire_components split: option.split)

lemma shrinks_releases:
  "shrinks s (snd (requireOverlayReservations ok otp f t s))"
  "shrinks s (snd (releaseOverlayClaims ok lab vs s))"
  "shrinks s (snd (gcProtectedLabs ok listed t s))"
  by (auto simp: requireOverlayReservations_def releaseOverlayClaims_def gcProtectedLabs_def Let_def
      case_prod_unfold keeps_to_rules intro!: shrinks_claims simp del: expire_components split: option.split)

lemma shrinks_promote: "shrinks s (snd (promoteOverlayReservations ok vs lab f t s))"
  by (auto simp: promoteOverlayReservations_def Let_def case_prod_unfold keeps_to_rules
      intro!: shrinks_claims keeps_to_promote split: option.split)

lemma shrinks_destroy: "shrinks s (snd (finishDestroyedLab ok lab f t s))"
proof -
  have "shrinks s (forget_repairs lab (s'\<lparr>current := a, modes := b, ungraded := c, peers := d\<rparr>)) = shrinks s s'"
    "shrinks s (s'\<lparr>overlayClaims := m, generations := g, transactions := h, inventories := i, overlayLineage := l,
       ephemeral := k\<rparr>) = shrinks s (s'\<lparr>overlayClaims := m\<rparr>)" for s' a b c d g h i l k m
    by (simp_all add: shrinks_def forget_repairs_def)
  then show ?thesis
    unfolding finishDestroyedLab_def
    by (intro claims.fenced_R) (simp add: Let_def case_prod_unfold shrinks_def keeps_to_rules keeps_to_destroy)
qed

lemma shrinks_stale_claim: "shrinks s (snd ns) \<Longrightarrow> shrinks s (snd (release_stale_claim prot grace t v ns))"
  by (auto simp: release_stale_claim_def gcEligible_def Let_def keeps_to_rules intro!: shrinks_claims
      split: option.split)

lemma shrinks_stale: "shrinks s (snd (gcReleaseStaleLiveClaims ok prot grace t s))"
proof -
  have "shrinks s (snd (fold (release_stale_claim prot grace t) vs ns))" if "shrinks s (snd ns)" for vs ns
    using that by (induction vs arbitrary: ns) (simp_all add: shrinks_stale_claim)
  from this [of "(0, s)"] show ?thesis
    by (auto simp: gcReleaseStaleLiveClaims_def Let_def case_prod_unfold)
qed

lemma shrinks_lifetimes:
  "shrinks s s' \<Longrightarrow> shrinks s (snd (noteEphemeralLease ok lab owner ttl g t s'))"
  "shrinks s s' \<Longrightarrow> shrinks s (snd (renewEphemeralLease ok req t s'))"
  "shrinks s s' \<Longrightarrow> shrinks s (dropEphemeralLease ok lab s')"
  "shrinks s s' \<Longrightarrow> shrinks s (snd (forgetEphemeralLease ok lab s'))"
  by (auto simp: noteEphemeralLease_def renewEphemeralLease_def dropEphemeralLease_def forgetEphemeralLease_def
      Let_def case_prod_unfold split: option.split)

lemma shrinks_deployment:
  "shrinks s (snd (record_commit okp ok tx w tp owner t s))"
  "shrinks s (snd (rollback_first ok okf lab s))"
  using shrinks_releases(2) [of s ok lab "[]"]
  by (auto simp: record_commit_def rollback_first_def Let_def claims.store_R shrinks_lifetimes
      split: prod.split sum.split option.split)

text \<open>The four requests that may do more.\<close>

fun gives_out :: "request \<Rightarrow> bool" where
  "gives_out (Reserve env req t) = True"
| "gives_out (RestoreClaims ok lab f vs) = True"
| "gives_out (BeginCollect v owner t) = True"
| "gives_out (EndCollect ok v owner) = True"
| "gives_out r = False"

lemma shrinks_request: "\<not> gives_out r \<Longrightarrow> shrinks s (exec r s)"
proof (cases "touches r")
  case True
  moreover assume "\<not> gives_out r"
  ultimately show ?thesis
    by (cases r) (auto simp: shrinks_leases shrinks_releases shrinks_promote shrinks_destroy shrinks_stale
        shrinks_lifetimes shrinks_deployment claims.refl split: fenced_request.splits)
qed (rule claims.untouched_R)

section \<open>Who holds an identifier\<close>

text \<open>\<open>restoreOverlayClaims\<close> checks nothing itself; a rollback restores the identifiers of the topology
  the lab had, which must not have gone to another lab or to the collector meanwhile.\<close>

definition restorable :: "string \<Rightarrow> vni list \<Rightarrow> Server \<Rightarrow> bool" where
  "restorable lab vs s \<longleftrightarrow> ours lab vs (overlayClaims s) \<and> set vs \<inter> gcCollecting s = {}"

fun careful :: "move \<Rightarrow> Sys \<Rightarrow> bool" where
  "careful (Request (RestoreClaims ok lab f vs)) y = restorable lab vs (sys_server y)"
| "careful _ y = True"

fun starts :: "move \<Rightarrow> bool" where
  "starts (Crash ok okp ok' t t' t'') = True"
| "starts _ = False"

lemma reserve_claims:
  "keeps_to (overlayClaims s) (overlayClaims (snd (reserveOverlays env req t s))) \<or>
   (\<exists>vs. claims_for (or_lab req) vs (overlayClaims (snd (expireCoordinationLocked t s)))
           (overlayClaims (snd (reserveOverlays env req t s)))
         \<and> ours (or_lab req) vs (overlayClaims (snd (expireCoordinationLocked t s))) \<and> set vs \<inter> gcCollecting s = {})"
proof -
  have r: "overlayClaims (snd (refuse ok changed e s')) = overlayClaims s'" for ok changed e and s' :: Server
    by (simp add: refuse_def)
  show ?thesis
    using reserve_accepted_claims [of env _ "or_lab req" "or_fence req" _ "fst (expireCoordinationLocked t s)"
        "snd (expireCoordinationLocked t s)"]
    by (auto simp: reserveOverlays_def Let_def case_prod_unfold r keeps_to_rules
        simp del: expire_components(1,2) split: sum.split option.split)
      (force simp: keeps_to_rules)+
qed

lemma rollback_collecting [simp]: "gcCollecting (rollbackLegacyAdoptionsLocked env lab adopted before s) = gcCollecting s"
  by (simp add: rollbackLegacyAdoptionsLocked_def Let_def)

lemma adopt_loop_collecting [simp]: "gcCollecting (snd (adopt_loop env lab g before adopted vs s)) = gcCollecting s"
  by (induction env lab g before adopted vs s rule: adopt_loop.induct) simp_all

lemma reserve_accepted_collecting [simp]:
  "gcCollecting (snd (reserve_accepted env owners lab f vs changed s)) = gcCollecting s"
  by (simp add: reserve_accepted_def Let_def case_prod_unfold split: sum.split option.split)

lemma reserve_collecting [simp]: "gcCollecting (snd (reserveOverlays env req t s)) = gcCollecting s"
  by (simp add: reserveOverlays_def refuse_def Let_def case_prod_unfold split: sum.split option.split)

lemma restore_claims:
  assumes "restorable lab vs s"
  shows "claims_for lab vs (fm_keep (\<lambda>v c. \<not> (reserved_by lab (Generation f) c \<and> v \<notin> set vs)) (overlayClaims s))
      (overlayClaims (snd (restoreOverlayClaims ok lab f vs s)))"
    and "gcCollecting (snd (restoreOverlayClaims ok lab f vs s)) = gcCollecting s"
  using assms
  by (auto simp: restoreOverlayClaims_def Let_def case_prod_unfold restorable_def ours_iff
      intro!: claims_for_fold claims_for_upd claims_for_refl)

lemma collect_claims:
  "overlayClaims (snd (beginOverlayCollection v owner t s)) = overlayClaims s"
  "gcCollecting (snd (beginOverlayCollection v owner t s)) \<subseteq>
     insert v (gcCollecting s) \<and> (v \<in> gcCollecting s \<or> fmlookup (overlayClaims s) v = None) \<or>
   gcCollecting (snd (beginOverlayCollection v owner t s)) = gcCollecting s"
  "keeps_to (overlayClaims s) (overlayClaims (endOverlayCollection ok v owner s))"
  "gcCollecting (endOverlayCollection ok v owner s) \<subseteq> gcCollecting s"
  by (auto simp: beginOverlayCollection_def endOverlayCollection_def Let_def keeps_to_rules split: option.split)

text \<open>A claim as one step finds and leaves it.\<close>

lemma keeps_hand:
  "keeps_to m m' \<Longrightarrow> fmlookup m v = Some c \<Longrightarrow> fmlookup m' v = Some c' \<Longrightarrow> claim_lab c' = claim_lab c"
  by (fastforce simp: keeps_to_def)

lemma claims_for_hand:
  assumes "claims_for lab vs m m'" "ours lab vs m" "fmlookup m v = Some c" "fmlookup m' v = Some c'"
  shows "claim_lab c' = claim_lab c"
  using assms by (cases "v \<in> set vs") (auto simp: claims_for_def ours_iff)

lemma reserve_hand:
  assumes "fmlookup (overlayClaims s) v = Some c"
    and "fmlookup (overlayClaims (snd (reserveOverlays env req t s))) v = Some c'"
  shows "claim_lab c' = claim_lab c \<or> or_lab req = claim_lab c' \<and> claim_expired t c"
proof (cases "claim_expired t c")
  case False
  then have "fmlookup (overlayClaims (snd (expireCoordinationLocked t s))) v = Some c"
    using assms(1) by simp
  then show ?thesis
    using reserve_claims [of s env req t] assms keeps_hand claims_for_hand by metis
next
  case True
  then have "fmlookup (overlayClaims (snd (expireCoordinationLocked t s))) v = None"
    using assms(1) by (simp add: fmlookup_fm_keep)
  then show ?thesis
    using reserve_claims [of s env req t] assms keeps_hand True
    unfolding claims_for_def ours_iff by (metis option.distinct(1))
qed

lemma restore_hand:
  assumes "restorable lab vs s" "fmlookup (overlayClaims s) v = Some c"
    and "fmlookup (overlayClaims (snd (restoreOverlayClaims ok lab f vs s))) v = Some c'"
  shows "claim_lab c' = claim_lab c"
  using restore_claims(1) [OF assms(1), of f ok] assms
  by (cases "v \<in> set vs") (auto simp: claims_for_def ours_iff restorable_def)


text \<open>A reservation of one lab that ran out is taken over by the next.\<close>

definition takeover_env :: overlay_env where
  "takeover_env = \<lparr>env_owners = Some fmempty, env_adopt = (\<lambda>_. True), env_revert = (\<lambda>_. True), env_save = True,
     env_save_adopted = True, env_save_rollback = True\<rparr>"

definition takeover_run :: "move list" where
  "takeover_run =
     [Acquire True \<lparr>acq_lab = ''cs'', acq_holder = ''alice'', acq_ttl = 1\<rparr> (Some ''k1'') 0,
      Request (Reserve takeover_env \<lparr>or_lab = ''cs'', or_hold = [], or_fence = demo_fence, or_vnis = [7, 9, 7]\<rparr> 1),
      Acquire True \<lparr>acq_lab = ''ee'', acq_holder = ''bob'', acq_ttl = 0\<rparr> (Some ''k2'') 2]"

definition takeover_move :: move where
  "takeover_move =
     Request (Reserve takeover_env
       \<lparr>or_lab = ''ee'', or_hold = [], or_fence = \<lparr>Token = ''k2'', Generation = 1\<rparr>, or_vnis = [7]\<rparr> 1000000001)"

definition claimed_by :: "vni \<Rightarrow> Server \<Rightarrow> string option" where
  "claimed_by v s = map_option claim_lab (fmlookup (overlayClaims s) v)"


section \<open>The collector\<close>

definition collected_free :: "Server \<Rightarrow> bool" where
  "collected_free s \<longleftrightarrow> (\<forall>v\<in>gcCollecting s. fmlookup (overlayClaims s) v = None)"

lemma collected_free_keeps:
  "collected_free s \<Longrightarrow> keeps_to (overlayClaims s) (overlayClaims s') \<Longrightarrow> gcCollecting s' \<subseteq> gcCollecting s \<Longrightarrow>
   collected_free s'"
  unfolding collected_free_def keeps_to_def by (metis not_None_eq subset_iff)

lemma collected_free_claims:
  assumes "collected_free s" "claims_for lab vs m (overlayClaims s')" "keeps_to (overlayClaims s) m"
    and "set vs \<inter> gcCollecting s = {}" "gcCollecting s' = gcCollecting s"
  shows "collected_free s'"
  using assms unfolding collected_free_def keeps_to_def claims_for_def by (metis disjoint_iff not_None_eq)

lemma collected_free_request:
  assumes "collected_free s" "careful (Request r) y" "s = sys_server y"
  shows "collected_free (exec r s)"
proof (cases "gives_out r")
  case False
  then show ?thesis
    using collected_free_keeps [OF assms(1)] shrinks_request [of r s] by (simp add: shrinks_def)
next
  case True
  then show ?thesis
  proof (cases r)
    case (Reserve env req t)
    have "keeps_to (overlayClaims s) (overlayClaims (snd (expireCoordinationLocked t s)))"
      by (simp add: keeps_to_rules)
    then show ?thesis
      using reserve_claims [of s env req t] assms(1)
      by (auto simp: Reserve intro: collected_free_keeps collected_free_claims)
  next
    case (RestoreClaims ok lab f vs)
    then have "restorable lab vs s"
      using assms by simp
    then show ?thesis
      using restore_claims(1) [of lab vs s f ok] restore_claims(2) [of lab vs s ok f] assms(1)
      by (auto simp: RestoreClaims restorable_def keeps_to_rules intro: collected_free_claims)
  next
    case (BeginCollect v owner t)
    then show ?thesis
      using assms(1) collect_claims(1,2) [of v owner t s] by (auto simp: collected_free_def)
  next
    case (EndCollect ok v owner)
    then show ?thesis
      using collected_free_keeps [OF assms(1)] collect_claims(3) [of s ok v owner] collect_claims(4) [of ok v owner s]
      by simp
  qed simp_all
qed

lemma collected_free_start: "collected_free (New_server ok okp ok' t t' t'' node st)"
proof -
  have "gcCollecting (loadCoordination ok t t' (fresh_server node st)) = {}"
    by (simp add: loadCoordination_def load_journal_def fresh_server_def Let_def split: option.split)
  then show ?thesis
    using claims.start.New_server_R [of ok t t' node st okp ok' t''] by (simp add: collected_free_def shrinks_def)
qed

interpretation collector: inductive_invariant sys_init "sys_step careful" "\<lambda>y. collected_free (sys_server y)"
proof unfold_locales
  show "collected_free (sys_server y)" if "sys_init y" for y
    using that by (auto simp: sys_init_def fresh_server_def collected_free_def)
  show "collected_free (sys_server y')" if y: "collected_free (sys_server y)" "sys_step careful y y'" for y y'
  proof -
    obtain m where m: "careful m y" "y' = play1 m y"
      using y(2) by (auto elim: sys_stepE)
    have "shrinks (sys_server y) s' \<Longrightarrow> collected_free s'" for s'
      using collected_free_keeps [OF y(1)] by (simp add: shrinks_def)
    then show ?thesis
      using m collected_free_request [OF y(1)] collected_free_start shrinks_acquire
      by (cases m) (simp_all add: play1_server del: play1.simps)
  qed
qed


definition collect_run :: "move list" where
  "collect_run = takeover_run @
     [Request (ReleaseClaims True ''cs'' []), Request (BeginCollect 9 ''cs'' 1000000001),
      Request (Reserve takeover_env
        \<lparr>or_lab = ''ee'', or_hold = [], or_fence = \<lparr>Token = ''k2'', Generation = 1\<rparr>, or_vnis = [9]\<rparr> 1000000002)]"


section \<open>What a reservation is worth\<close>

text \<open>The claim a successful reservation leaves for an identifier.\<close>

definition reserved_claim :: "string \<Rightarrow> fence_gen \<Rightarrow> go_time \<Rightarrow> overlayClaim \<Rightarrow> bool" where
  "reserved_claim lab g u c \<longleftrightarrow> claim_lab c = lab \<and> claim_generation c = g \<and> (claim_live c \<or> claim_until c = u)"

definition all_reserved :: "string \<Rightarrow> fence_gen \<Rightarrow> go_time \<Rightarrow> vni list \<Rightarrow> (vni, overlayClaim) fmap \<Rightarrow> bool" where
  "all_reserved lab g u vs m \<longleftrightarrow>
     (\<forall>v\<in>set vs. case fmlookup m v of None \<Rightarrow> False | Some c \<Rightarrow> reserved_claim lab g u c)"

lemma all_reserved_iff:
  "all_reserved lab g u vs m \<longleftrightarrow> (\<forall>v\<in>set vs. \<exists>c. fmlookup m v = Some c \<and> reserved_claim lab g u c)"
  by (auto simp: all_reserved_def split: option.splits)

lemma claim_vni_other: "w \<noteq> v \<Longrightarrow> fmlookup (claim_vni lab g u v m) w = fmlookup m w"
  by (auto simp: claim_vni_def Let_def)

lemma fold_claim_vni_other: "w \<notin> set vs \<Longrightarrow> fmlookup (fold (claim_vni lab g u) vs m) w = fmlookup m w"
  by (induction vs arbitrary: m) (auto simp: claim_vni_other)

lemma claim_vni_reserved:
  assumes "\<forall>c. fmlookup m v = Some c \<longrightarrow> claim_lab c = lab"
  shows "\<exists>c. fmlookup (claim_vni lab g u v m) v = Some c \<and> reserved_claim lab g u c"
  using assms by (cases "fmlookup m v") (auto simp: claim_vni_def Let_def get_or_def no_claim_def reserved_claim_def)

lemma fold_claim_vni_reserved:
  assumes "distinct vs" "ours lab vs m"
  shows "all_reserved lab g u vs (fold (claim_vni lab g u) vs m)"
  using assms
proof (induction vs arbitrary: m)
  case (Cons v vs)
  have "ours lab vs (claim_vni lab g u v m)"
    using Cons.prems unfolding ours_iff by (metis claim_vni_other distinct.simps(2) list.set_intros(2))
  moreover have "\<exists>c. fmlookup (fold (claim_vni lab g u) vs (claim_vni lab g u v m)) v = Some c \<and> reserved_claim lab g u c"
    using Cons.prems claim_vni_reserved [of m v lab g u] by (simp add: fold_claim_vni_other ours_iff)
  ultimately show ?case
    using Cons by (simp add: all_reserved_iff)
qed (simp add: all_reserved_def)

lemma adopt_loop_reserved:
  assumes "adopt_loop env lab g before adopted ws s = (None, s')" "all_reserved lab g u vs (overlayClaims s)"
  shows "all_reserved lab g u vs (overlayClaims s')" "mutations s' = mutations s"
  using assms
  by (induction env lab g before adopted ws s rule: adopt_loop.induct)
    (auto simp: all_reserved_iff adopt_vni_def reserved_claim_def split: if_splits)

lemma reserve_accepted_Inr:
  assumes "reserve_accepted env owners lab f vs changed s = (Inr resp, s')" "distinct vs"
  shows "all_reserved lab (Generation f) (ov_expires resp) vs (overlayClaims s')"
    "mutations s' = mutations s" "ov_vnis resp = vs"
    "ov_expires resp = lease_until (the (fmlookup (mutations s) lab))"
proof -
  obtain legacy where legacy: "check_reservable lab (Generation f) owners s vs = Inr legacy"
    using assms(1) by (auto simp: reserve_accepted_def split: sum.splits)
  define before where "before = map (\<lambda>v. (v, fmlookup (overlayClaims s) v)) vs"
  define u where "u = lease_until (the (fmlookup (mutations s) lab))"
  define s1 where "s1 = s\<lparr>overlayClaims := fold (claim_vni lab (Generation f) u) vs (overlayClaims s)\<rparr>"
  define s2 where "s2 = snd (if changed \<or> list_ex (claim_changes (Generation f) (overlayClaims s)) vs
     then saveCoordinationLocked (env_save env) s1 else (True, s1))"
  define s3 where "s3 = snd (adopt_loop env lab (Generation f) before [] legacy s2)"
  have "fst (adopt_loop env lab (Generation f) before [] legacy s2) = None"
    and s': "s' = snd (if legacy \<noteq> [] then saveCoordinationLocked (env_save_adopted env) s3 else (True, s3))"
    and resp: "resp = \<lparr>ov_lab = lab, ov_vnis = vs, ov_expires = u\<rparr>"
    using assms(1) legacy unfolding reserve_accepted_def Let_def
    by (auto simp: s1_def s2_def s3_def u_def before_def case_prod_unfold split: if_splits option.splits)
  then have a: "adopt_loop env lab (Generation f) before [] legacy s2 = (None, s3)"
    by (simp add: s3_def prod_eq_iff)
  have "all_reserved lab (Generation f) u vs (overlayClaims s2)"
    using fold_claim_vni_reserved [OF assms(2) check_reservable_Inr(1) [OF legacy]] by (simp add: s2_def s1_def)
  note r = adopt_loop_reserved [OF a this]
  show "all_reserved lab (Generation f) (ov_expires resp) vs (overlayClaims s')" "mutations s' = mutations s"
    using r by (simp_all add: s' resp) (simp add: s2_def s1_def)
  show "ov_vnis resp = vs" "ov_expires resp = lease_until (the (fmlookup (mutations s) lab))"
    by (simp_all add: resp u_def)
qed

definition live_for :: "string \<Rightarrow> fence_gen \<Rightarrow> (vni, overlayClaim) fmap \<Rightarrow> vni \<Rightarrow> bool" where
  "live_for lab g m v \<longleftrightarrow>
     (case fmlookup m v of
        None \<Rightarrow> False
      | Some c \<Rightarrow> claim_lab c = lab \<and> claim_generation c = g \<and> claim_live c)"

lemma promote_loop_live:
  assumes "all_reserved lab g u ws m" "set vs \<subseteq> set ws" "\<forall>v\<in>D. live_for lab g m v"
  shows "fst (promote_loop lab g vs b m) = None \<and> (\<forall>v\<in>D \<union> set vs. live_for lab g (snd (snd (promote_loop lab g vs b m))) v)"
  using assms
proof (induction vs arbitrary: b m D)
  case (Cons v vs)
  obtain c where c: "fmlookup m v = Some c" "reserved_claim lab g u c"
    using Cons.prems by (auto simp: all_reserved_iff)
  let ?m = "if claim_live c then m else fmupd v (c\<lparr>claim_live := True, claim_until := 0\<rparr>) m"
  have step: "promote_loop lab g (v # vs) b m = promote_loop lab g vs (b \<or> \<not> claim_live c) ?m"
    using c by (simp add: reserved_claim_def)
  have "all_reserved lab g u ws ?m"
    using Cons.prems(1) c by (auto simp: all_reserved_iff reserved_claim_def)
  moreover have "\<forall>w\<in>insert v D. live_for lab g ?m w"
    using Cons.prems(3) c by (auto simp: live_for_def reserved_claim_def)
  ultimately show ?case
    using Cons.IH [of ?m "insert v D" "b \<or> \<not> claim_live c"] Cons.prems(2) by (simp only: step) auto
qed simp

lemma reserveOverlays_Inr:
  assumes "reserveOverlays env req t s = (Inr resp, s')"
  shows "all_reserved (or_lab req) (Generation (or_fence req)) (ov_expires resp) (or_vnis req) (overlayClaims s')"
    "t' < ov_expires resp \<Longrightarrow> fenceErrorLocked (or_lab req) (or_fence req) t' s' = None"
proof -
  let ?s1 = "snd (expireCoordinationLocked t s)"
  obtain vs owners where vs: "sortedVNIs (or_vnis req) = Inr vs"
    and f: "fenceErrorLocked (or_lab req) (or_fence req) t ?s1 = None"
    and r: "reserve_accepted env owners (or_lab req) (or_fence req) vs (fst (expireCoordinationLocked t s)) ?s1 = (Inr resp, s')"
    using assms by (auto simp: reserveOverlays_def refuse_def Let_def case_prod_unfold simp del: expire_components
        split: sum.splits option.splits if_splits)
  have vs': "distinct vs" "set vs = set (or_vnis req)"
    using vs by (auto simp: sortedVNIs_def split: if_splits)
  note a = reserve_accepted_Inr [OF r vs'(1)]
  show "all_reserved (or_lab req) (Generation (or_fence req)) (ov_expires resp) (or_vnis req) (overlayClaims s')"
    using a(1) vs'(2) by (simp add: all_reserved_def)
  show "fenceErrorLocked (or_lab req) (or_fence req) t' s' = None" if "t' < ov_expires resp"
    using f that a(2,4) by (auto simp: fenceErrorLocked_None_iff simp del: expire_components)
qed

text \<open>C17: A granted reservation can always be redeemed: until its lease expires, promoting any of the
  identifiers asked for succeeds when the journal can be written, and then each of them is a live
  claim of the lab, under its fence, that no longer expires.\<close>

theorem reservation_is_worth_a_tunnel:
  assumes "reserveOverlays env req t s = (Inr resp, s')" "t' < ov_expires resp" "set vs \<subseteq> set (or_vnis req)"
  shows "\<exists>s''. promoteOverlayReservations True vs (or_lab req) (or_fence req) t' s' = (Inr (), s'') \<and>
    (\<forall>v\<in>set vs. live_for (or_lab req) (Generation (or_fence req)) (overlayClaims s'') v)"
proof -
  have "fst (saveCoordinationLocked True x)" for x
    by (simp add: saveCoordinationLocked_def split: option.split)
  then show ?thesis
    using promote_loop_live [OF reserveOverlays_Inr(1) [OF assms(1)] assms(3), of "{}" False]
      reserveOverlays_Inr(2) [OF assms(1,2)]
    by (simp add: promoteOverlayReservations_def Let_def case_prod_unfold)
qed

theorem reservation_is_worth_a_tunnel_witness:
  "\<exists>s''. promoteOverlayReservations True [9] ''cs'' demo_fence 999999999
       (sys_server (play (take 2 takeover_run) first_start)) = (Inr (), s'') \<and> live_for ''cs'' 1 (overlayClaims s'') 9"
proof -
  let ?s = "sys_server (play (take 1 takeover_run) first_start)"
  let ?req = "\<lparr>or_lab = ''cs'', or_hold = [], or_fence = demo_fence, or_vnis = [7, 9, 7]\<rparr>"
  have "case fst (reserveOverlays takeover_env ?req 1 ?s) of Inl _ \<Rightarrow> False | Inr resp \<Rightarrow> 999999999 < ov_expires resp"
    by code_simp
  then obtain resp where r: "reserveOverlays takeover_env ?req 1 ?s = (Inr resp, snd (reserveOverlays takeover_env ?req 1 ?s))"
    "999999999 < ov_expires resp"
    by (auto simp: prod_eq_iff split: sum.splits)
  have "sys_server (play (take 2 takeover_run) first_start) = snd (reserveOverlays takeover_env ?req 1 ?s)"
    by (simp add: takeover_run_def play_def play1_server del: play1.simps)
  moreover have "set [9] \<subseteq> set (or_vnis ?req)" "Generation demo_fence = 1"
    by (simp_all add: demo_fence_def)
  ultimately show ?thesis
    using reservation_is_worth_a_tunnel [OF r, of "[9]"] by simp
qed

section \<open>A refused reservation\<close>

lemma restore_lookup:
  "fmlookup (restoreOverlayClaimsLocked before m') w =
     (case map_of (rev before) w of None \<Rightarrow> fmlookup m' w | Some prior \<Rightarrow> prior)"
proof (induction before m' rule: restoreOverlayClaimsLocked.induct)
  case (2 v prior rest m)
  then show ?case
    by (cases prior) (auto simp: map_add_def split: option.split)
qed simp

lemma map_of_prior: "map_of (rev (prior_of vs m)) w = (if w \<in> set vs then Some (fmlookup m w) else None)"
  unfolding prior_of_def rev_map by (induction vs rule: rev_induct) auto

lemma restore_prior:
  assumes "\<forall>v. v \<notin> set vs \<longrightarrow> fmlookup m' v = fmlookup m v"
  shows "restoreOverlayClaimsLocked (prior_of vs m) m' = m"
  using assms by (intro fmap_ext) (simp add: restore_lookup map_of_prior)

lemma rollback_all:
  assumes "\<forall>v. env_revert env v" "claims_for lab vs m (overlayClaims s)"
  shows "overlayClaims (rollbackLegacyAdoptionsLocked env lab adopted (prior_of vs m) s) = m"
  using assms by (simp add: rollbackLegacyAdoptionsLocked_def Let_def claims_for_def restore_prior)

lemma adopt_loop_refused:
  assumes "adopt_loop env lab g (prior_of vs m) adopted ws s = (Some e, s')" "\<forall>v. env_revert env v"
    and "claims_for lab vs m (overlayClaims s)" "set ws \<subseteq> set vs"
  shows "overlayClaims s' = m"
  using assms
  by (induction env lab g "prior_of vs m" adopted ws s rule: adopt_loop.induct)
    (auto simp: rollback_all claims_for_adopt split: if_splits)

lemma reserve_accepted_refused:
  assumes "reserve_accepted env owners lab f vs changed s = (Inl e, s')"
    and "\<forall>v. env_revert env v" "env_save_adopted env"
  shows "overlayClaims s' = overlayClaims s"
proof (cases "check_reservable lab (Generation f) owners s vs")
  case (Inr legacy)
  note c = check_reservable_Inr [OF Inr]
  let ?m = "overlayClaims s"
  let ?m1 = "fold (claim_vni lab (Generation f) (lease_until (the (fmlookup (mutations s) lab)))) vs ?m"
  have m1: "claims_for lab vs ?m ?m1"
    by (rule claims_for_fold) (simp_all add: claims_for_claim_vni claims_for_refl c)
  have prior: "map (\<lambda>v. (v, fmlookup ?m v)) vs = prior_of vs ?m"
    by (simp add: prior_of_def)
  have loop: "overlayClaims (snd (adopt_loop env lab (Generation f) (prior_of vs ?m) [] legacy s2)) = ?m"
    if "overlayClaims s2 = ?m1" "fst (adopt_loop env lab (Generation f) (prior_of vs ?m) [] legacy s2) = Some e'" for s2 e'
    using adopt_loop_refused [of env lab "Generation f" vs ?m "[]" legacy s2 e'] that assms(2) m1 c
    by (simp add: prod_eq_iff)
  have saved: "fst (saveCoordinationLocked (env_save_adopted env) x)" for x
    using assms(3) by (simp add: saveCoordinationLocked_def split: option.split)
  have undone: "restoreOverlayClaimsLocked (prior_of vs ?m) ?m1 = ?m"
    using m1 by (simp add: restore_prior claims_for_def)
  show ?thesis
    using assms(1) saved undone
    by (auto simp: reserve_accepted_def Inr prior Let_def case_prod_unfold loop split: option.splits if_splits)
qed (use assms(1) in \<open>simp add: reserve_accepted_def\<close>)

text \<open>A reservation that is refused, on whatever branch (an identifier zero, no lab, no fence,
  an identifier being collected, owned, claimed, or of an older fence, a failed write, a failed
  adoption), leaves the claims as they were, up to those that had run out, as long as the kernel
  takes back the aliases it was given and the last write succeeds.\<close>

theorem refused_reservation_leaves_claims:
  assumes "reserveOverlays env req t s = (Inl e, s')" "\<forall>v. env_revert env v" "env_save_adopted env"
  shows "overlayClaims s' \<in> {overlayClaims s, overlayClaims (snd (expireCoordinationLocked t s))}"
proof -
  have "overlayClaims x = overlayClaims (snd (expireCoordinationLocked t s))"
    if "reserve_accepted env owners lab f vs changed (snd (expireCoordinationLocked t s)) = (Inl e', x)"
    for owners lab f vs changed e' x
    using reserve_accepted_refused [OF that assms(2,3)] .
  then show ?thesis
    using assms(1)
    by (auto simp: reserveOverlays_def refuse_def Let_def case_prod_unfold simp del: expire_components
        split: sum.splits option.splits if_splits)
qed

theorem refused_reservation_leaves_claims_witness:
  "\<exists>s'. reserveOverlays takeover_env
       \<lparr>or_lab = ''ee'', or_hold = [], or_fence = \<lparr>Token = ''k2'', Generation = 1\<rparr>, or_vnis = [7]\<rparr> 3
       (sys_server (play takeover_run first_start)) = (Inl (VNIClaimedBy 7 ''cs''), s') \<and>
     overlayClaims s' \<in> {overlayClaims (sys_server (play takeover_run first_start)),
       overlayClaims (snd (expireCoordinationLocked 3 (sys_server (play takeover_run first_start))))}"
proof -
  let ?r = "reserveOverlays takeover_env
       \<lparr>or_lab = ''ee'', or_hold = [], or_fence = \<lparr>Token = ''k2'', Generation = 1\<rparr>, or_vnis = [7]\<rparr> 3
       (sys_server (play takeover_run first_start))"
  have "(case fst ?r of Inl (VNIClaimedBy v lab) \<Rightarrow> v = 7 \<and> lab = ''cs'' | _ \<Rightarrow> False)"
    by code_simp
  then have r: "?r = (Inl (VNIClaimedBy 7 ''cs''), snd ?r)"
    by (auto simp: prod_eq_iff split: sum.splits agent_error.splits)
  have "\<forall>v. env_revert takeover_env v" "env_save_adopted takeover_env"
    by (simp_all add: takeover_env_def)
  then show ?thesis
    using refused_reservation_leaves_claims [OF r] r by blast
qed

end
