(* ===== verification/Lifespan.thy ===== *)
theory Lifespan
  imports Frames
begin

text \<open>
  How long a disposable lab can live: its absolute ceiling is set by the first deployment and no
  renewal, redeployment or failed write moves it, so that once the ceiling has passed the lab is
  on the list of the reaper; and what the reaper removes is gone completely.
\<close>

section \<open>Well-formed lifetimes\<close>

definition lifetime_ok :: "string \<Rightarrow> ephemeralLease \<Rightarrow> bool" where
  "lifetime_ok lab l \<longleftrightarrow>
     eph_lab l = lab \<and> 0 < eph_created l \<and> eph_hard l = eph_created l + maxEphemeralLifetime
     \<and> 0 < eph_expires l \<and> 0 < eph_ttl l \<and> eph_ttl l \<le> maxEphemeralTTLSeconds"

definition lifetimes_ok :: "(string, ephemeralLease) fmap \<Rightarrow> bool" where
  "lifetimes_ok m \<longleftrightarrow> (\<forall>lab l. fmlookup m lab = Some l \<longrightarrow> lifetime_ok lab l)"

definition journal_lifetimes :: "Server \<Rightarrow> (string, ephemeralLease) fmap" where
  "journal_lifetimes s =
     (case store s of
        None \<Rightarrow> fmempty
      | Some st \<Rightarrow> (case st_coordination st of None \<Rightarrow> fmempty | Some d \<Rightarrow> Ephemeral d))"

definition mortal :: "Server \<Rightarrow> bool" where
  "mortal s \<longleftrightarrow> lifetimes_ok (ephemeral s) \<and> lifetimes_ok (journal_lifetimes s)"

text \<open>One step keeps the lifetimes well formed and moves no ceiling.\<close>

definition same_ceilings :: "(string, ephemeralLease) fmap \<Rightarrow> (string, ephemeralLease) fmap \<Rightarrow> bool" where
  "same_ceilings m m' \<longleftrightarrow>
     (\<forall>lab l l'. fmlookup m lab = Some l \<longrightarrow> fmlookup m' lab = Some l' \<longrightarrow> eph_hard l' = eph_hard l)"

definition ages :: "Server \<Rightarrow> Server \<Rightarrow> bool" where
  "ages s s' \<longleftrightarrow> mortal s \<longrightarrow> mortal s' \<and> same_ceilings (ephemeral s) (ephemeral s')"

lemma journal_lifetimes_save:
  "journal_lifetimes (snd (saveCoordinationLocked ok s)) =
     (if store s \<noteq> None \<and> ok then ephemeral s else journal_lifetimes s)"
  by (auto simp: saveCoordinationLocked_def journal_lifetimes_def journal_of_def split: option.splits)

lemma mortal_save [simp]: "mortal s \<Longrightarrow> mortal (snd (saveCoordinationLocked ok s))"
  by (simp add: mortal_def journal_lifetimes_save)

lemma journal_lifetimes_upd [simp]: "journal_lifetimes (s\<lparr>ephemeral := m\<rparr>) = journal_lifetimes s"
  by (simp add: journal_lifetimes_def)

lemma mortal_fields [simp]:
  "mortal (s\<lparr>mutations := a\<rparr>) = mortal s" "mortal (s\<lparr>overlayClaims := b\<rparr>) = mortal s"
  "mortal (s\<lparr>gcCollecting := c\<rparr>) = mortal s" "mortal (s\<lparr>fenceHighWater := d\<rparr>) = mortal s"
  "mortal (s\<lparr>current := e\<rparr>) = mortal s" "mortal (s\<lparr>modes := f\<rparr>) = mortal s"
  "mortal (s\<lparr>ungraded := g\<rparr>) = mortal s" "mortal (s\<lparr>peers := h\<rparr>) = mortal s"
  "mortal (s\<lparr>transactions := i\<rparr>) = mortal s" "mortal (s\<lparr>generations := j\<rparr>) = mortal s"
  "mortal (s\<lparr>inventories := k\<rparr>) = mortal s" "mortal (s\<lparr>overlayLineage := m\<rparr>) = mortal s"
  "mortal (s\<lparr>ops := n\<rparr>) = mortal s" "mortal (s\<lparr>opSequence := p\<rparr>) = mortal s"
  "mortal (s\<lparr>holds := q\<rparr>) = mortal s" "mortal (s\<lparr>repairFails := r\<rparr>) = mortal s"
  "mortal (s\<lparr>repairNext := u\<rparr>) = mortal s" "mortal (s\<lparr>semanticCycles := v\<rparr>) = mortal s"
  "mortal (s\<lparr>repairTerminal := w\<rparr>) = mortal s" "mortal (s\<lparr>semanticGraceUntil := x\<rparr>) = mortal s"
  "mortal (s\<lparr>exempt := y\<rparr>) = mortal s" "mortal (s\<lparr>partial := z\<rparr>) = mortal s"
  "mortal (s\<lparr>gcSeen := aa\<rparr>) = mortal s" "mortal (snd (expireCoordinationLocked t s)) = mortal s"
  by (simp_all add: mortal_def journal_lifetimes_def)

lemma mortal_other_file [simp]:
  "store s = Some st \<Longrightarrow> st_coordination st' = st_coordination st \<Longrightarrow> mortal (s\<lparr>store := Some st'\<rparr>) = mortal s"
  by (simp add: mortal_def journal_lifetimes_def)

text \<open>Every change of the lifetimes is one entry, then the journal, and on failure the entry back.\<close>

lemma mortal_upd: "mortal s \<Longrightarrow> lifetimes_ok m \<Longrightarrow> mortal (s\<lparr>ephemeral := m\<rparr>)"
  by (simp add: mortal_def)

lemma lifetimes_ok_rules:
  "lifetimes_ok m \<Longrightarrow> lifetimes_ok (fmdrop lab m)"
  "lifetimes_ok m \<Longrightarrow> lifetime_ok lab l \<Longrightarrow> lifetimes_ok (fmupd lab l m)"
  "lifetimes_ok m \<Longrightarrow> lifetimes_ok m' \<Longrightarrow> lifetimes_ok (m ++\<^sub>f m')"
  by (auto simp: lifetimes_ok_def split: if_splits)

lemma clampEphemeral_bounds:
  "0 < clampEphemeralSeconds n" "clampEphemeralSeconds n \<le> maxEphemeralTTLSeconds"
  by (auto simp: clampEphemeralSeconds_def defaultEphemeralTTLSeconds_def maxEphemeralTTLSeconds_def Let_def)

lemma clampEphemeralTTL_bounds: "0 < clampEphemeralTTL n" "clampEphemeralTTL n div second = clampEphemeralSeconds n"
  using clampEphemeral_bounds [of n] by (simp_all add: clampEphemeralTTL_def second_def)

interpretation lifetimes: onlooker ages
  by unfold_locales (auto simp: ages_def same_ceilings_def)

lemma ages_fields [simp]:
  "ages s (s'\<lparr>mutations := a\<rparr>) = ages s s'" "ages s (s'\<lparr>overlayClaims := b\<rparr>) = ages s s'"
  "ages s (s'\<lparr>gcCollecting := c\<rparr>) = ages s s'" "ages s (s'\<lparr>fenceHighWater := d\<rparr>) = ages s s'"
  "ages s (snd (expireCoordinationLocked t s')) = ages s s'"
  by (simp_all add: ages_def)

definition stays_mortal :: "Server \<Rightarrow> Server \<Rightarrow> bool" where
  "stays_mortal s s' \<longleftrightarrow> (mortal s \<longrightarrow> mortal s')"

interpretation revived: starter stays_mortal "\<lambda>t. 0 < t"
proof unfold_locales
  show "stays_mortal s (snd (restoreEphemeralLeaseLocked lab ttl g t s'))"
    if "stays_mortal s s'" "0 < t" for s s' lab ttl g t
  proof -
    define d where "d = (if clampEphemeralTTL ttl < ephemeralRestartGrace then ephemeralRestartGrace else clampEphemeralTTL ttl)"
    have "0 < d" "0 < d div second" "d div second \<le> maxEphemeralTTLSeconds"
      using clampEphemeralTTL_bounds [of ttl] clampEphemeral_bounds [of ttl]
      by (auto simp: d_def ephemeralRestartGrace_def maxEphemeralTTLSeconds_def minute_def second_def)
    then show ?thesis
      using that by (auto simp: stays_mortal_def restoreEphemeralLeaseLocked_def Let_def mortal_def d_def [symmetric] lifetime_ok_def
          intro!: lifetimes_ok_rules split: option.split)
  qed
qed (auto simp: stays_mortal_def)

text \<open>The lease a deployment leaves.\<close>

definition noted :: "string \<Rightarrow> string \<Rightarrow> int \<Rightarrow> string \<Rightarrow> go_time \<Rightarrow> ephemeralLease option \<Rightarrow> ephemeralLease" where
  "noted lab owner ttl g t previous =
     (let l0 = \<lparr>eph_lab = lab, eph_owner = owner, eph_ttl = clampEphemeralTTL ttl div second, eph_generation = g,
                eph_created = t, eph_expires = t + clampEphemeralTTL ttl, eph_hard = t + maxEphemeralLifetime,
                eph_restored = False\<rparr>
      in case previous of
           Some p \<Rightarrow> if eph_created p \<noteq> 0 \<and> eph_hard p \<noteq> 0
                     then l0\<lparr>eph_created := eph_created p, eph_hard := eph_hard p\<rparr> else l0
         | None \<Rightarrow> l0)"

lemma noteEphemeralLease_noted:
  "snd (noteEphemeralLease ok lab owner ttl g t s) \<in>
     {s, snd (saveCoordinationLocked ok (s\<lparr>ephemeral := fmupd lab (noted lab owner ttl g t (fmlookup (ephemeral s) lab))
            (ephemeral s)\<rparr>))}"
  by (auto simp: noteEphemeralLease_def noted_def Let_def case_prod_unfold fmupd_undo dest!: save_False
      split: option.split)

lemma maxEphemeralLifetime_pos: "0 < maxEphemeralLifetime"
  by (simp add: maxEphemeralLifetime_def hour_def minute_def second_def)

lemma lifetime_ok_hard: "lifetime_ok lab l \<Longrightarrow> 0 < eph_hard l"
  using maxEphemeralLifetime_pos by (simp add: lifetime_ok_def)

lemma noted_ok:
  assumes "0 < t" "\<forall>p. previous = Some p \<longrightarrow> lifetime_ok lab p"
  shows "lifetime_ok lab (noted lab owner ttl g t previous)"
  using assms clampEphemeralTTL_bounds [of ttl] clampEphemeral_bounds [of ttl]
  by (simp add: noted_def Let_def lifetime_ok_def split: option.split)

lemma noted_hard:
  "lifetime_ok lab p \<Longrightarrow> eph_hard (noted lab owner ttl g t (Some p)) = eph_hard p"
  using lifetime_ok_hard [of lab p] by (simp add: noted_def Let_def lifetime_ok_def)

lemma ages_entry:
  assumes "ages s0 s" "ephemeral s = ephemeral s0"
    and "mortal s \<Longrightarrow> lifetime_ok lab l \<and> (\<forall>p. fmlookup (ephemeral s) lab = Some p \<longrightarrow> eph_hard l = eph_hard p)"
  shows "ages s0 (s\<lparr>ephemeral := fmupd lab l (ephemeral s)\<rparr>)"
  using assms by (auto simp: ages_def same_ceilings_def mortal_upd lifetimes_ok_rules mortal_def)

lemma ages_drop: "ages s0 s \<Longrightarrow> ages s0 (s\<lparr>ephemeral := fmdrop lab (ephemeral s)\<rparr>)"
  by (auto simp: ages_def same_ceilings_def mortal_upd lifetimes_ok_rules mortal_def split: if_splits)

lemma note_ages:
  assumes "ages s0 s" "ephemeral s = ephemeral s0" "0 < t"
  shows "ages s0 (snd (noteEphemeralLease ok lab owner ttl g t s))"
proof -
  have "ages s0 (s\<lparr>ephemeral := fmupd lab (noted lab owner ttl g t (fmlookup (ephemeral s) lab)) (ephemeral s)\<rparr>)"
    using assms(3) by (intro ages_entry assms) (auto simp: mortal_def lifetimes_ok_def noted_ok noted_hard)
  then show ?thesis
    using noteEphemeralLease_noted [of ok lab owner ttl g t s] assms(1) by auto
qed

lemma renewed_hard [simp]: "eph_hard (renewed_lease ttl t l) = eph_hard l"
  by (simp add: renewed_lease_def Let_def)

lemma renewed_ok:
  assumes "0 < t" "lifetime_ok lab l"
  shows "lifetime_ok lab (renewed_lease ttl t l)"
  using assms clampEphemeralTTL_bounds clampEphemeral_bounds
    lifetime_ok_hard [OF assms(2)]
  by (auto simp: renewed_lease_def Let_def lifetime_ok_def add_pos_pos)

lemma renew_ages:
  assumes "0 < t"
  shows "ages s (snd (renewEphemeralLease ok req t s))"
proof (cases "fmlookup (ephemeral s) (ep_lab req)")
  case None
  then show ?thesis
    by (simp add: renewEphemeralLease_def Let_def)
next
  case (Some l)
  have "ages s (s\<lparr>ephemeral := fmupd (ep_lab req) (renewed_lease (ep_ttl req) t l) (ephemeral s)\<rparr>)"
    using assms Some by (intro ages_entry) (auto simp: mortal_def lifetimes_ok_def renewed_ok)
  moreover have "snd (renewEphemeralLease ok req t s) \<in>
      {s, snd (saveCoordinationLocked ok (s\<lparr>ephemeral := fmdrop (ep_lab req) (ephemeral s)\<rparr>)),
       snd (saveCoordinationLocked ok
         (s\<lparr>ephemeral := fmupd (ep_lab req) (renewed_lease (ep_ttl req) t l) (ephemeral s)\<rparr>))}"
    using Some by (auto simp: renewEphemeralLease_def Let_def case_prod_unfold fmupd_undo dest!: save_False)
  ultimately show ?thesis
    by (auto simp: ages_drop)
qed

lemma forget_ages:
  "ages s0 s \<Longrightarrow> ages s0 (snd (forgetEphemeralLease ok lab s))"
  "ages s0 s \<Longrightarrow> ages s0 (dropEphemeralLease ok lab s)"
  by (auto simp: forgetEphemeralLease_def dropEphemeralLease_def Let_def case_prod_unfold ages_drop fmupd_undo
      dest!: save_False split: option.split)

lemma destroy_ages: "ages s (snd (finishDestroyedLab ok lab f t s))"
proof -
  let ?s1 = "s\<lparr>overlayClaims := fm_keep (\<lambda>_ c. claim_lab c \<noteq> lab) (overlayClaims s),
                   generations := fmdrop lab (generations s),
                   transactions := fmdrop lab (transactions s),
                   inventories := fmdrop lab (inventories s),
                   overlayLineage := fmdrop lab (overlayLineage s),
                   ephemeral := fmdrop lab (ephemeral s)\<rparr>"
  have s1: "ages s ?s1"
    by (auto simp: ages_def same_ceilings_def mortal_def journal_lifetimes_def lifetimes_ok_rules split: if_splits)
  have restore: "restore_entry lab (fmlookup (ephemeral s) lab) (fmdrop lab (ephemeral s)) = ephemeral s"
    by (cases "fmlookup (ephemeral s) lab") (simp_all add: restore_entry_def fmupd_undo)
  have undone: "ages s (?s1\<lparr>overlayClaims := a, generations := b, transactions := c, inventories := d, overlayLineage := e,
      ephemeral := ephemeral s\<rparr>)" for a b c d e
    by (auto simp: ages_def same_ceilings_def mortal_def journal_lifetimes_def)
  show ?thesis
    using s1 undone unfolding finishDestroyedLab_def
    by (intro lifetimes.fenced_R) (auto simp: Let_def case_prod_unfold restore dest!: save_False)
qed

lemma installed_lifetimes [simp]:
  "ephemeral (install_topology lab tp how ps s) = ephemeral s" "ephemeral (put_topology lab raw s) = ephemeral s"
  by (auto simp: install_topology_def put_topology_def rememberHow_def Let_def split: option.split)

lemma commit_ages: "0 < t \<Longrightarrow> ages s (snd (record_commit okp ok tx w tp owner t s))"
  by (auto simp: record_commit_def Let_def lifetimes.store_R forget_ages intro!: note_ages split: sum.split)

section \<open>The other requests\<close>

lemma refuse_ages [simp]: "ages s s' \<Longrightarrow> ages s (snd (refuse ok changed e s'))"
  by (simp add: refuse_def)

lemma lease_ages:
  "ages s (snd (requireMutationFence ok lab f t t' s))"
  "ages s (snd (mutationLeaseHolder lab t s))"
  "ages s (snd (releaseMutationLease ok req t s))"
  "ages s (snd (renewMutationLease ok req' t s))"
  by (auto simp: requireMutationFence_def mutationLeaseHolder_def releaseMutationLease_def renewMutationLease_def
      Let_def case_prod_unfold simp del: expire_components split: option.split)

lemma acquire_ages:
  "ages s (snd (acquireMutationLease ok req token t s))"
  "ages s (snd (acquireRecoveryFence ok ok' limit lab token t s))"
  by (auto simp: acquireMutationLease_def acquireRecoveryFence_def issue_lease_def drop_lease_def
      Let_def case_prod_unfold simp del: expire_components split: option.split)

lemma rollback_ages [simp]: "ages s s' \<Longrightarrow> ages s (rollbackLegacyAdoptionsLocked env lab adopted before s')"
  by (simp add: rollbackLegacyAdoptionsLocked_def Let_def)

lemma adopt_loop_ages [simp]: "ages s s' \<Longrightarrow> ages s (snd (adopt_loop env lab g before adopted vs s'))"
  by (induction env lab g before adopted vs s' rule: adopt_loop.induct) auto

lemma reserve_ages: "ages s (snd (reserveOverlays env req t s))"
  by (auto simp: reserveOverlays_def reserve_accepted_def Let_def case_prod_unfold simp del: expire_components
      split: sum.split option.split)

lemma claims_ages:
  "ages s (snd (requireOverlayReservations ok otp f t s))" "ages s (snd (releaseOverlayClaims ok lab vs s))"
  "ages s (snd (restoreOverlayClaims ok lab f vs s))" "ages s (snd (promoteOverlayReservations ok vs lab f t s))"
  by (auto simp: requireOverlayReservations_def releaseOverlayClaims_def restoreOverlayClaims_def
      promoteOverlayReservations_def Let_def case_prod_unfold simp del: expire_components split: option.split)

lemma collect_ages:
  "ages s (snd (beginOverlayCollection v owner t s))" "ages s (endOverlayCollection ok v owner s)"
  "ages s (snd (gcProtectedLabs ok listed t s))"
  by (auto simp: beginOverlayCollection_def endOverlayCollection_def gcProtectedLabs_def Let_def
      case_prod_unfold simp del: expire_components split: option.split)

lemma stale_ages: "ages s (snd (gcReleaseStaleLiveClaims ok prot grace t s))"
proof -
  have one: "ages s (snd (release_stale_claim prot grace t v ns))" if "ages s (snd ns)" for v ns
    using that lifetimes.gcEligible_R [of s "snd ns"]
    by (auto simp: release_stale_claim_def Let_def case_prod_unfold split: option.split)
  have "ages s (snd (fold (release_stale_claim prot grace t) vs ns))" if "ages s (snd ns)" for vs ns
    using that by (induction vs arbitrary: ns) (simp_all add: one)
  from this [of "(0, s)"] show ?thesis
    by (auto simp: gcReleaseStaleLiveClaims_def Let_def case_prod_unfold)
qed

lemma rollback_first_ages: "ages s (snd (rollback_first ok okf lab s))"
  using claims_ages(2) [of s ok lab "[]"]
  by (auto simp: rollback_first_def Let_def lifetimes.store_R split: prod.split sum.split)

text \<open>The clock of a running node is past Go's zero time.\<close>

fun timely :: "move \<Rightarrow> Sys \<Rightarrow> bool" where
  "timely (Request (RecordCommit okp ok tx w tp owner t)) y = (0 < t)"
| "timely (Request (RenewLifetime ok req t)) y = (0 < t)"
| "timely (Crash ok okp ok' t t' t'') y = (0 < t'')"
| "timely _ y = True"

lemma request_ages:
  assumes "timely (Request r) y"
  shows "ages s (exec r s)"
proof (cases "touches r")
  case True
  then show ?thesis
    using assms by (cases r)
      (auto simp: lease_ages reserve_ages claims_ages collect_ages stale_ages rollback_first_ages commit_ages
        renew_ages forget_ages destroy_ages split: fenced_request.splits)
qed (rule lifetimes.untouched_R)

lemma move_ages:
  assumes "timely m y" "\<nexists>ok okp ok' t t' t''. m = Crash ok okp ok' t t' t''"
  shows "ages (sys_server y) (sys_server (play1 m y))"
  using assms by (cases m) (simp_all add: play1_server request_ages acquire_ages del: play1.simps)

lemma load_ephemeral_ok: "lifetime_ok lab l \<Longrightarrow> fst (load_ephemeral t lab l) = l"
  using lifetime_ok_hard [of lab l] by (cases l) (simp add: load_ephemeral_def lifetime_ok_def)

lemma start_mortal:
  assumes "0 < t''" "lifetimes_ok (journal_lifetimes (fresh_server node st))"
  shows "mortal (New_server ok okp ok' t t' t'' node st)"
proof -
  have loaded: "lifetimes_ok (fmmap_keys (\<lambda>lab l. fst (load_ephemeral t lab l)) m)" if "lifetimes_ok m" for m
    using that by (auto simp: lifetimes_ok_def load_ephemeral_ok)
  let ?s = "fresh_server node st"
  have fresh: "mortal ?s" "ephemeral ?s = fmempty" "store ?s = st"
    using assms(2) by (simp_all add: mortal_def fresh_server_def lifetimes_ok_def)
  have read: "mortal (snd (load_journal t disk ?s))" if "st = Some d" "st_coordination d = Some disk" for d disk
  proof -
    have "lifetimes_ok (Ephemeral disk)"
      using that assms(2) fresh(3) by (simp add: journal_lifetimes_def)
    then show ?thesis
      using fresh(1,2) loaded [of "Ephemeral disk"] by (simp add: load_journal_def mortal_def journal_lifetimes_def)
  qed
  have "mortal (loadCoordination ok t t' ?s)"
    using fresh read by (auto simp: loadCoordination_def Let_def case_prod_unfold split: option.split)
  then show ?thesis
    using revived.start.New_server_R [of t'' ok t t' node st okp ok'] assms(1)
    by (simp add: stays_mortal_def)
qed

interpretation lifespan: inductive_invariant sys_init "sys_step timely" "\<lambda>y. mortal (sys_server y)"
proof unfold_locales
  show "mortal (sys_server y)" if "sys_init y" for y
    using that by (auto simp: sys_init_def fresh_server_def mortal_def lifetimes_ok_def journal_lifetimes_def)
  show "mortal (sys_server y')" if y: "mortal (sys_server y)" "sys_step timely y y'" for y y'
  proof -
    obtain m where m: "timely m y" "y' = play1 m y"
      using y(2) by (auto elim: sys_stepE)
    show ?thesis
    proof (cases "\<exists>ok okp ok' t t' t''. m = Crash ok okp ok' t t' t''")
      case True
      then obtain ok okp ok' t t' t'' where c: "m = Crash ok okp ok' t t' t''"
        by blast
      have "journal_lifetimes (fresh_server node (store s)) = journal_lifetimes s" for node and s :: Server
        by (simp add: journal_lifetimes_def fresh_server_def)
      then show ?thesis
        using m y(1) c start_mortal by (simp add: play1_server mortal_def del: play1.simps)
    next
      case False
      then show ?thesis
        using move_ages [OF m(1) False] y(1) m(2) by (simp add: ages_def)
    qed
  qed
qed

section \<open>The ceiling\<close>

lemma deadline_le_hard: "lifetime_ok lab l \<Longrightarrow> eph_deadline l \<le> eph_hard l \<and> 0 < eph_deadline l"
  using lifetime_ok_hard [of lab l] by (auto simp: eph_deadline_def lifetime_ok_def)

text \<open>In every state a node reaches, across redeployments, renewals, failed writes and restarts,
  every disposable lab has a lifetime of its own name whose deadline is at most eight hours after
  its first deployment, and whose interval is between one second and one hour.\<close>

theorem lifetimes_are_bounded:
  assumes "reach sys_init (sys_step timely) y" "fmlookup (ephemeral (sys_server y)) lab = Some l"
  shows "eph_lab l = lab \<and> eph_deadline l \<le> eph_created l + 8 * hour \<and> 0 < eph_created l \<and>
    1 \<le> eph_ttl l \<and> eph_ttl l \<le> 3600"
proof -
  have "lifetime_ok lab l"
    using lifespan.inv_reach [OF assms(1)] assms(2) by (simp add: mortal_def lifetimes_ok_def)
  then show ?thesis
    using deadline_le_hard [of lab l] by (auto simp: lifetime_ok_def maxEphemeralLifetime_def maxEphemeralTTLSeconds_def)
qed

text \<open>A disposable lab deployed with a day to live, renewed, and redeployed two hours later.\<close>

definition disposable_wire :: Wire where
  "disposable_wire = demo_wire\<lparr>wire_ephemeral := True, wire_ephemeral_ttl := 86400\<rparr>"

definition disposable_tx :: applyTransaction where
  "disposable_tx = new_transaction demo_prepare demo_fence ModePlatform NoMessage [] ModePlatform 0"

definition disposable_run :: "move list" where
  "disposable_run =
     [Request (RecordCommit True True disposable_tx disposable_wire demo_topology ''alice'' 1),
      Request (RenewLifetime True \<lparr>ep_lab = ''cs'', ep_owner = ''alice'', ep_ttl = 0, ep_release = False\<rparr> (3000 * second)),
      Request (RecordCommit True True disposable_tx disposable_wire demo_topology ''alice'' (2 * hour))]"

definition ceiling_of :: "string \<Rightarrow> Server \<Rightarrow> (go_time \<times> go_time \<times> go_time) option" where
  "ceiling_of lab s = map_option (\<lambda>l. (eph_created l, eph_expires l, eph_hard l)) (fmlookup (ephemeral s) lab)"

lemma disposable_run_state:
  "moves_allowed timely disposable_run first_start"
  "ceiling_of ''cs'' (sys_server (play disposable_run first_start)) = Some (1, 3 * hour, 1 + 8 * hour)"
  by code_simp+

theorem lifetimes_are_bounded_witness:
  "\<exists>l. fmlookup (ephemeral (sys_server (play disposable_run first_start))) ''cs'' = Some l \<and>
     eph_created l = 1 \<and> eph_deadline l \<le> eph_created l + 8 * hour \<and> eph_ttl l \<le> 3600"
proof -
  have "reach sys_init (sys_step timely) (play disposable_run first_start)"
    by (rule play_reach [OF reach_first_start disposable_run_state(1)])
  moreover obtain l where "fmlookup (ephemeral (sys_server (play disposable_run first_start))) ''cs'' = Some l"
    "eph_created l = 1"
    using disposable_run_state(2) by (auto simp: ceiling_of_def)
  ultimately show ?thesis
    using lifetimes_are_bounded by blast
qed

text \<open>C18: No renewal, redeployment, failed write or other request of a running node moves the ceiling
  of a disposable lab: once it has passed, the next step leaves the lab without a lifetime (it was
  destroyed, released or redeployed as a durable lab) or on the list the reaper works through.\<close>

theorem ceiling_cannot_be_outlived:
  assumes "reach sys_init (sys_step timely) y" "timely m y" "\<nexists>ok okp ok' t t' t''. m = Crash ok okp ok' t t' t''"
    and "fmlookup (ephemeral (sys_server y)) lab = Some l" "eph_hard l \<le> now"
  shows "fmlookup (ephemeral (sys_server (play1 m y))) lab = None \<or>
    lab \<in> set (expiredEphemeralLabs now (sys_server (play1 m y)))"
proof (cases "fmlookup (ephemeral (sys_server (play1 m y))) lab")
  case (Some l')
  have a: "mortal (sys_server (play1 m y))" "same_ceilings (ephemeral (sys_server y)) (ephemeral (sys_server (play1 m y)))"
    using move_ages [OF assms(2,3)] lifespan.inv_reach [OF assms(1)] by (simp_all add: ages_def)
  have "eph_hard l' = eph_hard l" "lifetime_ok lab l'"
    using a assms(4) Some by (auto simp: same_ceilings_def mortal_def lifetimes_ok_def)
  then have "eph_expired l' now"
    using deadline_le_hard [of lab l'] assms(5) by (simp add: eph_expired_def)
  then show ?thesis
    using Some by (auto simp: expiredEphemeralLabs_def)
qed simp

theorem ceiling_cannot_be_outlived_witness:
  "let m = Request (RecordCommit True True disposable_tx disposable_wire demo_topology ''alice'' (9 * hour)) in
   ''cs'' \<in> set (expiredEphemeralLabs (9 * hour) (sys_server (play1 m (play disposable_run first_start))))"
proof -
  let ?m = "Request (RecordCommit True True disposable_tx disposable_wire demo_topology ''alice'' (9 * hour))"
  let ?y = "play disposable_run first_start"
  have "reach sys_init (sys_step timely) ?y"
    by (rule play_reach [OF reach_first_start disposable_run_state(1)])
  moreover obtain l where l: "fmlookup (ephemeral (sys_server ?y)) ''cs'' = Some l" "eph_hard l = 1 + 8 * hour"
    using disposable_run_state(2) by (auto simp: ceiling_of_def)
  moreover have "timely ?m ?y" "eph_hard l \<le> 9 * hour"
    using l(2) by (simp_all add: hour_def minute_def second_def)
  moreover have "ceiling_of ''cs'' (sys_server (play1 ?m ?y)) \<noteq> None"
    by code_simp
  ultimately show ?thesis
    using ceiling_cannot_be_outlived [of ?y ?m "''cs''" l "9 * hour"] by (auto simp: ceiling_of_def Let_def)
qed

section \<open>Reclaiming a lab\<close>

definition no_files :: "string \<Rightarrow> Server \<Rightarrow> bool" where
  "no_files lab s \<longleftrightarrow>
     (case store s of
        None \<Rightarrow> True
      | Some st \<Rightarrow> fmlookup (st_topology st) lab = None \<and> fmlookup (st_holds st) lab = None
                  \<and> fmlookup (st_exempt st) lab = None)"

definition gone :: "string \<Rightarrow> Server \<Rightarrow> bool" where
  "gone lab s \<longleftrightarrow>
     fmlookup (current s) lab = None \<and> fmlookup (transactions s) lab = None \<and> fmlookup (generations s) lab = None
     \<and> fmlookup (inventories s) lab = None \<and> fmlookup (ephemeral s) lab = None
     \<and> \<not> fm_exists (\<lambda>_ c. claim_lab c = lab) (overlayClaims s) \<and> no_files lab s"

lemma no_files_save [simp]: "no_files lab (snd (saveCoordinationLocked ok s)) = no_files lab s"
  by (auto simp: no_files_def saveCoordinationLocked_def split: option.splits)

lemma no_files_expire [simp]: "no_files lab (snd (expireCoordinationLocked t s)) = no_files lab s"
  by (simp add: no_files_def)

lemma gone_rules [simp]:
  "gone lab s \<Longrightarrow> gone lab (snd (saveCoordinationLocked ok s))"
  "gone lab s \<Longrightarrow> gone lab (snd (expireCoordinationLocked t s))"
  "gone lab (s\<lparr>mutations := a\<rparr>) = gone lab s" "gone lab (s\<lparr>ops := b\<rparr>) = gone lab s"
  by (auto simp: gone_def no_files_def fm_exists_iff fmlookup_fm_keep_None)
    (auto simp: saveCoordinationLocked_def split: option.splits)

lemma gone_keep [simp]:
  "gone lab s \<Longrightarrow> gone lab (s\<lparr>mutations := a, overlayClaims := fm_keep P (overlayClaims s)\<rparr>)"
  by (auto simp: gone_def no_files_def fm_exists_iff)

lemma gone_release: "gone lab s \<Longrightarrow> gone lab (snd (releaseMutationLease ok req t s))"
  by (auto simp: releaseMutationLease_def refuse_def Let_def case_prod_unfold simp del: expire_components
      split: option.split)

lemma destroyed_gone:
  assumes "finishDestroyedLab ok lab f t s = (Inr r, s')" "no_files lab s"
  shows "gone lab s'"
  using assms
  by (auto simp: finishDestroyedLab_def forget_repairs_def gone_def Let_def case_prod_unfold fm_exists_iff
      dest!: fenced_Inr split: if_splits)
    (simp add: no_files_def saveCoordinationLocked_def split: option.splits)

lemma forgotten_no_files: "store s = None \<or> ok \<Longrightarrow> no_files lab (store_forget ok lab s)"
  by (auto simp: no_files_def store_forget_def split: option.split)

lemma gone_drop: "gone lab s \<Longrightarrow> gone lab (dropEphemeralLease ok lab s)"
  by (simp add: dropEphemeralLease_def gone_def)

lemma gone_end: "gone lab s \<Longrightarrow> gone lab (releaseOperation lab n s)"
  by (auto simp: releaseOperation_def split: option.split)

lemma reclaimed_gone:
  assumes "reclaim_with_fence env lab f s = (Reclaimed, s')"
  shows "gone lab s'"
proof -
  obtain n s1 where a: "acquireForcedOperation lab ''ephemeral_reap'' True (rv_t3 env) s = (Acquired n, s1)"
    using assms by (auto simp: reclaim_with_fence_def split: prod.splits attempt.splits)
  let ?s2 = "store_forget (rv_forgotten env) lab s1"
  obtain r where r: "fst (finishDestroyedLab (rv_ok env 2) lab f (rv_t4 env) ?s2) = Inr r"
    "store s1 = None \<or> rv_forgotten env"
    "s' = releaseOperation lab n
       (dropEphemeralLease (rv_ok env 3) lab (snd (finishDestroyedLab (rv_ok env 2) lab f (rv_t4 env) ?s2)))"
    using assms a by (auto simp: reclaim_with_fence_def Let_def case_prod_unfold split: if_splits sum.splits)
  have "finishDestroyedLab (rv_ok env 2) lab f (rv_t4 env) ?s2 =
      (Inr r, snd (finishDestroyedLab (rv_ok env 2) lab f (rv_t4 env) ?s2))"
    by (simp add: prod_eq_iff r(1))
  from destroyed_gone [OF this forgotten_no_files [OF r(2)]] show ?thesis
    by (simp add: r(3) gone_drop gone_end)
qed


definition reap_env :: reclaim_env where
  "reap_env = \<lparr>rv_t1 = 9 * hour, rv_t2 = 9 * hour + 1, rv_t3 = 9 * hour + 2, rv_t4 = 9 * hour + 3, rv_ok = (\<lambda>_. True),
     rv_token = Some ''k9'', rv_limit = 5 * minute, rv_destroyed = True, rv_forgotten = True\<rparr>"


text \<open>C20: The reaper never touches a lab in use: while a controller's lease or a grading hold of the
  lab is running, reclaiming it is deferred and its topology, transaction, generation, lifetime
  and files are as before.\<close>

theorem reaper_waits_for_users:
  assumes "(\<exists>l. fmlookup (mutations s) lab = Some l \<and> rv_t1 env < lease_until l) \<or>
    (\<exists>h. fmlookup (holds s) lab = Some h \<and> rv_t1 env \<le> hold_until h)"
  shows "fst (reclaimEphemeralLab env lab s) = Deferred \<and>
    current (snd (reclaimEphemeralLab env lab s)) = current s \<and>
    transactions (snd (reclaimEphemeralLab env lab s)) = transactions s \<and>
    generations (snd (reclaimEphemeralLab env lab s)) = generations s \<and>
    ephemeral (snd (reclaimEphemeralLab env lab s)) = ephemeral s \<and>
    store (snd (reclaimEphemeralLab env lab s)) = store s"
  using assms
  by (auto simp: reclaimEphemeralLab_def mutationLeaseHolder_def heldBy_def live_hold_def Let_def fmlookup_fm_keep
      split: option.split)

theorem reaper_waits_for_users_witness:
  "fst (reclaimEphemeralLab reap_env ''cs''
     (sys_server (play1 (Acquire True \<lparr>acq_lab = ''cs'', acq_holder = ''alice'', acq_ttl = 60\<rparr> (Some ''k2'') (9 * hour - 1))
       (play disposable_run first_start)))) = Deferred"
proof -
  let ?y = "play1 (Acquire True \<lparr>acq_lab = ''cs'', acq_holder = ''alice'', acq_ttl = 60\<rparr> (Some ''k2'') (9 * hour - 1))
       (play disposable_run first_start)"
  have "case fmlookup (mutations (sys_server ?y)) ''cs'' of None \<Rightarrow> False | Some l \<Rightarrow> rv_t1 reap_env < lease_until l"
    by code_simp
  then have "\<exists>l. fmlookup (mutations (sys_server ?y)) ''cs'' = Some l \<and> rv_t1 reap_env < lease_until l"
    by (auto split: option.splits)
  then show ?thesis
    using reaper_waits_for_users by blast
qed

section \<open>A lifetime that outlasts its deployment\<close>

lemma recorded_lifetime:
  assumes "record_commit okp ok tx w tp owner t s = (Inr (), s')" "tx_only_steps tx = []" "wire_ephemeral w"
  shows "fmlookup (ephemeral s') (top_name tp) =
    Some (noted (top_name tp) owner (wire_ephemeral_ttl w) (tx_generation tx) t (fmlookup (ephemeral s) (top_name tp)))"
  using assms
  by (auto simp: record_commit_def committed_wire_def modeToPersist_def noteEphemeralLease_def noted_def Let_def
      case_prod_unfold split: sum.splits if_splits)

text \<open>C21: Rolling back a failed deployment does not take back the lifetime it recorded.  When a lab
  that had no lifetime is redeployed as a disposable one, the commit fails after it was recorded
  and the lab is rolled back completely, the lab still carries the lifetime of the failed
  generation, and is on the reaper's list when that runs out.\<close>

theorem rollback_keeps_failed_lifetime:
  assumes "record_commit okp ok tx w tp owner t s = (Inr (), s1)" "tx_only_steps tx = []" "wire_ephemeral w"
    and "fmlookup (ephemeral s) (top_name tp) = None" "0 \<le> t"
    and "restoreRecoveredTopology okp' (top_name tp) tx s1 = (Inr (), s2)"
    and "finishRecoveredGeneration ok' g (top_name tp) f t' s2 = (Inr (), s3)"
  shows "top_name tp \<in> set (expiredEphemeralLabs (t + clampEphemeralTTL (wire_ephemeral_ttl w)) s3)"
proof -
  define l where "l = noted (top_name tp) owner (wire_ephemeral_ttl w) (tx_generation tx) t None"
  have "fmlookup (ephemeral s1) (top_name tp) = Some l"
    using recorded_lifetime [OF assms(1-3)] assms(4) by (simp add: l_def)
  moreover have "ephemeral s2 = ephemeral s1"
    using assms(6) by (auto simp: restoreRecoveredTopology_def split: option.splits if_splits)
  moreover have "ephemeral s3 = ephemeral s2"
    using assms(7) by (auto simp: finishRecoveredGeneration_def forget_repairs_def Let_def case_prod_unfold
        dest!: fenced_Inr split: option.splits if_splits)
  moreover have "eph_expired l (t + clampEphemeralTTL (wire_ephemeral_ttl w))"
    using assms(5) clampEphemeralTTL_bounds(1) [of "wire_ephemeral_ttl w"] maxEphemeralLifetime_pos
    by (auto simp: l_def noted_def Let_def eph_expired_def eph_deadline_def)
  ultimately show ?thesis
    by (auto simp: expiredEphemeralLabs_def)
qed

text \<open>A durable lab, deployed and finalized; then a disposable redeployment that fails after it was
  recorded and is rolled back.\<close>

definition durable_server :: Server where
  "durable_server = sys_server (play
     (deploy_run @
      [Request (RecordCommit True True disposable_tx demo_wire demo_topology ''alice'' 4),
       Request (Fenced (FinishCommitted True None ''g1'') ''cs'' demo_fence 5),
       Request (Fenced (Finalize True ''g1'') ''cs'' demo_fence 6),
       Request (Fenced (Prepare True (Encoded demo_wire)
         (demo_prepare\<lparr>pr_expected := ''g1'', pr_generation := ''g2'', pr_requested := Encoded disposable_wire\<rparr>)) ''cs''
         demo_fence 7)]) first_start)"

definition failed_tx :: applyTransaction where
  "failed_tx = new_transaction
     (demo_prepare\<lparr>pr_expected := ''g1'', pr_generation := ''g2'', pr_requested := Encoded disposable_wire\<rparr>)
     demo_fence ModePlatform (Encoded demo_wire) ''g1'' ModePlatform 0"

theorem rollback_keeps_failed_lifetime_witness:
  "let s1 = snd (record_commit True True failed_tx disposable_wire demo_topology ''alice'' 8 durable_server);
       s2 = snd (restoreRecoveredTopology True ''cs'' failed_tx s1);
       s3 = snd (finishRecoveredGeneration True ''g2'' ''cs'' demo_fence 9 s2)
   in map_option top_ephemeral (fmlookup (current s3) ''cs'') = Some False \<and>
      ''cs'' \<in> set (expiredEphemeralLabs (8 + 3600 * second) s3)"
proof -
  let ?c = "record_commit True True failed_tx disposable_wire demo_topology ''alice'' 8 durable_server"
  let ?r = "restoreRecoveredTopology True ''cs'' failed_tx (snd ?c)"
  let ?f = "finishRecoveredGeneration True ''g2'' ''cs'' demo_fence 9 (snd ?r)"
  have acked: "is_ok (fst ?c)" "is_ok (fst ?r)" "is_ok (fst ?f)"
    by code_simp+
  have "ceiling_of ''cs'' durable_server = None" "map_option top_ephemeral (fmlookup (current (snd ?f)) ''cs'') = Some False"
    "clampEphemeralTTL (wire_ephemeral_ttl disposable_wire) = 3600 * second"
    by code_simp+
  moreover have "?c = (Inr (), snd ?c)" "?r = (Inr (), snd ?r)" "?f = (Inr (), snd ?f)"
    using acked by (auto simp: is_ok_iff prod_eq_iff)
  moreover have "tx_only_steps failed_tx = []" "wire_ephemeral disposable_wire" "top_name demo_topology = ''cs''"
    by (simp_all add: failed_tx_def new_transaction_def demo_prepare_def disposable_wire_def demo_topology_def)
  ultimately show ?thesis
    using rollback_keeps_failed_lifetime [of True True failed_tx disposable_wire demo_topology "''alice''" 8
        durable_server "snd ?c" True "snd ?r" True "''g2''" demo_fence 9 "snd ?f"]
    by (simp add: ceiling_of_def Let_def)
qed

end
