(* ===== verification/Typed.thy ===== *)
theory Typed
  imports Durability Frames
begin

text \<open>
  Well-formedness of the deployment transactions of a node, in memory and in the journal: every
  transaction names a generation and carries modes that the node accepts, in every state a run
  reaches.  And what preparing one does: a compare-and-swap on the committed generation.
\<close>

section \<open>Well-formed transactions\<close>

definition typed_tx :: "applyTransaction \<Rightarrow> bool" where
  "typed_tx tx \<longleftrightarrow>
     tx_generation tx \<noteq> [] \<and> RequireTransactionMode (tx_mode tx) = Inr (tx_mode tx)
     \<and> tx_previous_mode tx \<noteq> [] \<and> is_ok (RequireTransactionMode (tx_previous_mode tx))"

definition typed_txs :: "(string, applyTransaction) fmap \<Rightarrow> bool" where
  "typed_txs m \<longleftrightarrow> (\<forall>lab tx. fmlookup m lab = Some tx \<longrightarrow> typed_tx tx)"

definition journal_txs :: "Server \<Rightarrow> (string, applyTransaction) fmap" where
  "journal_txs s =
     (case store s of
        None \<Rightarrow> fmempty
      | Some st \<Rightarrow> (case st_coordination st of None \<Rightarrow> fmempty | Some d \<Rightarrow> Transactions d))"

definition typed :: "Server \<Rightarrow> bool" where
  "typed s \<longleftrightarrow> typed_txs (transactions s) \<and> typed_txs (journal_txs s)"

lemma journal_txs_save:
  "journal_txs (snd (saveCoordinationLocked ok s)) =
     (if store s \<noteq> None \<and> ok then transactions s else journal_txs s)"
  by (auto simp: saveCoordinationLocked_def journal_txs_def journal_of_def split: option.splits)

lemma typed_save [simp]: "typed s \<Longrightarrow> typed (snd (saveCoordinationLocked ok s))"
  by (simp add: typed_def journal_txs_save)

lemma typed_fields [simp]:
  "typed (s\<lparr>mutations := a\<rparr>) = typed s" "typed (s\<lparr>overlayClaims := b\<rparr>) = typed s"
  "typed (s\<lparr>gcCollecting := c\<rparr>) = typed s" "typed (s\<lparr>fenceHighWater := d\<rparr>) = typed s"
  "typed (s\<lparr>current := e\<rparr>) = typed s" "typed (s\<lparr>modes := f\<rparr>) = typed s"
  "typed (s\<lparr>ungraded := g\<rparr>) = typed s" "typed (s\<lparr>peers := h\<rparr>) = typed s"
  "typed (s\<lparr>ephemeral := i\<rparr>) = typed s" "typed (s\<lparr>generations := j\<rparr>) = typed s"
  "typed (s\<lparr>inventories := k\<rparr>) = typed s" "typed (s\<lparr>overlayLineage := m\<rparr>) = typed s"
  "typed (s\<lparr>ops := n\<rparr>) = typed s" "typed (s\<lparr>opSequence := p\<rparr>) = typed s"
  "typed (s\<lparr>holds := q\<rparr>) = typed s" "typed (s\<lparr>repairFails := r\<rparr>) = typed s"
  "typed (s\<lparr>repairNext := u\<rparr>) = typed s" "typed (s\<lparr>semanticCycles := v\<rparr>) = typed s"
  "typed (s\<lparr>repairTerminal := w\<rparr>) = typed s" "typed (s\<lparr>semanticGraceUntil := x\<rparr>) = typed s"
  "typed (s\<lparr>exempt := y\<rparr>) = typed s" "typed (s\<lparr>partial := z\<rparr>) = typed s"
  "typed (s\<lparr>gcSeen := aa\<rparr>) = typed s" "typed (snd (expireCoordinationLocked t s)) = typed s"
  by (simp_all add: typed_def journal_txs_def)

lemma typed_other_file [simp]:
  "store s = Some st \<Longrightarrow> st_coordination st' = st_coordination st \<Longrightarrow> typed (s\<lparr>store := Some st'\<rparr>) = typed s"
  by (simp add: typed_def journal_txs_def)

lemma typed_txs_rules:
  "typed_txs fmempty" "typed_txs m \<Longrightarrow> typed_txs (fmdrop lab m)"
  "typed_txs m \<Longrightarrow> typed_tx tx \<Longrightarrow> typed_txs (fmupd lab tx m)"
  "typed_txs m \<Longrightarrow> fmlookup m lab = Some tx \<Longrightarrow> typed_tx tx"
  by (auto simp: typed_txs_def split: if_splits)

lemma typed_drop [simp]: "typed s \<Longrightarrow> typed (s\<lparr>transactions := fmdrop lab (transactions s)\<rparr>)"
  by (simp add: typed_def typed_txs_rules journal_txs_def)

lemma typed_put: "typed s \<Longrightarrow> typed_tx tx \<Longrightarrow> typed (s\<lparr>transactions := fmupd lab tx (transactions s)\<rparr>)"
  by (simp add: typed_def typed_txs_rules journal_txs_def)

lemma typed_lookup: "typed s \<Longrightarrow> fmlookup (transactions s) lab = Some tx \<Longrightarrow> typed_tx tx"
  by (auto simp: typed_def typed_txs_rules)

definition stays_typed :: "Server \<Rightarrow> Server \<Rightarrow> bool" where
  "stays_typed s s' \<longleftrightarrow> (typed s \<longrightarrow> typed s')"

interpretation untyped: bystander stays_typed
  by unfold_locales (auto simp: stays_typed_def)

interpretation untyped_start: reviver stays_typed "\<lambda>_. True"
  by unfold_locales (auto simp: stays_typed_def restoreEphemeralLeaseLocked_def Let_def split: option.split)

section \<open>The fenced requests\<close>

lemma typed_fenced: "typed s \<Longrightarrow> typed (snd k) \<Longrightarrow> typed (snd (fenced lab f t s k))"
  by (auto simp: fenced_def split: option.splits)

lemma typed_put_tx: "typed s \<Longrightarrow> typed_tx tx \<Longrightarrow> typed (snd (put_tx ok lab tx s))"
  by (auto simp: put_tx_def Let_def case_prod_unfold intro!: typed_put typed_save)

lemma typed_prepared: "typed s \<Longrightarrow> prepared_tx lab f g s = Some tx \<Longrightarrow> typed_tx tx"
  by (auto simp: prepared_tx_def dest: typed_lookup split: option.splits if_splits)

lemma typed_recovery: "typed s \<Longrightarrow> recovery_tx lab g s = Some tx \<Longrightarrow> typed_tx tx"
  by (auto simp: recovery_tx_def dest: typed_lookup split: option.splits if_splits)

lemma typed_tx_fields [simp]:
  "typed_tx (tx\<lparr>tx_committed := a\<rparr>) = typed_tx tx" "typed_tx (tx\<lparr>tx_phase := b\<rparr>) = typed_tx tx"
  "typed_tx (tx\<lparr>tx_failure := c\<rparr>) = typed_tx tx"
  by (simp_all add: typed_tx_def)

lemma typed_tx_mark_phase [simp]:
  "typed_tx (mark_phase ph failure t tx) = typed_tx tx"
  by (cases ph) (simp_all add: typed_tx_def mark_phase_def)

lemma typed_deadline [simp]: "typed (set_recovery_deadline lab d s) = typed s"
  by (simp add: set_recovery_deadline_def split: option.split)

lemma typed_update:
  assumes "typed s" "\<And>tx. otx = Some tx \<Longrightarrow> typed_tx tx" "\<And>tx. typed_tx (upd tx) = typed_tx tx"
  shows "typed (snd (fenced lab f t s (case otx of None \<Rightarrow> (Inl e, s) | Some tx \<Rightarrow> put_tx ok lab (upd tx) s)))"
  using assms by (intro typed_fenced) (auto intro: typed_put_tx split: option.split)

lemma typed_prepared_updates:
  assumes "typed s"
  shows "typed (snd (markGenerationApplying ok g lab f t s))" "typed (snd (markGenerationApplied ok g lab f t s))"
    "typed (snd (recordGenerationDirtyCapture ok g ids lab f t s))"
    "typed (snd (recordGenerationSemantic ok g ids lab f t s))"
    "typed (snd (recordGenerationTouched ok g ids vnis known lab f t s))"
  unfolding markGenerationApplying_def markGenerationApplied_def recordGenerationDirtyCapture_def
    recordGenerationSemantic_def recordGenerationTouched_def
  by (rule typed_update [OF assms], erule typed_prepared [OF assms], simp add: typed_tx_def)+

lemma typed_recovery_updates:
  assumes "typed s"
  shows "typed (snd (markForwardPhase ok ph t' g lab f t s))"
    "typed (snd (recordForwardDataLoss ok detail g lab f t s))"
  unfolding markForwardPhase_def recordForwardDataLoss_def
  by (rule typed_update [OF assms], erule typed_recovery [OF assms], simp add: typed_tx_def)+

lemma typed_phase:
  assumes "typed s"
  shows "typed (snd (markTransactionPhase ok phs failure t' g lab f t s))"
  unfolding markTransactionPhase_def
  by (rule typed_update [OF assms], erule typed_recovery [OF assms]) simp

lemma typed_other_updates:
  assumes "typed s"
  shows "typed (snd (recordGenerationSolveTransition ok g rec lab f t s))"
    "typed (snd (markStateVerified ok g lab f t s))"
proof -
  have "typed (snd (put_tx ok lab (tx\<lparr>tx_solve := r\<rparr>) s))" "typed (snd (put_tx ok lab (tx\<lparr>tx_state_verified := b\<rparr>) s))"
    if "prepared_tx lab f g s = Some tx" for tx r b
    using typed_prepared [OF assms that] by (auto intro!: typed_put_tx [OF assms] simp: typed_tx_def)
  then show "typed (snd (recordGenerationSolveTransition ok g rec lab f t s))" "typed (snd (markStateVerified ok g lab f t s))"
    using assms by (auto simp: recordGenerationSolveTransition_def markStateVerified_def intro!: typed_fenced
        split: option.split)
qed

lemma typed_progress:
  assumes "typed s"
  shows "typed (snd (recordRecoveryProgress ok target deadline force g lab f t s))"
    "typed (snd (heartbeatRecoveryProgress c ok hard g lab f t s))"
proof -
  have put: "typed (s\<lparr>transactions := fmupd lab (tx\<lparr>tx_recovery_target := a, tx_recovery_progress := b,
      tx_recovery_deadline := d\<rparr>) (transactions s)\<rparr>)" if "recovery_tx lab g s = Some tx" for tx a b d
    using typed_recovery [OF assms that] by (intro typed_put [OF assms]) (simp add: typed_tx_def)
  have put': "typed (s\<lparr>transactions := fmupd lab (tx\<lparr>tx_recovery_progress := b, tx_recovery_deadline := d\<rparr>)
      (transactions s)\<rparr>)" if "fmlookup (transactions s) lab = Some tx" for tx b d
    using typed_lookup [OF assms that] by (intro typed_put [OF assms]) (simp add: typed_tx_def)
  show "typed (snd (recordRecoveryProgress ok target deadline force g lab f t s))"
    "typed (snd (heartbeatRecoveryProgress c ok hard g lab f t s))"
    unfolding recordRecoveryProgress_def heartbeatRecoveryProgress_def
    by (intro typed_fenced; simp add: assms Let_def case_prod_unfold put put' split: option.split)+
qed

lemma typed_begin:
  assumes "typed s"
  shows "typed (snd (beginRecovery c ok strategy tot takeover ack g lab f t s))"
proof -
  have forward: "typed_tx tx1" if "begin_forward strategy ack tx = Inr tx1" "typed_tx tx" for tx tx1
    using that by (auto simp: begin_forward_def Let_def typed_tx_def split: if_splits)
  have put: "typed (s\<lparr>transactions := fmupd lab (tx1\<lparr>tx_recovery_started := a, tx_recovery_progress := b,
      tx_recovery_deadline := d, tx_recovery_total := e, tx_recovery_target := h\<rparr>) (transactions s)\<rparr>)"
    if "begin_forward strategy ack (tx\<lparr>tx_phase := i, tx_failure := j, tx_attempts := k, tx_last_recovery := l,
      tx_next_recovery := m, tx_recovery_owner := n, tx_recovery_strategy := p\<rparr>) = Inr tx1"
      "recovery_tx lab g s = Some tx" for tx tx1 a b d e h i j k l m n p
    using forward [OF that(1)] typed_recovery [OF assms that(2)]
    by (intro typed_put [OF assms]) (simp add: typed_tx_def)
  show ?thesis
    unfolding beginRecovery_def
    by (intro typed_fenced) (auto simp: assms Let_def case_prod_unfold put split: option.split sum.split)
qed

lemma typed_set: "typed s \<Longrightarrow> typed_txs m \<Longrightarrow> typed (s\<lparr>transactions := m\<rparr>)"
  by (simp add: typed_def journal_txs_def)

lemma typed_commit:
  assumes "typed s"
  shows "typed (snd (finishCommittedGeneration ok oinv g lab f t s))"
proof (cases "prepared_tx lab f g s")
  case (Some tx)
  have t: "typed_txs (transactions s)" "typed_tx tx"
    using typed_prepared [OF assms Some] assms by (simp_all add: typed_def)
  show ?thesis
    unfolding finishCommittedGeneration_def
    by (rule typed_fenced [OF assms]; cases oinv)
      (auto simp: Some t Let_def case_prod_unfold intro!: typed_set typed_save typed_txs_rules(3) assms)
next
  case None
  then show ?thesis
    using assms by (auto simp: finishCommittedGeneration_def intro!: typed_fenced)
qed

lemma typed_finalize:
  assumes "typed s"
  shows "typed (snd (finalizeCommittedGeneration ok g lab f t s))"
proof (cases "prepared_tx lab f g s")
  case (Some tx)
  have t: "typed_txs (transactions s)" "typed_tx tx"
    using typed_prepared [OF assms Some] assms by (simp_all add: typed_def)
  show ?thesis
    unfolding finalizeCommittedGeneration_def
    by (rule typed_fenced [OF assms])
      (auto simp: Some t Let_def case_prod_unfold intro!: typed_set typed_save typed_txs_rules(2,3) assms)
next
  case None
  then show ?thesis
    using assms by (auto simp: finalizeCommittedGeneration_def intro!: typed_fenced)
qed

lemma typed_recovered:
  assumes "typed s"
  shows "typed (snd (finishRecoveredGeneration ok g lab f t s))"
proof (cases "fmlookup (transactions s) lab")
  case (Some tx)
  have t: "typed_txs (transactions s)" "typed_tx tx"
    using typed_lookup [OF assms Some] assms by (simp_all add: typed_def)
  show ?thesis
    unfolding finishRecoveredGeneration_def
    by (rule typed_fenced [OF assms])
      (auto simp: Some t Let_def case_prod_unfold forget_repairs_def intro!: typed_set typed_save typed_txs_rules(2,3) assms)
next
  case None
  then show ?thesis
    using assms by (auto simp: finishRecoveredGeneration_def intro!: typed_fenced)
qed

lemma typed_reopen:
  assumes "typed s"
  shows "typed (snd (reopenCommittedTransaction ok g lab f t s))"
proof (cases "recovery_tx lab g s")
  case (Some tx)
  have t: "typed_txs (transactions s)" "typed_tx tx"
    using typed_recovery [OF assms Some] assms by (simp_all add: typed_def)
  show ?thesis
    unfolding reopenCommittedTransaction_def
    by (rule typed_fenced [OF assms])
      (auto simp: Some t Let_def case_prod_unfold intro!: typed_set typed_save typed_txs_rules(3) assms)
next
  case None
  then show ?thesis
    using assms by (auto simp: reopenCommittedTransaction_def intro!: typed_fenced)
qed

lemma typed_destroy:
  assumes "typed s"
  shows "typed (snd (finishDestroyedLab ok lab f t s))"
proof -
  have t: "typed_txs (transactions s)"
    using assms by (simp add: typed_def)
  have restored: "typed_txs (restore_entry lab (fmlookup (transactions s) lab) (fmdrop lab (transactions s)))"
    using t by (auto simp: restore_entry_def typed_txs_rules(2) intro!: typed_txs_rules(3) dest: typed_lookup [OF assms]
        split: option.split)
  show ?thesis
    unfolding finishDestroyedLab_def
    by (rule typed_fenced [OF assms])
      (auto simp: Let_def case_prod_unfold forget_repairs_def intro!: typed_set typed_save typed_txs_rules(2) restored assms t)
qed

lemma RequireTransactionMode_canonical:
  assumes "RequireTransactionMode m = Inr d"
  shows "RequireTransactionMode d = Inr d" "m \<noteq> []"
  using RequireTransactionMode_Inr [OF assms] RequireTransactionMode_idem RequireTransactionMode_not_empty assms
  by auto

lemma validate_prepare_Inr:
  assumes "validate_prepare req = Inr desired"
  shows "pr_generation req \<noteq> []" "RequireTransactionMode desired = Inr desired"
  using assms by (auto simp: validate_prepare_def dest: RequireTransactionMode_canonical
      split: if_splits sum.splits option.splits)

lemma typed_prepare:
  assumes "typed s"
  shows "typed (snd (prepareGeneration ok previous req lab f t s))"
proof -
  have t: "typed_txs (transactions s)"
    using assms by (simp add: typed_def)
  have new: "typed_tx (new_transaction req f desired previous gen pmode pung)"
    if "validate_prepare req = Inr desired" "is_ok (RequireTransactionMode pmode)" for desired gen pmode pung
    using validate_prepare_Inr [OF that(1)] RequireTransactionMode_canonical(2) [of pmode] that(2)
    by (auto simp: typed_tx_def new_transaction_def is_ok_iff)
  show ?thesis
    unfolding prepareGeneration_def
    by (auto simp: Let_def case_prod_unfold assms t intro!: typed_fenced typed_set typed_save typed_txs_rules new
        split: sum.split option.split)
qed

lemma typed_readers:
  "typed s \<Longrightarrow> typed (snd (checkPreparedGeneration g lab f t s))"
  "typed s \<Longrightarrow> typed (snd (transactionForApply g lab f t s))"
  "typed s \<Longrightarrow> typed (snd (transactionForCommit g lab f t s))"
  "typed s \<Longrightarrow> typed (snd (transactionForStateVerify g lab f t s))"
  by (auto simp: checkPreparedGeneration_def transactionForApply_def transactionForCommit_def
      transactionForStateVerify_def intro!: typed_fenced split: option.split)

lemma typed_promote: "typed s \<Longrightarrow> typed (snd (promoteOverlayReservations ok vs lab f t s))"
  by (auto simp: promoteOverlayReservations_def Let_def case_prod_unfold split: option.split)

lemma typed_fenced_request: "typed s \<Longrightarrow> typed (snd (exec_fenced r lab f t s))"
  by (cases r) (simp_all add: typed_prepared_updates typed_recovery_updates typed_phase typed_other_updates
      typed_progress typed_begin typed_commit typed_finalize typed_recovered typed_reopen typed_destroy typed_prepare
      typed_readers typed_promote)

lemma typed_request: "typed s \<Longrightarrow> typed (exec r s)"
  using untyped.unfenced_R [of r s] typed_fenced_request
  by (cases "\<exists>fr lab f t. r = Fenced fr lab f t") (auto simp: stays_typed_def)

lemma typed_acquire:
  "typed s \<Longrightarrow> typed (snd (acquireMutationLease ok req token t s))"
  "typed s \<Longrightarrow> typed (snd (acquireRecoveryFence ok ok' limit lab token t s))"
  by (auto simp: acquireMutationLease_def acquireRecoveryFence_def issue_lease_def drop_lease_def
      Let_def case_prod_unfold simp del: expire_components split: option.split)

section \<open>A start\<close>

lemma typed_load_transaction:
  assumes "typed_tx tx"
  shows "typed_tx (fst (load_transaction tx))"
proof -
  obtain m where ok: "RequireTransactionMode (tx_mode tx) = Inr (tx_mode tx)" "tx_mode tx \<noteq> []"
    "tx_previous_mode tx \<noteq> []" "RequireTransactionMode (tx_previous_mode tx) = Inr m"
    using assms RequireTransactionMode_canonical(2) by (auto simp: typed_tx_def is_ok_iff)
  have "migrateLegacyTransactionModes tx' = (tx', False, None)"
    if "tx_mode tx' = tx_mode tx" "tx_previous_mode tx' = tx_previous_mode tx" for tx'
    using ok that by (simp add: migrateLegacyTransactionModes_def migrate_desired_mode_def migrate_previous_mode_def)
  then show ?thesis
    using assms by (simp add: load_transaction_def)
qed

lemma typed_start:
  assumes "typed_txs (journal_txs (fresh_server node st))"
  shows "typed (New_server ok okp ok' t t' t'' node st)"
proof -
  let ?s = "fresh_server node st"
  have fresh: "typed ?s" "transactions ?s = fmempty" "store ?s = st"
    using assms by (simp_all add: typed_def fresh_server_def typed_txs_rules)
  have read: "typed (snd (load_journal t disk ?s))" if "st = Some d" "st_coordination d = Some disk" for d disk
  proof -
    have "typed_txs (Transactions disk)"
      using that assms fresh(3) by (simp add: journal_txs_def)
    then have "typed_txs (fmmap (\<lambda>tx. fst (load_transaction tx)) (Transactions disk))"
      by (auto simp: typed_txs_def typed_load_transaction)
    then show ?thesis
      using fresh(1,2) by (simp add: load_journal_def typed_def journal_txs_def)
  qed
  have "typed (loadCoordination ok t t' ?s)"
    using fresh read by (auto simp: loadCoordination_def Let_def case_prod_unfold split: option.split)
  then show ?thesis
    using untyped_start.New_server_R [of ok t t' node st okp ok' t''] by (simp add: stays_typed_def)
qed

interpretation typing: inductive_invariant sys_init "sys_step any_move" "\<lambda>y. typed (sys_server y)"
proof unfold_locales
  show "typed (sys_server y)" if "sys_init y" for y
    using that by (auto simp: sys_init_def fresh_server_def typed_def typed_txs_rules journal_txs_def)
  show "typed (sys_server y')" if y: "typed (sys_server y)" "sys_step any_move y y'" for y y'
  proof -
    obtain m where m: "y' = play1 m y"
      using y(2) by (auto elim: sys_stepE)
    have "journal_txs (fresh_server node (store s)) = journal_txs s" for node and s :: Server
      by (simp add: journal_txs_def fresh_server_def)
    then show ?thesis
      using y(1) m typed_request typed_acquire typed_start
      by (cases m) (simp_all add: play1_server typed_def del: play1.simps)
  qed
qed



section \<open>Preparing is a compare-and-swap\<close>

definition base_of :: "string \<Rightarrow> Server \<Rightarrow> string" where
  "base_of lab s = committed (get_or no_generation (generations s) lab)"

text \<open>What an accepted and a refused request leave behind.\<close>

definition swapped :: "prepare_request \<Rightarrow> string \<Rightarrow> Fence \<Rightarrow> Server \<Rightarrow> Server \<Rightarrow> bool" where
  "swapped req lab f s s' \<longleftrightarrow>
     fmlookup (transactions s) lab = None \<and> base_of lab s = pr_expected req \<and>
     (\<exists>tx. fmlookup (transactions s') lab = Some tx \<and> tx_generation tx = pr_generation req
        \<and> tx_fence_generation tx = Generation f \<and> tx_previous_gen tx = base_of lab s \<and> \<not> tx_committed tx)"

definition untouched :: "Server \<Rightarrow> Server \<Rightarrow> bool" where
  "untouched s s' \<longleftrightarrow>
     transactions s' = transactions s \<and> inventories s' = inventories s \<and> store s' = store s
     \<and> (\<forall>lab. base_of lab s' = base_of lab s)"

text \<open>C23: Preparing a generation is a compare-and-swap on the committed one.  It is acknowledged only
  if the same transaction is there already and nothing changes, or if the lab had no transaction
  and its committed generation was the expected one, which the new transaction remembers as its
  base.  Every refusal, a failed journal write included, leaves the transactions, the committed
  generations and the disk as they were.\<close>

theorem prepare_is_compare_and_swap:
  "case prepareGeneration ok previous req lab f t s of
     (Inr _, s') \<Rightarrow>
       swapped req lab f s s' \<or>
       s' = s \<and> (\<exists>tx. fmlookup (transactions s) lab = Some tx \<and> tx_generation tx = pr_generation req
                  \<and> tx_fence_generation tx = Generation f)
   | (Inl _, s') \<Rightarrow> untouched s s'"
proof (cases "validate_prepare req")
  case (Inl e)
  then show ?thesis
    by (simp add: prepareGeneration_def untouched_def)
next
  case (Inr desired)
  show ?thesis
  proof (cases "fenceErrorLocked lab f t s = None \<and> fmlookup (transactions s) lab = None")
    case False
    then show ?thesis
      by (auto simp: prepareGeneration_def Inr fenced_def untouched_def split: option.splits if_splits)
  next
    case True
    let ?tx = "new_transaction req f desired previous (base_of lab s) (fst (previous_mode lab previous s))
      (snd (previous_mode lab previous s))"
    let ?s1 = "s\<lparr>transactions := fmupd lab ?tx (transactions s),
      generations := fmupd lab ((get_or no_generation (generations s) lab)\<lparr>prepared := pr_generation req\<rparr>) (generations s)\<rparr>"
    have tx: "tx_generation ?tx = pr_generation req" "tx_fence_generation ?tx = Generation f"
      "tx_previous_gen ?tx = base_of lab s" "\<not> tx_committed ?tx"
      by (simp_all add: new_transaction_def)
    have "untouched s (?s1\<lparr>transactions := fmdrop lab (transactions ?s1),
        generations := fmupd lab ((get_or no_generation (generations s) lab)\<lparr>prepared := []\<rparr>) (generations ?s1)\<rparr>)"
      using True by (simp add: untouched_def base_of_def fmupd_undo)
    then show ?thesis
      using True tx save_False [of ok ?s1]
      by (auto simp: prepareGeneration_def Inr fenced_def base_of_def [symmetric] swapped_def untouched_def Let_def
          case_prod_unfold split: sum.split)
  qed
qed

end
