(* ===== verification/Housekeeping.thy ===== *)
theory Housekeeping
  imports Durability
begin

text \<open>
  Grading holds across a restart, the lab a container belongs to, the pacing of repairs and the
  budgets of a recovery.
\<close>

section \<open>A hold survives a restart\<close>

lemma loadHolds_lookup:
  assumes "store s = Some st" "fmlookup (st_holds st) lab = Some (Some h)" "t < hold_until h"
  shows "fmlookup (holds (loadHolds name t s)) lab = (if name = lab then Some h else fmlookup (holds s) lab)"
  using assms by (auto simp: loadHolds_def split: option.split)

lemma holds_frame [simp]:
  "holds (loadExemptions lab s) = holds s" "holds (rememberHow lab m u s) = holds s"
  "holds (beginSemanticConvergenceGrace tp t s) = holds s"
  "holds (snd (restoreEphemeralLeaseLocked lab ttl g t s)) = holds s"
  by (auto simp: loadExemptions_def rememberHow_def beginSemanticConvergenceGrace_def restoreEphemeralLeaseLocked_def
      Let_def split: option.split)

text \<open>While the labs are brought back: the record of the lab and its hold are on disk, and the hold in
  memory is that one or not there yet.\<close>

definition on_disk :: "string \<Rightarrow> hold \<Rightarrow> string \<Rightarrow> Wire \<Rightarrow> Server \<Rightarrow> bool" where
  "on_disk lab h key w s \<longleftrightarrow>
     (\<exists>st. store s = Some st \<and> fmlookup (st_holds st) lab = Some (Some h)
        \<and> fmlookup (st_topology st) key = Some (Encoded w))"

lemma install_lab_holds:
  assumes "on_disk lab h key w (snd rs)" "t < hold_until h"
  shows "fmlookup (holds (snd (install_lab t m wt tp rs))) lab =
    (if top_name tp = lab then Some h else fmlookup (holds (snd rs)) lab)"
proof -
  obtain st where st: "store (snd rs) = Some st" "fmlookup (st_holds st) lab = Some (Some h)"
    using assms(1) by (auto simp: on_disk_def)
  show ?thesis
    using st assms(2)
    by (auto simp: install_lab_def Let_def case_prod_unfold loadHolds_def split: option.split)
qed

lemma install_lab_on_disk: "on_disk lab h key w (snd (install_lab t m wt tp rs)) = on_disk lab h key w (snd rs)"
  by (simp add: on_disk_def)

lemma rehydrate_mode_on_disk:
  assumes "on_disk lab h key w s" "rehydrate_mode okp k wt s = (m, s1)" "is_ok (RequireTransactionMode (wire_mode w))"
    and "k = key \<Longrightarrow> wt = w"
  shows "on_disk lab h key w s1" "holds s1 = holds s"
    "k = key \<Longrightarrow> \<exists>mode. m = Some (mode, w)"
  using assms by (auto simp: rehydrate_mode_def on_disk_def put_topology_def is_ok_iff Let_def
      split: sum.splits if_splits)

lemma rehydrate_lab_holds:
  assumes "on_disk lab h key w (snd rs)" "t < hold_until h" "is_ok (RequireTransactionMode (wire_mode w))"
    and "wire_topology w = Some tp" "top_name tp = lab"
  shows "on_disk lab h key w (snd (rehydrate_lab okp t k rs)) \<and>
    (k = key \<or> fmlookup (holds (snd rs)) lab = Some h \<longrightarrow>
     fmlookup (holds (snd (rehydrate_lab okp t k rs))) lab = Some h)"
proof -
  obtain st where st: "store (snd rs) = Some st" "fmlookup (st_topology st) key = Some (Encoded w)"
    using assms(1) by (auto simp: on_disk_def)
  show ?thesis
  proof (cases "\<exists>wt. fmlookup (st_topology st) k = Some (Encoded wt)")
    case False
    then have "snd (rehydrate_lab okp t k rs) = snd rs" "k \<noteq> key"
      using st by (auto simp: rehydrate_lab_def unmarshal_def split: option.splits RawMessage.splits)
    then show ?thesis
      using assms(1) by simp
  next
    case True
    then obtain wt where wt: "fmlookup (st_topology st) k = Some (Encoded wt)"
      by blast
    obtain m s1 where m: "rehydrate_mode okp k wt (snd rs) = (m, s1)"
      by (cases "rehydrate_mode okp k wt (snd rs)")
    have "k = key \<Longrightarrow> wt = w"
      using wt st(2) by simp
    note r = rehydrate_mode_on_disk [OF assms(1) m assms(3) this]
    have step: "rehydrate_lab okp t k rs =
        (case m of None \<Rightarrow> (fst rs, s1)
         | Some (mode, wt') \<Rightarrow> (case wire_topology wt' of None \<Rightarrow> (fst rs, s1) | Some tp \<Rightarrow> install_lab t mode wt' tp (fst rs, s1)))"
      using st(1) wt m by (simp add: rehydrate_lab_def unmarshal_def split: option.split)
    have "fmlookup (holds (snd (install_lab t mode wt' tp' (fst rs, s1)))) lab =
        (if top_name tp' = lab then Some h else fmlookup (holds (snd rs)) lab)" for mode wt' tp'
      using install_lab_holds [of lab h key w "(fst rs, s1)" t] r(1,2) assms(2) by simp
    then show ?thesis
      using r assms(4,5) unfolding step
      by (cases "k = key") (auto simp: install_lab_on_disk split: option.split)
  qed
qed

lemma fold_rehydrate_holds:
  assumes "on_disk lab h key w (snd rs)" "t < hold_until h" "is_ok (RequireTransactionMode (wire_mode w))"
    and "wire_topology w = Some tp" "top_name tp = lab" "key \<in> set ks \<or> fmlookup (holds (snd rs)) lab = Some h"
  shows "fmlookup (holds (snd (fold (rehydrate_lab okp t) ks rs))) lab = Some h"
  using assms
proof (induction ks arbitrary: rs)
  case (Cons k ks)
  note r = rehydrate_lab_holds [OF Cons.prems(1-5), of okp k]
  show ?case
    using r Cons.prems Cons.IH [of "rehydrate_lab okp t k rs"] by auto
qed simp

lemma rehydrate_holds:
  assumes "on_disk lab h key w s" "t < hold_until h" "is_ok (RequireTransactionMode (wire_mode w))"
    and "wire_topology w = Some tp" "top_name tp = lab"
  shows "fmlookup (holds (rehydrate okp ok t s)) lab = Some h"
proof -
  obtain st where st: "store s = Some st" "fmlookup (st_topology st) key = Some (Encoded w)"
    using assms(1) by (auto simp: on_disk_def)
  then have "key \<in> set (fm_keys (st_topology st))"
    by simp
  then show ?thesis
    using fold_rehydrate_holds [of lab h key w "(False, s)" t tp "fm_keys (st_topology st)" okp] assms st(1)
    by (simp add: rehydrate_def Let_def case_prod_unfold)
qed

lemma loadCoordination_on_disk:
  "on_disk lab h key w (fresh_server node st) \<Longrightarrow> on_disk lab h key w (loadCoordination ok t t' (fresh_server node st))"
  by (auto simp: on_disk_def loadCoordination_def load_journal_def fresh_server_def saveCoordinationLocked_def
      expireCoordinationLocked_def Let_def split: option.splits)

text \<open>A hold that was acknowledged is enforced again after a crash and restart, with the same
  holder, token and end, as long as it has not run out and the lab's topology record on disk can
  be read.\<close>

theorem hold_survives_restart:
  assumes "applyHold ok req t1 t2 t3 s = (Inr (), s')" "store s' = Some st" "0 < hr_seconds req"
    and "fmlookup (st_topology st) key = Some (Encoded w)" "wire_topology w = Some tp" "top_name tp = hr_lab req"
    and "is_ok (RequireTransactionMode (wire_mode w))"
    and "until = t2 + min (hr_seconds req) maxHoldSeconds * second" "t3 < until" "t'' < until"
  shows "fmlookup (holds (New_server ok' okp ok'' t t' t'' node (store s'))) (hr_lab req) =
    Some \<lparr>hold_holder = hr_holder req, hold_token = hr_token req, hold_until = until\<rparr>"
proof -
  let ?h = "\<lparr>hold_holder = hr_holder req, hold_token = hr_token req, hold_until = until\<rparr>"
  have "fmlookup (st_holds st) (hr_lab req) = Some (Some ?h)"
    using assms(1-3,8,9)
    by (auto simp: applyHold_def saveHoldsLocked_def Let_def case_prod_unfold min_def maxHoldSeconds_def
        split: option.splits if_splits)
  then have "on_disk (hr_lab req) ?h key w (fresh_server node (Some st))"
    using assms(4) by (simp add: on_disk_def fresh_server_def)
  from rehydrate_holds [OF loadCoordination_on_disk [OF this]] show ?thesis
    using assms(2,5-7,10) by (simp add: New_server_def Let_def)
qed

definition recorded_server :: Server where
  "recorded_server = exec (RecordCommit True True
     (new_transaction demo_prepare demo_fence ModePlatform NoMessage [] ModePlatform 0)
     demo_wire demo_topology ''alice'' 1) (sys_server first_start)"

definition demo_hold :: HoldRequest where
  "demo_hold = \<lparr>hr_lab = ''cs'', hr_holder = ''grader'', hr_seconds = 3600, hr_token = ''tok''\<rparr>"

theorem hold_survives_restart_witness:
  "fmlookup (holds (New_server True True True 5 6 7 ''node1'' (store (snd (applyHold True demo_hold 2 3 4 recorded_server))))) ''cs'' =
     Some \<lparr>hold_holder = ''grader'', hold_token = ''tok'', hold_until = 3 + 600 * second\<rparr>"
proof -
  define s' where "s' = snd (applyHold True demo_hold 2 3 4 recorded_server)"
  have "is_ok (fst (applyHold True demo_hold 2 3 4 recorded_server))"
    by code_simp
  then have a: "applyHold True demo_hold 2 3 4 recorded_server = (Inr (), s')"
    by (auto simp: is_ok_iff prod_eq_iff s'_def)
  have "case store s' of None \<Rightarrow> False | Some st \<Rightarrow>
      (case fmlookup (st_topology st) ''cs'' of Some (Encoded w) \<Rightarrow>
         map_option top_name (wire_topology w) = Some ''cs'' \<and> is_ok (RequireTransactionMode (wire_mode w)) | _ \<Rightarrow> False)"
    unfolding s'_def by code_simp
  then obtain st w tp where st: "store s' = Some st" "fmlookup (st_topology st) ''cs'' = Some (Encoded w)"
    "wire_topology w = Some tp" "top_name tp = hr_lab demo_hold" "is_ok (RequireTransactionMode (wire_mode w))"
    by (auto simp: demo_hold_def split: option.splits RawMessage.splits)
  show ?thesis
    using hold_survives_restart [OF a st(1) _ st(2-5), of "3 + 600 * second" 7 True True True 5 6 "''node1''"]
    by (simp add: demo_hold_def maxHoldSeconds_def second_def s'_def)
qed

section \<open>The lab of a container\<close>

definition owns_container :: "string \<Rightarrow> string \<Rightarrow> bool" where
  "owns_container name lab \<longleftrightarrow> has_prefix name (''twinet-'' @ lab @ ''-'')"

lemma has_prefix_append: "has_prefix s (p @ q) \<longleftrightarrow> has_prefix s p \<and> has_prefix (drop (length p) s) q"
proof -
  have *: "has_prefix s p \<longleftrightarrow> (\<exists>r. s = p @ r)" for s p
    unfolding has_prefix_def by (metis append_eq_conv_conj append_take_drop_id)
  show ?thesis
    unfolding * by auto
qed

lemma fold_longer_match:
  "fold (longer_match r) ks b \<in> insert b {k \<in> set ks. has_prefix r (k @ ''-'')} \<and>
   length b \<le> length (fold (longer_match r) ks b) \<and>
   (\<forall>k\<in>set ks. has_prefix r (k @ ''-'') \<longrightarrow> length k \<le> length (fold (longer_match r) ks b))"
proof (induction ks arbitrary: b)
  case (Cons k ks)
  show ?case
    using Cons.IH [of "longer_match r k b"] by (auto simp: longer_match_def split: if_splits)
qed simp

lemma same_length_prefix:
  "has_prefix r (a @ x) \<Longrightarrow> has_prefix r (b @ x) \<Longrightarrow> length a = length b \<Longrightarrow> a = b"
  unfolding has_prefix_def by (metis append_eq_append_conv length_append)

text \<open>The lab a container name is attributed to is the deployed lab with the longest name that
  owns it, and there is exactly one such lab: a container of \<open>cos461-g3\<close> is never taken for one of
  \<open>cos461\<close>, and a name no deployed lab owns has none.\<close>

theorem labOfContainer_is_longest:
  assumes "lab \<noteq> []"
  shows "labOfContainer name s = lab \<longleftrightarrow>
    fmlookup (current s) lab \<noteq> None \<and> owns_container name lab \<and>
    (\<forall>k. fmlookup (current s) k \<noteq> None \<longrightarrow> owns_container name k \<longrightarrow> length k \<le> length lab)"
proof -
  let ?r = "drop (length ''twinet-'') name"
  have owns: "owns_container name k \<longleftrightarrow> has_prefix name ''twinet-'' \<and> has_prefix ?r (k @ ''-'')" for k
    unfolding owns_container_def by (rule has_prefix_append)
  show ?thesis
  proof (cases "has_prefix name ''twinet-''")
    case True
    let ?l = "fold (longer_match ?r) (fm_keys (current s)) []"
    have l: "labOfContainer name s = ?l"
      using True by (simp add: labOfContainer_def)
    have "a = b" if "owns_container name a" "owns_container name b" "length a = length b" for a b
      using that owns same_length_prefix by blast
    then show ?thesis
      using fold_longer_match [of ?r "fm_keys (current s)" "[]"] assms True owns unfolding l
      by (auto simp: le_antisym)
  next
    case False
    then show ?thesis
      using assms owns by (simp add: labOfContainer_def)
  qed
qed

theorem labOfContainer_is_longest_witness:
  "labOfContainer ''twinet-cs-r1'' recorded_server = ''cs'' \<and> labOfContainer ''other-cs-r1'' recorded_server \<noteq> ''cs''"
proof -
  have "(fmlookup (current recorded_server) ''cs'' \<noteq> None) \<and> fm_keys (current recorded_server) = [''cs'']"
    by code_simp
  then have c: "fmlookup (current recorded_server) ''cs'' \<noteq> None" "fmlookup (current recorded_server) k \<noteq> None \<Longrightarrow> k = ''cs''" for k
    using set_fm_keys [of "current recorded_server"] by auto
  have o: "owns_container ''twinet-cs-r1'' ''cs''" "\<not> owns_container ''other-cs-r1'' ''cs''"
    by (simp_all add: owns_container_def has_prefix_def)
  show ?thesis
    using labOfContainer_is_longest [of "''cs''" "''twinet-cs-r1''" recorded_server]
      labOfContainer_is_longest [of "''cs''" "''other-cs-r1''" recorded_server] c o by blast
qed

section \<open>Backing off\<close>

lemma delay_loop_closed:
  "0 < d \<Longrightarrow> delay_loop n d = min (d * 2 ^ n) repairBackoffMax"
proof (induction n arbitrary: d)
  case (Suc n)
  have "d * 1 \<le> d * 2 ^ Suc n"
    using Suc.prems by (intro mult_left_mono one_le_power) auto
  then have grows: "d \<le> d * 2 * 2 ^ n"
    by (simp add: mult.assoc)
  have "min (d * 2 * 2 ^ n) repairBackoffMax = repairBackoffMax" if "d \<ge> repairBackoffMax"
    using that grows by linarith
  then show ?case
    using Suc.IH [of "d * 2"] Suc.prems by (auto simp: mult.assoc)
qed (simp add: min_def)

text \<open>The loop that doubles the repair delay computes the closed form: one second after the first
  failure, twice as long after each further one, and never more than five minutes.\<close>

theorem repairDelay_closed_form:
  "repairDelay attempt = min (second * 2 ^ nat (attempt - 1)) (5 * minute)"
  by (auto simp: repairDelay_def delay_loop_closed repairBackoffBase_def repairBackoffMax_def second_def minute_def
      Let_def)

text \<open>The semantic repairs of one device, one after the other: each gives the delay after which the device is
  queued again, if it is.\<close>

fun defer_all ::
    "string \<Rightarrow> string \<Rightarrow> (string \<times> go_time) list \<Rightarrow> Server \<Rightarrow> duration option list \<times> Server" where
  "defer_all lab device [] s = ([], s)"
| "defer_all lab device ((reason, t) # es) s =
     (let (d, s1) = deferSemanticRepair lab device reason t s;
          (ds, s2) = defer_all lab device es s1
      in (d # ds, s2))"

lemma defer_all_cycles:
  "get_or 0 (semanticCycles (snd (defer_all lab device es s))) (repairKey lab device)
     = get_or 0 (semanticCycles s) (repairKey lab device) + int (length es) \<and>
   length (fst (defer_all lab device es s)) = length es \<and>
   (\<forall>i<length es. (fst (defer_all lab device es s) ! i = None) \<longleftrightarrow>
      semanticRepairCycles \<le> get_or 0 (semanticCycles s) (repairKey lab device) + int i + 1)"
proof (induction es arbitrary: s)
  case (Cons e es)
  obtain reason t where e: "e = (reason, t)"
    by (cases e)
  have "get_or 0 (semanticCycles (snd (deferSemanticRepair lab device reason t s))) (repairKey lab device)
      = get_or 0 (semanticCycles s) (repairKey lab device) + 1"
    "(fst (deferSemanticRepair lab device reason t s) = None) \<longleftrightarrow>
      semanticRepairCycles \<le> get_or 0 (semanticCycles s) (repairKey lab device) + 1"
    by (simp_all add: deferSemanticRepair_def Let_def get_or_def)
  then show ?case
    using Cons.IH [of "snd (deferSemanticRepair lab device reason t s)"]
    by (auto simp: e case_prod_unfold Let_def less_Suc_eq_0_disj algebra_simps)
qed simp

lemma defer_all_terminal:
  "0 \<le> get_or 0 (semanticCycles s) (repairKey lab device) \<Longrightarrow>
   semanticRepairCycles \<le> get_or 0 (semanticCycles s) (repairKey lab device) + int (length es) \<Longrightarrow> es \<noteq> [] \<Longrightarrow>
   semanticRepairTerminalReason lab device (snd (defer_all lab device es s)) = fst (last es)"
proof (induction es arbitrary: s)
  case (Cons e es)
  obtain reason t where e: "e = (reason, t)"
    by (cases e)
  let ?s = "snd (deferSemanticRepair lab device reason t s)"
  have c: "get_or 0 (semanticCycles ?s) (repairKey lab device) = get_or 0 (semanticCycles s) (repairKey lab device) + 1"
    by (simp add: deferSemanticRepair_def Let_def get_or_def)
  show ?case
  proof (cases es)
    case Nil
    then show ?thesis
      using Cons.prems by (simp add: e deferSemanticRepair_def Let_def semanticRepairTerminalReason_def get_or_def)
  next
    case (Cons e' es')
    then show ?thesis
      using Cons.IH [of ?s] Cons.prems c by (simp add: e case_prod_unfold Let_def)
  qed
qed simp

text \<open>Semantic repair of a device that was sound before ends: whatever goes wrong and whenever, the
  device is queued again after the first two failed repairs and never after the third, and from then
  on the reason of the last failure is on record for the operator.\<close>

theorem semantic_repair_gives_up:
  assumes "fmlookup (semanticCycles s) (repairKey lab device) = None"
  shows "(\<forall>i<length es. (fst (defer_all lab device es s) ! i = None) \<longleftrightarrow> 2 \<le> i) \<and>
    (3 \<le> length es \<longrightarrow> semanticRepairTerminalReason lab device (snd (defer_all lab device es s)) = fst (last es))"
proof -
  have "get_or 0 (semanticCycles s) (repairKey lab device) = 0"
    using assms by (simp add: get_or_def)
  moreover have "es \<noteq> []" if "3 \<le> length es"
    using that by auto
  ultimately show ?thesis
    using defer_all_cycles [of lab device es s] defer_all_terminal [of s lab device es]
    by (auto simp: semanticRepairCycles_def)
qed

theorem semantic_repair_gives_up_witness:
  "fst (defer_all ''cs'' ''r1'' [(''a'', 1), (''b'', 2), (''c'', 3)] recorded_server) ! 2 = None \<and>
   semanticRepairTerminalReason ''cs'' ''r1''
     (snd (defer_all ''cs'' ''r1'' [(''a'', 1), (''b'', 2), (''c'', 3)] recorded_server)) = ''c''"
proof -
  have "fmlookup (semanticCycles recorded_server) (repairKey ''cs'' ''r1'') = None"
    by code_simp
  from semantic_repair_gives_up [OF this, of "[(''a'', 1), (''b'', 2), (''c'', 3)]"] show ?thesis
    by simp
qed

section \<open>The budget of a recovery\<close>

definition recovery_cap :: "recovery_cfg \<Rightarrow> duration" where
  "recovery_cap c = max (30 * minute) (if rc_max c \<le> 0 then 2 * hour else min (2 * hour) (rc_max c))"

lemma recoveryTotalLimit_tx:
  "rc_total c \<le> 0 \<Longrightarrow>
   recoveryTotalLimit c items workers (Some tx)
     = min (recovery_cap c) (max (30 * minute) (recoveryRequiredPhaseBudget c items workers tx))"
  by (auto simp: recoveryTotalLimit_def recovery_cap_def minimumRecoveryTotalTimeout_def
      MaximumRecoveryTotalTimeout_def hour_def minute_def second_def Let_def min_def max_def)

text \<open>The hard deadline of a recovery leaves room for its phases: the total is at least half an hour
  and at most two hours, and unless the configured cap cuts it short it covers the rollback, the
  artifact phases, the four verifications and the two bookkeeping phases at their own limits, with a
  minute to spare.  No phase, whatever limit it asks for, is given time past that deadline.\<close>

theorem recovery_budget_covers_phases:
  assumes "rc_total c \<le> 0"
  shows "30 * minute \<le> recoveryTotalLimit c items workers (Some tx) \<and>
    recoveryTotalLimit c items workers (Some tx) \<le> 2 * hour \<and>
    (recoveryTotalLimit c items workers (Some tx) < recovery_cap c \<longrightarrow>
      minute + recoveryRollbackLimit c items workers tx + 2 * recoveryArtifactLimit c
        + 4 * recoveryVerifyLimit c items workers tx + 2 * recoveryPhaseLimit c
      \<le> recoveryTotalLimit c items workers (Some tx)) \<and>
    (fmlookup (transactions s) lab = Some tx \<and> tx_recovery_total tx \<noteq> 0 \<longrightarrow>
      t + boundedRecoveryPhaseLimit lab (tx_generation tx) limit t s \<le> max t (tx_recovery_total tx))"
proof (intro conjI impI)
  let ?T = "recoveryTotalLimit c items workers (Some tx)"
  show "30 * minute \<le> ?T" "?T \<le> 2 * hour"
    using recoveryTotalLimit_bounds [OF assms] by auto
  have "recoveryRollbackLimit c items workers tx \<le> recoveryRollbackBudget c items workers tx"
    "recoveryVerifyLimit c items workers tx \<le> recoveryVerifyBudget c items workers"
    by (simp_all add: recoveryRollbackLimit_def recoveryVerifyLimit_def Let_def)
  then show "minute + recoveryRollbackLimit c items workers tx + 2 * recoveryArtifactLimit c
      + 4 * recoveryVerifyLimit c items workers tx + 2 * recoveryPhaseLimit c \<le> ?T" if "?T < recovery_cap c"
    using that unfolding recoveryTotalLimit_tx [OF assms] recoveryRequiredPhaseBudget_def recoveryTotalSlack_def
    by linarith
  show "t + boundedRecoveryPhaseLimit lab (tx_generation tx) limit t s \<le> max t (tx_recovery_total tx)"
    if "fmlookup (transactions s) lab = Some tx \<and> tx_recovery_total tx \<noteq> 0"
    using that by (auto simp: boundedRecoveryPhaseLimit_def Let_def)
qed

definition demo_recovery_cfg :: recovery_cfg where
  "demo_recovery_cfg = \<lparr>rc_phase = 0, rc_total = 0, rc_lease = 0, rc_heartbeat = 0, rc_max = 0\<rparr>"

definition demo_recovering :: applyTransaction where
  "demo_recovering = (new_transaction demo_prepare demo_fence ModePlatform NoMessage [] ModePlatform 0)
     \<lparr>tx_recovery_total := 100\<rparr>"

theorem recovery_budget_covers_phases_witness:
  "recoveryTotalLimit demo_recovery_cfg 400 4 (Some demo_recovering) < recovery_cap demo_recovery_cfg \<and>
   minute + recoveryRollbackLimit demo_recovery_cfg 400 4 demo_recovering + 2 * recoveryArtifactLimit demo_recovery_cfg
     + 4 * recoveryVerifyLimit demo_recovery_cfg 400 4 demo_recovering + 2 * recoveryPhaseLimit demo_recovery_cfg
   \<le> recoveryTotalLimit demo_recovery_cfg 400 4 (Some demo_recovering) \<and>
   90 + boundedRecoveryPhaseLimit ''cs'' (tx_generation demo_recovering) 50 90
     (recorded_server\<lparr>transactions := fmupd ''cs'' demo_recovering fmempty\<rparr>) \<le> 100"
proof -
  have "recoveryTotalLimit demo_recovery_cfg 400 4 (Some demo_recovering) < recovery_cap demo_recovery_cfg"
    "rc_total demo_recovery_cfg \<le> 0" "tx_recovery_total demo_recovering = 100"
    by code_simp+
  then show ?thesis
    using recovery_budget_covers_phases [of demo_recovery_cfg 400 4 demo_recovering
        "recorded_server\<lparr>transactions := fmupd ''cs'' demo_recovering fmempty\<rparr>" "''cs''" 90 50] by simp
qed

end
