(* ===== verification/Deploy_Plan.thy ===== *)
theory Deploy_Plan
  imports Prelude
begin

text \<open>
  The deployment plan, \<open>internal/plan/plan.go\<close>: a graph of steps, built with \<open>Add\<close>, checked
  with \<open>Validate\<close> (every dependency exists, no cycle, no dependency on a later stage) and
  narrowed with \<open>Restrict\<close>.  The work of a step is a Go closure; it is not part of the graph,
  and its outcomes are the inputs of the scheduler of the theory \<open>Plan_Exec\<close>.
\<close>

section \<open>Definitions\<close>

definition StageOrder :: "string list" where
  "StageOrder = [''image'', ''create'', ''wire'', ''configure'', ''ready'']"

record Step =
  step_ID :: string
  step_Stage :: string
  step_Scope :: string
  step_Describe :: string
  step_Needs :: "string list"
  step_Optional :: bool

record Plan =
  plan_steps :: "(string, Step) fmap"
  plan_order :: "string list"

definition New_plan :: Plan where
  "New_plan = \<lparr>plan_steps = fmempty, plan_order = []\<rparr>"

datatype plan_panic = EmptyID | DuplicateID string

definition Add :: "Step \<Rightarrow> Plan \<Rightarrow> (plan_panic, Plan) result" where
  "Add s p =
     (if step_ID s = [] then Inl EmptyID
      else if fmlookup (plan_steps p) (step_ID s) \<noteq> None then Inl (DuplicateID (step_ID s))
      else Inr (p\<lparr>plan_steps := fmupd (step_ID s) s (plan_steps p), plan_order := plan_order p @ [step_ID s]\<rparr>))"

definition plan_Len :: "Plan \<Rightarrow> nat" where
  "plan_Len p = fcard (fmdom (plan_steps p))"

text \<open>The dependencies of \<open>p.steps[id]\<close>; \<open>Add\<close> keeps the order and the table in step, so the
  lookup succeeds wherever the code makes it.\<close>

definition needs_of :: "Plan \<Rightarrow> string \<Rightarrow> string list" where
  "needs_of p k = (case fmlookup (plan_steps p) k of None \<Rightarrow> [] | Some s \<Rightarrow> step_Needs s)"

definition stage_of :: "Plan \<Rightarrow> string \<Rightarrow> string" where
  "stage_of p k = (case fmlookup (plan_steps p) k of None \<Rightarrow> [] | Some s \<Rightarrow> step_Stage s)"

subsection \<open>Validation\<close>

datatype node_colour = White | Grey | Black

text \<open>The loop of the depth-first walk over the needs of one step, with the recursive call in
  place; a completed call pops its step from the path, so the path is an argument.\<close>

function walk_needs ::
    "Plan \<Rightarrow> string list \<Rightarrow> (string, node_colour) fmap \<Rightarrow> string list
     \<Rightarrow> string list + (string, node_colour) fmap" where
  "walk_needs p [] c path = Inr c"
| "walk_needs p (need # ns) c path =
     (case get_or White c need of
        Grey \<Rightarrow> Inl (path @ [need])
      | White \<Rightarrow>
          (case fmlookup (plan_steps p) need of
             None \<Rightarrow> walk_needs p ns (fmupd need Black c) path
           | Some s \<Rightarrow>
               (case walk_needs p (step_Needs s) (fmupd need Grey c) (path @ [need]) of
                  Inl cycle \<Rightarrow> Inl cycle
                | Inr c' \<Rightarrow> walk_needs p ns (fmupd need Black c') path))
      | Black \<Rightarrow> walk_needs p ns c path)"
  by pat_completeness auto

text \<open>Every recursive call colours a registered step that was white.\<close>

definition whites :: "Plan \<Rightarrow> (string, node_colour) fmap \<Rightarrow> string set" where
  "whites p c = {k. fmlookup (plan_steps p) k \<noteq> None \<and> get_or White c k = White}"

lemma whites_finite [simp]: "finite (whites p c)"
  by (rule finite_subset [of _ "fmdom' (plan_steps p)"]) (auto simp: whites_def fmlookup_dom'_iff)

lemma whites_upd [simp]: "x \<noteq> White \<Longrightarrow> whites p (fmupd k x c) = whites p c - {k}"
  by (auto simp: whites_def)

lemma walk_needs_whites:
  "walk_needs_dom (p, ns, c, path) \<Longrightarrow> walk_needs p ns c path = Inr c' \<Longrightarrow> whites p c' \<subseteq> whites p c"
proof (induction p ns c path arbitrary: c' rule: walk_needs.pinduct)
  case (2 p need ns c path)
  then show ?case
    by (simp add: walk_needs.psimps split: node_colour.splits option.splits sum.splits) blast+
qed (simp add: walk_needs.psimps)

termination walk_needs
proof (relation "inv_image (less_than <*lex*> less_than) (\<lambda>(p, ns, c, path). (card (whites p c), length ns))")
  show "((p, step_Needs s, fmupd need Grey c, path @ [need]), p, need # ns, c, path)
      \<in> inv_image (less_than <*lex*> less_than) (\<lambda>(p, ns, c, path). (card (whites p c), length ns))"
    if "get_or White c need = White" "fmlookup (plan_steps p) need = Some s" for p need ns c path s
  proof -
    have "card (whites p c - {need}) < card (whites p c)"
      using that by (intro card_Diff1_less whites_finite) (simp add: whites_def)
    then show ?thesis
      by (simp del: card_Diff_insert)
  qed
  show "((p, ns, fmupd need Black c', path), p, need # ns, c, path)
      \<in> inv_image (less_than <*lex*> less_than) (\<lambda>(p, ns, c, path). (card (whites p c), length ns))"
    if "walk_needs_dom (p, step_Needs s, fmupd need Grey c, path @ [need])"
      "walk_needs p (step_Needs s) (fmupd need Grey c) (path @ [need]) = Inr c'" for p need ns c path s c'
    using card_mono [OF _ order_trans [OF Diff_subset order_trans [OF walk_needs_whites [OF that]]], of "whites p c"]
    by (auto simp: le_less)
qed (auto simp: le_less [symmetric] intro!: card_mono)

definition walk :: "Plan \<Rightarrow> string \<Rightarrow> (string, node_colour) fmap \<Rightarrow> string list + (string, node_colour) fmap" where
  "walk p k c =
     (case walk_needs p (needs_of p k) (fmupd k Grey c) [k] of
        Inl cycle \<Rightarrow> Inl cycle
      | Inr c' \<Rightarrow> Inr (fmupd k Black c'))"

fun walk_roots :: "Plan \<Rightarrow> string list \<Rightarrow> (string, node_colour) fmap \<Rightarrow> string list option" where
  "walk_roots p [] c = None"
| "walk_roots p (k # ks) c =
     (if get_or White c k = White
      then (case walk p k c of Inl cycle \<Rightarrow> Some cycle | Inr c' \<Rightarrow> walk_roots p ks c')
      else walk_roots p ks c)"

definition findCycle :: "Plan \<Rightarrow> string list option" where
  "findCycle p = walk_roots p (sort (plan_order p)) fmempty"

datatype plan_error =
    DanglingDependencies "string list"
  | DependencyCycle "string list"
  | LaterStage string string

definition missing_needs :: "Plan \<Rightarrow> (string \<times> string) list" where
  "missing_needs p = [(k, need). k \<leftarrow> plan_order p, need \<leftarrow> needs_of p k, fmlookup (plan_steps p) need = None]"

text \<open>A stage that is not in \<open>StageOrder\<close> reads as rank zero.\<close>

definition stage_rank :: "string \<Rightarrow> nat" where
  "stage_rank st = (case map_of (zip StageOrder [0..<length StageOrder]) st of None \<Rightarrow> 0 | Some i \<Rightarrow> i)"

definition later_needs :: "Plan \<Rightarrow> (string \<times> string) list" where
  "later_needs p = [(k, need). k \<leftarrow> plan_order p, need \<leftarrow> needs_of p k,
                     stage_rank (stage_of p need) > stage_rank (stage_of p k)]"

definition plan_Validate :: "Plan \<Rightarrow> (plan_error, unit) result" where
  "plan_Validate p =
     (if missing_needs p \<noteq> []
      then Inl (DanglingDependencies
             (sort (map (\<lambda>(k, need). k @ '' needs '' @ need @ '', which does not exist'') (missing_needs p))))
      else
        case findCycle p of
          Some cycle \<Rightarrow> Inl (DependencyCycle cycle)
        | None \<Rightarrow> (case later_needs p of (k, need) # _ \<Rightarrow> Inl (LaterStage k need) | [] \<Rightarrow> Inr ()))"

subsection \<open>Restriction\<close>

text \<open>\<open>need\<close>, over a list of steps: mark each registered one and, through it, what it depends on.\<close>

function mark_needs :: "Plan \<Rightarrow> string list \<Rightarrow> string set \<Rightarrow> string set" where
  "mark_needs p [] keep = keep"
| "mark_needs p (k # ks) keep =
     (case fmlookup (plan_steps p) k of
        None \<Rightarrow> mark_needs p ks keep
      | Some s \<Rightarrow>
          if k \<in> keep then mark_needs p ks keep
          else mark_needs p ks (mark_needs p (step_Needs s) (insert k keep)))"
  by pat_completeness auto

definition unmarked :: "Plan \<Rightarrow> string set \<Rightarrow> string set" where
  "unmarked p keep = fmdom' (plan_steps p) - keep"

lemma unmarked_finite [simp]: "finite (unmarked p keep)"
  by (simp add: unmarked_def)

lemma mark_needs_grows: "mark_needs_dom (p, ks, keep) \<Longrightarrow> keep \<subseteq> mark_needs p ks keep"
proof (induction p ks keep rule: mark_needs.pinduct)
  case (2 p k ks keep)
  then show ?case
    by (simp add: mark_needs.psimps split: option.splits) blast
qed (simp add: mark_needs.psimps)

termination mark_needs
proof (relation "inv_image (less_than <*lex*> less_than) (\<lambda>(p, ks, keep). (card (unmarked p keep), length ks))")
  show "((p, step_Needs s, insert k keep), p, k # ks, keep)
      \<in> inv_image (less_than <*lex*> less_than) (\<lambda>(p, ks, keep). (card (unmarked p keep), length ks))"
    if "fmlookup (plan_steps p) k = Some s" "k \<notin> keep" for p k ks keep s
  proof -
    have "card (unmarked p (insert k keep)) < card (unmarked p keep)"
      using that card_Diff1_less [of "unmarked p keep" k]
      by (simp add: unmarked_def fmlookup_dom'_iff Diff_insert [symmetric])
    then show ?thesis
      by simp
  qed
  show "((p, ks, mark_needs p (step_Needs s) (insert k keep)), p, k # ks, keep)
      \<in> inv_image (less_than <*lex*> less_than) (\<lambda>(p, ks, keep). (card (unmarked p keep), length ks))"
    if "mark_needs_dom (p, step_Needs s, insert k keep)" for p k ks keep s
  proof -
    have "card (unmarked p (mark_needs p (step_Needs s) (insert k keep))) \<le> card (unmarked p keep)"
      using mark_needs_grows [OF that] by (intro card_mono unmarked_finite) (auto simp: unmarked_def)
    then show ?thesis
      by (auto simp: le_less)
  qed
qed auto

definition restricted_step :: "Plan \<Rightarrow> string set \<Rightarrow> string \<Rightarrow> Step option" where
  "restricted_step p keep k =
     (if k \<notin> keep then None
      else case fmlookup (plan_steps p) k of
             None \<Rightarrow> None
           | Some s \<Rightarrow> Some (s\<lparr>step_Needs := filter (\<lambda>dep. dep \<in> keep) (step_Needs s)\<rparr>))"

fun Add_all :: "Step list \<Rightarrow> Plan \<Rightarrow> (plan_panic, Plan) result" where
  "Add_all [] p = Inr p"
| "Add_all (s # ss) p = bind_result (Add s p) (Add_all ss)"

definition matched :: "(Step \<Rightarrow> bool) \<Rightarrow> Plan \<Rightarrow> string list" where
  "matched match p =
     filter (\<lambda>k. case fmlookup (plan_steps p) k of None \<Rightarrow> False | Some s \<Rightarrow> match s) (plan_order p)"

definition Restrict :: "(Step \<Rightarrow> bool) \<Rightarrow> Plan \<Rightarrow> (plan_panic, Plan) result" where
  "Restrict match p =
     (let keep = mark_needs p (matched match p) {}
      in Add_all (List.map_filter (restricted_step p keep) (plan_order p)) New_plan)"

section \<open>The graph\<close>

definition edges :: "Plan \<Rightarrow> string rel" where
  "edges p = {(k, need). need \<in> set (needs_of p k)}"

definition wf_plan :: "Plan \<Rightarrow> bool" where
  "wf_plan p \<longleftrightarrow>
     distinct (plan_order p) \<and> set (plan_order p) = fmdom' (plan_steps p) \<and>
     (\<forall>k s. fmlookup (plan_steps p) k = Some s \<longrightarrow> step_ID s = k \<and> k \<noteq> [])"

lemma wf_New [simp]: "wf_plan New_plan"
  by (simp add: wf_plan_def New_plan_def)

lemma New_plan_simps [simp]: "plan_order New_plan = []" "fmlookup (plan_steps New_plan) k = None"
  by (simp_all add: New_plan_def)

lemma case_option_id [simp]: "(case x of None \<Rightarrow> None | Some v \<Rightarrow> Some v) = x"
  by (cases x) simp_all

lemma wf_Add: "wf_plan p \<Longrightarrow> Add s p = Inr q \<Longrightarrow> wf_plan q"
  by (auto simp: wf_plan_def Add_def fmlookup_dom'_iff split: if_splits) blast

lemma edges_registered: "(k, need) \<in> edges p \<Longrightarrow> fmlookup (plan_steps p) k \<noteq> None"
  by (cases "fmlookup (plan_steps p) k") (simp_all add: edges_def needs_of_def)

lemma wf_order: "wf_plan p \<Longrightarrow> k \<in> set (plan_order p) \<longleftrightarrow> fmlookup (plan_steps p) k \<noteq> None"
  by (auto simp: wf_plan_def fmlookup_dom'_iff)

subsection \<open>The walk finds every cycle\<close>

text \<open>A black step has only black needs and lies on no cycle.\<close>

definition blacks :: "(string, node_colour) fmap \<Rightarrow> string set" where
  "blacks c = {k. get_or White c k = Black}"

definition greys :: "(string, node_colour) fmap \<Rightarrow> string set" where
  "greys c = {k. get_or White c k = Grey}"

lemma coloured_upd [simp]:
  "blacks (fmupd k Black c) = insert k (blacks c)" "blacks (fmupd k Grey c) = blacks c - {k}"
  "greys (fmupd k Black c) = greys c - {k}" "greys (fmupd k Grey c) = insert k (greys c)"
  by (auto simp: blacks_def greys_def)

lemma coloured_iff:
  "get_or White c k = Black \<longleftrightarrow> k \<in> blacks c" "get_or White c k = Grey \<longleftrightarrow> k \<in> greys c"
  "get_or White c k = White \<longleftrightarrow> k \<notin> blacks c \<and> k \<notin> greys c"
  by (cases "get_or White c k"; simp add: blacks_def greys_def)+

lemma greys_not_black: "k \<in> greys c \<Longrightarrow> k \<notin> blacks c"
  by (simp add: blacks_def greys_def)

definition settled_black :: "Plan \<Rightarrow> (string, node_colour) fmap \<Rightarrow> bool" where
  "settled_black p c \<longleftrightarrow> edges p `` blacks c \<subseteq> blacks c \<and> (\<forall>k\<in>blacks c. (k, k) \<notin> (edges p)\<^sup>+)"

lemma closed_trancl: "(a, b) \<in> E\<^sup>+ \<Longrightarrow> E `` B \<subseteq> B \<Longrightarrow> a \<in> B \<Longrightarrow> b \<in> B"
  by (induction rule: trancl_induct) auto

lemma settled_black_upd:
  assumes "settled_black p c" "set (needs_of p k) \<subseteq> blacks c" "k \<notin> blacks c"
  shows "settled_black p (fmupd k Black c)"
proof -
  have "(k, k) \<notin> (edges p)\<^sup>+"
  proof
    assume "(k, k) \<in> (edges p)\<^sup>+"
    then obtain n where "(k, n) \<in> edges p" "n = k \<or> (n, k) \<in> (edges p)\<^sup>+"
      by (meson tranclD rtranclD)
    then show False
      using assms closed_trancl [of n k "edges p" "blacks c"] by (auto simp: settled_black_def edges_def)
  qed
  then show ?thesis
    using assms unfolding settled_black_def coloured_upd by (auto simp: edges_def)
qed

lemma walk_needs_sound:
  "walk_needs p ns c path = Inr c' \<Longrightarrow> settled_black p c \<Longrightarrow>
   settled_black p c' \<and> set ns \<subseteq> blacks c' \<and> blacks c \<subseteq> blacks c' \<and> greys c' = greys c"
proof (induction p ns c path arbitrary: c' rule: walk_needs.induct)
  case (2 p need ns c path)
  show ?case
  proof (cases "get_or White c need")
    case White
    then have nb: "need \<notin> blacks c" "need \<notin> greys c"
      by (simp_all add: coloured_iff)
    show ?thesis
    proof (cases "fmlookup (plan_steps p) need")
      case None
      then have "settled_black p (fmupd need Black c)"
        using settled_black_upd [OF "2.prems"(2) _ nb(1)] by (simp add: needs_of_def)
      from "2.IH"(1) [OF White None _ this] show ?thesis
        using "2.prems" White None nb by simp
    next
      case (Some s)
      then obtain c1 where c1: "walk_needs p (step_Needs s) (fmupd need Grey c) (path @ [need]) = Inr c1"
        and rest: "walk_needs p ns (fmupd need Black c1) path = Inr c'"
        using "2.prems"(1) White by (auto split: sum.splits)
      have g: "settled_black p (fmupd need Grey c)"
        using "2.prems"(2) nb by (simp add: settled_black_def)
      from "2.IH"(2) [OF White Some c1 g]
      have in1: "settled_black p c1" "set (step_Needs s) \<subseteq> blacks c1" "blacks c \<subseteq> blacks c1"
        "greys c1 = insert need (greys c)"
        using nb by auto
      then have "settled_black p (fmupd need Black c1)"
        using Some greys_not_black [of need c1] by (intro settled_black_upd) (auto simp: needs_of_def)
      from "2.IH"(3) [OF White Some c1 rest this] show ?thesis
        using in1 nb by auto
    qed
  next
    case Grey
    then show ?thesis
      using "2.prems" by simp
  next
    case Black
    moreover have "need \<in> blacks c"
      using Black by (simp add: blacks_def)
    ultimately show ?thesis
      using "2.IH"(4) [OF Black] "2.prems" by auto
  qed
qed simp

lemma walk_roots_sound:
  "walk_roots p ks c = None \<Longrightarrow> settled_black p c \<Longrightarrow> greys c = {} \<Longrightarrow> k \<in> set ks \<union> blacks c \<Longrightarrow>
   (k, k) \<notin> (edges p)\<^sup>+"
proof (induction ks arbitrary: c)
  case (Cons k' ks)
  show ?case
  proof (cases "get_or White c k' = White")
    case True
    then obtain c1 where c1: "walk_needs p (needs_of p k') (fmupd k' Grey c) [k'] = Inr c1"
      and rest: "walk_roots p ks (fmupd k' Black c1) = None"
      using Cons.prems(1) by (auto simp: walk_def split: sum.splits)
    have "k' \<notin> blacks c"
      using True by (simp add: coloured_iff)
    then have "settled_black p (fmupd k' Grey c)"
      using Cons.prems(2) by (simp add: settled_black_def)
    from walk_needs_sound [OF c1 this]
    have w: "settled_black p c1" "set (needs_of p k') \<subseteq> blacks c1" "blacks c \<subseteq> blacks c1" "greys c1 = {k'}"
      using \<open>k' \<notin> blacks c\<close> Cons.prems(3) by auto
    then have "settled_black p (fmupd k' Black c1)"
      using greys_not_black [of k' c1] by (intro settled_black_upd) auto
    then show ?thesis
      using Cons.IH [OF rest] Cons.prems(4) w by auto
  next
    case False
    then have "k' \<in> blacks c"
      using Cons.prems(3) coloured_iff(3) [of c k'] by auto
    then show ?thesis
      using Cons.IH [of c] Cons.prems False by auto
  qed
qed (simp add: settled_black_def)

lemma findCycle_None: 
  assumes "wf_plan p" "findCycle p = None"
  shows "acyclic (edges p)"
proof (rule acyclicI, intro allI notI)
  fix k assume c: "(k, k) \<in> (edges p)\<^sup>+"
  then obtain n where "(k, n) \<in> edges p"
    by (meson tranclD)
  then have "k \<in> set (sort (plan_order p))"
    using edges_registered wf_order [OF assms(1)] by auto
  then show False
    using walk_roots_sound [of p "sort (plan_order p)" fmempty k] assms(2) c
    by (simp add: findCycle_def settled_black_def blacks_def greys_def)
qed

subsection \<open>The walk reports only cycles\<close>

definition real_cycle :: "Plan \<Rightarrow> string list \<Rightarrow> bool" where
  "real_cycle p cyc \<longleftrightarrow>
     (\<exists>xs k ys. cyc = xs @ k # ys @ [k] \<and> successively (\<lambda>a b. (a, b) \<in> edges p) (k # ys @ [k]))"

lemma real_cycle_trancl: "real_cycle p cyc \<Longrightarrow> \<not> acyclic (edges p)"
proof -
  have "successively (\<lambda>a b. (a, b) \<in> edges p) (a # ys @ [b]) \<Longrightarrow> (a, b) \<in> (edges p)\<^sup>+" for a ys b
    by (induction ys arbitrary: a) (auto intro: trancl_into_trancl2)
  then show "real_cycle p cyc \<Longrightarrow> \<not> acyclic (edges p)"
    by (auto simp: real_cycle_def acyclic_def)
qed

lemma walk_needs_cycle:
  "walk_needs p ns c path = Inl cyc \<Longrightarrow> settled_black p c \<Longrightarrow> greys c = set path \<Longrightarrow> path \<noteq> [] \<Longrightarrow>
   successively (\<lambda>a b. (a, b) \<in> edges p) path \<Longrightarrow> set ns \<subseteq> set (needs_of p (last path)) \<Longrightarrow> real_cycle p cyc"
proof (induction p ns c path rule: walk_needs.induct)
  case (2 p need ns c path)
  have e: "successively (\<lambda>a b. (a, b) \<in> edges p) (path @ [need])"
    using "2.prems" by (auto simp: successively_append_iff edges_def)
  show ?case
  proof (cases "get_or White c need")
    case Grey
    then have "need \<in> set path"
      using "2.prems"(3) by (simp add: coloured_iff)
    then obtain xs ys where "path = xs @ need # ys"
      by (auto simp: in_set_conv_decomp)
    then have "cyc = xs @ need # ys @ [need]" "successively (\<lambda>a b. (a, b) \<in> edges p) (need # ys @ [need])"
      using "2.prems"(1) e Grey by (auto simp: successively_append_iff)
    then show ?thesis
      unfolding real_cycle_def by blast
  next
    case Black
    then show ?thesis
      using "2.IH"(4) [OF Black] "2.prems" by simp
  next
    case White
    then have nb: "need \<notin> blacks c" "need \<notin> greys c"
      by (simp_all add: coloured_iff)
    show ?thesis
    proof (cases "fmlookup (plan_steps p) need")
      case None
      then have "settled_black p (fmupd need Black c)"
        using settled_black_upd [OF "2.prems"(2) _ nb(1)] by (simp add: needs_of_def)
      then show ?thesis
        using "2.IH"(1) [OF White None] "2.prems" White None nb by simp
    next
      case (Some s)
      have g: "settled_black p (fmupd need Grey c)"
        using "2.prems"(2) nb by (simp add: settled_black_def)
      show ?thesis
      proof (cases "walk_needs p (step_Needs s) (fmupd need Grey c) (path @ [need])")
        case (Inl cyc')
        then show ?thesis
          using "2.IH"(2) [OF White Some _ g] "2.prems" e White Some by (auto simp: needs_of_def)
      next
        case (Inr c1)
        from walk_needs_sound [OF Inr g] have w: "settled_black p c1" "set (step_Needs s) \<subseteq> blacks c1"
          "greys c1 = insert need (greys c)"
          using nb by auto
        then have "settled_black p (fmupd need Black c1)"
          using Some greys_not_black [of need c1] by (intro settled_black_upd) (auto simp: needs_of_def)
        then show ?thesis
          using "2.IH"(3) [OF White Some Inr] "2.prems" White Some Inr w nb by auto
      qed
    qed
  qed
qed simp

lemma walk_roots_cycle:
  "walk_roots p ks c = Some cyc \<Longrightarrow> settled_black p c \<Longrightarrow> greys c = {} \<Longrightarrow> real_cycle p cyc"
proof (induction ks arbitrary: c)
  case (Cons k ks)
  show ?case
  proof (cases "get_or White c k = White")
    case True
    then have nb: "k \<notin> blacks c"
      by (simp add: coloured_iff)
    then have g: "settled_black p (fmupd k Grey c)"
      using Cons.prems(2) by (simp add: settled_black_def)
    show ?thesis
    proof (cases "walk_needs p (needs_of p k) (fmupd k Grey c) [k]")
      case (Inl cyc')
      then show ?thesis
        using walk_needs_cycle [OF Inl g] Cons.prems True by (simp add: walk_def)
    next
      case (Inr c1)
      from walk_needs_sound [OF Inr g] have w: "settled_black p c1" "set (needs_of p k) \<subseteq> blacks c1" "greys c1 = {k}"
        using nb Cons.prems(3) by auto
      then have "settled_black p (fmupd k Black c1)"
        using greys_not_black [of k c1] by (intro settled_black_upd) auto
      then show ?thesis
        using Cons.IH Cons.prems(1) True Inr w by (simp add: walk_def)
    qed
  next
    case False
    then show ?thesis
      using Cons by simp
  qed
qed simp

lemma findCycle_Some: "findCycle p = Some cyc \<Longrightarrow> real_cycle p cyc"
  unfolding findCycle_def
  by (rule walk_roots_cycle) (auto simp: settled_black_def blacks_def greys_def)

lemma findCycle_iff: "wf_plan p \<Longrightarrow> findCycle p = None \<longleftrightarrow> acyclic (edges p)"
  using findCycle_None findCycle_Some real_cycle_trancl by (cases "findCycle p") blast+

section \<open>Validation is exact\<close>

lemma concat_guard_Nil:
  "[(k, n). k \<leftarrow> ks, n \<leftarrow> f k, P k n] = [] \<longleftrightarrow> (\<forall>k\<in>set ks. \<forall>n\<in>set (f k). \<not> P k n)"
  by (auto split: if_splits)

lemma plan_edges: "wf_plan p \<Longrightarrow> (k, n) \<in> edges p \<longleftrightarrow> k \<in> set (plan_order p) \<and> n \<in> set (needs_of p k)"
  using edges_registered [of k n p] wf_order [of p k] by (auto simp: edges_def)

lemma missing_needs_Nil:
  "wf_plan p \<Longrightarrow> missing_needs p = [] \<longleftrightarrow> (\<forall>(k, n)\<in>edges p. n \<in> set (plan_order p))"
  using wf_order [of p] unfolding missing_needs_def concat_guard_Nil by (force simp: plan_edges)

lemma later_needs_Nil:
  "wf_plan p \<Longrightarrow>
   later_needs p = [] \<longleftrightarrow> (\<forall>(k, n)\<in>edges p. stage_rank (stage_of p n) \<le> stage_rank (stage_of p k))"
  unfolding later_needs_def concat_guard_Nil by (auto simp: plan_edges not_less)

definition sound_graph :: "Plan \<Rightarrow> bool" where
  "sound_graph p \<longleftrightarrow>
     (\<forall>(k, n)\<in>edges p. n \<in> set (plan_order p) \<and> stage_rank (stage_of p n) \<le> stage_rank (stage_of p k))
     \<and> acyclic (edges p)"

lemma Validate_sound_graph: "wf_plan p \<Longrightarrow> plan_Validate p = Inr () \<longleftrightarrow> sound_graph p"
proof -
  assume wf: "wf_plan p"
  have "sound_graph p \<longleftrightarrow> missing_needs p = [] \<and> findCycle p = None \<and> later_needs p = []"
    unfolding sound_graph_def missing_needs_Nil [OF wf] later_needs_Nil [OF wf] findCycle_iff [OF wf] by blast
  then show ?thesis
    by (auto simp: plan_Validate_def split: list.splits option.splits)
qed

text \<open>C29: A plan passes validation exactly if every dependency names a step of the plan, no step depends on a
  later stage and the dependencies have no cycle; a cycle that validation reports is one.\<close>

theorem Validate_is_exact:
  assumes "wf_plan p"
  shows "(plan_Validate p = Inr () \<longleftrightarrow>
      (\<forall>k need. (k, need) \<in> edges p \<longrightarrow>
         need \<in> set (plan_order p) \<and> stage_rank (stage_of p need) \<le> stage_rank (stage_of p k)) \<and>
      acyclic (edges p)) \<and>
    (\<forall>cycle. plan_Validate p = Inl (DependencyCycle cycle) \<longrightarrow> real_cycle p cycle)"
proof (intro conjI allI impI)
  show "real_cycle p cycle" if "plan_Validate p = Inl (DependencyCycle cycle)" for cycle
    using that findCycle_Some by (auto simp: plan_Validate_def split: if_splits list.splits option.splits)
qed (auto simp: Validate_sound_graph [OF assms] sound_graph_def)

definition demo_step :: "string \<Rightarrow> string \<Rightarrow> string \<Rightarrow> string list \<Rightarrow> Step" where
  "demo_step k st sc ns = \<lparr>step_ID = k, step_Stage = st, step_Scope = sc, step_Describe = k, step_Needs = ns,
     step_Optional = False\<rparr>"

definition demo_steps :: "Step list" where
  "demo_steps = [demo_step ''wire'' ''wire'' ''peering'' [''r1'', ''r2''], demo_step ''r1'' ''create'' ''as1'' [],
     demo_step ''r2'' ''create'' ''as2'' [], demo_step ''conf1'' ''configure'' ''as1'' [''wire'']]"

definition demo_plan :: Plan where
  "demo_plan = (case Add_all demo_steps New_plan of Inl _ \<Rightarrow> New_plan | Inr p \<Rightarrow> p)"

definition looping_plan :: Plan where
  "looping_plan = (case Add_all [demo_step ''a'' ''wire'' [] [''b''], demo_step ''b'' ''wire'' [] [''a'']] New_plan of
     Inl _ \<Rightarrow> New_plan | Inr p \<Rightarrow> p)"

lemma wf_Add_all: "wf_plan p \<Longrightarrow> Add_all ss p = Inr q \<Longrightarrow> wf_plan q"
  by (induction ss arbitrary: p) (auto simp: bind_result_Inr_iff intro: wf_Add)

lemma wf_demo: "wf_plan demo_plan" "wf_plan looping_plan"
  by (auto simp: demo_plan_def looping_plan_def simp del: Add_all.simps dest: wf_Add_all [OF wf_New]
      split: sum.splits)

theorem Validate_is_exact_witness:
  "acyclic (edges demo_plan) \<and> real_cycle looping_plan [''a'', ''b'', ''a'']"
proof -
  have v: "plan_Validate demo_plan = Inr ()"
    by code_simp
  have l: "plan_Validate looping_plan = Inl (DependencyCycle [''a'', ''b'', ''a''])"
    by code_simp
  show ?thesis
    using Validate_is_exact [OF wf_demo(1)] Validate_is_exact [OF wf_demo(2)] v l by blast
qed

section \<open>Restriction keeps what the matched steps need\<close>

lemma mark_needs_spec:
  "keep \<subseteq> mark_needs p ks keep \<and> set ks \<inter> fmdom' (plan_steps p) \<subseteq> mark_needs p ks keep \<and>
   (\<forall>k\<in>mark_needs p ks keep - keep. set (needs_of p k) \<inter> fmdom' (plan_steps p) \<subseteq> mark_needs p ks keep) \<and>
   mark_needs p ks keep \<subseteq> keep \<union> (edges p)\<^sup>* `` set ks \<inter> fmdom' (plan_steps p)"
proof (induction p ks keep rule: mark_needs.induct)
  case (2 p k ks keep)
  show ?case
  proof (cases "fmlookup (plan_steps p) k")
    case None
    then show ?thesis
      using "2.IH"(1) by (auto simp: fmlookup_dom'_iff)
  next
    case (Some s)
    show ?thesis
    proof (cases "k \<in> keep")
      case True
      then show ?thesis
        using "2.IH"(2) [OF Some] Some by auto
    next
      case False
      let ?K1 = "mark_needs p (step_Needs s) (insert k keep)"
      have n: "needs_of p k = step_Needs s"
        using Some by (simp add: needs_of_def)
      have "(k, d) \<in> edges p" if "d \<in> set (step_Needs s)" for d
        using that n by (simp add: edges_def)
      then have K1: "(edges p)\<^sup>* `` set (step_Needs s) \<subseteq> (edges p)\<^sup>* `` set (k # ks)"
        by (auto intro: converse_rtrancl_into_rtrancl)
      have "k \<in> fmdom' (plan_steps p)"
        using Some by (simp add: fmlookup_dom'_iff)
      have one: "insert k keep \<subseteq> ?K1" "set (step_Needs s) \<inter> fmdom' (plan_steps p) \<subseteq> ?K1"
        "\<forall>j\<in>?K1 - insert k keep. set (needs_of p j) \<inter> fmdom' (plan_steps p) \<subseteq> ?K1"
        "?K1 \<subseteq> insert k keep \<union> (edges p)\<^sup>* `` set (step_Needs s) \<inter> fmdom' (plan_steps p)"
        using "2.IH"(3) [OF Some False] by auto
      have "k \<in> (edges p)\<^sup>* `` set (k # ks)"
        by auto
      then have K1: "?K1 \<subseteq> keep \<union> (edges p)\<^sup>* `` set (k # ks) \<inter> fmdom' (plan_steps p)"
        using one(4) K1 \<open>k \<in> fmdom' (plan_steps p)\<close> by blast
      let ?K = "mark_needs p ks ?K1"
      have two: "?K1 \<subseteq> ?K" "set ks \<inter> fmdom' (plan_steps p) \<subseteq> ?K"
        "\<forall>j\<in>?K - ?K1. set (needs_of p j) \<inter> fmdom' (plan_steps p) \<subseteq> ?K"
        "?K \<subseteq> ?K1 \<union> (edges p)\<^sup>* `` set ks \<inter> fmdom' (plan_steps p)"
        using "2.IH"(4) [OF Some False] by auto
      have "set (needs_of p j) \<inter> fmdom' (plan_steps p) \<subseteq> ?K" if "j \<in> ?K - keep" for j
        using that one(2,3) two(1,3) n by (cases "j \<in> ?K1"; cases "j = k") auto
      then show ?thesis
        using one(1) K1 two(1,2,4) Some False by auto
    qed
  qed
qed simp

lemma Add_all_ok:
  "distinct (map step_ID ss) \<Longrightarrow> \<forall>s\<in>set ss. step_ID s \<noteq> [] \<and> fmlookup (plan_steps p) (step_ID s) = None \<Longrightarrow>
   \<exists>q. Add_all ss p = Inr q \<and> plan_order q = plan_order p @ map step_ID ss \<and>
     (\<forall>k. fmlookup (plan_steps q) k =
        (case map_of (map (\<lambda>s. (step_ID s, s)) ss) k of None \<Rightarrow> fmlookup (plan_steps p) k | Some s \<Rightarrow> Some s))"
proof (induction ss arbitrary: p)
  case (Cons s ss)
  let ?p = "p\<lparr>plan_steps := fmupd (step_ID s) s (plan_steps p), plan_order := plan_order p @ [step_ID s]\<rparr>"
  have "Add s p = Inr ?p"
    using Cons.prems by (simp add: Add_def)
  moreover have "map_of (map (\<lambda>s. (step_ID s, s)) ss) (step_ID s) = None"
    using Cons.prems(1) by (auto simp: map_of_eq_None_iff)
  ultimately show ?case
    using Cons.IH [of ?p] Cons.prems by (force split: option.splits)
qed simp

definition kept :: "(Step \<Rightarrow> bool) \<Rightarrow> Plan \<Rightarrow> string set" where
  "kept match p = {k. \<exists>m\<in>set (matched match p). (m, k) \<in> (edges p)\<^sup>*}"

lemma mark_matched:
  assumes "wf_plan p"
  shows "mark_needs p (matched match p) {} = kept match p \<inter> set (plan_order p)" (is "?K = _")
proof
  have D: "fmdom' (plan_steps p) = set (plan_order p)"
    using assms by (simp add: wf_plan_def)
  note spec = mark_needs_spec [of "{}" p "matched match p"]
  show "?K \<subseteq> kept match p \<inter> set (plan_order p)"
    using spec D by (auto simp: kept_def)
  have "k \<in> ?K" if "(m, k) \<in> (edges p)\<^sup>*" "m \<in> set (matched match p)" "k \<in> set (plan_order p)" for m k
    using that
  proof (induction rule: rtrancl_induct)
    case base
    then show ?case
      using spec D by auto
  next
    case (step b c)
    then have "b \<in> set (plan_order p)"
      using plan_edges [OF assms] by auto
    then show ?case
      using step spec D by (auto simp: edges_def)
  qed
  then show "kept match p \<inter> set (plan_order p) \<subseteq> ?K"
    by (auto simp: kept_def)
qed

lemma map_filter_steps:
  assumes "\<And>k s. r k = Some s \<Longrightarrow> step_ID s = k"
  shows "map step_ID (List.map_filter r ks) = filter (\<lambda>k. r k \<noteq> None) ks"
    "map_of (map (\<lambda>s. (step_ID s, s)) (List.map_filter r ks)) k = (if k \<in> set ks then r k else None)"
proof (induction ks)
  case (Cons a ks)
  { case 1 show ?case using Cons assms [of a] by (cases "r a") (auto simp: List.map_filter_simps) }
  { case 2 show ?case using Cons assms [of a] by (cases "r a") (auto simp: List.map_filter_simps) }
qed (simp_all add: List.map_filter_simps)

lemma restricted_step_Some:
  assumes "wf_plan p" "restricted_step p keep k = Some s"
  shows "step_ID s = k" "k \<noteq> []" "k \<in> keep" "k \<in> set (plan_order p)"
  using assms wf_order [OF assms(1), of k]
  by (auto simp: restricted_step_def wf_plan_def split: if_splits option.splits)

lemma restricted_step_None:
  "wf_plan p \<Longrightarrow> restricted_step p keep k = None \<longleftrightarrow> k \<notin> keep \<or> k \<notin> set (plan_order p)"
  using wf_order [of p k] by (auto simp: restricted_step_def split: option.splits)

lemma Restrict_result:
  assumes wf: "wf_plan p"
  shows "\<exists>q. Restrict match p = Inr q \<and> wf_plan q \<and> plan_order q = filter (\<lambda>k. k \<in> kept match p) (plan_order p) \<and>
    (\<forall>k. fmlookup (plan_steps q) k = restricted_step p (kept match p \<inter> set (plan_order p)) k)"
proof -
  let ?r = "restricted_step p (kept match p \<inter> set (plan_order p))"
  let ?ss = "List.map_filter ?r (plan_order p)"
  have steps: "map step_ID ?ss = filter (\<lambda>k. ?r k \<noteq> None) (plan_order p)"
    "\<And>k. map_of (map (\<lambda>s. (step_ID s, s)) ?ss) k = (if k \<in> set (plan_order p) then ?r k else None)"
    by (rule map_filter_steps, erule restricted_step_Some(1) [OF wf])+
  have "distinct (map step_ID ?ss)"
    unfolding steps(1) using wf by (intro distinct_filter) (simp add: wf_plan_def)
  moreover have "\<forall>s\<in>set ?ss. step_ID s \<noteq> [] \<and> fmlookup (plan_steps New_plan) (step_ID s) = None"
  proof -
    have "step_ID s \<noteq> []" if "?r k = Some s" for k s
      using restricted_step_Some(1,2) [OF wf that] by simp
    then show ?thesis
      by (auto simp: List.map_filter_def)
  qed
  ultimately obtain q where q: "Add_all ?ss New_plan = Inr q" "plan_order q = filter (\<lambda>k. ?r k \<noteq> None) (plan_order p)"
    "\<forall>k. fmlookup (plan_steps q) k = (if k \<in> set (plan_order p) then ?r k else None)"
    using Add_all_ok [of ?ss New_plan] unfolding steps New_plan_simps case_option_id by auto
  have "Restrict match p = Inr q"
    using q(1) by (simp add: Restrict_def mark_matched [OF wf])
  moreover have "plan_order q = filter (\<lambda>k. k \<in> kept match p) (plan_order p)"
    unfolding q(2) restricted_step_None [OF wf] by (rule filter_cong) auto
  moreover have "fmlookup (plan_steps q) k = ?r k" for k
    using q(3) restricted_step_None [OF wf, of _ k] by auto
  ultimately show ?thesis
    using wf_Add_all [OF wf_New q(1)] by blast
qed

text \<open>C30: Narrowing a plan never panics.  It keeps exactly the matched steps and everything they depend on, in
  the order of the plan, and drops from the needs of a step only what is not a step.  Of a valid plan
  it keeps every such step as it is, and the narrowed plan is valid again.\<close>

theorem Restrict_keeps_needs:
  assumes "wf_plan p"
  shows "\<exists>q. Restrict match p = Inr q \<and> wf_plan q \<and>
    plan_order q = filter (\<lambda>k. \<exists>m\<in>set (matched match p). (m, k) \<in> (edges p)\<^sup>*) (plan_order p) \<and>
    (\<forall>k\<in>set (plan_order q). needs_of q k = filter (\<lambda>d. d \<in> set (plan_order p)) (needs_of p k)) \<and>
    (plan_Validate p = Inr () \<longrightarrow>
      plan_Validate q = Inr () \<and> (\<forall>k\<in>set (plan_order q). fmlookup (plan_steps q) k = fmlookup (plan_steps p) k))"
proof -
  let ?K = "kept match p \<inter> set (plan_order p)"
  obtain q where q: "Restrict match p = Inr q" "wf_plan q" "plan_order q = filter (\<lambda>k. k \<in> kept match p) (plan_order p)"
    "\<And>k. fmlookup (plan_steps q) k = restricted_step p ?K k"
    using Restrict_result [OF assms] by blast
  have closed: "d \<in> ?K \<longleftrightarrow> d \<in> set (plan_order p)" if "k \<in> set (plan_order q)" "d \<in> set (needs_of p k)" for k d
    using that q(3) by (auto simp: kept_def edges_def intro: rtrancl_into_rtrancl)
  have needs: "needs_of q k = filter (\<lambda>d. d \<in> ?K) (needs_of p k)" if "k \<in> set (plan_order q)" for k
    using that q(3) by (auto simp: needs_of_def q(4) restricted_step_def split: option.splits)
  have all: "fmlookup (plan_steps q) k = fmlookup (plan_steps p) k"
    if v: "sound_graph p" and k: "k \<in> set (plan_order q)" for k
  proof -
    have "\<forall>d\<in>set (needs_of p k). d \<in> ?K"
      using closed [OF k] v by (auto simp: sound_graph_def edges_def)
    then show ?thesis
      using k q(3) by (auto simp: q(4) restricted_step_def needs_of_def split: option.splits)
  qed
  have "sound_graph q" if v: "sound_graph p"
  proof -
    have e: "(k, d) \<in> edges p \<and> k \<in> set (plan_order q) \<and> d \<in> set (plan_order q)" if "(k, d) \<in> edges q" for k d
      using that needs [of k] q(3) plan_edges [OF q(2), of k d] by (auto simp: edges_def)
    then have "acyclic (edges q)"
      using v by (auto simp: sound_graph_def intro: acyclic_subset)
    then show ?thesis
      using v e all [OF v] unfolding sound_graph_def by (fastforce simp: stage_of_def)
  qed
  moreover have "needs_of q k = filter (\<lambda>d. d \<in> set (plan_order p)) (needs_of p k)" if "k \<in> set (plan_order q)" for k
    unfolding needs [OF that] by (rule filter_cong [OF refl]) (rule closed [OF that])
  ultimately show ?thesis
    using q(1-3) all Validate_sound_graph [OF assms] Validate_sound_graph [OF q(2)]
    unfolding kept_def mem_Collect_eq by blast
qed

definition of_as1 :: "Step \<Rightarrow> bool" where
  "of_as1 s \<longleftrightarrow> step_Scope s = ''as1''"

theorem Restrict_keeps_needs_witness:
  "(case Restrict of_as1 demo_plan of Inl _ \<Rightarrow> False | Inr q \<Rightarrow> plan_Validate q = Inr () \<and> plan_order q = plan_order demo_plan) \<and>
   (case Restrict (\<lambda>s. step_ID s = ''r2'') demo_plan of Inl _ \<Rightarrow> False | Inr q \<Rightarrow> plan_Validate q = Inr () \<and> plan_order q = [''r2''])"
proof -
  have "plan_Validate demo_plan = Inr ()"
    by code_simp
  moreover have "(case Restrict of_as1 demo_plan of Inl _ \<Rightarrow> False | Inr q \<Rightarrow> plan_order q = plan_order demo_plan) \<and>
     (case Restrict (\<lambda>s. step_ID s = ''r2'') demo_plan of Inl _ \<Rightarrow> False | Inr q \<Rightarrow> plan_order q = [''r2''])"
    by code_simp
  ultimately show ?thesis
    using Restrict_keeps_needs [OF wf_demo(1), of of_as1] Restrict_keeps_needs [OF wf_demo(1), of "\<lambda>s. step_ID s = ''r2''"]
    by (auto simp: split: sum.splits)
qed

end
