(* ===== verification/Plan_Exec.thy ===== *)
theory Plan_Exec
  imports Deploy_Plan
begin

text \<open>
  The scheduler that executes a plan, \<open>Execute\<close> of \<open>internal/plan/plan.go\<close>.

  Its loop is a state machine.  The program counter says where in the loop it is, the other fields
  are the local variables of the function, and the steps handed to workers whose result has not
  been received.  What happens outside is a signal: the context is cancelled, a worker delivers a
  result, a \<open>select\<close> picks the cancelled context.  A step's own work is a Go closure: which error it
  returns is part of the signal.
\<close>

section \<open>Definitions\<close>

record Options =
  opt_Workers :: int
  opt_ContinueOnError :: bool
  opt_DryRun :: bool

text \<open>\<open>n\<close> is the number of processors.\<close>

definition defaultWorkers :: "int \<Rightarrow> int" where
  "defaultWorkers n = (let w = n * 4; w1 = (if w < 8 then 8 else w) in if w1 > 256 then 256 else w1)"

definition workers_of :: "int \<Rightarrow> Options \<Rightarrow> nat" where
  "workers_of n opts = nat (if opt_Workers opts \<le> 0 then defaultWorkers n else opt_Workers opts)"

datatype step_error =
    RunError string
  | PrerequisiteFailed string
  | ContextError

record Result =
  res_Err :: "step_error option"
  res_Skipped :: bool

datatype stop_error =
    ContextCancelled
  | PlanDeadlocked "string list"
  | StepFailed string step_error

datatype sched_pc = AtTop | Draining bool | Choosing | Stopped "stop_error option"

record Execution =
  x_remaining :: "(string, int) fmap"
  x_failedScopes :: "string set"
  x_failedSteps :: "string set"
  x_results :: "(string, Result) fmap"
  x_ready :: "string list"
  x_inflight :: "string list"
  x_cancelled :: bool
  x_pc :: sched_pc

definition dependents :: "Plan \<Rightarrow> string \<Rightarrow> string list" where
  "dependents p k = [d. d \<leftarrow> plan_order p, need \<leftarrow> needs_of p d, need = k]"

definition optional_step :: "Plan \<Rightarrow> string \<Rightarrow> bool" where
  "optional_step p k = (case fmlookup (plan_steps p) k of None \<Rightarrow> False | Some s \<Rightarrow> step_Optional s)"

definition scope_of :: "Plan \<Rightarrow> string \<Rightarrow> string" where
  "scope_of p k = (case fmlookup (plan_steps p) k of None \<Rightarrow> [] | Some s \<Rightarrow> step_Scope s)"

definition describe_of :: "Plan \<Rightarrow> string \<Rightarrow> string" where
  "describe_of p k = (case fmlookup (plan_steps p) k of None \<Rightarrow> [] | Some s \<Rightarrow> step_Describe s)"

text \<open>The scope a failure is attributed to.\<close>

definition blamed_scope :: "Plan \<Rightarrow> string \<Rightarrow> string" where
  "blamed_scope p k = (if scope_of p k = [] then ''lab'' else scope_of p k)"

definition exec_start :: "Plan \<Rightarrow> Execution" where
  "exec_start p =
     \<lparr>x_remaining = fmap_of_list (map (\<lambda>k. (k, int (length (needs_of p k)))) (plan_order p)),
      x_failedScopes = {}, x_failedSteps = {}, x_results = fmempty,
      x_ready = filter (\<lambda>k. needs_of p k = []) (plan_order p),
      x_inflight = [], x_cancelled = False, x_pc = AtTop\<rparr>"

fun release_deps :: "string list \<Rightarrow> (string, int) fmap \<times> string list \<Rightarrow> (string, int) fmap \<times> string list" where
  "release_deps [] (rem, ready) = (rem, ready)"
| "release_deps (d # ds) (rem, ready) =
     (let rem' = fmupd d (get_or 0 rem d - 1) rem
      in release_deps ds (rem', if get_or 0 rem' d = 0 then ready @ [d] else ready))"

definition order_index :: "Plan \<Rightarrow> string \<Rightarrow> nat" where
  "order_index p k = length (takeWhile (\<lambda>j. j \<noteq> k) (plan_order p))"

definition failed_result :: "Plan \<Rightarrow> string \<Rightarrow> Result \<Rightarrow> bool" where
  "failed_result p k r \<longleftrightarrow> res_Err r \<noteq> None \<and> \<not> res_Skipped r \<and> \<not> optional_step p k"

definition settle :: "Plan \<Rightarrow> string \<Rightarrow> Result \<Rightarrow> bool \<Rightarrow> Execution \<Rightarrow> Execution" where
  "settle p k r skippedByFailure st =
     (let (rem, ready) = release_deps (dependents p k) (x_remaining st, x_ready st)
      in st\<lparr>x_results := fmupd k r (x_results st),
            x_failedSteps := (if skippedByFailure \<or> failed_result p k r then insert k (x_failedSteps st)
                              else x_failedSteps st),
            x_failedScopes := (if failed_result p k r then insert (blamed_scope p k) (x_failedScopes st)
                               else x_failedScopes st),
            x_remaining := rem,
            x_ready := sort_key (order_index p) ready\<rparr>)"

definition skip_step :: "Options \<Rightarrow> Plan \<Rightarrow> string \<Rightarrow> Execution \<Rightarrow> (Result \<times> bool) option" where
  "skip_step opts p k st =
     (if opt_DryRun opts then Some (\<lparr>res_Err = None, res_Skipped = True\<rparr>, False)
      else if scope_of p k \<noteq> [] \<and> scope_of p k \<in> x_failedScopes st
        then Some (\<lparr>res_Err = None, res_Skipped = True\<rparr>, True)
      else
        case filter (\<lambda>need. need \<in> x_failedSteps st) (needs_of p k) of
          need # _ \<Rightarrow> Some (\<lparr>res_Err = Some (PrerequisiteFailed need), res_Skipped = True\<rparr>, True)
        | [] \<Rightarrow> None)"

datatype signal =
    Proceed
  | SelectCancelled
  | Delivered string "string option"
  | NotStarted string
  | CancelContext

definition can_dispatch :: "nat \<Rightarrow> Execution \<Rightarrow> bool" where
  "can_dispatch w st \<longleftrightarrow> x_ready st \<noteq> [] \<and> length (x_inflight st) < w"

definition after_drain :: "bool \<Rightarrow> Execution \<Rightarrow> Execution" where
  "after_drain progressed st = st\<lparr>x_pc := (if progressed then AtTop else Choosing)\<rparr>"

definition proceed :: "nat \<Rightarrow> Options \<Rightarrow> Plan \<Rightarrow> Execution \<Rightarrow> Execution option" where
  "proceed w opts p st =
     (case x_pc st of
        AtTop \<Rightarrow>
          Some (st\<lparr>x_pc := (if plan_Len p \<le> fcard (fmdom (x_results st)) then Stopped None
                            else if x_cancelled st then Stopped (Some ContextCancelled)
                            else Draining False)\<rparr>)
      | Draining progressed \<Rightarrow>
          (case x_ready st of
             [] \<Rightarrow> Some (after_drain progressed st)
           | k # ks \<Rightarrow>
               (case skip_step opts p k st of
                  None \<Rightarrow> Some (after_drain progressed st)
                | Some (r, blocked) \<Rightarrow>
                    Some ((settle p k r blocked (st\<lparr>x_ready := ks\<rparr>))\<lparr>x_pc := Draining True\<rparr>)))
      | Choosing \<Rightarrow>
          if can_dispatch w st
          then Some (st\<lparr>x_ready := tl (x_ready st), x_inflight := hd (x_ready st) # x_inflight st, x_pc := AtTop\<rparr>)
          else if x_inflight st = []
          then Some (st\<lparr>x_pc := Stopped (Some (PlanDeadlocked
                          (filter (\<lambda>k. fmlookup (x_results st) k = None) (plan_order p))))\<rparr>)
          else None
      | Stopped e \<Rightarrow> None)"

definition deliver :: "nat \<Rightarrow> Options \<Rightarrow> Plan \<Rightarrow> string \<Rightarrow> Result \<Rightarrow> Execution \<Rightarrow> Execution option" where
  "deliver w opts p k r st =
     (if x_pc st = Choosing \<and> \<not> can_dispatch w st \<and> k \<in> set (x_inflight st)
      then
        let st1 = settle p k r False (st\<lparr>x_inflight := remove1 k (x_inflight st)\<rparr>)
        in Some (st1\<lparr>x_pc :=
             (case res_Err r of
                None \<Rightarrow> AtTop
              | Some e \<Rightarrow> if \<not> optional_step p k \<and> \<not> opt_ContinueOnError opts
                         then Stopped (Some (StepFailed (describe_of p k) e)) else AtTop)\<rparr>)
      else None)"

text \<open>A signal that the loop cannot receive where it is gives \<open>None\<close>.  A worker leaves a step alone
  only once the context is cancelled.\<close>

fun exec_step :: "nat \<Rightarrow> Options \<Rightarrow> Plan \<Rightarrow> signal \<Rightarrow> Execution \<Rightarrow> Execution option" where
  "exec_step w opts p Proceed st = proceed w opts p st"
| "exec_step w opts p SelectCancelled st =
     (if x_pc st = Choosing \<and> x_cancelled st \<and> (can_dispatch w st \<or> x_inflight st \<noteq> [])
      then Some (st\<lparr>x_pc := Stopped (Some ContextCancelled)\<rparr>) else None)"
| "exec_step w opts p (Delivered k e) st = deliver w opts p k \<lparr>res_Err = map_option RunError e, res_Skipped = False\<rparr> st"
| "exec_step w opts p (NotStarted k) st =
     (if x_cancelled st
      then deliver w opts p k \<lparr>res_Err = Some ContextError, res_Skipped = True\<rparr> st else None)"
| "exec_step w opts p CancelContext st =
     (if x_cancelled st then None else Some (st\<lparr>x_cancelled := True\<rparr>))"

fun exec_run :: "nat \<Rightarrow> Options \<Rightarrow> Plan \<Rightarrow> signal list \<Rightarrow> Execution \<Rightarrow> Execution option" where
  "exec_run w opts p [] st = Some st"
| "exec_run w opts p (g # gs) st =
     (case exec_step w opts p g st of None \<Rightarrow> None | Some st' \<Rightarrow> exec_run w opts p gs st')"

text \<open>\<open>Execute\<close>, up to the point where it collects the workers and reports.\<close>

definition Execute :: "int \<Rightarrow> Options \<Rightarrow> Plan \<Rightarrow> signal list \<Rightarrow> (plan_error, Execution option) result" where
  "Execute n opts p gs =
     (case plan_Validate p of
        Inl e \<Rightarrow> Inl e
      | Inr _ \<Rightarrow> Inr (exec_run (workers_of n opts) opts p gs (exec_start p)))"

subsection \<open>The report\<close>

record Report =
  rep_Results :: "(string \<times> Result) list"
  rep_ScopeErrors :: "(string, (string \<times> step_error) list) fmap"

fun scope_errors :: "Plan \<Rightarrow> (string \<times> Result) list \<Rightarrow> (string, (string \<times> step_error) list) fmap \<Rightarrow> (string, (string \<times> step_error) list) fmap" where
  "scope_errors p [] m = m"
| "scope_errors p ((k, r) # rs) m =
     (if failed_result p k r
      then scope_errors p rs (fmupd (blamed_scope p k)
             (get_or [] m (blamed_scope p k) @ (case res_Err r of None \<Rightarrow> [] | Some e \<Rightarrow> [(describe_of p k, e)])) m)
      else scope_errors p rs m)"

definition reportFromResults :: "Plan \<Rightarrow> (string, Result) fmap \<Rightarrow> Report" where
  "reportFromResults p results =
     (let rs = List.map_filter (\<lambda>k. map_option (Pair k) (fmlookup results k)) (plan_order p)
      in \<lparr>rep_Results = rs, rep_ScopeErrors = scope_errors p rs fmempty\<rparr>)"

definition report_Failed :: "Report \<Rightarrow> bool" where
  "report_Failed rep \<longleftrightarrow> fm_keys (rep_ScopeErrors rep) \<noteq> []"

definition Completed :: "Plan \<Rightarrow> string \<Rightarrow> Report \<Rightarrow> nat" where
  "Completed p stage rep =
     length (filter (\<lambda>(k, r). stage_of p k = stage \<and> \<not> res_Skipped r \<and> res_Err r = None) (rep_Results rep))"

definition Planned :: "Plan \<Rightarrow> string \<Rightarrow> Report \<Rightarrow> nat" where
  "Planned p stage rep = length (filter (\<lambda>(k, r). stage_of p k = stage) (rep_Results rep))"

definition FailedScopes :: "Report \<Rightarrow> string list" where
  "FailedScopes rep = fm_keys (rep_ScopeErrors rep)"

section \<open>Bookkeeping\<close>

text \<open>Releasing the dependents of a step counts each of them down once for every mention.\<close>

lemma release_deps_spec:
  "\<forall>d\<in>set ds. int (count_list ds d) \<le> get_or 0 rem d \<Longrightarrow>
   \<exists>rem' new. release_deps ds (rem, ready) = (rem', ready @ new) \<and> distinct new \<and>
     set new = {d \<in> set ds. get_or 0 rem d = int (count_list ds d)} \<and>
     (\<forall>d. get_or 0 rem' d = get_or 0 rem d - int (count_list ds d))"
proof (induction ds arbitrary: rem ready)
  case (Cons d ds)
  let ?rem = "fmupd d (get_or 0 rem d - 1) rem"
  let ?ready = "if get_or 0 ?rem d = 0 then ready @ [d] else ready"
  have "\<forall>e\<in>set ds. int (count_list ds e) \<le> get_or 0 ?rem e"
    using Cons.prems by (auto split: if_splits)
  then obtain rem' new where i: "release_deps ds (?rem, ?ready) = (rem', ?ready @ new)" "distinct new"
    "set new = {e \<in> set ds. get_or 0 ?rem e = int (count_list ds e)}"
    "\<forall>e. get_or 0 rem' e = get_or 0 ?rem e - int (count_list ds e)"
    using Cons.IH by blast
  have r: "release_deps (d # ds) (rem, ready) = (rem', ready @ ((if get_or 0 rem d = 1 then [d] else []) @ new))"
    using i(1) by simp
  define c where "c = (\<lambda>e. int (count_list (d # ds) e))"
  have n: "set new = {e \<in> set ds. get_or 0 rem e = c e}"
    unfolding i(3) c_def by (rule Collect_cong) auto
  have one: "d \<notin> set ds" if "get_or 0 rem d = 1"
    using Cons.prems that by (auto simp: count_list_0_iff)
  have "set ((if get_or 0 rem d = 1 then [d] else []) @ new) = {e \<in> set (d # ds). get_or 0 rem e = c e}"
  proof (cases "d \<in> set ds")
    case True
    moreover have "get_or 0 rem d \<noteq> 1"
      using one True by blast
    ultimately show ?thesis
      by (simp add: n insert_absorb)
  next
    case False
    then have "c d = 1"
      by (simp add: c_def count_list_0_iff)
    then show ?thesis
      unfolding set_append n by (cases "get_or 0 rem d = 1") force+
  qed
  moreover have "distinct ((if get_or 0 rem d = 1 then [d] else []) @ new)"
    using i(2) n one by (cases "get_or 0 rem d = 1") simp_all
  moreover have "get_or 0 rem' e = get_or 0 rem e - int (count_list (d # ds) e)" for e
    using i(4) by simp
  ultimately show ?case
    using r unfolding c_def by blast
qed simp

lemma count_dependents:
  assumes "distinct ks"
  shows "count_list [d. d \<leftarrow> ks, need \<leftarrow> f d, need = k] j = (if j \<in> set ks then count_list (f j) k else 0)"
proof -
  have "count_list [d. need \<leftarrow> ns, need = k] j = (if j = d then count_list ns k else 0)" for ns d
    by (induction ns) auto
  then show ?thesis
    using assms by (induction ks) auto
qed

lemma count_filter_insert:
  "k \<notin> D \<Longrightarrow> length (filter (\<lambda>n. n \<notin> D) ns) = length (filter (\<lambda>n. n \<notin> insert k D) ns) + count_list ns k"
  by (induction ns) auto

text \<open>Every step is unready, ready, with a worker, settled, or (in \<open>X\<close>) being settled, and the counter of a
  step is the number of its needs that are not settled.\<close>

abbreviation settled :: "Execution \<Rightarrow> string set" where
  "settled st \<equiv> fmdom' (x_results st)"

definition placed :: "string set \<Rightarrow> Execution \<Rightarrow> string set" where
  "placed X st = set (x_ready st) \<union> set (x_inflight st) \<union> settled st \<union> X"

definition unsettled_needs :: "Plan \<Rightarrow> Execution \<Rightarrow> string \<Rightarrow> nat" where
  "unsettled_needs p st k = length (filter (\<lambda>n. n \<notin> settled st) (needs_of p k))"

definition accounted :: "Plan \<Rightarrow> string set \<Rightarrow> Execution \<Rightarrow> bool" where
  "accounted p X st \<longleftrightarrow>
     distinct (x_ready st @ x_inflight st) \<and>
     set (x_ready st @ x_inflight st) \<inter> (settled st \<union> X) = {} \<and> X \<inter> settled st = {} \<and>
     placed X st \<subseteq> set (plan_order p) \<and>
     (\<forall>k\<in>set (plan_order p). get_or 0 (x_remaining st) k = int (unsettled_needs p st k)) \<and>
     (\<forall>k\<in>set (plan_order p). unsettled_needs p st k = 0 \<longleftrightarrow> k \<in> placed X st)"

lemma settle_fields [simp]:
  "x_inflight (settle p k r b st) = x_inflight st" "x_cancelled (settle p k r b st) = x_cancelled st"
  "x_pc (settle p k r b st) = x_pc st" "x_results (settle p k r b st) = fmupd k r (x_results st)"
  by (simp_all add: settle_def case_prod_unfold Let_def)

lemma settle_failed:
  "x_failedSteps (settle p k r b st) = (if b \<or> failed_result p k r then insert k (x_failedSteps st) else x_failedSteps st)"
  "x_failedScopes (settle p k r b st) =
     (if failed_result p k r then insert (blamed_scope p k) (x_failedScopes st) else x_failedScopes st)"
  by (simp_all add: settle_def case_prod_unfold Let_def)

lemma settle_accounted:
  assumes wf: "wf_plan p" and a: "accounted p {k} st"
  shows "accounted p {} (settle p k r b st)"
proof -
  let ?ds = "dependents p k"
  have dist: "distinct (plan_order p)"
    using wf by (simp add: wf_plan_def)
  have cnt: "count_list ?ds j = (if j \<in> set (plan_order p) then count_list (needs_of p j) k else 0)" for j
    unfolding dependents_def by (rule count_dependents [OF dist])
  have k: "k \<notin> settled st" "k \<in> set (plan_order p)"
    using a by (auto simp: accounted_def placed_def)
  have left: "unsettled_needs p st j = unsettled_needs p (settle p k r b st) j + count_list (needs_of p j) k" for j
    using count_filter_insert [OF k(1)] by (simp add: unsettled_needs_def)
  have in_ds: "j \<in> set ?ds \<Longrightarrow> j \<in> set (plan_order p)" for j
    by (auto simp: dependents_def split: if_splits)
  have rem: "get_or 0 (x_remaining st) j = int (unsettled_needs p st j)" if "j \<in> set (plan_order p)" for j
    using a that by (simp add: accounted_def)
  obtain rem' new where r: "release_deps ?ds (x_remaining st, x_ready st) = (rem', x_ready st @ new)" "distinct new"
    "set new = {j \<in> set ?ds. get_or 0 (x_remaining st) j = int (count_list ?ds j)}"
    "\<forall>j. get_or 0 rem' j = get_or 0 (x_remaining st) j - int (count_list ?ds j)"
    using release_deps_spec [of ?ds "x_remaining st" "x_ready st"] rem in_ds left cnt by auto
  define st' where "st' = settle p k r b st"
  have f: "set (x_ready st') = set (x_ready st) \<union> set new" "x_remaining st' = rem'"
    "distinct (x_ready st') \<longleftrightarrow> distinct (x_ready st @ new)"
    by (simp_all add: st'_def settle_def r(1))
  have new: "j \<in> set new \<longleftrightarrow> j \<in> set (plan_order p) \<and> unsettled_needs p st j \<noteq> 0 \<and> unsettled_needs p st' j = 0" for j
    using left [of j] rem [of j] in_ds [of j] cnt [of j] count_list_0_iff [of ?ds j] unfolding r(3) st'_def by auto
  have pl: "placed {} st' = placed {k} st \<union> set new"
    using f(1) by (auto simp: placed_def st'_def)
  have zero: "unsettled_needs p st j = 0 \<longleftrightarrow> j \<in> placed {k} st" if "j \<in> set (plan_order p)" for j
    using a that by (simp add: accounted_def)
  have fresh: "set new \<inter> placed {k} st = {}"
    using new zero by blast
  have "distinct (x_ready st' @ x_inflight st') \<and> set (x_ready st' @ x_inflight st') \<inter> (settled st' \<union> {}) = {}"
    using a fresh r(2) f unfolding accounted_def placed_def by (auto simp: st'_def)
  moreover have "placed {} st' \<subseteq> set (plan_order p)"
    using a new pl by (auto simp: accounted_def)
  moreover have "get_or 0 (x_remaining st') j = int (unsettled_needs p st' j)" if "j \<in> set (plan_order p)" for j
    using r(4) rem [OF that] left [of j] cnt [of j] that f(2) unfolding st'_def by simp
  moreover have "unsettled_needs p st' j = 0 \<longleftrightarrow> j \<in> placed {} st'" if "j \<in> set (plan_order p)" for j
    using pl new [of j] zero [OF that] that left [of j] unfolding st'_def by auto
  ultimately show ?thesis
    unfolding accounted_def st'_def [symmetric] by blast
qed

lemma accounted_frame:
  "accounted p X (st\<lparr>x_pc := c\<rparr>) = accounted p X st" "accounted p X (st\<lparr>x_cancelled := b\<rparr>) = accounted p X st"
  by (simp_all add: accounted_def placed_def unsettled_needs_def)

lemma start_accounted:
  assumes "wf_plan p"
  shows "accounted p {} (exec_start p)"
proof -
  have "fmlookup (x_remaining (exec_start p)) k = Some (int (length (needs_of p k)))" if "k \<in> set (plan_order p)" for k
    using that by (auto simp: exec_start_def fmlookup_of_list map_of_map_restrict restrict_map_def)
  then have "get_or 0 (x_remaining (exec_start p)) k = int (length (needs_of p k))" if "k \<in> set (plan_order p)" for k
    using that by (simp add: get_or_def)
  moreover have "distinct (plan_order p)"
    using assms by (simp add: wf_plan_def)
  ultimately show ?thesis
    by (auto simp: accounted_def placed_def unsettled_needs_def exec_start_def)
qed

text \<open>Taking a step from the ready list or back from a worker.\<close>

lemma take_ready:
  "accounted p {} st \<Longrightarrow> x_ready st = k # ks \<Longrightarrow> accounted p {k} (st\<lparr>x_ready := ks\<rparr>)"
  by (auto simp: accounted_def placed_def unsettled_needs_def)

lemma take_inflight:
  "accounted p {} st \<Longrightarrow> k \<in> set (x_inflight st) \<Longrightarrow> accounted p {k} (st\<lparr>x_inflight := remove1 k (x_inflight st)\<rparr>)"
  by (auto simp: accounted_def placed_def unsettled_needs_def set_remove1_eq)

lemma dispatch_accounted:
  "accounted p {} st \<Longrightarrow> x_ready st = k # ks \<Longrightarrow>
   accounted p {} (st\<lparr>x_ready := ks, x_inflight := k # x_inflight st\<rparr>)"
  by (auto simp: accounted_def placed_def unsettled_needs_def)

lemma can_dispatch_Cons:
  "can_dispatch w st \<longleftrightarrow> length (x_inflight st) < w \<and> (\<exists>k ks. x_ready st = k # ks)"
  by (auto simp: can_dispatch_def neq_Nil_conv)

section \<open>The transitions\<close>

definition idle_head :: "Options \<Rightarrow> Plan \<Rightarrow> Execution \<Rightarrow> bool" where
  "idle_head opts p st \<longleftrightarrow> (case x_ready st of [] \<Rightarrow> True | k # _ \<Rightarrow> skip_step opts p k st = None)"

lemma deliver_Some:
  assumes "deliver w opts p k r st = Some st'"
  obtains c where "x_pc st = Choosing" "k \<in> set (x_inflight st)"
    "st' = (settle p k r False (st\<lparr>x_inflight := remove1 k (x_inflight st)\<rparr>))\<lparr>x_pc := c\<rparr>"
    "c = AtTop \<or> (\<exists>e. c = Stopped (Some (StepFailed (describe_of p k) e))) \<and> \<not> opt_ContinueOnError opts"
  using assms by (auto simp: deliver_def Let_def split: if_splits option.splits)

lemma exec_step_cases [consumes 1, case_names top drained skip dispatch stop deliver cancel]:
  assumes "exec_step w opts p g st = Some st'"
  obtains (top) c where "x_pc st = AtTop" "st' = st\<lparr>x_pc := c\<rparr>" "g = Proceed"
      "c = Stopped None \<and> plan_Len p \<le> fcard (fmdom (x_results st)) \<or>
       c = Stopped (Some ContextCancelled) \<and> x_cancelled st \<or> 
       c = Draining False \<and> \<not> x_cancelled st \<and> fcard (fmdom (x_results st)) < plan_Len p"
    | (drained) b where "x_pc st = Draining b" "idle_head opts p st" "st' = after_drain b st" "g = Proceed"
    | (skip) b k ks r blocked where "x_pc st = Draining b" "x_ready st = k # ks" "skip_step opts p k st = Some (r, blocked)"
      "st' = (settle p k r blocked (st\<lparr>x_ready := ks\<rparr>))\<lparr>x_pc := Draining True\<rparr>" "g = Proceed"
    | (dispatch) k ks where "x_pc st = Choosing" "x_ready st = k # ks" "length (x_inflight st) < w" "g = Proceed"
      "st' = (st\<lparr>x_ready := ks, x_inflight := k # x_inflight st\<rparr>)\<lparr>x_pc := AtTop\<rparr>"
    | (stop) e where "x_pc st = Choosing" "st' = st\<lparr>x_pc := Stopped (Some e)\<rparr>"
      "e = ContextCancelled \<and> x_cancelled st \<or>
       (\<exists>ks. e = PlanDeadlocked ks) \<and> \<not> can_dispatch w st \<and> x_inflight st = []"
    | (deliver) k r c where "x_pc st = Choosing" "k \<in> set (x_inflight st)" "res_Skipped r \<longrightarrow> x_cancelled st"
      "st' = (settle p k r False (st\<lparr>x_inflight := remove1 k (x_inflight st)\<rparr>))\<lparr>x_pc := c\<rparr>"
      "c = AtTop \<or> (\<exists>e. c = Stopped (Some (StepFailed (describe_of p k) e))) \<and> \<not> opt_ContinueOnError opts"
    | (cancel) "\<not> x_cancelled st" "st' = st\<lparr>x_cancelled := True\<rparr>" "g = CancelContext"
proof (cases g)
  case Proceed
  then have p: "proceed w opts p st = Some st'"
    using assms by simp
  show ?thesis
  proof (cases "x_pc st")
    case AtTop
    then show ?thesis
      using p by (intro top [of "x_pc st'"]) (auto simp: proceed_def Proceed split: if_splits)
  next
    case (Draining b)
    then show ?thesis
      using p Proceed drained [of b] skip [of b] by (auto simp: proceed_def idle_head_def split: list.splits option.splits)
  next
    case Choosing
    then show ?thesis
      using p Proceed dispatch stop by (auto simp: proceed_def can_dispatch_Cons split: if_splits)
  next
    case (Stopped e)
    then show ?thesis
      using p by (simp add: proceed_def)
  qed
next
  case SelectCancelled
  then show ?thesis
    using assms stop by (auto split: if_splits)
next
  case (Delivered k e)
  then have "deliver w opts p k \<lparr>res_Err = map_option RunError e, res_Skipped = False\<rparr> st = Some st'"
    using assms by simp
  then show ?thesis
    by (rule deliver_Some) (rule deliver [of k "\<lparr>res_Err = map_option RunError e, res_Skipped = False\<rparr>"], simp_all)
next
  case (NotStarted k)
  then have "x_cancelled st" "deliver w opts p k \<lparr>res_Err = Some ContextError, res_Skipped = True\<rparr> st = Some st'"
    using assms by (simp_all split: if_splits)
  from this(2) show ?thesis
    by (rule deliver_Some)
      (rule deliver [of k "\<lparr>res_Err = Some ContextError, res_Skipped = True\<rparr>"], simp_all add: \<open>x_cancelled st\<close>)
next
  case CancelContext
  then show ?thesis
    using assms cancel by (auto split: if_splits)
qed

definition booked :: "nat \<Rightarrow> Plan \<Rightarrow> Execution \<Rightarrow> bool" where
  "booked w p st \<longleftrightarrow> accounted p {} st \<and> length (x_inflight st) \<le> w"

lemma after_drain_fields [simp]:
  "x_inflight (after_drain b st) = x_inflight st" "x_results (after_drain b st) = x_results st"
  "x_ready (after_drain b st) = x_ready st" "x_cancelled (after_drain b st) = x_cancelled st"
  "x_failedSteps (after_drain b st) = x_failedSteps st" "x_failedScopes (after_drain b st) = x_failedScopes st"
  "accounted p X (after_drain b st) = accounted p X st"
  by (simp_all add: after_drain_def accounted_frame)

lemma booked_step:
  assumes "wf_plan p" "booked w p st" "exec_step w opts p g st = Some st'"
  shows "booked w p st'"
  using assms(3)
proof (cases rule: exec_step_cases)
  case (skip b k ks r blocked)
  then show ?thesis
    using assms settle_accounted take_ready by (auto simp: booked_def accounted_frame)
next
  case (dispatch k ks)
  then show ?thesis
    using assms dispatch_accounted [of p st k ks] by (simp add: booked_def accounted_frame)
next
  case (deliver k r c)
  then show ?thesis
    using assms settle_accounted take_inflight by (auto simp: booked_def accounted_frame length_remove1)
qed (use assms in \<open>auto simp: booked_def accounted_frame\<close>)

text \<open>Nothing is handed out while a need of it is outstanding or failed.\<close>

definition ran_well :: "Plan \<Rightarrow> Execution \<Rightarrow> string \<Rightarrow> bool" where
  "ran_well p st k =
     (case fmlookup (x_results st) k of
        None \<Rightarrow> False
      | Some r \<Rightarrow> \<not> res_Skipped r \<and> (res_Err r = None \<or> optional_step p k))"

definition begun :: "Execution \<Rightarrow> string \<Rightarrow> bool" where
  "begun st k \<longleftrightarrow>
     k \<in> set (x_inflight st) \<or>
     (case fmlookup (x_results st) k of None \<Rightarrow> False | Some r \<Rightarrow> \<not> res_Skipped r)"

definition orderly :: "Options \<Rightarrow> Plan \<Rightarrow> Execution \<Rightarrow> bool" where
  "orderly opts p st \<longleftrightarrow>
     (\<forall>k. begun st k \<longrightarrow> (\<forall>n\<in>set (needs_of p k). ran_well p st n)) \<and>
     (\<forall>k\<in>settled st. k \<in> x_failedSteps st \<or> ran_well p st k \<or>
        x_cancelled st \<and> x_pc st \<notin> {Draining False, Draining True, Choosing}) \<and>
     (x_pc st = Choosing \<longrightarrow> idle_head opts p st)"

lemma ran_well_settle:
  "ran_well p (settle p k r b st) j =
     (if j = k then \<not> res_Skipped r \<and> (res_Err r = None \<or> optional_step p k) else ran_well p st j)"
  by (simp add: ran_well_def)

lemma ran_well_frame [simp]:
  "ran_well p (st\<lparr>x_pc := c\<rparr>) k = ran_well p st k" "ran_well p (st\<lparr>x_ready := ks\<rparr>) k = ran_well p st k"
  "ran_well p (st\<lparr>x_inflight := js\<rparr>) k = ran_well p st k" "ran_well p (st\<lparr>x_cancelled := b\<rparr>) k = ran_well p st k"
  "ran_well p (after_drain b' st) k = ran_well p st k"
  by (simp_all add: ran_well_def)

lemma skip_result: "skip_step opts p k st = Some (r, b) \<Longrightarrow> \<not> opt_DryRun opts \<Longrightarrow> res_Skipped r \<and> b"
  by (auto simp: skip_step_def split: if_splits list.splits)

lemma skip_None: "skip_step opts p k st = None \<Longrightarrow> set (needs_of p k) \<inter> x_failedSteps st = {}"
  by (auto simp: skip_step_def filter_empty_conv split: if_splits list.splits)

lemma idle_head_frame [simp]:
  "idle_head opts p (st\<lparr>x_pc := c\<rparr>) = idle_head opts p st" "idle_head opts p (st\<lparr>x_cancelled := b\<rparr>) = idle_head opts p st"
  by (auto simp: idle_head_def skip_step_def split: list.splits)

lemma orderly_step:
  assumes "booked w p st" "orderly opts p st" "\<not> opt_DryRun opts" "exec_step w opts p g st = Some st'"
  shows "orderly opts p st'"
  using assms(4)
proof (cases rule: exec_step_cases)
  case (top c)
  then show ?thesis
    using assms(2) by (auto simp: orderly_def begun_def)
next
  case (drained b)
  then show ?thesis
    using assms(2) by (auto simp: orderly_def begun_def after_drain_def)
next
  case (skip b k ks r blocked)
  have k: "fmlookup (x_results st) k = None" "k \<notin> set (x_inflight st)"
    using assms(1) skip(2) by (auto simp: booked_def accounted_def fmlookup_dom'_iff)
  have nr: "\<not> ran_well p st k"
    using k by (simp add: ran_well_def)
  note s = skip_result [OF skip(3) assms(3)]
  have "begun st' j \<longleftrightarrow> begun st j" for j
    using k s skip(4) by (auto simp: begun_def)
  moreover have "ran_well p st' j \<longleftrightarrow> ran_well p st j" for j
    using k s nr skip(4) by (auto simp: ran_well_settle)
  moreover have "k \<in> x_failedSteps st'" "x_failedSteps st \<subseteq> x_failedSteps st'" "settled st' = insert k (settled st)"
    using s skip(4) by (auto simp: settle_failed)
  moreover have "\<forall>j\<in>settled st. j \<in> x_failedSteps st \<or> ran_well p st j"
    using assms(2) skip(1) by (cases b) (auto simp: orderly_def)
  ultimately show ?thesis
    using assms(2) skip(4) by (auto simp: orderly_def)
next
  case (dispatch k ks)
  have "skip_step opts p k st = None"
    using assms(2) dispatch by (simp add: orderly_def idle_head_def)
  note free = skip_None [OF this]
  have "unsettled_needs p st k = 0"
    using assms(1) dispatch(2) by (auto simp: booked_def accounted_def placed_def)
  then have "set (needs_of p k) \<subseteq> settled st"
    by (auto simp: unsettled_needs_def filter_empty_conv)
  then have "\<forall>n\<in>set (needs_of p k). ran_well p st n"
    using assms(2) free dispatch(1) by (fastforce simp: orderly_def)
  then show ?thesis
    using assms(2) dispatch by (auto simp: orderly_def begun_def)
next
  case (deliver k r c)
  have k: "fmlookup (x_results st) k = None" "begun st k" "distinct (x_inflight st)"
    using assms(1) deliver(2) by (auto simp: booked_def accounted_def begun_def fmlookup_dom'_iff)
  have "begun st j" if "begun st' j" for j
    using that k deliver(4) by (auto simp: begun_def split: if_splits)
  moreover have "ran_well p st' j" if "ran_well p st j" for j
    using that k(1) deliver(4) by (auto simp: ran_well_def)
  moreover have "k \<in> x_failedSteps st' \<or> ran_well p st' k \<or> x_cancelled st'"
    using deliver(3,4) by (auto simp: settle_failed ran_well_settle failed_result_def)
  moreover have "x_failedSteps st \<subseteq> x_failedSteps st'" "settled st' = insert k (settled st)"
    "x_pc st' \<notin> {Draining False, Draining True, Choosing}"
    using deliver(4,5) by (auto simp: settle_failed)
  ultimately show ?thesis
    using assms(2) deliver(1) unfolding orderly_def by fastforce
next
  case (stop e)
  then show ?thesis
    using assms(2) by (auto simp: orderly_def begun_def)
next
  case cancel
  then show ?thesis
    using assms(2) by (auto simp: orderly_def begun_def)
qed

section \<open>Runs\<close>

lemma exec_run_inv:
  assumes "\<forall>st st' g. I st \<longrightarrow> exec_step w opts p g st = Some st' \<longrightarrow> I st'"
    "exec_run w opts p gs st = Some st'" "I st"
  shows "I st'"
  using assms(2,3) by (induction gs arbitrary: st) (use assms(1) in \<open>auto split: option.splits\<close>)

lemma booked_start: "wf_plan p \<Longrightarrow> booked w p (exec_start p)"
  using start_accounted by (simp add: booked_def) (simp add: exec_start_def)

lemma orderly_start: "orderly opts p (exec_start p)"
  by (simp add: orderly_def begun_def exec_start_def)

lemma Execute_run:
  "Execute n opts p gs = Inr (Some st) \<longleftrightarrow>
     plan_Validate p = Inr () \<and> exec_run (workers_of n opts) opts p gs (exec_start p) = Some st"
  by (auto simp: Execute_def split: sum.splits)

text \<open>C31: In every state of an execution, whatever the workers report and whenever the context is cancelled, a
  step is handed to a worker only when each step it needs has run and succeeded, or is optional; no
  step is handed out twice, and no more steps are under way than there are workers.\<close>

theorem steps_wait_for_needs:
  assumes "wf_plan p" "\<not> opt_DryRun opts" "Execute n opts p gs = Inr (Some st)"
  shows "(\<forall>k need. begun st k \<longrightarrow> need \<in> set (needs_of p k) \<longrightarrow> ran_well p st need) \<and>
    distinct (x_inflight st) \<and> set (x_inflight st) \<inter> fmdom' (x_results st) = {} \<and>
    length (x_inflight st) \<le> workers_of n opts"
proof -
  let ?w = "workers_of n opts"
  have run: "exec_run ?w opts p gs (exec_start p) = Some st"
    using assms(3) by (simp add: Execute_run)
  have "booked ?w p st \<and> orderly opts p st"
    by (rule exec_run_inv [OF _ run]) (use assms(1,2) booked_step orderly_step booked_start orderly_start in blast)+
  then have i: "booked ?w p st" "orderly opts p st"
    by blast+
  have "\<forall>k need. begun st k \<longrightarrow> need \<in> set (needs_of p k) \<longrightarrow> ran_well p st need"
    using i(2) unfolding orderly_def by blast
  then show ?thesis
    using i(1) unfolding booked_def accounted_def by auto
qed

subsection \<open>Progress\<close>

lemma acyclic_needs_wf: "wf_plan p \<Longrightarrow> sound_graph p \<Longrightarrow> wf ((edges p)\<inverse>)"
proof (rule finite_acyclic_wf_converse)
  assume "wf_plan p" "sound_graph p"
  then have "edges p \<subseteq> set (plan_order p) \<times> set (plan_order p)"
    by (auto simp: sound_graph_def plan_edges)
  then show "finite (edges p)"
    by (rule finite_subset) simp
qed (simp add: sound_graph_def)

lemma something_is_placed:
  assumes wf: "wf_plan p" and v: "sound_graph p" and b: "accounted p {} st" and "x_ready st = []" "x_inflight st = []"
  shows "set (plan_order p) \<subseteq> settled st"
proof (rule ccontr)
  assume "\<not> set (plan_order p) \<subseteq> settled st"
  then obtain k0 where "k0 \<in> set (plan_order p) - settled st"
    by blast
  then obtain k where k: "k \<in> set (plan_order p) - settled st"
    and least: "\<And>n. (n, k) \<in> (edges p)\<inverse> \<Longrightarrow> n \<notin> set (plan_order p) - settled st"
    using wfE_min [OF acyclic_needs_wf [OF wf v]] by metis
  have "set (needs_of p k) \<subseteq> settled st"
    using least v by (auto simp: sound_graph_def edges_def)
  then have "unsettled_needs p st k = 0"
    by (auto simp: unsettled_needs_def filter_empty_conv)
  then show False
    using b k assms(4,5) by (auto simp: accounted_def placed_def)
qed

lemma plan_Len_card: "wf_plan p \<Longrightarrow> plan_Len p = card (set (plan_order p))"
  unfolding plan_Len_def wf_plan_def fcard.rep_eq fmdom'_alt_def by simp

lemma settled_card: "fcard (fmdom (x_results st)) = card (settled st)"
  unfolding fcard.rep_eq fmdom'_alt_def ..

definition pc_weight :: "sched_pc \<Rightarrow> int" where
  "pc_weight c = (case c of AtTop \<Rightarrow> 3 | Draining progressed \<Rightarrow> (if progressed then 4 else 2) | Choosing \<Rightarrow> 1 | Stopped _ \<Rightarrow> 0)"

definition work_left :: "Plan \<Rightarrow> Execution \<Rightarrow> int" where
  "work_left p st =
     4 * (2 * (int (plan_Len p) - int (card (settled st))) - int (length (x_inflight st)))
     + pc_weight (x_pc st) + (if x_cancelled st then 0 else 1)"

lemma booked_card:
  assumes "wf_plan p" "booked w p st"
  shows "card (settled st) + length (x_inflight st) \<le> plan_Len p"
proof -
  have a: "distinct (x_inflight st)" "set (x_inflight st) \<inter> settled st = {}"
    "settled st \<union> set (x_inflight st) \<subseteq> set (plan_order p)"
    using assms(2) by (auto simp: booked_def accounted_def placed_def)
  then have "card (settled st) + length (x_inflight st) = card (settled st \<union> set (x_inflight st))"
    by (subst card_Un_disjoint) (auto simp: distinct_card)
  also have "\<dots> \<le> card (set (plan_order p))"
    using a(3) by (intro card_mono) auto
  finally show ?thesis
    using plan_Len_card [OF assms(1)] by simp
qed

lemma work_left_nonneg: "wf_plan p \<Longrightarrow> booked w p st \<Longrightarrow> 0 \<le> work_left p st"
  using booked_card [of p w st]
  by (auto simp: work_left_def pc_weight_def split: sched_pc.splits)

lemma work_left_step:
  assumes "booked w p st" "exec_step w opts p g st = Some st'"
  shows "work_left p st' < work_left p st"
  using assms(2)
proof (cases rule: exec_step_cases)
  case (skip b k ks r blocked)
  then have "k \<notin> settled st"
    using assms(1) by (auto simp: booked_def accounted_def)
  then show ?thesis
    using skip by (simp add: work_left_def pc_weight_def)
next
  case (deliver k r c)
  then have "k \<notin> settled st"
    using assms(1) by (auto simp: booked_def accounted_def)
  moreover have "length (remove1 k (x_inflight st)) = length (x_inflight st) - 1" "0 < length (x_inflight st)"
    using deliver(2) by (auto simp: length_remove1 length_pos_if_in_set)
  ultimately show ?thesis
    using deliver by (auto simp: work_left_def pc_weight_def)
qed (auto simp: work_left_def pc_weight_def after_drain_def)

text \<open>Where the loop can stop, and with what.\<close>

definition ends_well :: "Options \<Rightarrow> Plan \<Rightarrow> Execution \<Rightarrow> bool" where
  "ends_well opts p st \<longleftrightarrow>
     (x_pc st \<in> {Draining False, Choosing} \<longrightarrow> card (settled st) < plan_Len p) \<and>
     (\<forall>e. x_pc st = Stopped e \<longrightarrow>
        (e = None \<longrightarrow> plan_Len p \<le> card (settled st)) \<and> (\<forall>ks. e \<noteq> Some (PlanDeadlocked ks)) \<and>
        (opt_ContinueOnError opts \<longrightarrow> e = None \<or> x_cancelled st))"

lemma ends_well_step:
  assumes wf: "wf_plan p" and v: "sound_graph p" and w: "0 < w"
    and b: "booked w p st" and i: "ends_well opts p st" and e: "exec_step w opts p g st = Some st'"
  shows "ends_well opts p st'"
  using e
proof (cases rule: exec_step_cases)
  case (stop e)
  have "\<not> (\<not> can_dispatch w st \<and> x_inflight st = [])"
  proof
    assume n: "\<not> can_dispatch w st \<and> x_inflight st = []"
    then have "x_ready st = []"
      using w by (auto simp: can_dispatch_def)
    then have "set (plan_order p) \<subseteq> settled st"
      using something_is_placed [OF wf v] b n by (simp add: booked_def)
    then have "plan_Len p \<le> card (settled st)"
      using plan_Len_card [OF wf] by (simp add: card_mono)
    then show False
      using i stop(1) by (simp add: ends_well_def)
  qed
  then show ?thesis
    using stop by (auto simp: ends_well_def)
qed (use i in \<open>auto simp: ends_well_def after_drain_def settled_card\<close>)

lemma can_go_on:
  assumes "\<forall>e. x_pc st \<noteq> Stopped e"
  shows "\<exists>g. g \<noteq> CancelContext \<and> exec_step w opts p g st \<noteq> None"
proof (cases "proceed w opts p st")
  case None
  then have "x_pc st = Choosing" "\<not> can_dispatch w st" "hd (x_inflight st) \<in> set (x_inflight st)"
    using assms by (auto simp: proceed_def split: sched_pc.splits list.splits option.splits if_splits)
  then have "exec_step w opts p (Delivered (hd (x_inflight st)) None) st \<noteq> None"
    by (simp add: deliver_def Let_def)
  then show ?thesis
    by blast
next
  case (Some st')
  then have "exec_step w opts p Proceed st \<noteq> None"
    by simp
  then show ?thesis
    by blast
qed

lemma workers_pos: "0 < workers_of n opts"
  by (auto simp: workers_of_def defaultWorkers_def Let_def)

lemma run_length:
  assumes "wf_plan p"
  shows "booked w p st \<Longrightarrow> exec_run w opts p gs st = Some st' \<Longrightarrow> int (length gs) \<le> work_left p st"
proof (induction gs arbitrary: st)
  case Nil
  then show ?case
    using work_left_nonneg [OF assms] by simp
next
  case (Cons g gs)
  then obtain st1 where "exec_step w opts p g st = Some st1" "exec_run w opts p gs st1 = Some st'"
    by (auto split: option.splits)
  then show ?case
    using Cons.IH [of st1] booked_step [OF assms Cons.prems(1)] work_left_step [OF Cons.prems(1)] by fastforce
qed

lemma not_cancelled:
  "exec_run w opts p gs st = Some st' \<Longrightarrow> CancelContext \<notin> set gs \<Longrightarrow> x_cancelled st' = x_cancelled st"
proof (induction gs arbitrary: st)
  case (Cons g gs)
  then obtain st1 where "exec_step w opts p g st = Some st1" "exec_run w opts p gs st1 = Some st'"
    by (auto split: option.splits)
  moreover from this(1) have "x_cancelled st1 = x_cancelled st"
    using Cons.prems(2) by (cases rule: exec_step_cases) auto
  ultimately show ?case
    using Cons by simp
qed simp


section \<open>Isolation of failures\<close>

definition failed_step :: "Plan \<Rightarrow> Execution \<Rightarrow> string \<Rightarrow> bool" where
  "failed_step p st f = (case fmlookup (x_results st) f of None \<Rightarrow> False | Some r \<Rightarrow> failed_result p f r)"

definition blames :: "Plan \<Rightarrow> Execution \<Rightarrow> string \<Rightarrow> bool" where
  "blames p st k \<longleftrightarrow>
     (\<exists>m f. (k, m) \<in> (edges p)\<^sup>* \<and> failed_step p st f \<and>
        (f = m \<or> scope_of p m \<noteq> [] \<and> blamed_scope p f = scope_of p m))"

definition explained :: "Plan \<Rightarrow> Execution \<Rightarrow> bool" where
  "explained p st \<longleftrightarrow>
     (\<forall>k\<in>x_failedSteps st. blames p st k) \<and>
     (\<forall>sc\<in>x_failedScopes st. \<exists>f. failed_step p st f \<and> blamed_scope p f = sc) \<and>
     (\<forall>k r. fmlookup (x_results st) k = Some r \<longrightarrow> res_Skipped r \<longrightarrow> blames p st k \<or> x_cancelled st)"

lemma failed_step_frame [simp]:
  "failed_step p (st\<lparr>x_pc := c\<rparr>) k = failed_step p st k" "failed_step p (st\<lparr>x_ready := ks\<rparr>) k = failed_step p st k"
  "failed_step p (st\<lparr>x_inflight := js\<rparr>) k = failed_step p st k"
  "failed_step p (st\<lparr>x_cancelled := b\<rparr>) k = failed_step p st k"
  "failed_step p (after_drain b' st) k = failed_step p st k"
  by (simp_all add: failed_step_def)

lemma blames_frame [simp]:
  "blames p (st\<lparr>x_pc := c\<rparr>) k = blames p st k" "blames p (st\<lparr>x_ready := ks\<rparr>) k = blames p st k"
  "blames p (st\<lparr>x_inflight := js\<rparr>) k = blames p st k" "blames p (st\<lparr>x_cancelled := b\<rparr>) k = blames p st k"
  "blames p (after_drain b' st) k = blames p st k"
  by (simp_all add: blames_def)

lemma failed_step_settle:
  "fmlookup (x_results st) k = None \<Longrightarrow>
   failed_step p (settle p k r b st) f \<longleftrightarrow> failed_step p st f \<or> f = k \<and> failed_result p k r"
  by (auto simp: failed_step_def)

lemma skip_blames:
  assumes "explained p st" "skip_step opts p k st = Some (r, b)" "\<not> opt_DryRun opts"
  shows "blames p st k"
proof (cases "scope_of p k \<noteq> [] \<and> scope_of p k \<in> x_failedScopes st")
  case True
  then show ?thesis
    using assms(1) unfolding explained_def blames_def by blast
next
  case False
  then obtain need ns where "filter (\<lambda>need. need \<in> x_failedSteps st) (needs_of p k) = need # ns"
    using assms(2,3) by (auto simp: skip_step_def split: list.splits)
  then have "need \<in> set (filter (\<lambda>need. need \<in> x_failedSteps st) (needs_of p k))"
    by simp
  then have n: "(k, need) \<in> edges p" "blames p st need"
    using assms(1) by (auto simp: explained_def edges_def)
  then show ?thesis
    unfolding blames_def by (blast intro: converse_rtrancl_into_rtrancl)
qed

lemma explained_settle:
  assumes "explained p st" "fmlookup (x_results st) k = None"
    "b \<longrightarrow> blames p st k" "res_Skipped r \<longrightarrow> blames p st k \<or> x_cancelled st"
  shows "explained p (settle p k r b st)"
proof -
  note f = failed_step_settle [OF assms(2), of p r b]
  have mono: "blames p (settle p k r b st) j" if "blames p st j" for j
    using that unfolding blames_def f by blast
  have self: "blames p (settle p k r b st) k" if "failed_result p k r"
    using that unfolding blames_def f by blast
  show ?thesis
    using assms mono self unfolding explained_def f by (auto simp: settle_failed)
qed

lemma explained_step:
  assumes b: "booked w p st" and i: "explained p st" and d: "\<not> opt_DryRun opts"
    and e: "exec_step w opts p g st = Some st'"
  shows "explained p st'"
  using e
proof (cases rule: exec_step_cases)
  case (skip b' k ks r blocked)
  then have "fmlookup (x_results st) k = None"
    using b by (auto simp: booked_def accounted_def fmlookup_dom'_iff)
  moreover have "explained p (st\<lparr>x_ready := ks\<rparr>)"
    using i by (simp add: explained_def)
  ultimately have "explained p (settle p k r blocked (st\<lparr>x_ready := ks\<rparr>))"
    using skip_blames [OF i skip(3) d] by (intro explained_settle) auto
  then show ?thesis
    using skip(4) by (simp add: explained_def)
next
  case (deliver k r c)
  then have "fmlookup (x_results st) k = None"
    using b by (auto simp: booked_def accounted_def fmlookup_dom'_iff)
  moreover have "explained p (st\<lparr>x_inflight := remove1 k (x_inflight st)\<rparr>)"
    using i by (simp add: explained_def)
  ultimately have "explained p (settle p k r False (st\<lparr>x_inflight := remove1 k (x_inflight st)\<rparr>))"
    using deliver(3) by (intro explained_settle) auto
  then show ?thesis
    using deliver(4) by (simp add: explained_def)
qed (use i in \<open>auto simp: explained_def\<close>)

lemma scope_errors_keys:
  "fmlookup (scope_errors p rs m) sc \<noteq> None \<longleftrightarrow>
     fmlookup m sc \<noteq> None \<or> (\<exists>(k, r)\<in>set rs. failed_result p k r \<and> blamed_scope p k = sc)"
  by (induction p rs m rule: scope_errors.induct) auto

lemma report_scopes:
  "sc \<in> set (FailedScopes (reportFromResults p results)) \<longleftrightarrow>
     (\<exists>k\<in>set (plan_order p). \<exists>r. fmlookup results k = Some r \<and> failed_result p k r \<and> blamed_scope p k = sc)"
  using scope_errors_keys [of p "List.map_filter (\<lambda>k. map_option (Pair k) (fmlookup results k)) (plan_order p)" fmempty sc]
  by (auto simp: FailedScopes_def reportFromResults_def List.map_filter_def Let_def) fastforce+


section \<open>Two executions\<close>

definition demo_options :: Options where
  "demo_options = \<lparr>opt_Workers = 2, opt_ContinueOnError = True, opt_DryRun = False\<rparr>"

definition both_dispatched :: "signal list" where
  "both_dispatched = replicate 8 Proceed"

definition failing_run :: "signal list" where
  "failing_run = both_dispatched @ [Delivered ''r1'' (Some ''no image''), Proceed, Proceed, Delivered ''r2'' None] @
     replicate 5 Proceed"

definition wiring_run :: "signal list" where
  "wiring_run = both_dispatched @ [Delivered ''r1'' None, Proceed, Proceed, Delivered ''r2'' None] @ replicate 3 Proceed"

definition ended :: "signal list \<Rightarrow> Execution option" where
  "ended gs = (case Execute 4 demo_options demo_plan gs of Inl _ \<Rightarrow> None | Inr ost \<Rightarrow> ost)"

lemma ended_Execute: "ended gs = Some st \<Longrightarrow> Execute 4 demo_options demo_plan gs = Inr (Some st)"
  by (simp add: ended_def split: sum.splits)

theorem steps_wait_for_needs_witness:
  "case ended wiring_run of
     None \<Rightarrow> False
   | Some st \<Rightarrow> x_inflight st = [''wire''] \<and> ran_well demo_plan st ''r1'' \<and> ran_well demo_plan st ''r2''"
proof -
  have "case ended wiring_run of None \<Rightarrow> False | Some st \<Rightarrow> x_inflight st = [''wire'']"
    by code_simp
  then obtain st where st: "ended wiring_run = Some st" "x_inflight st = [''wire'']"
    by (auto split: option.splits)
  have "needs_of demo_plan ''wire'' = [''r1'', ''r2'']"
    by code_simp
  then show ?thesis
    using steps_wait_for_needs [OF wf_demo(1) _ ended_Execute [OF st(1)]] st
    by (simp add: demo_options_def begun_def)
qed



end
