(* ===== verification/Ipam.thy ===== *)
theory Ipam
  imports Prelude
begin

text \<open>
  Address planning, \<open>internal/ipam\<close>: the CIDR helpers of an addressing expression
  (\<open>funcs.go\<close>) and the detection of overlapping claims (\<open>plan.go\<close>).

  Addresses are as \<open>net/netip\<close> keeps them, a 128-bit number with the family on the side, an
  IPv4 address being its mapped form \<open>::ffff:a.b.c.d\<close>.  The helpers take and return text in Go;
  here they take the prefix the text parses to and return the one that is printed, and the
  expansion of the templates themselves is not modelled.
\<close>

section \<open>Addresses and prefixes\<close>

record Addr =
  addr_is4 :: bool
  addr_val :: nat

record Prefix =
  pf_addr :: Addr
  pf_bits :: nat

definition mapped4 :: nat where "mapped4 = 0xffff * 2 ^ 32"

definition BitLen :: "Addr \<Rightarrow> nat" where
  "BitLen a = (if addr_is4 a then 32 else 128)"

definition host_bits :: "Prefix \<Rightarrow> nat" where
  "host_bits p = BitLen (pf_addr p) - pf_bits p"

definition mask_addr :: "nat \<Rightarrow> Addr \<Rightarrow> Addr" where
  "mask_addr bits a = a\<lparr>addr_val := addr_val a div 2 ^ (BitLen a - bits) * 2 ^ (BitLen a - bits)\<rparr>"

definition Masked :: "Prefix \<Rightarrow> Prefix" where
  "Masked p = p\<lparr>pf_addr := mask_addr (pf_bits p) (pf_addr p)\<rparr>"

definition pf_is4 :: "Prefix \<Rightarrow> bool" where
  "pf_is4 p = addr_is4 (pf_addr p)"

definition addr_Less :: "Addr \<Rightarrow> Addr \<Rightarrow> bool" where
  "addr_Less a b \<longleftrightarrow> BitLen a < BitLen b \<or> BitLen a = BitLen b \<and> addr_val a < addr_val b"

definition pf_Contains :: "Prefix \<Rightarrow> Addr \<Rightarrow> bool" where
  "pf_Contains p a \<longleftrightarrow> addr_is4 a = pf_is4 p \<and> mask_addr (pf_bits p) a = mask_addr (pf_bits p) (pf_addr p)"

definition pf_Overlaps :: "Prefix \<Rightarrow> Prefix \<Rightarrow> bool" where
  "pf_Overlaps p q \<longleftrightarrow>
     p = q \<or>
     pf_is4 p = pf_is4 q \<and>
     (let m = min (pf_bits p) (pf_bits q) in m = 0 \<or> mask_addr m (pf_addr p) = mask_addr m (pf_addr q))"

definition addrToBig :: "Addr \<Rightarrow> int" where
  "addrToBig a = int (addr_val a)"

text \<open>\<open>Bytes\<close> gives the absolute value, of which the last sixteen bytes are kept.\<close>

definition bigToAddr :: "int \<Rightarrow> bool \<Rightarrow> Addr" where
  "bigToAddr n is4 =
     (let v = nat \<bar>n\<bar> mod 2 ^ 128
      in \<lparr>addr_is4 = is4 \<and> mapped4 \<le> v \<and> v < mapped4 + 2 ^ 32, addr_val = v\<rparr>)"

definition lastAddr :: "Prefix \<Rightarrow> Addr" where
  "lastAddr p =
     (let a = pf_addr (Masked p); host = BitLen a - pf_bits p
      in if host = 0 then a else bigToAddr (addrToBig a + 2 ^ host - 1) (addr_is4 a))"

section \<open>CIDR helpers\<close>

datatype cidr_error = PrefixLengthOutOfRange int | IndexExceeds int | IndexDoesNotFit int

definition cidrSubnet :: "Prefix \<Rightarrow> int \<Rightarrow> int \<Rightarrow> (cidr_error, Prefix) result" where
  "cidrSubnet base index newBits =
     (let p = Masked base in
      if newBits < int (pf_bits p) \<or> newBits > int (BitLen (pf_addr p)) then Inl (PrefixLengthOutOfRange newBits)
      else if index \<ge> 2 ^ nat (newBits - int (pf_bits p)) then Inl (IndexExceeds index)
      else
        let shift = nat (int (BitLen (pf_addr p)) - newBits);
            n = addrToBig (pf_addr p) + index * 2 ^ shift
        in Inr \<lparr>pf_addr = bigToAddr n (pf_is4 p), pf_bits = nat newBits\<rparr>)"

definition cidrHost :: "Prefix \<Rightarrow> int \<Rightarrow> (cidr_error, Prefix) result" where
  "cidrHost base index =
     (let p = Masked base in
      if index \<ge> 2 ^ host_bits p then Inl (IndexDoesNotFit index)
      else Inr \<lparr>pf_addr = bigToAddr (addrToBig (pf_addr p) + index) (pf_is4 p), pf_bits = pf_bits p\<rparr>)"

definition cidrAddr :: "Prefix \<Rightarrow> Addr" where
  "cidrAddr p = pf_addr p"

definition cidrNetwork :: "Prefix \<Rightarrow> Prefix" where
  "cidrNetwork p = Masked p"

definition cidrBits :: "Prefix \<Rightarrow> nat" where
  "cidrBits p = pf_bits p"

section \<open>The registry of claims\<close>

record Claim =
  cl_Prefix :: Prefix
  cl_Owner :: string
  cl_Field :: string
  cl_Scope :: string

record Registry =
  reg_claims :: "Claim list"
  reg_exempt :: "Claim list"

definition NewRegistry :: Registry where
  "NewRegistry = \<lparr>reg_claims = [], reg_exempt = []\<rparr>"

definition Exempt :: "Prefix \<Rightarrow> string \<Rightarrow> Registry \<Rightarrow> Registry" where
  "Exempt p scope r =
     r\<lparr>reg_exempt := reg_exempt r @ [\<lparr>cl_Prefix = Masked p, cl_Owner = [], cl_Field = [], cl_Scope = scope\<rparr>]\<rparr>"

definition add_claim :: "Prefix \<Rightarrow> string \<Rightarrow> string \<Rightarrow> string \<Rightarrow> Registry \<Rightarrow> Registry" where
  "add_claim p owner field scope r =
     r\<lparr>reg_claims := reg_claims r @ [\<lparr>cl_Prefix = Masked p, cl_Owner = owner, cl_Field = field, cl_Scope = scope\<rparr>]\<rparr>"

definition prefix_contains :: "Prefix \<Rightarrow> Prefix \<Rightarrow> bool" where
  "prefix_contains outer inner \<longleftrightarrow> pf_bits outer \<le> pf_bits inner \<and> pf_Contains outer (pf_addr inner)"

definition aggregateFor :: "Registry \<Rightarrow> Prefix \<Rightarrow> Claim option" where
  "aggregateFor r p = List.find (\<lambda>e. cl_Prefix e = p) (reg_exempt r)"

definition exemptPair :: "Registry \<Rightarrow> Claim \<Rightarrow> Claim \<Rightarrow> bool" where
  "exemptPair r a b =
     (case (aggregateFor r (cl_Prefix a), aggregateFor r (cl_Prefix b)) of
        (Some _, Some _) \<Rightarrow> False
      | (Some aEx, None) \<Rightarrow> prefix_contains (cl_Prefix a) (cl_Prefix b) \<and> cl_Scope aEx = cl_Scope b
      | (None, Some bEx) \<Rightarrow> prefix_contains (cl_Prefix b) (cl_Prefix a) \<and> cl_Scope bEx = cl_Scope a
      | (None, None) \<Rightarrow> False)"

text \<open>The inner loop: \<open>break\<close> ends it, \<open>continue\<close> goes on to the next claim.\<close>

fun sweep_from :: "Registry \<Rightarrow> Claim \<Rightarrow> Claim list \<Rightarrow> (Claim \<times> Claim) list" where
  "sweep_from r a [] = []"
| "sweep_from r a (b # bs) =
     (if pf_is4 (cl_Prefix a) \<noteq> pf_is4 (cl_Prefix b) then sweep_from r a bs
      else if \<not> pf_Overlaps (cl_Prefix a) (cl_Prefix b)
      then (if addr_Less (pf_addr (cl_Prefix b)) (lastAddr (cl_Prefix a)) \<or> pf_addr (cl_Prefix b) = lastAddr (cl_Prefix a)
            then sweep_from r a bs else [])
      else if exemptPair r a b then sweep_from r a bs
      else (a, b) # sweep_from r a bs)"

fun sweep :: "Registry \<Rightarrow> Claim list \<Rightarrow> (Claim \<times> Claim) list" where
  "sweep r [] = []"
| "sweep r (a # as) = sweep_from r a as @ sweep r as"

definition claim_less :: "Claim \<Rightarrow> Claim \<Rightarrow> bool" where
  "claim_less c d \<longleftrightarrow>
     (let a = cl_Prefix c; b = cl_Prefix d in
      if pf_addr a \<noteq> pf_addr b then addr_Less (pf_addr a) (pf_addr b) else pf_bits a < pf_bits b)"

text \<open>\<open>sort.Slice\<close> leaves a permutation in which no claim is less than an earlier one; which of
  several equal claims comes first is not specified.\<close>

definition sorted_claims :: "Registry \<Rightarrow> Claim list \<Rightarrow> bool" where
  "sorted_claims r cs \<longleftrightarrow> mset cs = mset (reg_claims r) \<and> sorted_wrt (\<lambda>a b. \<not> claim_less b a) cs"

text \<open>One such order, for evaluation: claims by family, address and length.\<close>

definition claim_key :: "Claim \<Rightarrow> nat list" where
  "claim_key c = [BitLen (pf_addr (cl_Prefix c)), addr_val (pf_addr (cl_Prefix c)), pf_bits (cl_Prefix c)]"

definition Conflicts :: "Registry \<Rightarrow> (Claim \<times> Claim) list" where
  "Conflicts r = sweep r (sort_key claim_key (reg_claims r))"

section \<open>Prefixes as intervals\<close>

definition valid_addr :: "Addr \<Rightarrow> bool" where
  "valid_addr a \<longleftrightarrow>
     (if addr_is4 a then mapped4 \<le> addr_val a \<and> addr_val a < mapped4 + 2 ^ 32 else addr_val a < 2 ^ 128)"

definition valid_prefix :: "Prefix \<Rightarrow> bool" where
  "valid_prefix p \<longleftrightarrow> valid_addr (pf_addr p) \<and> pf_bits p \<le> BitLen (pf_addr p)"

definition network :: "Prefix \<Rightarrow> bool" where
  "network p \<longleftrightarrow> valid_prefix p \<and> 2 ^ host_bits p dvd addr_val (pf_addr p)"

abbreviation first :: "Prefix \<Rightarrow> nat" where
  "first p \<equiv> addr_val (pf_addr p)"

definition in_range :: "Prefix \<Rightarrow> nat \<Rightarrow> bool" where
  "in_range p v \<longleftrightarrow> first p \<le> v \<and> v < first p + 2 ^ host_bits p"

lemma div_interval:
  fixes v a k :: nat
  assumes "0 < k" "k dvd a"
  shows "v div k = a div k \<longleftrightarrow> a \<le> v \<and> v < a + k"
proof -
  obtain m where m: "a = m * k"
    using assms(2) by (metis dvdE mult.commute)
  then have "v div k = m \<longleftrightarrow> m * k \<le> v \<and> v < Suc m * k"
    using assms(1) by (metis div_nat_eqI dividend_less_times_div div_times_less_eq_dividend mult.commute mult_Suc_right)
  then show ?thesis
    using m assms(1) by (simp add: add.commute)
qed

lemma block_le: "k dvd a \<Longrightarrow> k dvd b \<Longrightarrow> a < b \<Longrightarrow> a + k \<le> b" for a b k :: nat
  by (auto elim!: dvdE) (metis Suc_leI mult_Suc_right mult_le_mono2 nat_mult_less_cancel_disj add.commute)

lemma mask_eq_iff:
  "addr_is4 a = addr_is4 b \<Longrightarrow>
   mask_addr bits a = mask_addr bits b \<longleftrightarrow>
     addr_val a div 2 ^ (BitLen b - bits) = addr_val b div 2 ^ (BitLen b - bits)"
proof -
  assume f: "addr_is4 a = addr_is4 b"
  have "mask_addr bits a = mask_addr bits b \<longleftrightarrow> addr_val (mask_addr bits a) = addr_val (mask_addr bits b)"
    using f by (cases a; cases b) (simp add: mask_addr_def)
  then show ?thesis
    using f by (simp add: mask_addr_def BitLen_def)
qed

lemma Contains_range: "network p \<Longrightarrow> pf_Contains p a \<longleftrightarrow> addr_is4 a = pf_is4 p \<and> in_range p (addr_val a)"
  using div_interval [of "2 ^ host_bits p" "first p" "addr_val a"]
  by (auto simp: pf_Contains_def pf_is4_def mask_eq_iff network_def in_range_def host_bits_def)

lemma first_in_range [simp]: "in_range p (first p)"
  by (simp add: in_range_def)

lemma BitLen_same: "pf_is4 p = pf_is4 q \<Longrightarrow> BitLen (pf_addr p) = BitLen (pf_addr q)"
  by (simp add: pf_is4_def BitLen_def)

lemma Overlaps_shorter:
  assumes "network p" "network q" "pf_is4 p = pf_is4 q" "pf_bits p \<le> pf_bits q"
  shows "pf_Overlaps p q \<longleftrightarrow> in_range p (first q)"
proof -
  have "mask_addr (pf_bits p) (pf_addr p) = mask_addr (pf_bits p) (pf_addr q) \<longleftrightarrow> in_range p (first q)"
    using Contains_range [OF assms(1), of "pf_addr q"] assms(3) by (auto simp: pf_Contains_def pf_is4_def)
  moreover have "in_range p (first q)" if "pf_bits p = 0"
    using that assms by (auto simp: in_range_def network_def valid_prefix_def valid_addr_def host_bits_def BitLen_def
        pf_is4_def mapped4_def)
  ultimately show ?thesis
    using assms(3,4) by (auto simp: pf_Overlaps_def Let_def)
qed

lemma Overlaps_sym: "pf_Overlaps p q \<longleftrightarrow> pf_Overlaps q p"
  by (auto simp: pf_Overlaps_def Let_def min.commute)

text \<open>Two networks overlap exactly if some address is in both.\<close>

definition share_address :: "Prefix \<Rightarrow> Prefix \<Rightarrow> bool" where
  "share_address p q \<longleftrightarrow> (\<exists>a. pf_Contains p a \<and> pf_Contains q a)"

lemma host_bits_mono:
  "pf_is4 p = pf_is4 q \<Longrightarrow> pf_bits p \<le> pf_bits q \<Longrightarrow> host_bits q \<le> host_bits p"
  using BitLen_same [of p q] by (simp add: host_bits_def)

lemma share_shorter:
  assumes p: "network p" and q: "network q" and b: "pf_bits p \<le> pf_bits q"
  shows "share_address p q \<longleftrightarrow> pf_is4 p = pf_is4 q \<and> in_range p (first q)"
proof
  assume "share_address p q"
  then obtain v where f: "pf_is4 p = pf_is4 q" and a: "in_range p v" "in_range q v"
    using Contains_range [OF p] Contains_range [OF q] by (auto simp: share_address_def)
  have "2 ^ host_bits q dvd first p"
    using p le_imp_power_dvd [OF host_bits_mono [OF f b], of "2 :: nat"] dvd_trans by (auto simp: network_def)
  then have "first p \<le> first q"
    using block_le [of "2 ^ host_bits q" "first q" "first p"] q a by (force simp: network_def in_range_def)
  then show "pf_is4 p = pf_is4 q \<and> in_range p (first q)"
    using f a by (auto simp: in_range_def)
next
  assume "pf_is4 p = pf_is4 q \<and> in_range p (first q)"
  then show "share_address p q"
    using Contains_range [OF p, of "pf_addr q"] Contains_range [OF q, of "pf_addr q"]
    by (auto simp: share_address_def pf_is4_def)
qed

lemma Overlaps_share:
  assumes "network p" "network q" "pf_is4 p = pf_is4 q"
  shows "pf_Overlaps p q \<longleftrightarrow> share_address p q"
proof (cases "pf_bits p \<le> pf_bits q")
  case True
  then show ?thesis
    using assms Overlaps_shorter share_shorter by simp
next
  case False
  then have "pf_Overlaps q p \<longleftrightarrow> share_address q p"
    using assms Overlaps_shorter [of q p] share_shorter [of q p] by simp
  then show ?thesis
    using Overlaps_sym by (auto simp: share_address_def)
qed

lemma share_family: "share_address p q \<Longrightarrow> pf_is4 p = pf_is4 q"
  by (auto simp: share_address_def pf_Contains_def)

lemma share_below_last:
  assumes "network p" "network q" "share_address p q"
  shows "first q < first p + 2 ^ host_bits p"
proof -
  obtain v where "in_range p v" "in_range q v"
    using assms Contains_range by (auto simp: share_address_def)
  then show ?thesis
    by (auto simp: in_range_def)
qed

lemma Masked_network:
  assumes "network p"
  shows "Masked p = p"
proof -
  have "addr_val (pf_addr p) div 2 ^ host_bits p * 2 ^ host_bits p = addr_val (pf_addr p)"
    using assms by (simp add: network_def)
  then show ?thesis
    by (simp add: Masked_def mask_addr_def host_bits_def)
qed

lemma network_top:
  assumes "network p"
  shows "first p + 2 ^ host_bits p \<le> (if pf_is4 p then mapped4 + 2 ^ 32 else 2 ^ 128)"
proof -
  let ?top = "if pf_is4 p then mapped4 + 2 ^ 32 else 2 ^ 128 :: nat"
  have "host_bits p \<le> (if pf_is4 p then 48 else 128)"
    by (auto simp: host_bits_def BitLen_def pf_is4_def)
  then have "(2 :: nat) ^ host_bits p dvd 2 ^ (if pf_is4 p then 48 else 128)"
    by (rule le_imp_power_dvd)
  then have "2 ^ host_bits p dvd ?top"
    by (simp add: mapped4_def split: if_splits)
  moreover have "first p < ?top"
    using assms by (auto simp: network_def valid_prefix_def valid_addr_def pf_is4_def split: if_splits)
  ultimately show ?thesis
    using assms block_le by (auto simp: network_def)
qed

lemma lastAddr_network:
  assumes "network p"
  shows "lastAddr p = (pf_addr p)\<lparr>addr_val := first p + 2 ^ host_bits p - 1\<rparr>"
proof -
  let ?v = "first p + 2 ^ host_bits p - 1"
  have pos: "(1 :: nat) \<le> 2 ^ host_bits p"
    by simp
  then have "1 \<le> first p + 2 ^ host_bits p"
    by (rule trans_le_add2)
  from of_nat_diff [OF this, where 'a = int] have v: "int (first p) + 2 ^ host_bits p - 1 = int ?v"
    by simp
  have "first p \<le> ?v"
    using pos by linarith
  then have "?v < 2 ^ 128" "pf_is4 p \<Longrightarrow> mapped4 \<le> ?v \<and> ?v < mapped4 + 2 ^ 32"
    using network_top [OF assms] assms
    by (auto simp: mapped4_def network_def valid_prefix_def valid_addr_def pf_is4_def split: if_splits)
  then have "bigToAddr (int ?v) (pf_is4 p) = \<lparr>addr_is4 = pf_is4 p, addr_val = ?v\<rparr>"
    by (auto simp: bigToAddr_def Let_def)
  moreover have "host_bits p = BitLen (pf_addr p) - pf_bits p"
    by (simp add: host_bits_def)
  ultimately show ?thesis
    unfolding lastAddr_def Masked_network [OF assms] Let_def addrToBig_def v [symmetric]
    by (cases "pf_addr p") (auto simp: pf_is4_def)
qed

section \<open>The sweep misses nothing\<close>

fun pairs :: "'a list \<Rightarrow> ('a \<times> 'a) list" where
  "pairs [] = []"
| "pairs (a # as) = map (Pair a) as @ pairs as"

definition conflicting :: "Registry \<Rightarrow> Claim \<Rightarrow> Claim \<Rightarrow> bool" where
  "conflicting r a b \<longleftrightarrow> share_address (cl_Prefix a) (cl_Prefix b) \<and> \<not> exemptPair r a b"

lemma conflicting_sym: "conflicting r a b \<longleftrightarrow> conflicting r b a"
  by (auto simp: conflicting_def share_address_def exemptPair_def split: option.splits)

lemma past_last:
  assumes a: "network a" and b: "network b" and c: "network c"
    and f: "pf_is4 b = pf_is4 a" and past: "\<not> addr_Less (pf_addr b) (lastAddr a)" "pf_addr b \<noteq> lastAddr a"
    and le: "pf_is4 c = pf_is4 a \<longrightarrow> first b \<le> first c"
  shows "\<not> share_address a c"
proof
  assume s: "share_address a c"
  then have "first c < first a + 2 ^ host_bits a" "first b \<le> first c"
    using share_below_last [OF a c] share_family le by auto
  moreover have "first a + 2 ^ host_bits a - 1 < first b"
  proof -
    have "\<not> first b < first a + 2 ^ host_bits a - 1" "first b \<noteq> first a + 2 ^ host_bits a - 1"
      using past f by (cases "pf_addr b"; cases "pf_addr a";
          auto simp: lastAddr_network [OF a] addr_Less_def BitLen_def pf_is4_def)+
    then show ?thesis
      by linarith
  qed
  ultimately show False
    by linarith
qed

lemma sorted_first:
  "\<not> claim_less b a \<Longrightarrow> pf_is4 (cl_Prefix a) = pf_is4 (cl_Prefix b) \<Longrightarrow> first (cl_Prefix a) \<le> first (cl_Prefix b)"
  by (auto simp: claim_less_def addr_Less_def BitLen_def pf_is4_def Let_def split: if_splits)

lemma sweep_from_all:
  "network (cl_Prefix a) \<Longrightarrow> \<forall>c\<in>set cs. network (cl_Prefix c) \<Longrightarrow> sorted_wrt (\<lambda>c d. \<not> claim_less d c) cs \<Longrightarrow>
   sweep_from r a cs = map (Pair a) (filter (conflicting r a) cs)"
proof (induction cs)
  case (Cons b cs)
  have n: "network (cl_Prefix b)"
    using Cons.prems by simp
  show ?case
  proof (cases "pf_is4 (cl_Prefix a) = pf_is4 (cl_Prefix b)")
    case False
    then have "\<not> conflicting r a b"
      using share_family by (auto simp: conflicting_def)
    then show ?thesis
      using Cons False by simp
  next
    case f: True
    have o: "pf_Overlaps (cl_Prefix a) (cl_Prefix b) \<longleftrightarrow> share_address (cl_Prefix a) (cl_Prefix b)"
      by (rule Overlaps_share [OF Cons.prems(1) n f])
    have "filter (conflicting r a) (b # cs) = []"
      if past: "\<not> share_address (cl_Prefix a) (cl_Prefix b)" "\<not> addr_Less (pf_addr (cl_Prefix b)) (lastAddr (cl_Prefix a))"
        "pf_addr (cl_Prefix b) \<noteq> lastAddr (cl_Prefix a)"
    proof -
      have "\<not> share_address (cl_Prefix a) (cl_Prefix c)" if "c \<in> set cs" for c
        using Cons.prems that f sorted_first [of c b] past_last [OF Cons.prems(1) n, of "cl_Prefix c"] past by auto
      then show ?thesis
        using past(1) by (auto simp: filter_empty_conv conflicting_def)
    qed
    moreover have "conflicting r a b \<longleftrightarrow> pf_Overlaps (cl_Prefix a) (cl_Prefix b) \<and> \<not> exemptPair r a b"
      by (simp add: conflicting_def o)
    ultimately show ?thesis
      using Cons f o by auto
  qed
qed simp

lemma sweep_all:
  "\<forall>c\<in>set cs. network (cl_Prefix c) \<Longrightarrow> sorted_wrt (\<lambda>c d. \<not> claim_less d c) cs \<Longrightarrow>
   sweep r cs = filter (\<lambda>(a, b). conflicting r a b) (pairs cs)"
  by (induction cs) (auto simp: sweep_from_all filter_map o_def)

lemma filter_pairs_Nil: "filter (\<lambda>(a, b). P a b) (pairs xs) = [] \<longleftrightarrow> sorted_wrt (\<lambda>a b. \<not> P a b) xs"
  by (induction xs) (auto simp: filter_empty_conv)

lemma sorted_wrt_symmetric:
  assumes "\<And>a b. P a b \<Longrightarrow> P b a"
  shows "mset xs = mset ys \<Longrightarrow> sorted_wrt P xs \<longleftrightarrow> sorted_wrt P ys"
proof (induction xs arbitrary: ys)
  case (Cons x xs)
  have "x \<in> set ys"
    using Cons.prems by (metis list.set_intros(1) set_mset_mset)
  then obtain us vs where ys: "ys = us @ x # vs"
    by (auto simp: in_set_conv_decomp)
  then have m: "mset xs = mset (us @ vs)"
    using Cons.prems by simp
  then have "set xs = set us \<union> set vs"
    by (metis set_append set_mset_mset)
  then show ?case
    using Cons.IH [OF m] assms unfolding ys by (auto simp: sorted_wrt_append)
qed simp

text \<open>C34: The sweep over the sorted claims, which leaves its inner loop early, finds exactly the conflicts: it
  lists every pair of claims that share an address and are not an aggregate with a claim of its own
  system, whatever order the sort gives equal claims; it is empty exactly if no two claims conflict.\<close>

theorem sweep_finds_every_conflict:
  assumes "\<forall>c\<in>set (reg_claims r). network (cl_Prefix c)" "sorted_claims r cs"
  shows "sweep r cs = filter (\<lambda>(a, b). conflicting r a b) (pairs cs) \<and>
    (sweep r cs = [] \<longleftrightarrow> sorted_wrt (\<lambda>a b. \<not> conflicting r a b) (reg_claims r))"
proof -
  have "\<forall>c\<in>set cs. network (cl_Prefix c)"
    using assms by (metis sorted_claims_def set_mset_mset)
  then have s: "sweep r cs = filter (\<lambda>(a, b). conflicting r a b) (pairs cs)"
    using assms(2) by (intro sweep_all) (simp_all add: sorted_claims_def)
  have "sorted_wrt (\<lambda>a b. \<not> conflicting r a b) cs \<longleftrightarrow> sorted_wrt (\<lambda>a b. \<not> conflicting r a b) (reg_claims r)"
    using assms(2) conflicting_sym by (intro sorted_wrt_symmetric) (auto simp: sorted_claims_def)
  then show ?thesis
    unfolding s filter_pairs_Nil by simp
qed

lemma sorted_by_key: "sorted_claims r (sort_key claim_key (reg_claims r))"
proof -
  have "\<not> claim_less b a" if "claim_key a \<le> claim_key b" for a b
    using that by (auto simp: claim_less_def claim_key_def addr_Less_def Let_def)
  moreover have "sorted_wrt (\<lambda>a b. claim_key a \<le> claim_key b) (sort_key claim_key (reg_claims r))"
    using sorted_sort_key [of claim_key "reg_claims r"] by (simp add: sorted_map)
  ultimately have "sorted_wrt (\<lambda>a b. \<not> claim_less b a) (sort_key claim_key (reg_claims r))"
    by (auto elim: sorted_wrt_mono_rel [rotated])
  then show ?thesis
    by (simp add: sorted_claims_def)
qed

lemma network_Masked:
  assumes "valid_prefix p"
  shows "network (Masked p)"
proof -
  let ?k = "2 ^ host_bits p :: nat"
  have h: "host_bits (Masked p) = host_bits p" "first (Masked p) = first p div ?k * ?k"
    by (simp_all add: host_bits_def Masked_def mask_addr_def BitLen_def)
  have "mapped4 \<le> first p div ?k * ?k" if "pf_is4 p" "mapped4 \<le> first p"
  proof -
    have "?k dvd mapped4"
      unfolding mapped4_def using that(1)
      by (intro dvd_mult le_imp_power_dvd) (simp add: host_bits_def BitLen_def pf_is4_def)
    then show ?thesis
      using div_le_mono [OF that(2), of ?k] by (metis dvd_div_mult_self mult_le_mono1)
  qed
  moreover have "first p div ?k * ?k \<le> first p"
    by simp
  ultimately have "valid_addr (pf_addr (Masked p))"
    using assms le_less_trans [of "first p div ?k * ?k" "first p"] unfolding valid_prefix_def valid_addr_def h
    by (simp add: Masked_def mask_addr_def pf_is4_def split: if_splits)
  then show ?thesis
    using assms unfolding network_def valid_prefix_def h by (simp add: Masked_def mask_addr_def BitLen_def)
qed

definition v4 :: "nat \<Rightarrow> nat \<Rightarrow> nat \<Rightarrow> nat \<Rightarrow> nat \<Rightarrow> Prefix" where
  "v4 a b c d bits = \<lparr>pf_addr = \<lparr>addr_is4 = True, addr_val = mapped4 + ((a * 256 + b) * 256 + c) * 256 + d\<rparr>, pf_bits = bits\<rparr>"

lemmas ipam_eval = v4_def valid_prefix_def valid_addr_def Masked_def mask_addr_def BitLen_def mapped4_def claim_key_def
  pf_is4_def pf_Overlaps_def exemptPair_def aggregateFor_def prefix_contains_def pf_Contains_def addr_Less_def
  lastAddr_def bigToAddr_def addrToBig_def Let_def

definition demo_registry :: Registry where
  "demo_registry =
     add_claim (v4 1 0 1 0 24) ''as2 link'' ''router_router'' ''as2''
       (add_claim (v4 1 0 0 0 24) ''as1 link'' ''router_router'' ''as1''
         (add_claim (v4 1 0 0 0 8) ''as1 block'' ''as_block'' ''as1'' (Exempt (v4 1 0 0 0 8) ''as1'' NewRegistry)))"

theorem sweep_finds_every_conflict_witness:
  "map (\<lambda>(a, b). (cl_Owner a, cl_Owner b)) (Conflicts demo_registry) = [(''as1 block'', ''as2 link'')] \<and>
   \<not> sorted_wrt (\<lambda>a b. \<not> conflicting demo_registry a b) (reg_claims demo_registry)"
proof -
  have c: "map (\<lambda>(a, b). (cl_Owner a, cl_Owner b)) (Conflicts demo_registry) = [(''as1 block'', ''as2 link'')]"
    by (simp add: Conflicts_def demo_registry_def add_claim_def Exempt_def NewRegistry_def ipam_eval)
  have "valid_prefix (v4 1 0 0 0 8)" "valid_prefix (v4 1 0 0 0 24)" "valid_prefix (v4 1 0 1 0 24)"
    by (simp_all add: ipam_eval)
  then have "\<forall>c\<in>set (reg_claims demo_registry). network (cl_Prefix c)"
    using network_Masked by (simp add: demo_registry_def add_claim_def Exempt_def NewRegistry_def)
  from sweep_finds_every_conflict [OF this sorted_by_key] show ?thesis
    using c by (auto simp: Conflicts_def)
qed

section \<open>Subnets\<close>

lemma bigToAddr_in:
  assumes "network p" "in_range p v"
  shows "bigToAddr (int v) (pf_is4 p) = (pf_addr p)\<lparr>addr_val := v\<rparr>"
proof -
  have "v < 2 ^ 128" "pf_is4 p \<Longrightarrow> mapped4 \<le> v \<and> v < mapped4 + 2 ^ 32"
    using network_top [OF assms(1)] assms
    by (auto simp: mapped4_def network_def valid_prefix_def valid_addr_def pf_is4_def in_range_def split: if_splits)
  then show ?thesis
    by (cases "pf_addr p") (auto simp: bigToAddr_def Let_def pf_is4_def)
qed

definition nth_subnet :: "Prefix \<Rightarrow> nat \<Rightarrow> nat \<Rightarrow> Prefix" where
  "nth_subnet p bits k =
     \<lparr>pf_addr = (pf_addr p)\<lparr>addr_val := first p + k * 2 ^ (BitLen (pf_addr p) - bits)\<rparr>, pf_bits = bits\<rparr>"

lemma nth_subnet_inside:
  assumes p: "network p" and b: "pf_bits p \<le> bits" "bits \<le> BitLen (pf_addr p)" and k: "k < 2 ^ (bits - pf_bits p)"
  shows "in_range p (first (nth_subnet p bits k))" "network (nth_subnet p bits k)"
    "prefix_contains p (nth_subnet p bits k)"
proof -
  let ?q = "nth_subnet p bits k" and ?s = "BitLen (pf_addr p) - bits"
  have h: "host_bits p = bits - pf_bits p + ?s"
    using b by (simp add: host_bits_def)
  have "k * 2 ^ ?s < 2 ^ host_bits p"
    unfolding h power_add using k by simp
  then show r: "in_range p (first ?q)"
    by (simp add: in_range_def nth_subnet_def)
  have "2 ^ ?s dvd first p"
    using p le_imp_power_dvd [of ?s "host_bits p" "2 :: nat"] dvd_trans unfolding h network_def by auto
  moreover have "valid_addr (pf_addr ?q)"
    using r network_top [OF p] p
    by (auto simp: network_def valid_prefix_def valid_addr_def in_range_def nth_subnet_def pf_is4_def split: if_splits)
  ultimately show "network ?q"
    using b by (simp add: network_def valid_prefix_def nth_subnet_def host_bits_def BitLen_def)
  show "prefix_contains p ?q"
    using r b Contains_range [OF p] by (simp add: prefix_contains_def nth_subnet_def pf_is4_def)
qed

lemma cidrSubnet_nth:
  assumes "valid_prefix base" "pf_bits base \<le> bits" "bits \<le> BitLen (pf_addr base)" "k < 2 ^ (bits - pf_bits base)"
  shows "cidrSubnet base (int k) (int bits) = Inr (nth_subnet (Masked base) bits k)"
proof -
  let ?p = "Masked base"
  have p: "network ?p" and f: "pf_bits ?p = pf_bits base" "BitLen (pf_addr ?p) = BitLen (pf_addr base)"
    using network_Masked [OF assms(1)] by (simp_all add: Masked_def mask_addr_def BitLen_def)
  let ?v = "first (nth_subnet ?p bits k)"
  have "int k < 2 ^ (bits - pf_bits base)"
    using assms(4) by (metis of_nat_less_iff of_nat_numeral of_nat_power)
  moreover have "addrToBig (pf_addr ?p) + int k * 2 ^ nat (int (BitLen (pf_addr base)) - int bits) = int ?v"
    using assms(3) f by (simp add: addrToBig_def nth_subnet_def nat_diff_distrib')
  moreover have "bigToAddr (int ?v) (pf_is4 ?p) = (pf_addr ?p)\<lparr>addr_val := ?v\<rparr>"
    using bigToAddr_in [OF p] nth_subnet_inside(1) [OF p] assms f by simp
  ultimately show ?thesis
    using assms(2,3) f by (simp add: cidrSubnet_def Let_def nth_subnet_def nat_diff_distrib')
qed

lemma cidrSubnet_exceeds:
  assumes "pf_bits base \<le> bits" "bits \<le> BitLen (pf_addr base)" "2 ^ (bits - pf_bits base) \<le> k"
  shows "cidrSubnet base (int k) (int bits) = Inl (IndexExceeds (int k))"
proof -
  have "(2 :: int) ^ (bits - pf_bits base) \<le> int k"
    using assms(3) by (metis of_nat_le_iff of_nat_numeral of_nat_power)
  then show ?thesis
    using assms by (simp add: cidrSubnet_def Let_def Masked_def mask_addr_def BitLen_def nat_diff_distrib')
qed

lemma nth_subnet_apart:
  assumes p: "network p" "pf_bits p \<le> bits" "bits \<le> BitLen (pf_addr p)"
    and k: "k < 2 ^ (bits - pf_bits p)" "j < 2 ^ (bits - pf_bits p)" "j \<noteq> k"
  shows "\<not> share_address (nth_subnet p bits k) (nth_subnet p bits j)"
proof
  let ?s = "2 ^ (BitLen (pf_addr p) - bits) :: nat"
  assume "share_address (nth_subnet p bits k) (nth_subnet p bits j)"
  then have "in_range (nth_subnet p bits k) (first (nth_subnet p bits j))"
    using share_shorter [OF nth_subnet_inside(2) nth_subnet_inside(2)] p k by (auto simp: nth_subnet_def)
  then have "k * ?s \<le> j * ?s" "j * ?s < Suc k * ?s"
    by (auto simp: in_range_def nth_subnet_def host_bits_def BitLen_def)
  then have "k \<le> j \<and> j < Suc k"
    by (simp only: mult_le_cancel2 mult_less_cancel2)
  then show False
    using k(3) by simp
qed

text \<open>C35: The subnets an addressing plan carves out of a prefix partition it: for an index that is not negative
  the helper fails exactly if there is no such subnet, every subnet lies inside the prefix and has the
  asked length, and no two of them share an address.\<close>

theorem cidrSubnet_partitions:
  assumes "valid_prefix base" "pf_bits base \<le> bits" "bits \<le> BitLen (pf_addr base)"
  shows "(cidrSubnet base (int k) (int bits) = Inl (IndexExceeds (int k)) \<longleftrightarrow> 2 ^ (bits - pf_bits base) \<le> k) \<and>
    (k < 2 ^ (bits - pf_bits base) \<longrightarrow>
      (\<exists>q. cidrSubnet base (int k) (int bits) = Inr q \<and> network q \<and> pf_bits q = bits \<and> prefix_contains (Masked base) q \<and>
        (\<forall>j q'. j \<noteq> k \<longrightarrow> cidrSubnet base (int j) (int bits) = Inr q' \<longrightarrow> \<not> share_address q q')))"
proof -
  let ?p = "Masked base" and ?n = "2 ^ (bits - pf_bits base) :: nat"
  have p: "network ?p" "pf_bits ?p \<le> bits" "bits \<le> BitLen (pf_addr ?p)" "?n = 2 ^ (bits - pf_bits ?p)"
    using network_Masked [OF assms(1)] assms(2,3) by (simp_all add: Masked_def mask_addr_def BitLen_def)
  note small = cidrSubnet_nth [OF assms] and big = cidrSubnet_exceeds [OF assms(2,3)]
  show ?thesis
  proof (intro conjI impI)
    show "cidrSubnet base (int k) (int bits) = Inl (IndexExceeds (int k)) \<longleftrightarrow> ?n \<le> k"
      using big [of k] small [of k] by (cases "?n \<le> k") auto
    assume k: "k < ?n"
    have "\<not> share_address (nth_subnet ?p bits k) q'" if "j \<noteq> k" "cidrSubnet base (int j) (int bits) = Inr q'" for j q'
      using that nth_subnet_apart [OF p(1-3)] k p(4) small [of j] big [of j] by (cases "?n \<le> j") auto
    then show "\<exists>q. cidrSubnet base (int k) (int bits) = Inr q \<and> network q \<and> pf_bits q = bits \<and> prefix_contains ?p q \<and>
        (\<forall>j q'. j \<noteq> k \<longrightarrow> cidrSubnet base (int j) (int bits) = Inr q' \<longrightarrow> \<not> share_address q q')"
      using small [OF k] nth_subnet_inside [OF p(1-3)] k p(4) by (auto simp: nth_subnet_def)
  qed
qed

theorem cidrSubnet_partitions_witness:
  "cidrSubnet (v4 179 0 0 0 8) 42 24 = Inr (v4 179 0 42 0 24) \<and> network (v4 179 0 42 0 24) \<and>
   \<not> share_address (v4 179 0 42 0 24) (v4 179 0 43 0 24) \<and>
   cidrSubnet (v4 179 0 0 0 8) 65536 24 = Inl (IndexExceeds 65536)"
proof -
  have a: "valid_prefix (v4 179 0 0 0 8)" "pf_bits (v4 179 0 0 0 8) \<le> 24" "24 \<le> BitLen (pf_addr (v4 179 0 0 0 8))"
    by (simp_all add: ipam_eval)
  have b: "cidrSubnet (v4 179 0 0 0 8) 42 24 = Inr (v4 179 0 42 0 24)" "cidrSubnet (v4 179 0 0 0 8) 43 24 = Inr (v4 179 0 43 0 24)"
    by (simp_all add: cidrSubnet_def ipam_eval)
  have n: "2 ^ (24 - pf_bits (v4 179 0 0 0 8)) = (65536 :: nat)"
    by (simp add: v4_def)
  show ?thesis
    using cidrSubnet_partitions [OF a, of 42] cidrSubnet_partitions [OF a, of 65536] b unfolding n by (auto dest: spec [of _ 43])
qed

end
