(* ===== verification/Limiter.thy ===== *)
theory Limiter
  imports Prelude
begin

text \<open>
  The node-wide operation budgets, \<open>internal/limiter/limiter.go\<close>.  A budget is a buffered channel:
  acquiring sends to it, releasing receives from it.  Every section under the mutex and every
  channel operation is one step of a client, and the steps of the clients interleave freely.
\<close>

section \<open>Configuration\<close>

definition allKinds :: "string list" where
  "allKinds = [''apply'', ''lifecycle'', ''container_create'', ''container_start'', ''exec_probe'', ''netlink'',
     ''image_pull'', ''capture'', ''convergence'']"

record Config =
  cf_Apply :: int
  cf_Lifecycle :: int
  cf_ContainerCreate :: int
  cf_ContainerStart :: int
  cf_ExecProbe :: int
  cf_Netlink :: int
  cf_ImagePull :: int
  cf_Capture :: int
  cf_Convergence :: int

definition bounded :: "int \<Rightarrow> int \<Rightarrow> int \<Rightarrow> int" where
  "bounded v low high = (if v < low then low else if v > high then high else v)"

text \<open>\<open>n\<close> is the number of processors.\<close>

definition defaultConfigForRuntime :: "int \<Rightarrow> string \<Rightarrow> Config" where
  "defaultConfigForRuntime n name =
     (let rt = to_lower (trim_space name);
          base = \<lparr>cf_Apply = bounded (n * 2) 4 48, cf_Lifecycle = bounded (n * 2) 8 48,
                  cf_ContainerCreate = 4, cf_ContainerStart = 4, cf_ExecProbe = bounded (n * 4) 8 48,
                  cf_Netlink = bounded n 2 12, cf_ImagePull = 2, cf_Capture = bounded n 2 8,
                  cf_Convergence = bounded n 2 8\<rparr>
      in if rt = ''podman'' then base\<lparr>cf_ContainerCreate := 8, cf_ContainerStart := 8\<rparr>
         else if rt = ''containerd''
         then base\<lparr>cf_Apply := bounded n 16 64, cf_Lifecycle := bounded n 16 64,
                   cf_ContainerCreate := bounded n 16 48, cf_ContainerStart := 16,
                   cf_ExecProbe := bounded n 16 64, cf_Convergence := bounded n 8 64,
                   cf_Netlink := bounded n 8 24\<rparr>
         else base)"

definition or_default :: "int \<Rightarrow> int \<Rightarrow> int" where
  "or_default v d = (if v \<le> 0 then d else v)"

definition WithDefaultsForRuntime :: "int \<Rightarrow> Config \<Rightarrow> string \<Rightarrow> Config" where
  "WithDefaultsForRuntime n cfg name =
     (let d = defaultConfigForRuntime n name
      in \<lparr>cf_Apply = or_default (cf_Apply cfg) (cf_Apply d),
          cf_Lifecycle = or_default (cf_Lifecycle cfg) (cf_Lifecycle d),
          cf_ContainerCreate = or_default (cf_ContainerCreate cfg) (cf_ContainerCreate d),
          cf_ContainerStart = or_default (cf_ContainerStart cfg) (cf_ContainerStart d),
          cf_ExecProbe = or_default (cf_ExecProbe cfg) (cf_ExecProbe d),
          cf_Netlink = or_default (cf_Netlink cfg) (cf_Netlink d),
          cf_ImagePull = or_default (cf_ImagePull cfg) (cf_ImagePull d),
          cf_Capture = or_default (cf_Capture cfg) (cf_Capture d),
          cf_Convergence = or_default (cf_Convergence cfg) (cf_Convergence d)\<rparr>)"

section \<open>The limiter\<close>

record bucket =
  bk_slots :: nat
  bk_limit :: nat
  bk_InFlight :: int
  bk_QueueDepth :: int
  bk_Acquisitions :: "64 word"
  bk_TotalWait :: duration
  bk_MaxWait :: duration
  bk_LastWait :: duration

definition limit_of :: "Config \<Rightarrow> string \<Rightarrow> int" where
  "limit_of cfg kind =
     (case map_of (zip allKinds [cf_Apply cfg, cf_Lifecycle cfg, cf_ContainerCreate cfg, cf_ContainerStart cfg,
        cf_ExecProbe cfg, cf_Netlink cfg, cf_ImagePull cfg, cf_Capture cfg, cf_Convergence cfg]) kind of
        None \<Rightarrow> 0 | Some v \<Rightarrow> v)"

definition new_bucket :: "Config \<Rightarrow> string \<Rightarrow> bucket" where
  "new_bucket cfg kind =
     (let limit = (if limit_of cfg kind \<le> 0 then 1 else limit_of cfg kind)
      in \<lparr>bk_slots = 0, bk_limit = nat limit, bk_InFlight = 0, bk_QueueDepth = 0, bk_Acquisitions = 0,
          bk_TotalWait = 0, bk_MaxWait = 0, bk_LastWait = 0\<rparr>)"

type_synonym buckets = "(string, bucket) fmap"

definition New_limiter :: "Config \<Rightarrow> buckets" where
  "New_limiter cfg = fmap_of_list (map (\<lambda>k. (k, new_bucket cfg k)) allKinds)"

definition Limit :: "buckets \<Rightarrow> string \<Rightarrow> int" where
  "Limit bs kind = (case fmlookup bs kind of None \<Rightarrow> 0 | Some b \<Rightarrow> int (bk_limit b))"

definition ClampWorkers :: "buckets \<Rightarrow> string \<Rightarrow> int \<Rightarrow> int" where
  "ClampWorkers bs kind requested =
     (let limit = Limit bs kind in
      if limit \<le> 0 then requested else if requested \<le> 0 \<or> requested > limit then limit else requested)"

definition normaliseKinds :: "string list \<Rightarrow> string list" where
  "normaliseKinds kinds = sort (rev (remdups (rev kinds)))"

text \<open>Where a caller of \<open>Acquire\<close> is: at the top of the loop, counted as queued, past the send but not yet
  counted, holding everything it asked for, giving back what it has, past the receive but not yet
  counted out.\<close>

datatype acquire_pc = Entering | Queued | Sent | Holding | Unwinding | Received

record client =
  c_pc :: acquire_pc
  c_want :: "string list"
  c_acquired :: "string list"

record limiter_sys =
  ls_buckets :: buckets
  ls_clients :: "(nat, client) fmap"

datatype client_move = Enter | Send | Count duration | GiveUp | Release | Receive | CountOut

definition put_client :: "nat \<Rightarrow> client \<Rightarrow> limiter_sys \<Rightarrow> limiter_sys" where
  "put_client i c s = s\<lparr>ls_clients := fmupd i c (ls_clients s)\<rparr>"

definition put_bucket :: "string \<Rightarrow> bucket \<Rightarrow> limiter_sys \<Rightarrow> limiter_sys" where
  "put_bucket k b s = s\<lparr>ls_buckets := fmupd k b (ls_buckets s)\<rparr>"

definition enter_step :: "nat \<Rightarrow> client \<Rightarrow> limiter_sys \<Rightarrow> limiter_sys" where
  "enter_step i c s =
     (case c_want c of
        [] \<Rightarrow> put_client i (c\<lparr>c_pc := Holding\<rparr>) s
      | k # _ \<Rightarrow>
          (case fmlookup (ls_buckets s) k of
             None \<Rightarrow> put_client i (c\<lparr>c_pc := Unwinding\<rparr>) s
           | Some b \<Rightarrow> put_client i (c\<lparr>c_pc := Queued\<rparr>)
                         (put_bucket k (b\<lparr>bk_QueueDepth := bk_QueueDepth b + 1\<rparr>) s)))"

definition send_step :: "nat \<Rightarrow> client \<Rightarrow> string \<Rightarrow> bucket \<Rightarrow> limiter_sys \<Rightarrow> limiter_sys option" where
  "send_step i c k b s =
     (if bk_slots b < bk_limit b
      then Some (put_client i (c\<lparr>c_pc := Sent\<rparr>) (put_bucket k (b\<lparr>bk_slots := bk_slots b + 1\<rparr>) s))
      else None)"

definition count_step :: "nat \<Rightarrow> client \<Rightarrow> string \<Rightarrow> bucket \<Rightarrow> duration \<Rightarrow> limiter_sys \<Rightarrow> limiter_sys" where
  "count_step i c k b wait s =
     put_client i (c\<lparr>c_pc := Entering, c_want := tl (c_want c), c_acquired := c_acquired c @ [k]\<rparr>)
       (put_bucket k
          (b\<lparr>bk_QueueDepth := bk_QueueDepth b - 1, bk_InFlight := bk_InFlight b + 1,
             bk_Acquisitions := bk_Acquisitions b + 1, bk_TotalWait := bk_TotalWait b + wait,
             bk_LastWait := wait, bk_MaxWait := (if wait > bk_MaxWait b then wait else bk_MaxWait b)\<rparr>) s)"

definition give_up_step :: "nat \<Rightarrow> client \<Rightarrow> string \<Rightarrow> bucket \<Rightarrow> limiter_sys \<Rightarrow> limiter_sys" where
  "give_up_step i c k b s =
     put_client i (c\<lparr>c_pc := Unwinding\<rparr>) (put_bucket k (b\<lparr>bk_QueueDepth := bk_QueueDepth b - 1\<rparr>) s)"

text \<open>\<open>releaseKinds\<close>, from the last kind to the first; a receive waits while the channel is empty.\<close>

definition receive_step :: "nat \<Rightarrow> client \<Rightarrow> limiter_sys \<Rightarrow> limiter_sys option" where
  "receive_step i c s =
     (if c_acquired c = [] then Some (s\<lparr>ls_clients := fmdrop i (ls_clients s)\<rparr>)
      else
        let k = last (c_acquired c) in
        case fmlookup (ls_buckets s) k of
          None \<Rightarrow> Some (put_client i (c\<lparr>c_acquired := butlast (c_acquired c)\<rparr>) s)
        | Some b \<Rightarrow>
            if bk_slots b = 0 then None
            else Some (put_client i (c\<lparr>c_pc := Received\<rparr>) (put_bucket k (b\<lparr>bk_slots := bk_slots b - 1\<rparr>) s)))"

definition count_out_step :: "nat \<Rightarrow> client \<Rightarrow> string \<Rightarrow> bucket \<Rightarrow> limiter_sys \<Rightarrow> limiter_sys" where
  "count_out_step i c k b s =
     put_client i (c\<lparr>c_pc := Unwinding, c_acquired := butlast (c_acquired c)\<rparr>)
       (put_bucket k (b\<lparr>bk_InFlight := bk_InFlight b - 1\<rparr>) s)"

text \<open>The bucket a client is at.\<close>

definition at_kind :: "client \<Rightarrow> string option" where
  "at_kind c =
     (case c_pc c of
        Received \<Rightarrow> if c_acquired c = [] then None else Some (last (c_acquired c))
      | _ \<Rightarrow> (case c_want c of [] \<Rightarrow> None | k # _ \<Rightarrow> Some k))"

definition at_bucket :: "client \<Rightarrow> limiter_sys \<Rightarrow> (string \<times> bucket) option" where
  "at_bucket c s =
     (case at_kind c of None \<Rightarrow> None | Some k \<Rightarrow> map_option (Pair k) (fmlookup (ls_buckets s) k))"

definition client_step :: "nat \<Rightarrow> client \<Rightarrow> client_move \<Rightarrow> limiter_sys \<Rightarrow> limiter_sys option" where
  "client_step i c m s =
     (case (c_pc c, m) of
        (Entering, Enter) \<Rightarrow> Some (enter_step i c s)
      | (Queued, Send) \<Rightarrow> (case at_bucket c s of None \<Rightarrow> None | Some (k, b) \<Rightarrow> send_step i c k b s)
      | (Queued, GiveUp) \<Rightarrow> map_option (\<lambda>(k, b). give_up_step i c k b s) (at_bucket c s)
      | (Sent, Count wait) \<Rightarrow> map_option (\<lambda>(k, b). count_step i c k b wait s) (at_bucket c s)
      | (Holding, Release) \<Rightarrow> Some (put_client i (c\<lparr>c_pc := Unwinding\<rparr>) s)
      | (Unwinding, Receive) \<Rightarrow> receive_step i c s
      | (Received, CountOut) \<Rightarrow> map_option (\<lambda>(k, b). count_out_step i c k b s) (at_bucket c s)
      | _ \<Rightarrow> None)"

datatype limiter_event = Call nat "string list" | Move nat client_move

text \<open>A call without a kind gets a release function that does nothing; it is no client.\<close>

fun limiter_step :: "limiter_event \<Rightarrow> limiter_sys \<Rightarrow> limiter_sys option" where
  "limiter_step (Call i kinds) s =
     (if fmlookup (ls_clients s) i \<noteq> None then None
      else if kinds = [] then Some s
      else Some (put_client i \<lparr>c_pc = Entering, c_want = normaliseKinds kinds, c_acquired = []\<rparr> s))"
| "limiter_step (Move i m) s =
     (case fmlookup (ls_clients s) i of None \<Rightarrow> None | Some c \<Rightarrow> client_step i c m s)"

fun limiter_run :: "limiter_event list \<Rightarrow> limiter_sys \<Rightarrow> limiter_sys option" where
  "limiter_run [] s = Some s"
| "limiter_run (e # es) s = (case limiter_step e s of None \<Rightarrow> None | Some s' \<Rightarrow> limiter_run es s')"

definition limiter_start :: "Config \<Rightarrow> limiter_sys" where
  "limiter_start cfg = \<lparr>ls_buckets = New_limiter cfg, ls_clients = fmempty\<rparr>"

section \<open>Slots and their holders\<close>

definition occupied :: "client \<Rightarrow> string set" where
  "occupied c =
     (case c_pc c of
        Sent \<Rightarrow> set (c_acquired c) \<union> set (take 1 (c_want c))
      | Received \<Rightarrow> set (butlast (c_acquired c))
      | _ \<Rightarrow> set (c_acquired c))"

definition occupies :: "limiter_sys \<Rightarrow> nat \<Rightarrow> string set" where
  "occupies s i = (case fmlookup (ls_clients s) i of None \<Rightarrow> {} | Some c \<Rightarrow> occupied c)"

definition holders :: "limiter_sys \<Rightarrow> string \<Rightarrow> nat set" where
  "holders s k = {i. k \<in> occupies s i}"

definition good_client :: "buckets \<Rightarrow> client \<Rightarrow> bool" where
  "good_client bs c \<longleftrightarrow>
     sorted_wrt (<) (c_acquired c @ c_want c) \<and> set (c_acquired c) \<subseteq> fmdom' bs \<and>
     (c_pc c \<in> {Queued, Sent} \<longrightarrow> c_want c \<noteq> [] \<and> hd (c_want c) \<in> fmdom' bs) \<and>
     (c_pc c = Received \<longrightarrow> c_acquired c \<noteq> [])"

definition good_bucket :: "limiter_sys \<Rightarrow> string \<Rightarrow> bucket \<Rightarrow> bool" where
  "good_bucket s k b \<longleftrightarrow> bk_slots b = card (holders s k) \<and> bk_slots b \<le> bk_limit b \<and> 0 < bk_limit b"

definition good_limiter :: "limiter_sys \<Rightarrow> bool" where
  "good_limiter s \<longleftrightarrow>
     (\<forall>k b. fmlookup (ls_buckets s) k = Some b \<longrightarrow> good_bucket s k b) \<and>
     (\<forall>i c. fmlookup (ls_clients s) i = Some c \<longrightarrow> good_client (ls_buckets s) c)"

lemma holders_finite [simp]: "finite (holders s k)"
proof (rule finite_subset)
  show "holders s k \<subseteq> fmdom' (ls_clients s)"
    by (auto simp: holders_def occupies_def fmlookup_dom'_iff split: option.splits)
qed simp

lemma holders_change:
  assumes "\<forall>j. j \<noteq> i \<longrightarrow> occupies s' j = occupies s j"
  shows "card (holders s' k) + of_bool (k \<in> occupies s i) = card (holders s k) + of_bool (k \<in> occupies s' i)"
proof -
  have eq: "holders s' k - {i} = holders s k - {i}"
    using assms by (auto simp: holders_def)
  have "card (holders t k) = card (holders t k - {i}) + of_bool (k \<in> occupies t i)" for t
  proof -
    have "i \<in> holders t k \<longleftrightarrow> k \<in> occupies t i"
      by (simp add: holders_def)
    then show ?thesis
      using card_Suc_Diff1 [OF holders_finite, of i t k] by (cases "i \<in> holders t k") simp_all
  qed
  from this [of s] this [of s'] show ?thesis
    using eq by simp
qed

text \<open>A step of one client that moves the slots of each bucket the way it moves the client keeps everything
  in order.\<close>

definition bucket_change :: "limiter_sys \<Rightarrow> limiter_sys \<Rightarrow> nat \<Rightarrow> string \<Rightarrow> bucket \<Rightarrow> bucket \<Rightarrow> bool" where
  "bucket_change s s' i k b b' \<longleftrightarrow>
     bk_limit b' = bk_limit b \<and> bk_slots b' \<le> bk_limit b \<and>
     bk_slots b' + of_bool (k \<in> occupies s i) = bk_slots b + of_bool (k \<in> occupies s' i)"

lemma good_limiter_change:
  assumes g: "good_limiter s"
    and others: "\<forall>j. j \<noteq> i \<longrightarrow> fmlookup (ls_clients s') j = fmlookup (ls_clients s) j"
    and client: "\<forall>c. fmlookup (ls_clients s') i = Some c \<longrightarrow> good_client (ls_buckets s) c"
    and bucket: "\<forall>k. rel_option (bucket_change s s' i k) (fmlookup (ls_buckets s) k) (fmlookup (ls_buckets s') k)"
  shows "good_limiter s'"
proof -
  have "occupies s' j = occupies s j" if "j \<noteq> i" for j
    using others that by (simp add: occupies_def)
  then have card: "card (holders s' k) + of_bool (k \<in> occupies s i) = card (holders s k) + of_bool (k \<in> occupies s' i)" for k
    by (intro holders_change) blast
  have dom: "fmdom' (ls_buckets s') = fmdom' (ls_buckets s)"
  proof -
    have "fmlookup (ls_buckets s') k = None \<longleftrightarrow> fmlookup (ls_buckets s) k = None" for k
      using bucket [rule_format, of k]
      by (cases "fmlookup (ls_buckets s) k"; cases "fmlookup (ls_buckets s') k") simp_all
    then show ?thesis
      by (auto simp: fmlookup_dom'_iff simp flip: not_None_eq)
  qed
  have "good_bucket s' k b'" if f: "fmlookup (ls_buckets s') k = Some b'" for k b'
  proof -
    obtain b where b: "fmlookup (ls_buckets s) k = Some b" "bucket_change s s' i k b b'"
      using bucket [rule_format, of k] f by (auto simp: option_rel_Some2)
    have "good_bucket s k b"
      using g b(1) unfolding good_limiter_def by blast
    then show ?thesis
      using b(2) card [of k] unfolding good_bucket_def bucket_change_def by linarith
  qed
  moreover have "good_client (ls_buckets s') c" if "fmlookup (ls_clients s') j = Some c" for j c
  proof -
    have "good_client (ls_buckets s) c"
      using g others client that by (cases "j = i") (auto simp: good_limiter_def)
    then show ?thesis
      by (simp add: good_client_def dom)
  qed
  ultimately show ?thesis
    by (simp add: good_limiter_def)
qed

lemma put_simps [simp]:
  "ls_buckets (put_client i c s) = ls_buckets s" "ls_clients (put_client i c s) = fmupd i c (ls_clients s)"
  "ls_buckets (put_bucket k b s) = fmupd k b (ls_buckets s)" "ls_clients (put_bucket k b s) = ls_clients s"
  "occupies (put_client i c s) i = occupied c"
  by (simp_all add: put_client_def put_bucket_def occupies_def)

lemma good_limiter_bucket:
  "good_limiter s \<Longrightarrow> fmlookup (ls_buckets s) k = Some b \<Longrightarrow>
   bk_slots b = card (holders s k) \<and> bk_slots b \<le> bk_limit b \<and> 0 < bk_limit b"
  unfolding good_limiter_def good_bucket_def by blast

lemma bucket_change_refl:
  assumes "good_limiter s" "occupies s' i = occupies s i"
  shows "rel_option (bucket_change s s' i k) (fmlookup (ls_buckets s) k) (fmlookup (ls_buckets s) k)"
  using assms good_limiter_bucket [OF assms(1), of k]
  by (cases "fmlookup (ls_buckets s) k") (simp_all add: bucket_change_def)

text \<open>A client that changes what it occupies by at most one kind, with the slots of that bucket.\<close>

lemma good_put:
  assumes g: "good_limiter s" and c: "good_client (ls_buckets s) c'"
    and b: "fmlookup (ls_buckets s) k = Some b" "bk_limit b' = bk_limit b" "bk_slots b' \<le> bk_limit b"
    and slots: "bk_slots b' + of_bool (k \<in> occupies s i) = bk_slots b + of_bool (k \<in> occupied c')"
    and same: "\<forall>j. j \<noteq> k \<longrightarrow> (j \<in> occupied c' \<longleftrightarrow> j \<in> occupies s i)"
  shows "good_limiter (put_client i c' (put_bucket k b' s))"
proof (rule good_limiter_change [OF g])
  let ?s = "put_client i c' (put_bucket k b' s)"
  show "\<forall>j. rel_option (bucket_change s ?s i j) (fmlookup (ls_buckets s) j) (fmlookup (ls_buckets ?s) j)"
  proof
    fix j
    show "rel_option (bucket_change s ?s i j) (fmlookup (ls_buckets s) j) (fmlookup (ls_buckets ?s) j)"
    proof (cases "j = k")
      case True
      then show ?thesis
        using b slots by (simp add: bucket_change_def)
    next
      case False
      then show ?thesis
        using good_limiter_bucket [OF g, of j] same
        by (cases "fmlookup (ls_buckets s) j") (simp_all add: bucket_change_def)
    qed
  qed
qed (use c in simp_all)

lemma good_put_client:
  assumes "good_limiter s" "good_client (ls_buckets s) c'" "occupied c' = occupies s i"
  shows "good_limiter (put_client i c' s)"
proof (rule good_limiter_change [OF assms(1), of i])
  show "\<forall>k. rel_option (bucket_change s (put_client i c' s) i k) (fmlookup (ls_buckets s) k)
      (fmlookup (ls_buckets (put_client i c' s)) k)"
    using bucket_change_refl [OF assms(1)] assms(3) by simp
qed (use assms(2) in simp_all)

lemma normaliseKinds_sorted: "sorted_wrt (<) (normaliseKinds kinds)"
  by (simp add: normaliseKinds_def strict_sorted_iff)

section \<open>Every step keeps the account\<close>

lemma at_bucket_want:
  "at_bucket c s = Some (k, b) \<Longrightarrow> c_pc c \<noteq> Received \<Longrightarrow>
   fmlookup (ls_buckets s) k = Some b \<and> (\<exists>ks. c_want c = k # ks)"
  by (auto simp: at_bucket_def at_kind_def split: option.splits acquire_pc.splits list.splits)

lemma at_bucket_acquired:
  "at_bucket c s = Some (k, b) \<Longrightarrow> c_pc c = Received \<Longrightarrow>
   fmlookup (ls_buckets s) k = Some b \<and> c_acquired c \<noteq> [] \<and> k = last (c_acquired c)"
  by (auto simp: at_bucket_def at_kind_def split: option.splits if_splits)

lemma occupies_client: "fmlookup (ls_clients s) i = Some c \<Longrightarrow> occupies s i = occupied c"
  by (simp add: occupies_def)

lemma sorted_want_fresh: "sorted_wrt (<) (xs @ k # ks) \<Longrightarrow> k \<notin> set xs" for k :: "'a::order"
  by (auto simp: sorted_wrt_append)

lemma sorted_last_fresh: "sorted_wrt (<) (xs @ ys) \<Longrightarrow> xs \<noteq> [] \<Longrightarrow> last xs \<notin> set (butlast xs)" for xs :: "'a::order list"
  by (induction xs rule: rev_induct) (auto simp: sorted_wrt_append)

lemma set_butlast_last: "xs \<noteq> [] \<Longrightarrow> set xs = insert (last xs) (set (butlast xs))"
  by (induction xs rule: rev_induct) auto

lemma sorted_butlast: "sorted_wrt P (xs @ ys) \<Longrightarrow> sorted_wrt P (butlast xs @ ys)"
  by (induction xs rule: rev_induct) (auto simp: sorted_wrt_append)

lemma good_enter:
  assumes "good_limiter s" "fmlookup (ls_clients s) i = Some c" "c_pc c = Entering" "good_client (ls_buckets s) c"
  shows "good_limiter (enter_step i c s)"
proof (cases "c_want c")
  case Nil
  then show ?thesis
    using assms by (auto simp: enter_step_def good_client_def occupies_def occupied_def intro!: good_put_client)
next
  case (Cons k ks)
  show ?thesis
  proof (cases "fmlookup (ls_buckets s) k")
    case None
    then show ?thesis
      using assms Cons by (auto simp: enter_step_def good_client_def occupies_def occupied_def intro!: good_put_client)
  next
    case (Some b)
    have "good_limiter (put_client i (c\<lparr>c_pc := Queued\<rparr>) (put_bucket k (b\<lparr>bk_QueueDepth := bk_QueueDepth b + 1\<rparr>) s))"
    proof (rule good_put [OF assms(1) _ Some])
      show "good_client (ls_buckets s) (c\<lparr>c_pc := Queued\<rparr>)"
        using assms(4) Cons Some by (simp add: good_client_def fmlookup_dom'_iff)
    qed (use assms good_limiter_bucket [OF assms(1) Some] in \<open>simp_all add: occupies_client occupied_def\<close>)
    then show ?thesis
      by (simp add: enter_step_def Cons Some)
  qed
qed

lemma good_send:
  assumes g: "good_limiter s" and c: "fmlookup (ls_clients s) i = Some c" "c_pc c = Queued" "good_client (ls_buckets s) c"
    and b: "at_bucket c s = Some (k, b)" and e: "send_step i c k b s = Some s'"
  shows "good_limiter s'"
proof -
  obtain ks where k: "fmlookup (ls_buckets s) k = Some b" "c_want c = k # ks"
    using at_bucket_want [OF b] c(2) by auto
  have "k \<notin> set (c_acquired c)"
    using c(3) k(2) sorted_want_fresh by (auto simp: good_client_def)
  then have "good_limiter (put_client i (c\<lparr>c_pc := Sent\<rparr>) (put_bucket k (b\<lparr>bk_slots := bk_slots b + 1\<rparr>) s))"
    if "bk_slots b < bk_limit b"
    using that c k by (intro good_put [OF g _ k(1)]) (simp_all add: good_client_def occupies_client occupied_def)
  then show ?thesis
    using e by (auto simp: send_step_def split: if_splits)
qed

lemma good_count:
  assumes g: "good_limiter s" and c: "fmlookup (ls_clients s) i = Some c" "c_pc c = Sent" "good_client (ls_buckets s) c"
    and b: "at_bucket c s = Some (k, b)"
  shows "good_limiter (count_step i c k b wait s)"
proof -
  obtain ks where k: "fmlookup (ls_buckets s) k = Some b" "c_want c = k # ks"
    using at_bucket_want [OF b] c(2) by auto
  show ?thesis
    unfolding count_step_def using c k good_limiter_bucket [OF g k(1)]
    by (intro good_put [OF g _ k(1)]) (auto simp: good_client_def occupies_client occupied_def fmlookup_dom'_iff)
qed

lemma good_give_up:
  assumes g: "good_limiter s" and c: "fmlookup (ls_clients s) i = Some c" "c_pc c = Queued" "good_client (ls_buckets s) c"
    and b: "at_bucket c s = Some (k, b)"
  shows "good_limiter (give_up_step i c k b s)"
proof -
  have k: "fmlookup (ls_buckets s) k = Some b"
    using at_bucket_want [OF b] c(2) by auto
  show ?thesis
    unfolding give_up_step_def using c good_limiter_bucket [OF g k]
    by (intro good_put [OF g _ k]) (auto simp: good_client_def occupies_client occupied_def)
qed

lemma good_receive:
  assumes g: "good_limiter s" and c: "fmlookup (ls_clients s) i = Some c" "c_pc c = Unwinding" "good_client (ls_buckets s) c"
    and e: "receive_step i c s = Some s'"
  shows "good_limiter s'"
proof (cases "c_acquired c = []")
  case True
  then have s': "s' = s\<lparr>ls_clients := fmdrop i (ls_clients s)\<rparr>"
    using e by (simp add: receive_step_def)
  have "occupies s' i = occupies s i"
    using True c by (simp add: s' occupies_def occupied_def)
  then show ?thesis
    using bucket_change_refl [OF g] by (intro good_limiter_change [OF g, of i]) (simp_all add: s')
next
  case False
  let ?k = "last (c_acquired c)"
  have "?k \<in> fmdom' (ls_buckets s)"
    using c(3) False last_in_set by (auto simp: good_client_def)
  then obtain b where b: "fmlookup (ls_buckets s) ?k = Some b"
    by (auto simp: fmlookup_dom'_iff)
  have last: "?k \<notin> set (butlast (c_acquired c))" "set (c_acquired c) = insert ?k (set (butlast (c_acquired c)))"
    using c(3) False sorted_last_fresh [of "c_acquired c" "c_want c"] set_butlast_last by (simp_all add: good_client_def)
  have "s' = put_client i (c\<lparr>c_pc := Received\<rparr>) (put_bucket ?k (b\<lparr>bk_slots := bk_slots b - 1\<rparr>) s)" "bk_slots b \<noteq> 0"
    using e False b by (auto simp: receive_step_def Let_def split: if_splits)
  moreover have "bk_slots b \<le> bk_limit b"
    using good_limiter_bucket [OF g b] by simp
  ultimately show ?thesis
    using c False last by (auto simp: good_client_def occupies_client occupied_def intro!: good_put [OF g _ b])
qed

lemma good_count_out:
  assumes g: "good_limiter s" and c: "fmlookup (ls_clients s) i = Some c" "c_pc c = Received" "good_client (ls_buckets s) c"
    and b: "at_bucket c s = Some (k, b)"
  shows "good_limiter (count_out_step i c k b s)"
proof -
  have k: "fmlookup (ls_buckets s) k = Some b" "c_acquired c \<noteq> []"
    using at_bucket_acquired [OF b c(2)] by auto
  have "good_client (ls_buckets s) (c\<lparr>c_pc := Unwinding, c_acquired := butlast (c_acquired c)\<rparr>)"
    using c(3) sorted_butlast [of "(<)" "c_acquired c" "c_want c"] in_set_butlastD [of _ "c_acquired c"]
    by (auto simp: good_client_def)
  then show ?thesis
    unfolding count_out_step_def using c good_limiter_bucket [OF g k(1)]
    by (intro good_put [OF g _ k(1)]) (simp_all add: occupies_client occupied_def)
qed

lemma good_client_step:
  assumes g: "good_limiter s" and c: "fmlookup (ls_clients s) i = Some c" and e: "client_step i c m s = Some s'"
  shows "good_limiter s'"
proof -
  have gc: "good_client (ls_buckets s) c"
    using g c unfolding good_limiter_def by blast
  have "good_limiter (put_client i (c\<lparr>c_pc := Unwinding\<rparr>) s)" if "c_pc c = Holding"
    using that gc c by (intro good_put_client [OF g]) (auto simp: good_client_def occupies_client occupied_def)
  then show ?thesis
    using e good_enter [OF g c _ gc] good_send [OF g c _ gc] good_count [OF g c _ gc] good_give_up [OF g c _ gc]
      good_receive [OF g c _ gc] good_count_out [OF g c _ gc]
    by (auto simp: client_step_def split: acquire_pc.splits client_move.splits option.splits)
qed

lemma good_limiter_step:
  assumes "good_limiter s" "limiter_step e s = Some s'"
  shows "good_limiter s'"
proof (cases e)
  case (Call i kinds)
  have "good_limiter (put_client i \<lparr>c_pc = Entering, c_want = normaliseKinds kinds, c_acquired = []\<rparr> s)"
    if "fmlookup (ls_clients s) i = None"
    using that normaliseKinds_sorted
    by (intro good_put_client [OF assms(1)]) (auto simp: good_client_def occupies_def occupied_def)
  then show ?thesis
    using assms Call by (auto split: if_splits)
next
  case (Move i m)
  then show ?thesis
    using assms good_client_step by (auto split: option.splits)
qed

lemma good_limiter_run: "limiter_run es s = Some s' \<Longrightarrow> good_limiter s \<Longrightarrow> good_limiter s'"
  by (induction es arbitrary: s) (auto split: option.splits dest: good_limiter_step)

lemma good_limiter_start: "good_limiter (limiter_start cfg)"
  by (auto simp: good_limiter_def limiter_start_def New_limiter_def good_bucket_def holders_def occupies_def
      new_bucket_def Let_def fmlookup_of_list dest!: map_of_SomeD)

section \<open>No deadlock\<close>

lemma not_queued_moves:
  assumes g: "good_limiter s" and c: "fmlookup (ls_clients s) i = Some c" and q: "c_pc c \<noteq> Queued"
  shows "\<exists>m. m \<noteq> GiveUp \<and> limiter_step (Move i m) s \<noteq> None"
proof -
  have gc: "good_client (ls_buckets s) c"
    using g c unfolding good_limiter_def by blast
  show ?thesis
  proof (cases "c_pc c")
    case Sent
    then obtain k ks b where "c_want c = k # ks" "fmlookup (ls_buckets s) k = Some b"
      using gc by (cases "c_want c") (auto simp: good_client_def fmlookup_dom'_iff)
    then have "limiter_step (Move i (Count 0)) s \<noteq> None"
      using c Sent by (simp add: client_step_def at_bucket_def at_kind_def)
    then show ?thesis
      by blast
  next
    case Received
    then obtain b where "fmlookup (ls_buckets s) (last (c_acquired c)) = Some b" "c_acquired c \<noteq> []"
      using gc last_in_set by (fastforce simp: good_client_def fmlookup_dom'_iff)
    then have "limiter_step (Move i CountOut) s \<noteq> None"
      using c Received by (simp add: client_step_def at_bucket_def at_kind_def)
    then show ?thesis
      by blast
  next
    case Unwinding
    have "bk_slots b \<noteq> 0" if "c_acquired c \<noteq> []" "fmlookup (ls_buckets s) (last (c_acquired c)) = Some b" for b
    proof -
      have "i \<in> holders s (last (c_acquired c))"
        using c Unwinding that(1) by (simp add: holders_def occupies_def occupied_def)
      then show ?thesis
        using good_limiter_bucket [OF g that(2)] card_gt_0_iff by fastforce
    qed
    then have "limiter_step (Move i Receive) s \<noteq> None"
      using c Unwinding by (cases "c_acquired c = []"; cases "fmlookup (ls_buckets s) (last (c_acquired c))")
        (auto simp: client_step_def receive_step_def Let_def)
    then show ?thesis
      by blast
  next
    case Entering
    then have "limiter_step (Move i Enter) s \<noteq> None"
      using c by (simp add: client_step_def)
    then show ?thesis
      by blast
  next
    case Holding
    then have "limiter_step (Move i Release) s \<noteq> None"
      using c by (simp add: client_step_def)
    then show ?thesis
      by blast
  qed (use q in simp)
qed

lemma queued_moves:
  assumes g: "good_limiter s" and all: "\<forall>i c. fmlookup (ls_clients s) i = Some c \<longrightarrow> c_pc c = Queued"
    and some: "fmlookup (ls_clients s) i0 = Some c0"
  shows "\<exists>i. limiter_step (Move i Send) s \<noteq> None"
proof -
  define waits where "waits = (\<lambda>i. hd (c_want (the (fmlookup (ls_clients s) i))))"
  have fin: "finite (waits ` fmdom' (ls_clients s))" "waits ` fmdom' (ls_clients s) \<noteq> {}"
    using fmdom'I [OF some] by auto
  obtain i where i: "i \<in> fmdom' (ls_clients s)" and top: "\<And>j. j \<in> fmdom' (ls_clients s) \<Longrightarrow> waits j \<le> waits i"
    using Max_in [OF fin] Max_ge [OF fin(1)] by (metis imageE imageI)
  then obtain c where c: "fmlookup (ls_clients s) i = Some c"
    by (auto simp: fmlookup_dom'_iff)
  have good: "good_client (ls_buckets s) d \<and> c_pc d = Queued" if "fmlookup (ls_clients s) j = Some d" for j d
    using g all that unfolding good_limiter_def by blast
  obtain k ks b where k: "c_want c = k # ks" "fmlookup (ls_buckets s) k = Some b"
    using good [OF c] by (cases "c_want c") (auto simp: good_client_def fmlookup_dom'_iff)
  have "bk_slots b < bk_limit b"
  proof (rule ccontr)
    assume "\<not> bk_slots b < bk_limit b"
    then have "holders s k \<noteq> {}"
      using good_limiter_bucket [OF g k(2)] by auto
    then obtain j d where d: "fmlookup (ls_clients s) j = Some d" "k \<in> set (c_acquired d)"
      using good by (auto simp: holders_def occupies_def occupied_def split: option.splits)
    then have "k < hd (c_want d)"
      using good [OF d(1)] by (cases "c_want d") (auto simp: good_client_def sorted_wrt_append)
    moreover have "hd (c_want d) \<le> k"
      using top [of j] c d(1) k(1) by (auto simp: waits_def fmlookup_dom'_iff)
    ultimately show False
      by simp
  qed
  then have "limiter_step (Move i Send) s \<noteq> None"
    using c k good [OF c] by (simp add: client_step_def at_bucket_def at_kind_def send_step_def)
  then show ?thesis
    by blast
qed

text \<open>C36: The node's budgets hold and never lock up.  Whatever the configuration, the requests and their
  interleaving, no more callers occupy a budget than its limit, which is at least one; and whenever some
  caller is inside \<open>Acquire\<close> or still has to release, some caller can take a step without any request being
  cancelled.\<close>

theorem limiter_bounds_and_progress:
  assumes "limiter_run es (limiter_start cfg) = Some s"
  shows "(\<forall>k b. fmlookup (ls_buckets s) k = Some b \<longrightarrow> 1 \<le> bk_limit b \<and> card (holders s k) \<le> bk_limit b) \<and>
    (ls_clients s \<noteq> fmempty \<longrightarrow> (\<exists>i m. m \<noteq> GiveUp \<and> limiter_step (Move i m) s \<noteq> None))"
proof -
  have g: "good_limiter s"
    using good_limiter_run [OF assms good_limiter_start] .
  have "\<exists>i m. m \<noteq> GiveUp \<and> limiter_step (Move i m) s \<noteq> None" if some: "ls_clients s \<noteq> fmempty"
  proof -
    have "\<exists>i. fmlookup (ls_clients s) i \<noteq> None"
      using some by (auto intro!: fmap_ext)
    then obtain i c where c: "fmlookup (ls_clients s) i = Some c"
      by blast
    show ?thesis
    proof (cases "\<forall>i c. fmlookup (ls_clients s) i = Some c \<longrightarrow> c_pc c = Queued")
      case True
      then show ?thesis
        using queued_moves [OF g _ c] by blast
    next
      case False
      then show ?thesis
        using not_queued_moves [OF g] by blast
    qed
  qed
  moreover have "1 \<le> bk_limit b \<and> card (holders s k) \<le> bk_limit b" if "fmlookup (ls_buckets s) k = Some b" for k b
    using good_limiter_bucket [OF g that] by simp
  ultimately show ?thesis
    by blast
qed

definition tight_config :: Config where
  "tight_config = \<lparr>cf_Apply = 1, cf_Lifecycle = 0, cf_ContainerCreate = 1, cf_ContainerStart = 1, cf_ExecProbe = 1,
     cf_Netlink = 1, cf_ImagePull = 1, cf_Capture = 1, cf_Convergence = 1\<rparr>"

definition contended_run :: "limiter_event list" where
  "contended_run =
     [Call 1 [''netlink'', ''apply''], Call 2 [''apply'', ''netlink'', ''apply''], Move 1 Enter, Move 2 Enter, Move 1 Send,
      Move 1 (Count 0), Move 1 Enter, Move 1 Send, Move 1 (Count 0), Move 1 Enter]"

theorem limiter_bounds_and_progress_witness:
  "case limiter_run contended_run (limiter_start tight_config) of
     None \<Rightarrow> False
   | Some s \<Rightarrow> map_option c_pc (fmlookup (ls_clients s) 2) = Some Queued \<and>
       card (holders s ''apply'') \<le> 1 \<and> (\<exists>i m. m \<noteq> GiveUp \<and> limiter_step (Move i m) s \<noteq> None)"
proof -
  have "case limiter_run contended_run (limiter_start tight_config) of None \<Rightarrow> False
      | Some s \<Rightarrow> map_option c_pc (fmlookup (ls_clients s) 2) = Some Queued \<and>
          map_option bk_limit (fmlookup (ls_buckets s) ''apply'') = Some 1"
    by code_simp
  then obtain s b where s: "limiter_run contended_run (limiter_start tight_config) = Some s"
    "map_option c_pc (fmlookup (ls_clients s) 2) = Some Queued" "fmlookup (ls_buckets s) ''apply'' = Some b" "bk_limit b = 1"
    by (auto split: option.splits)
  then have "ls_clients s \<noteq> fmempty"
    by auto
  then show ?thesis
    using limiter_bounds_and_progress [OF s(1)] s by fastforce
qed

end
