(* ===== verification/Identity.thy ===== *)
theory Identity
  imports Prelude
begin

text \<open>
  Certificate identities, \<open>internal/authz/identity.go\<close>: a role with the labs and actions it may
  touch, written into a client certificate as a URI and read back by the agents.  The query part of
  the URI is encoded and parsed as \<open>net/url\<close> does.
\<close>

section \<open>URIs\<close>

definition unreserved :: "char \<Rightarrow> bool" where
  "unreserved c \<longleftrightarrow>
     (let n = of_char c :: nat
      in 48 \<le> n \<and> n \<le> 57 \<or> 65 \<le> n \<and> n \<le> 90 \<or> 97 \<le> n \<and> n \<le> 122) \<or> c \<in> set ''-_.~''"

definition upper_hex :: "nat \<Rightarrow> char" where
  "upper_hex n = (if n < 10 then char_of (48 + n) else char_of (55 + n))"

definition unhex :: "char \<Rightarrow> nat option" where
  "unhex c =
     (let n = of_char c :: nat
      in if 48 \<le> n \<and> n \<le> 57 then Some (n - 48)
         else if 97 \<le> n \<and> n \<le> 102 then Some (n - 87)
         else if 65 \<le> n \<and> n \<le> 70 then Some (n - 55)
         else None)"

definition escape_byte :: "char \<Rightarrow> string" where
  "escape_byte c =
     (if unreserved c then [c]
      else if c = CHR '' '' then ''+''
      else CHR ''%'' # upper_hex (of_char c div 16) # upper_hex (of_char c mod 16) # [])"

definition query_escape :: "string \<Rightarrow> string" where
  "query_escape s = concat (map escape_byte s)"

fun query_unescape :: "string \<Rightarrow> string option" where
  "query_unescape [] = Some []"
| "query_unescape (c # cs) =
     (if c = CHR ''%''
      then (case cs of
              a # b # rest \<Rightarrow>
                (case (unhex a, unhex b) of
                   (Some h, Some l) \<Rightarrow> map_option ((#) (char_of (16 * h + l))) (query_unescape rest)
                 | _ \<Rightarrow> None)
            | _ \<Rightarrow> None)
      else map_option ((#) (if c = CHR ''+'' then CHR '' '' else c)) (query_unescape cs))"

definition encode_pair :: "string \<times> string \<Rightarrow> string" where
  "encode_pair kv = query_escape (fst kv) @ CHR ''='' # query_escape (snd kv)"

fun encode_values :: "(string \<times> string) list \<Rightarrow> string" where
  "encode_values [] = []"
| "encode_values [kv] = encode_pair kv"
| "encode_values (kv # kvs) = encode_pair kv @ CHR ''&'' # encode_values kvs"

text \<open>A piece with a semicolon, an empty piece and one that does not unescape are skipped.\<close>

definition parse_pair :: "string \<Rightarrow> (string \<times> string) option" where
  "parse_pair piece =
     (if CHR '';'' \<in> set piece \<or> piece = [] then None
      else
        (case (query_unescape (takeWhile (\<lambda>c. c \<noteq> CHR ''='') piece),
               query_unescape (drop 1 (dropWhile (\<lambda>c. c \<noteq> CHR ''='') piece))) of
           (Some k, Some v) \<Rightarrow> Some (k, v)
         | _ \<Rightarrow> None))"

definition parse_query :: "string \<Rightarrow> (string \<times> string) list" where
  "parse_query s = List.map_filter parse_pair (split_on CHR ''&'' s)"

definition query_values :: "string \<Rightarrow> string \<Rightarrow> string list" where
  "query_values key s = map snd (filter (\<lambda>kv. fst kv = key) (parse_query s))"

record URL =
  url_Scheme :: string
  url_Host :: string
  url_Path :: string
  url_RawQuery :: string

subsection \<open>A query reads back\<close>

lemma of_char_hex: "n < 16 \<Longrightarrow> unhex (upper_hex n) = Some n"
  by (auto simp: unhex_def upper_hex_def Let_def of_char_of)

lemma escape_byte_free:
  assumes "c \<in> set (escape_byte b)"
  shows "c \<noteq> CHR ''&'' \<and> c \<noteq> CHR ''='' \<and> c \<noteq> CHR '';''"
proof -
  have hex: "upper_hex n \<noteq> CHR ''&'' \<and> upper_hex n \<noteq> CHR ''='' \<and> upper_hex n \<noteq> CHR '';''" if "n < 16" for n
    using of_char_hex [OF that] by (auto simp: unhex_def)
  have "(of_char b :: nat) div 16 < 16" "(of_char b :: nat) mod 16 < 16"
    using nat_of_char_less_256 [of b] by (auto simp: less_mult_imp_div_less)
  then show ?thesis
    using assms hex by (auto simp: escape_byte_def unreserved_def split: if_splits)
qed

lemma query_escape_free: "c \<in> set (query_escape s) \<Longrightarrow> c \<noteq> CHR ''&'' \<and> c \<noteq> CHR ''='' \<and> c \<noteq> CHR '';''"
  by (auto simp: query_escape_def dest: escape_byte_free)

lemma query_unescape_byte: "query_unescape (escape_byte c @ s) = map_option ((#) c) (query_unescape s)"
proof -
  have "(of_char c :: nat) div 16 < 16" "(of_char c :: nat) mod 16 < 16"
    using nat_of_char_less_256 [of c] by (auto simp: less_mult_imp_div_less)
  moreover have "char_of (16 * (of_char c div 16) + of_char c mod 16 :: nat) = c"
    by (simp add: mult_div_mod_eq)
  moreover have "c \<noteq> CHR ''%'' \<and> c \<noteq> CHR ''+''" if "unreserved c"
    using that by (auto simp: unreserved_def)
  ultimately show ?thesis
    by (auto simp: escape_byte_def of_char_hex)
qed

lemma query_unescape_escape [simp]: "query_unescape (query_escape s) = Some s"
  by (induction s) (auto simp: query_escape_def query_unescape_byte)

lemma parse_pair_encode: "parse_pair (encode_pair kv) = Some kv"
proof -
  have "takeWhile (\<lambda>c. c \<noteq> CHR ''='') (encode_pair kv) = query_escape (fst kv)"
    and "dropWhile (\<lambda>c. c \<noteq> CHR ''='') (encode_pair kv) = CHR ''='' # query_escape (snd kv)"
    by (auto simp: encode_pair_def takeWhile_append dropWhile_append dest: query_escape_free)
  moreover have "CHR '';'' \<notin> set (encode_pair kv)" "encode_pair kv \<noteq> []"
    by (auto simp: encode_pair_def dest: query_escape_free)
  ultimately show ?thesis
    by (simp add: parse_pair_def)
qed

lemma encode_pair_free: "CHR ''&'' \<notin> set (encode_pair kv)"
  by (auto simp: encode_pair_def dest: query_escape_free)

lemma parse_query_encode: "parse_query (encode_values kvs) = kvs"
proof (induction kvs rule: encode_values.induct)
  case 1
  then show ?case
    by (simp add: parse_query_def parse_pair_def)
next
  case (2 kv)
  then show ?case
    by (simp add: parse_query_def split_on_no_sep encode_pair_free parse_pair_encode)
next
  case (3 kv kv' kvs)
  then show ?case
    by (simp add: parse_query_def split_on_append encode_pair_free parse_pair_encode)
qed

section \<open>Identities\<close>

definition RoleController :: string where "RoleController = ''controller''"
definition RoleOperator :: string where "RoleOperator = ''operator''"
definition RoleDiagnostic :: string where "RoleDiagnostic = ''diagnostic''"
definition RolePeer :: string where "RolePeer = ''peer''"
definition ActionObserve :: string where "ActionObserve = ''observe''"
definition ActionPeerState :: string where "ActionPeerState = ''peer-state''"
definition claimScheme :: string where "claimScheme = ''spiffe''"
definition claimHost :: string where "claimHost = ''twinet.dev''"
definition claimPath :: string where "claimPath = ''/identity''"

definition roles :: "string list" where
  "roles = [RoleController, RoleOperator, RoleDiagnostic, RolePeer]"

lemmas role_defs = RoleController_def RoleOperator_def RoleDiagnostic_def RolePeer_def
lemmas claim_defs = claimScheme_def claimHost_def claimPath_def

record Identity =
  id_Role :: string
  id_Labs :: "string fset"
  id_Actions :: "string fset"

definition Allows :: "Identity \<Rightarrow> string \<Rightarrow> string \<Rightarrow> bool" where
  "Allows i lab action \<longleftrightarrow>
     \<not> (id_Role i = [] \<or> lab = [] \<or> action = [])
     \<and> (''*'' |\<in>| id_Labs i \<or> lab |\<in>| id_Labs i) \<and> (''*'' |\<in>| id_Actions i \<or> action |\<in>| id_Actions i)"

definition KnownAction :: "string \<Rightarrow> bool" where
  "KnownAction action \<longleftrightarrow>
     action \<in> set [''observe'', ''exec'', ''deploy'', ''destroy'', ''lifecycle'', ''fault'', ''state'', ''admin'',
       ''peer-state'']"

datatype authz_error =
    UnknownRole string
  | NoLabScope
  | NoActionScope
  | ControllerScope
  | OperatorNamesLabs
  | UnknownOperatorAction string
  | DiagnosticOneLab
  | DiagnosticObserves
  | PeerScope
  | NoCertificate
  | NoRole
  | IncompleteScope
  | SeveralIdentities
  | NoIdentity

definition canonical :: "string list \<Rightarrow> string list" where
  "canonical xs = sort (remdups (filter (\<lambda>s. s \<noteq> []) xs))"

definition validateScope :: "string \<Rightarrow> string list \<Rightarrow> string list \<Rightarrow> authz_error option" where
  "validateScope role labs actions =
     (if role = RoleController
      then (if labs = [''*''] \<and> actions = [''*''] then None else Some ControllerScope)
      else if role = RoleOperator
      then (if ''*'' \<in> set labs then Some OperatorNamesLabs
            else (case filter (\<lambda>a. \<not> KnownAction a \<or> a = ActionPeerState) actions of
                    [] \<Rightarrow> None
                  | a # _ \<Rightarrow> Some (UnknownOperatorAction a)))
      else if role = RoleDiagnostic
      then (if length labs \<noteq> 1 \<or> hd labs = ''*'' then Some DiagnosticOneLab
            else if actions \<noteq> [ActionObserve] then Some DiagnosticObserves
            else None)
      else if role = RolePeer
      then (if labs = [''*''] \<and> actions = [ActionPeerState] then None else Some PeerScope)
      else Some (UnknownRole role))"

text \<open>\<open>url.Values\<close> is encoded with its keys in order: the actions come before the labs.\<close>

definition URIs :: "string \<Rightarrow> string list \<Rightarrow> string list \<Rightarrow> (authz_error, URL list) result" where
  "URIs role labs actions =
     (if role \<notin> set roles then Inl (UnknownRole role)
      else if canonical labs = [] then Inl NoLabScope
      else if canonical actions = [] then Inl NoActionScope
      else (case validateScope role (canonical labs) (canonical actions) of
              Some e \<Rightarrow> Inl e
            | None \<Rightarrow>
                Inr [\<lparr>url_Scheme = claimScheme, url_Host = claimHost, url_Path = claimPath @ ''/'' @ role,
                      url_RawQuery = encode_values (map (Pair ''action'') (canonical actions)
                                                    @ map (Pair ''lab'') (canonical labs))\<rparr>]))"

definition Validate_identity :: "Identity \<Rightarrow> authz_error option" where
  "Validate_identity i =
     (if id_Role i = [] then Some NoRole
      else
        let labs = canonical (sorted_list_of_fset (id_Labs i));
            actions = canonical (sorted_list_of_fset (id_Actions i))
        in if labs = [] \<or> actions = [] then Some IncompleteScope
           else validateScope (id_Role i) labs actions)"

text \<open>The certificate, as far as its identity goes: its URIs (some of them nil), the common name of
  its subject and its serial number.\<close>

record Certificate =
  cert_URIs :: "URL option list"
  cert_CommonName :: string
  cert_Serial :: string

definition claim_role :: "URL \<Rightarrow> string option" where
  "claim_role u =
     (let prefix = claimPath @ ''/''
      in if url_Scheme u \<noteq> claimScheme \<or> url_Host u \<noteq> claimHost then None
         else if length (url_Path u) \<le> length prefix \<or> take (length prefix) (url_Path u) \<noteq> prefix then None
         else Some (drop (length prefix) (url_Path u)))"

definition claim_identity :: "string \<Rightarrow> URL \<Rightarrow> (authz_error, Identity) result" where
  "claim_identity role u =
     (if role \<notin> set roles then Inl (UnknownRole role)
      else
        let out = \<lparr>id_Role = role,
                   id_Labs = fset_of_list (filter (\<lambda>s. s \<noteq> []) (query_values ''lab'' (url_RawQuery u))),
                   id_Actions = fset_of_list (filter (\<lambda>s. s \<noteq> []) (query_values ''action'' (url_RawQuery u)))\<rparr>
        in if id_Labs out = {||} \<or> id_Actions out = {||} then Inl IncompleteScope
           else (case Validate_identity out of Some e \<Rightarrow> Inl e | None \<Rightarrow> Inr out))"

fun read_claims :: "Identity option \<Rightarrow> URL option list \<Rightarrow> (authz_error, Identity option) result" where
  "read_claims found [] = Inr found"
| "read_claims found (ou # us) =
     (case (case ou of None \<Rightarrow> None | Some u \<Rightarrow> map_option (\<lambda>r. claim_identity r u) (claim_role u)) of
        None \<Rightarrow> read_claims found us
      | Some (Inl e) \<Rightarrow> Inl e
      | Some (Inr i) \<Rightarrow> if found \<noteq> None then Inl SeveralIdentities else read_claims (Some i) us)"

definition FromCertificate :: "Certificate option \<Rightarrow> (authz_error, Identity) result" where
  "FromCertificate oc =
     (case oc of
        None \<Rightarrow> Inl NoCertificate
      | Some c \<Rightarrow>
          (case read_claims None (cert_URIs c) of
             Inl e \<Rightarrow> Inl e
           | Inr None \<Rightarrow> Inl NoIdentity
           | Inr (Some i) \<Rightarrow> Inr i))"

section \<open>What an identity read from a certificate may do\<close>

lemma set_canonical [simp]: "set (canonical xs) = set xs - {[]}"
  by (auto simp: canonical_def)

lemma canonical_sorted: "sort (remdups (canonical xs)) = canonical xs"
  by (simp add: canonical_def distinct_remdups_id sort_key_id_if_sorted)

lemma canonical_canonical [simp]: "canonical (canonical xs) = canonical xs"
proof -
  have "filter (\<lambda>s. s \<noteq> []) (canonical xs) = canonical xs"
    by (rule filter_True) simp
  then show ?thesis
    unfolding canonical_def [of "canonical xs"] by (simp add: canonical_sorted)
qed

lemma canonical_of_set: "canonical (sorted_list_of_fset (fset_of_list (canonical xs))) = canonical xs"
proof -
  have "sorted_list_of_fset (fset_of_list (canonical xs)) = canonical xs"
    using sorted_list_of_set_sort_remdups [of "canonical xs"]
    by (simp add: sorted_list_of_fset.rep_eq fset_of_list.rep_eq canonical_sorted del: set_canonical)
  then show ?thesis
    by simp
qed

lemma Validate_None:
  assumes "Validate_identity i = None" "[] |\<notin>| id_Labs i" "[] |\<notin>| id_Actions i"
  shows "validateScope (id_Role i) (sorted_list_of_fset (id_Labs i)) (sorted_list_of_fset (id_Actions i)) = None"
    and "id_Role i \<in> set roles"
proof -
  have *: "canonical (sorted_list_of_fset X) = sorted_list_of_fset X" if "[] |\<notin>| X" for X :: "string fset"
  proof -
    have "filter (\<lambda>s. s \<noteq> []) (sorted_list_of_fset X) = sorted_list_of_fset X"
      using that by (auto intro!: filter_True)
    then show ?thesis
      by (simp add: canonical_def sorted_list_of_fset.rep_eq sort_key_id_if_sorted)
  qed
  show "validateScope (id_Role i) (sorted_list_of_fset (id_Labs i)) (sorted_list_of_fset (id_Actions i)) = None"
    using assms by (auto simp: Validate_identity_def * Let_def split: if_splits)
  then show "id_Role i \<in> set roles"
    by (auto simp: validateScope_def roles_def split: if_splits)
qed

definition valid_identity :: "Identity \<Rightarrow> bool" where
  "valid_identity i \<longleftrightarrow> Validate_identity i = None \<and> [] |\<notin>| id_Labs i \<and> [] |\<notin>| id_Actions i"

lemma claim_identity_valid: "claim_identity role u = Inr i \<Longrightarrow> valid_identity i"
  by (auto simp: claim_identity_def valid_identity_def Let_def fset_of_list.rep_eq
      split: if_splits option.splits)

lemma read_claims_valid:
  "\<lbrakk>read_claims found us = Inr (Some i); \<forall>j. found = Some j \<longrightarrow> valid_identity j\<rbrakk> \<Longrightarrow> valid_identity i"
  by (induction found us rule: read_claims.induct)
    (auto split: option.splits sum.splits if_splits dest: claim_identity_valid)

lemma FromCertificate_valid: "FromCertificate oc = Inr i \<Longrightarrow> valid_identity i"
  by (auto simp: FromCertificate_def split: option.splits sum.splits dest: read_claims_valid)

lemma valid_scope:
  "valid_identity i \<Longrightarrow>
     validateScope (id_Role i) (sorted_list_of_fset (id_Labs i)) (sorted_list_of_fset (id_Actions i)) = None"
  by (simp add: valid_identity_def Validate_None(1))

lemma roles_distinct [simp]:
  "RoleOperator \<noteq> RoleController" "RoleDiagnostic \<noteq> RoleController" "RoleDiagnostic \<noteq> RoleOperator"
  "RolePeer \<noteq> RoleController" "RolePeer \<noteq> RoleOperator" "RolePeer \<noteq> RoleDiagnostic"
  by (simp_all add: role_defs)

lemmas roles_distinct_sym [simp] = roles_distinct [THEN not_sym]

lemma validateScope_operator:
  "validateScope RoleOperator labs actions = None \<longleftrightarrow>
     ''*'' \<notin> set labs \<and> (\<forall>a\<in>set actions. KnownAction a \<and> a \<noteq> ActionPeerState)"
proof -
  have "filter (\<lambda>a. \<not> KnownAction a \<or> a = ActionPeerState) actions = [] \<longleftrightarrow>
      (\<forall>a\<in>set actions. KnownAction a \<and> a \<noteq> ActionPeerState)"
    by (auto simp: filter_empty_conv)
  then show ?thesis
    by (cases "filter (\<lambda>a. \<not> KnownAction a \<or> a = ActionPeerState) actions")
      (simp_all add: validateScope_def)
qed

lemma validateScope_diagnostic:
  "validateScope RoleDiagnostic labs actions = None \<longleftrightarrow>
     (\<exists>lab. lab \<noteq> ''*'' \<and> labs = [lab]) \<and> actions = [ActionObserve]"
  by (cases labs rule: remdups_adj.cases) (simp_all add: validateScope_def)

lemma validateScope_peer:
  "validateScope RolePeer labs actions = None \<longleftrightarrow> labs = [''*''] \<and> actions = [ActionPeerState]"
  by (simp add: validateScope_def)

lemma operator_confined:
  assumes "valid_identity i" "id_Role i = RoleOperator" "Allows i lab action"
  shows "lab |\<in>| id_Labs i \<and> lab \<noteq> ''*'' \<and> action |\<in>| id_Actions i \<and> action \<noteq> ActionPeerState"
proof -
  have "\<not> KnownAction ''*''"
    by (simp add: KnownAction_def)
  then show ?thesis
    using valid_scope [OF assms(1)] assms(2,3) by (auto simp: validateScope_operator Allows_def)
qed

lemma sorted_list_of_fset_single:
  assumes "sorted_list_of_fset X = [x]"
  shows "X = {|x|}"
proof -
  have "fset X = set [x]"
    by (metis assms sorted_list_of_fset_simps(1))
  then show ?thesis
    by (simp add: fset_eq_iff)
qed

lemma diagnostic_confined:
  assumes "valid_identity i" "id_Role i = RoleDiagnostic"
  shows "\<exists>lab. lab \<noteq> ''*'' \<and> id_Labs i = {|lab|} \<and> id_Actions i = {|ActionObserve|}"
  using valid_scope [OF assms(1)] assms(2)
  by (auto simp: validateScope_diagnostic dest!: sorted_list_of_fset_single)

lemma peer_confined:
  assumes "valid_identity i" "id_Role i = RolePeer"
  shows "id_Labs i = {|''*''|} \<and> id_Actions i = {|ActionPeerState|}"
  using valid_scope [OF assms(1)] assms(2)
  by (auto simp: validateScope_peer dest!: sorted_list_of_fset_single)

lemma FromCertificate_URIs:
  assumes "URIs role labs actions = Inr us"
  shows "FromCertificate (Some \<lparr>cert_URIs = map Some us, cert_CommonName = cn, cert_Serial = serial\<rparr>)
         = Inr \<lparr>id_Role = role, id_Labs = fset_of_list (canonical labs), id_Actions = fset_of_list (canonical actions)\<rparr>"
proof -
  let ?q = "encode_values (map (Pair ''action'') (canonical actions) @ map (Pair ''lab'') (canonical labs))"
  have role: "role \<in> set roles" and ne: "canonical labs \<noteq> []" "canonical actions \<noteq> []"
    and scope: "validateScope role (canonical labs) (canonical actions) = None"
    and us: "us = [\<lparr>url_Scheme = claimScheme, url_Host = claimHost, url_Path = claimPath @ ''/'' @ role,
                   url_RawQuery = ?q\<rparr>]"
    using assms by (auto simp: URIs_def split: if_splits option.splits)
  have q: "query_values ''lab'' ?q = canonical labs" "query_values ''action'' ?q = canonical actions"
    by (simp_all add: query_values_def parse_query_encode filter_map o_def)
  have f: "filter (\<lambda>s. s \<noteq> []) (canonical xs) = canonical xs" for xs
    by (rule filter_True) simp
  have "role \<noteq> []"
    using role by (auto simp: roles_def role_defs)
  moreover have "fset_of_list (canonical xs) = {||} \<longleftrightarrow> canonical xs = []" for xs
    by (metis bot_fset.rep_eq fset_inject fset_of_list.rep_eq set_empty)
  ultimately show ?thesis
    using role ne scope
    by (simp add: us FromCertificate_def claim_role_def claim_identity_def q f Let_def
        Validate_identity_def canonical_of_set del: set_canonical)
qed

text \<open>C27: The identity an issuer writes into a certificate is the identity every agent reads out of
  it: same role, same labs, same actions, with nothing dropped, added or decoded into something
  else, whatever characters the lab names contain.\<close>

theorem issued_identity_reads_back:
  assumes "URIs role labs actions = Inr us"
  shows "FromCertificate (Some \<lparr>cert_URIs = map Some us, cert_CommonName = cn, cert_Serial = serial\<rparr>)
         = Inr \<lparr>id_Role = role, id_Labs = fset_of_list (canonical labs), id_Actions = fset_of_list (canonical actions)\<rparr>"
  using assms by (rule FromCertificate_URIs)

theorem issued_identity_reads_back_witness:
  "FromCertificate (Some \<lparr>cert_URIs = map Some [\<lparr>url_Scheme = claimScheme, url_Host = claimHost,
       url_Path = claimPath @ ''/'' @ RoleOperator,
       url_RawQuery = encode_values [(''action'', ''deploy''), (''lab'', ''a b''), (''lab'', ''c'')]\<rparr>],
     cert_CommonName = ''alice'', cert_Serial = ''01''\<rparr>)
   = Inr \<lparr>id_Role = RoleOperator, id_Labs = {|''a b'', ''c''|}, id_Actions = {|''deploy''|}\<rparr>"
proof -
  have "canonical [''c'', ''a b'', ''c''] = [''a b'', ''c'']" "canonical [''deploy''] = [''deploy'']"
    by code_simp+
  moreover from this have "URIs RoleOperator [''c'', ''a b'', ''c''] [''deploy''] =
    Inr [\<lparr>url_Scheme = claimScheme, url_Host = claimHost, url_Path = claimPath @ ''/'' @ RoleOperator,
       url_RawQuery = encode_values [(''action'', ''deploy''), (''lab'', ''a b''), (''lab'', ''c'')]\<rparr>]"
    by (simp add: URIs_def roles_def validateScope_def role_defs KnownAction_def ActionPeerState_def)
  ultimately show ?thesis
    using issued_identity_reads_back [of RoleOperator "[''c'', ''a b'', ''c'']" "[''deploy'']" _ "''alice''" "''01''"]
    by simp
qed

end
