(* ===== verification/Authorization.thy ===== *)
theory Authorization
  imports Identity
begin

text \<open>
  The gate in front of every agent endpoint, \<open>internal/agent/authorization.go\<close> and the credential
  part of \<open>internal/agent/diagnostic.go\<close>: authentication by certificate and bearer token, the
  resolvers that say which lab a request is about, the decision, and the audit event.  The message
  authentication code, the runtime's inspection of a container and the committed generation of a lab
  are arguments.
\<close>

section \<open>Requests\<close>

text \<open>A decoded JSON body.  Object members keep their order and their duplicates.\<close>

datatype Json =
    JNull
  | JBool bool
  | JNumber string
  | JString string
  | JArray "Json list"
  | JObject "(string \<times> Json) list"

record tls_state =
  tls_PeerCertificates :: "Certificate list"
  tls_Verified :: bool

text \<open>\<open>hr_Body\<close> is None for a body that is missing, blank or not JSON.\<close>

record http_request =
  hr_Post :: bool
  hr_Authorization :: string
  hr_ScopeHeader :: string
  hr_TLS :: "tls_state option"
  hr_RawQuery :: string
  hr_Body :: "Json option"

record requestScope =
  sc_Lab :: string
  sc_Action :: string
  sc_Target :: string
  sc_Generation :: string
  sc_FenceGeneration :: nat

record requestPrincipal =
  rp_Identity :: Identity
  rp_Name :: string
  rp_CertificateSerial :: string
  rp_Diagnostic :: bool
  rp_Insecure :: bool

definition no_principal :: requestPrincipal where
  "no_principal = \<lparr>rp_Identity = \<lparr>id_Role = [], id_Labs = {||}, id_Actions = {||}\<rparr>, rp_Name = [],
     rp_CertificateSerial = [], rp_Diagnostic = False, rp_Insecure = False\<rparr>"

definition no_scope :: requestScope where
  "no_scope = \<lparr>sc_Lab = [], sc_Action = [], sc_Target = [], sc_Generation = [], sc_FenceGeneration = 0\<rparr>"

record Container =
  c_Absent :: bool
  c_Labels :: "(string, string) fmap"

definition c_Label :: "Container \<Rightarrow> string \<Rightarrow> string" where
  "c_Label c k = (case fmlookup (c_Labels c) k of None \<Rightarrow> [] | Some v \<Rightarrow> v)"

definition LabelManaged :: string where "LabelManaged = ''twinet.managed''"
definition LabelLab :: string where "LabelLab = ''twinet.lab''"
definition LabelFRRControl :: string where "LabelFRRControl = ''twinet.frr-control''"
definition LabelInternal :: string where "LabelInternal = ''twinet.internal''"

text \<open>What the server brings to a decision: its configuration, the runtime (None when there is
  none), and the generations it has committed.\<close>

record auth_server =
  as_Token :: string
  as_Insecure :: bool
  as_Loopback :: bool
  as_Inspect :: "(string \<Rightarrow> Container option) option"
  as_Committed :: "string \<Rightarrow> string"

type_synonym resolver = "auth_server \<Rightarrow> http_request \<Rightarrow> requestScope option"

record endpointPolicy =
  ep_Action :: string
  ep_Mutation :: bool
  ep_AllowCluster :: bool
  ep_ResolveRequest :: "resolver option"

definition alnum :: "char \<Rightarrow> bool" where
  "alnum c \<longleftrightarrow>
     (let n = of_char c :: nat
      in 48 \<le> n \<and> n \<le> 57 \<or> 65 \<le> n \<and> n \<le> 90 \<or> 97 \<le> n \<and> n \<le> 122)"

fun labNameRE :: "string \<Rightarrow> bool" where
  "labNameRE [] = False"
| "labNameRE (c # cs) = (alnum c \<and> length cs \<le> 127 \<and> list_all (\<lambda>d. alnum d \<or> d \<in> set ''_.-'') cs)"

section \<open>Diagnostic tokens\<close>

definition diagPrefix :: string where "diagPrefix = ''twdiag.''"

definition hex_lower :: "nat \<Rightarrow> char" where
  "hex_lower n = (if n < 10 then char_of (48 + n) else char_of (87 + n))"

definition hex_encode :: "string \<Rightarrow> string" where
  "hex_encode s = concat (map (\<lambda>c. [hex_lower (of_char c div 16), hex_lower (of_char c mod 16)]) s)"

fun hex_decode :: "string \<Rightarrow> string option" where
  "hex_decode [] = Some []"
| "hex_decode [_] = None"
| "hex_decode (a # b # s) =
     (case (unhex a, unhex b) of
        (Some h, Some l) \<Rightarrow> map_option ((#) (char_of (16 * h + l))) (hex_decode s)
      | _ \<Rightarrow> None)"

definition DiagnosticToken :: "(string \<Rightarrow> string \<Rightarrow> string) \<Rightarrow> string \<Rightarrow> string \<Rightarrow> string" where
  "DiagnosticToken mac secret lab =
     diagPrefix @ hex_encode lab @ ''.'' @ hex_encode (mac secret (''twinet-diagnostic-v1'' @ char_of (0::nat) # lab))"

definition diagnosticScope :: "(string \<Rightarrow> string \<Rightarrow> string) \<Rightarrow> string \<Rightarrow> string \<Rightarrow> string option" where
  "diagnosticScope mac secret tok =
     (if \<not> has_prefix tok diagPrefix then None
      else
        let body = trim_prefix diagPrefix tok
        in if CHR ''.'' \<notin> set body then None
           else (case hex_decode (takeWhile (\<lambda>c. c \<noteq> CHR ''.'') body) of
                   None \<Rightarrow> None
                 | Some lab \<Rightarrow> if tok = DiagnosticToken mac secret lab then Some lab else None))"

section \<open>Authentication\<close>

datatype auth_error =
    MissingBearer
  | NoVerifiedCertificate
  | BadIdentity authz_error
  | PeerCertificate
  | TokenScopeMismatch
  | NoSubject
  | MutualTLSRequired
  | InvalidDevelopmentBearer

definition insecureLoopbackMode :: "auth_server \<Rightarrow> bool" where
  "insecureLoopbackMode s \<longleftrightarrow> as_Insecure s \<and> as_Loopback s"

definition certificate_principal ::
  "string option \<Rightarrow> tls_state \<Rightarrow> (auth_error, requestPrincipal) result" where
  "certificate_principal diagnosticLab tls =
     (case tls_PeerCertificates tls of
        [] \<Rightarrow> Inl NoVerifiedCertificate
      | cert # _ \<Rightarrow>
          if \<not> tls_Verified tls then Inl NoVerifiedCertificate
          else
            (case FromCertificate (Some cert) of
               Inl e \<Rightarrow> Inl (BadIdentity e)
             | Inr identity \<Rightarrow>
                 if id_Role identity = RolePeer then Inl PeerCertificate
                 else
                   let diagnostic = id_Role identity = RoleDiagnostic
                   in if (case diagnosticLab of
                            None \<Rightarrow> False
                          | Some lab \<Rightarrow> \<not> diagnostic \<or> \<not> Allows identity lab ActionObserve)
                      then Inl TokenScopeMismatch
                      else if cert_CommonName cert = [] then Inl NoSubject
                      else Inr \<lparr>rp_Identity = identity, rp_Name = cert_CommonName cert,
                                rp_CertificateSerial = cert_Serial cert, rp_Diagnostic = diagnostic,
                                rp_Insecure = False\<rparr>))"

definition authenticateRequest ::
  "(string \<Rightarrow> string \<Rightarrow> string) \<Rightarrow> auth_server \<Rightarrow> http_request \<Rightarrow> (auth_error, requestPrincipal) result" where
  "authenticateRequest mac s r =
     (let fullToken = as_Token s \<noteq> [] \<and> hr_Authorization r = ''Bearer '' @ as_Token s;
          diagnosticLab = diagnosticScope mac (as_Token s) (trim_prefix ''Bearer '' (hr_Authorization r))
      in if \<not> fullToken \<and> diagnosticLab = None then Inl MissingBearer
         else
           (case hr_TLS r of
              Some tls \<Rightarrow> certificate_principal diagnosticLab tls
            | None \<Rightarrow>
                if \<not> insecureLoopbackMode s then Inl MutualTLSRequired
                else
                  (case diagnosticLab of
                     Some lab \<Rightarrow>
                       Inr \<lparr>rp_Identity = \<lparr>id_Role = RoleDiagnostic, id_Labs = {|lab|}, id_Actions = {|ActionObserve|}\<rparr>,
                            rp_Name = ''insecure-diagnostic'', rp_CertificateSerial = [], rp_Diagnostic = True,
                            rp_Insecure = True\<rparr>
                   | None \<Rightarrow>
                       if \<not> fullToken then Inl InvalidDevelopmentBearer
                       else
                         Inr \<lparr>rp_Identity = \<lparr>id_Role = RoleController, id_Labs = {|''*''|}, id_Actions = {|''*''|}\<rparr>,
                              rp_Name = ''insecure-loopback'', rp_CertificateSerial = [], rp_Diagnostic = False,
                              rp_Insecure = True\<rparr>)))"

text \<open>\<open>onlyLab\<close> ranges over a map; where there is more than one named lab the one returned is not
  determined.  Its argument is a diagnostic identity, which has one lab, so taking the least
  is exact there.\<close>

definition onlyLab :: "Identity \<Rightarrow> string" where
  "onlyLab i = (case filter (\<lambda>lab. lab \<noteq> ''*'') (sorted_list_of_fset (id_Labs i)) of [] \<Rightarrow> [] | lab # _ \<Rightarrow> lab)"

section \<open>Which lab a request is about\<close>

definition requestJSONObject :: "http_request \<Rightarrow> (string \<Rightarrow> Json option) option" where
  "requestJSONObject r =
     (case hr_Body r of
        Some (JObject kvs) \<Rightarrow> Some (map_of (rev kvs))
      | Some JNull \<Rightarrow> Some (\<lambda>_. None)
      | _ \<Rightarrow> None)"

definition jsonString :: "Json option \<Rightarrow> string" where
  "jsonString raw = (case raw of Some (JString v) \<Rightarrow> trim_space v | _ \<Rightarrow> [])"

text \<open>Decoding into a struct field: a member whose key is the field's name in any case sets it, the
  last one winning; null leaves it alone and a value of another type is an error.  The field
  names decoded here have no letter that a character outside ASCII folds to.\<close>

fun struct_string :: "string \<Rightarrow> string \<Rightarrow> (string \<times> Json) list \<Rightarrow> string option" where
  "struct_string name cur [] = Some cur"
| "struct_string name cur ((k, v) # kvs) =
     (if to_lower k = name
      then (case v of
              JString x \<Rightarrow> struct_string name x kvs
            | JNull \<Rightarrow> struct_string name cur kvs
            | _ \<Rightarrow> None)
      else struct_string name cur kvs)"

definition uint64_literal :: "string \<Rightarrow> nat option" where
  "uint64_literal s =
     (if s \<noteq> [] \<and> list_all (\<lambda>c. 48 \<le> (of_char c :: nat) \<and> (of_char c :: nat) \<le> 57) s
         \<and> foldl (\<lambda>n c. 10 * n + (of_char c - 48)) 0 s < (2::nat) ^ 64
      then Some (foldl (\<lambda>n c. 10 * n + (of_char c - 48)) 0 s)
      else None)"

fun struct_uint64 :: "string \<Rightarrow> nat \<Rightarrow> (string \<times> Json) list \<Rightarrow> nat option" where
  "struct_uint64 name cur [] = Some cur"
| "struct_uint64 name cur ((k, v) # kvs) =
     (if to_lower k = name
      then (case v of
              JNumber x \<Rightarrow> (case uint64_literal x of None \<Rightarrow> None | Some n \<Rightarrow> struct_uint64 name n kvs)
            | JNull \<Rightarrow> struct_uint64 name cur kvs
            | _ \<Rightarrow> None)
      else struct_uint64 name cur kvs)"

definition decode_string :: "string \<Rightarrow> Json \<Rightarrow> string option" where
  "decode_string name j =
     (case j of JObject kvs \<Rightarrow> struct_string name [] kvs | JNull \<Rightarrow> Some [] | _ \<Rightarrow> None)"

definition jsonFenceGeneration :: "Json option \<Rightarrow> nat" where
  "jsonFenceGeneration raw =
     (case raw of
        Some (JObject kvs) \<Rightarrow> (case struct_uint64 ''generation'' 0 kvs of None \<Rightarrow> 0 | Some n \<Rightarrow> n)
      | _ \<Rightarrow> 0)"

definition query_get :: "string \<Rightarrow> http_request \<Rightarrow> string" where
  "query_get key r = (case query_values key (hr_RawQuery r) of [] \<Rightarrow> [] | v # _ \<Rightarrow> v)"

definition isInternalControlContainer :: "Container \<Rightarrow> bool" where
  "isInternalControlContainer c \<longleftrightarrow> c_Label c LabelFRRControl = ''true'' \<or> c_Label c LabelInternal = ''true''"

definition containerScope :: "auth_server \<Rightarrow> string \<Rightarrow> string \<Rightarrow> string \<Rightarrow> nat \<Rightarrow> requestScope option" where
  "containerScope s action container generation fence =
     (if container = [] then None
      else (case as_Inspect s of
              None \<Rightarrow> None
            | Some inspect \<Rightarrow>
                (case inspect container of
                   None \<Rightarrow> None
                 | Some c \<Rightarrow>
                     if c_Absent c \<or> c_Label c LabelManaged \<noteq> ''true'' then None
                     else if isInternalControlContainer c then None
                     else if c_Label c LabelLab = [] then None
                     else Some \<lparr>sc_Lab = c_Label c LabelLab, sc_Action = action, sc_Target = container,
                                sc_Generation = generation, sc_FenceGeneration = fence\<rparr>)))"

definition scopeFromQuery :: "string \<Rightarrow> bool \<Rightarrow> resolver" where
  "scopeFromQuery action allowCluster = (\<lambda>_ r.
     let lab = trim_space (query_get ''lab'' r)
     in if lab = [] \<and> \<not> allowCluster then None
        else Some (no_scope\<lparr>sc_Lab := lab, sc_Action := action\<rparr>))"

definition scopeCluster :: "string \<Rightarrow> resolver" where
  "scopeCluster action = (\<lambda>_ _. Some (no_scope\<lparr>sc_Lab := ''*'', sc_Action := action\<rparr>))"

definition scopeFromJSONLab :: "string \<Rightarrow> resolver" where
  "scopeFromJSONLab action = (\<lambda>_ r.
     case requestJSONObject r of
       None \<Rightarrow> None
     | Some vs \<Rightarrow>
         let lab = jsonString (vs ''lab'')
         in if lab = [] then None
            else Some \<lparr>sc_Lab = lab, sc_Action = action, sc_Target = lab,
                       sc_Generation = jsonString (vs ''generation''),
                       sc_FenceGeneration = jsonFenceGeneration (vs ''fence'')\<rparr>)"

definition scopeForApply :: resolver where
  "scopeForApply = (\<lambda>_ r.
     case requestJSONObject r of
       None \<Rightarrow> None
     | Some vs \<Rightarrow>
         let lab = jsonString (vs ''lab'');
             lab = (if lab = []
                    then (case vs ''topology'' of
                            None \<Rightarrow> lab
                          | Some t \<Rightarrow> (case decode_string ''lab'' t of None \<Rightarrow> lab | Some l \<Rightarrow> l))
                    else lab)
         in if lab = [] then None
            else Some \<lparr>sc_Lab = lab, sc_Action = [], sc_Target = lab,
                       sc_Generation = jsonString (vs ''generation''),
                       sc_FenceGeneration = jsonFenceGeneration (vs ''fence'')\<rparr>)"

definition scopeForContainer :: "string \<Rightarrow> resolver" where
  "scopeForContainer action = (\<lambda>s r.
     case requestJSONObject r of
       None \<Rightarrow> None
     | Some vs \<Rightarrow>
         containerScope s action (jsonString (vs ''container'')) (jsonString (vs ''generation''))
           (jsonFenceGeneration (vs ''fence'')))"

fun batch_scope :: "auth_server \<Rightarrow> string \<Rightarrow> requestScope option \<Rightarrow> string list \<Rightarrow> requestScope option" where
  "batch_scope s action scope [] = scope"
| "batch_scope s action scope (container # rest) =
     (case containerScope s action container [] 0 of
        None \<Rightarrow> None
      | Some current \<Rightarrow>
          (case scope of
             None \<Rightarrow> batch_scope s action (Some current) rest
           | Some sc \<Rightarrow> if sc_Lab current \<noteq> sc_Lab sc then None else batch_scope s action (Some sc) rest))"

definition scopeForExecBatch :: "string \<Rightarrow> resolver" where
  "scopeForExecBatch action = (\<lambda>s r.
     case requestJSONObject r of
       None \<Rightarrow> None
     | Some vs \<Rightarrow>
         (case vs ''requests'' of
            Some (JArray js) \<Rightarrow>
              (if js = [] \<or> list_ex (\<lambda>j. decode_string ''container'' j = None) js then None
               else batch_scope s action None (List.map_filter (decode_string ''container'') js))
          | _ \<Rightarrow> None))"

definition scopeForAttach :: resolver where
  "scopeForAttach = (\<lambda>s r. containerScope s ''exec'' (trim_space (query_get ''container'' r)) [] 0)"

section \<open>The decision\<close>

datatype verdict =
    Denied (denied_status: nat) (denied_scope: requestScope) (denied_principal: requestPrincipal) (denied_detail: string)
  | Admitted requestPrincipal requestScope http_request

definition registrable :: "endpointPolicy \<Rightarrow> bool" where
  "registrable p \<longleftrightarrow> KnownAction (ep_Action p) \<and> ep_Action p \<noteq> ActionPeerState \<and> ep_ResolveRequest p \<noteq> None"

definition scope_lab :: "endpointPolicy \<Rightarrow> requestPrincipal \<Rightarrow> requestScope \<Rightarrow> string" where
  "scope_lab p who scope =
     (if sc_Lab scope = []
      then (if rp_Diagnostic who then onlyLab (rp_Identity who) else if ep_AllowCluster p then ''*'' else [])
      else sc_Lab scope)"

definition decide ::
  "(string \<Rightarrow> string \<Rightarrow> string) \<Rightarrow> auth_server \<Rightarrow> endpointPolicy \<Rightarrow> http_request \<Rightarrow> verdict" where
  "decide mac s p r0 =
     (let r = r0\<lparr>hr_ScopeHeader := []\<rparr> in
      case authenticateRequest mac s r of
        Inl e \<Rightarrow>
          Denied (if e = PeerCertificate then 403 else 401) (no_scope\<lparr>sc_Action := ep_Action p\<rparr>) no_principal
            ''authentication refused''
      | Inr who \<Rightarrow>
          (case (case ep_ResolveRequest p of None \<Rightarrow> None | Some f \<Rightarrow> f s r) of
             None \<Rightarrow>
               Denied 400 (no_scope\<lparr>sc_Action := ep_Action p\<rparr>) who ''request has no valid lab/action scope''
           | Some sc0 \<Rightarrow>
               let lab = scope_lab p who sc0;
                   sc = sc0\<lparr>sc_Action := ep_Action p, sc_Lab := lab\<rparr>
               in if lab = [] \<or> (lab = ''*'' \<and> \<not> ep_AllowCluster p) \<or> (lab \<noteq> ''*'' \<and> \<not> labNameRE lab)
                  then Denied 400 sc who ''request has no valid lab scope''
                  else if \<not> Allows (rp_Identity who) lab (ep_Action p)
                  then Denied 403 sc who ''certificate scope denied request''
                  else if rp_Diagnostic who
                  then (if ep_Action p \<noteq> ActionObserve \<or> lab = ''*'' \<or> \<not> Allows (rp_Identity who) lab ActionObserve
                        then Denied 403 sc who ''diagnostic certificate attempted a non-observe action''
                        else Admitted who sc (r\<lparr>hr_ScopeHeader := lab\<rparr>))
                  else Admitted who sc r))"

record audit_event =
  ev_Lab :: string
  ev_Generation :: string
  ev_FenceGeneration :: nat
  ev_Identity :: string
  ev_CertificateSerial :: string
  ev_Target :: string
  ev_Action :: string
  ev_Result :: string
  ev_Detail :: string

definition recordAuthorizationAudit ::
  "auth_server \<Rightarrow> requestScope \<Rightarrow> requestPrincipal \<Rightarrow> string \<Rightarrow> string \<Rightarrow> audit_event" where
  "recordAuthorizationAudit s sc who res detail =
     (let generation = (if sc_Generation sc = [] \<and> sc_Lab sc \<noteq> [] \<and> sc_Lab sc \<noteq> ''*''
                        then as_Committed s (sc_Lab sc) else sc_Generation sc);
          role = id_Role (rp_Identity who);
          identity = (if role \<noteq> [] \<and> rp_Name who \<noteq> [] then role @ '':'' @ rp_Name who else role);
          identity = (if rp_Insecure who then ''development:'' @ identity else identity)
      in \<lparr>ev_Lab = sc_Lab sc, ev_Generation = generation, ev_FenceGeneration = sc_FenceGeneration sc,
          ev_Identity = identity, ev_CertificateSerial = rp_CertificateSerial who, ev_Target = sc_Target sc,
          ev_Action = sc_Action sc, ev_Result = res, ev_Detail = detail\<rparr>)"

text \<open>A handler returns the status it wrote first, 0 when it wrote none.\<close>

type_synonym auth_handler = "requestPrincipal \<Rightarrow> requestScope \<Rightarrow> http_request \<Rightarrow> nat"

definition authorize ::
  "(string \<Rightarrow> string \<Rightarrow> string) \<Rightarrow> auth_server \<Rightarrow> endpointPolicy \<Rightarrow> auth_handler \<Rightarrow> http_request
     \<Rightarrow> nat \<times> audit_event list" where
  "authorize mac s p h r =
     (case decide mac s p r of
        Denied status sc who detail \<Rightarrow>
          (status, if ep_Mutation p then [recordAuthorizationAudit s sc who ''denied'' detail] else [])
      | Admitted who sc r' \<Rightarrow>
          let status = h who sc r'
          in (status,
              if \<not> ep_Mutation p then []
              else [recordAuthorizationAudit s sc who (if 400 \<le> status then ''error'' else ''success'') []]))"

section \<open>The routes\<close>

definition policy :: "string \<Rightarrow> bool \<Rightarrow> bool \<Rightarrow> resolver \<Rightarrow> endpointPolicy" where
  "policy action mutation allowCluster f =
     \<lparr>ep_Action = action, ep_Mutation = mutation, ep_AllowCluster = allowCluster, ep_ResolveRequest = Some f\<rparr>"

definition scopeSweep :: resolver where
  "scopeSweep = (\<lambda>_ _. Some (no_scope\<lparr>sc_Action := ''admin'', sc_Target := ''overlays''\<rparr>))"

definition routes :: "(string \<times> endpointPolicy) list" where
  "routes =
    [(''GET /metrics'', policy ''observe'' False True (scopeCluster ''observe'')),
     (''GET /v1/status'', policy ''observe'' False True (scopeFromQuery ''observe'' True)),
     (''POST /v1/plan'', policy ''deploy'' False False (scopeFromJSONLab ''deploy'')),
     (''POST /v1/plan/verify'', policy ''deploy'' False False (scopeFromJSONLab ''deploy'')),
     (''GET /v1/containers'', policy ''observe'' False True (scopeFromQuery ''observe'' True)),
     (''GET /v1/controls'', policy ''observe'' False True (scopeFromQuery ''observe'' True)),
     (''POST /v1/controls/reconcile'', policy ''admin'' True False (scopeFromJSONLab ''admin'')),
     (''POST /v1/reconcile'', policy ''admin'' True False (scopeFromJSONLab ''admin'')),
     (''GET /v1/events'', policy ''observe'' False True (scopeFromQuery ''observe'' True)),
     (''POST /v1/apply'', policy ''deploy'' True False scopeForApply),
     (''POST /v1/destroy'', policy ''destroy'' True False (scopeFromJSONLab ''destroy'')),
     (''POST /v1/lease/acquire'', policy ''deploy'' True False (scopeFromJSONLab ''deploy'')),
     (''POST /v1/lease/renew'', policy ''deploy'' True False (scopeFromJSONLab ''deploy'')),
     (''POST /v1/lease/release'', policy ''deploy'' True False (scopeFromJSONLab ''deploy'')),
     (''POST /v1/overlay/reserve'', policy ''deploy'' True False (scopeFromJSONLab ''deploy'')),
     (''POST /v1/ephemeral'', policy ''deploy'' True False (scopeFromJSONLab ''deploy'')),
     (''GET /v1/recovery'', policy ''observe'' False True (scopeFromQuery ''observe'' False)),
     (''POST /v1/recover'', policy ''deploy'' True False (scopeFromJSONLab ''deploy'')),
     (''POST /v1/exec'', policy ''exec'' True False (scopeForContainer ''exec'')),
     (''POST /v1/exec/batch'', policy ''exec'' True False (scopeForExecBatch ''exec'')),
     (''POST /v1/hold'', policy ''lifecycle'' True False (scopeFromJSONLab ''lifecycle'')),
     (''POST /v1/exempt'', policy ''fault'' True False (scopeFromJSONLab ''fault'')),
     (''POST /v1/lifecycle'', policy ''lifecycle'' True False (scopeForContainer ''lifecycle'')),
     (''POST /v1/reshape'', policy ''fault'' True False (scopeForContainer ''fault'')),
     (''POST /v1/mpls-label-space'', policy ''fault'' True False (scopeForContainer ''fault'')),
     (''GET /v1/images'', policy ''observe'' False True (scopeCluster ''observe'')),
     (''GET /v1/attach'', policy ''exec'' True False scopeForAttach),
     (''GET /v1/underlay'', policy ''observe'' False True (scopeCluster ''observe'')),
     (''GET /v1/state'', policy ''state'' True False (scopeFromQuery ''state'' False)),
     (''POST /v1/state'', policy ''state'' True False (scopeFromJSONLab ''state'')),
     (''POST /v1/state/verify'', policy ''state'' True False (scopeFromJSONLab ''state'')),
     (''POST /v1/sweep'', policy ''admin'' True True scopeSweep)]"

text \<open>The peer routes have a gate of their own: only a node certificate passes it.\<close>

definition peerRequestScope :: "http_request \<Rightarrow> requestScope option" where
  "peerRequestScope r =
     (case (if hr_Post r then map_option (\<lambda>vs. jsonString (vs ''lab'')) (requestJSONObject r)
            else Some (trim_space (query_get ''lab'' r))) of
        None \<Rightarrow> None
      | Some lab \<Rightarrow>
          if \<not> labNameRE lab then None
          else Some (no_scope\<lparr>sc_Lab := lab, sc_Action := ActionPeerState, sc_Target := lab\<rparr>))"

definition peer_decide :: "http_request \<Rightarrow> (nat, requestPrincipal \<times> requestScope) result" where
  "peer_decide r =
     (case hr_TLS r of
        None \<Rightarrow> Inl 401
      | Some tls \<Rightarrow>
          (case tls_PeerCertificates tls of
             [] \<Rightarrow> Inl 401
           | cert # _ \<Rightarrow>
               if \<not> tls_Verified tls then Inl 401
               else
                 (case FromCertificate (Some cert) of
                    Inl _ \<Rightarrow> Inl 403
                  | Inr i \<Rightarrow>
                      if id_Role i \<noteq> RolePeer \<or> \<not> Allows i ''*'' ActionPeerState then Inl 403
                      else if cert_CommonName cert = [] then Inl 403
                      else
                        (case peerRequestScope r of
                           None \<Rightarrow> Inl 400
                         | Some sc \<Rightarrow>
                             Inr (\<lparr>rp_Identity = i, rp_Name = cert_CommonName cert,
                                   rp_CertificateSerial = cert_Serial cert, rp_Diagnostic = False,
                                   rp_Insecure = False\<rparr>, sc)))))"

definition peerAuth :: "auth_server \<Rightarrow> auth_handler \<Rightarrow> http_request \<Rightarrow> nat \<times> audit_event list" where
  "peerAuth s h r =
     (case peer_decide r of
        Inl status \<Rightarrow> (status, [])
      | Inr (who, sc) \<Rightarrow>
          let status = h who sc r
          in (status,
              if \<not> hr_Post r then []
              else [recordAuthorizationAudit s sc who (if 400 \<le> status then ''error'' else ''success'') []]))"

section \<open>What the gate guarantees\<close>

lemma routes_registrable: "list_all (registrable \<circ> snd) routes"
  by (simp add: routes_def policy_def registrable_def KnownAction_def ActionPeerState_def)

lemma route_registrable: "map_of routes path = Some p \<Longrightarrow> registrable p"
  using routes_registrable by (fastforce simp: list_all_iff dest: map_of_SomeD)

subsection \<open>Tokens\<close>

lemma unhex_hex_lower: "n < 16 \<Longrightarrow> unhex (hex_lower n) = Some n"
  by (auto simp: unhex_def hex_lower_def Let_def of_char_of)

lemma byte_nibbles: "(of_char c :: nat) div 16 < 16" "(of_char c :: nat) mod 16 < 16"
  using nat_of_char_less_256 [of c] by (auto simp: less_mult_imp_div_less)

lemma hex_decode_encode [simp]: "hex_decode (hex_encode s) = Some s"
  by (induction s) (simp_all add: hex_encode_def unhex_hex_lower byte_nibbles mult_div_mod_eq)

lemma hex_encode_no_dot: "CHR ''.'' \<notin> set (hex_encode s)"
proof -
  have "hex_lower n \<noteq> CHR ''.''" if "n < 16" for n
    using unhex_hex_lower [OF that] by (auto simp: unhex_def)
  then show ?thesis
    by (induction s) (auto simp: hex_encode_def byte_nibbles dest: sym)
qed

lemma diagnosticScope_own: "diagnosticScope mac secret (DiagnosticToken mac secret lab) = Some lab"
proof -
  let ?tail = "hex_encode (mac secret (''twinet-diagnostic-v1'' @ char_of (0::nat) # lab))"
  have "takeWhile (\<lambda>c. c \<noteq> CHR ''.'') (hex_encode lab @ CHR ''.'' # ?tail) = hex_encode lab"
    using hex_encode_no_dot [of lab] by (auto simp: takeWhile_append)
  then show ?thesis
    by (simp add: diagnosticScope_def has_prefix_def trim_prefix_def DiagnosticToken_def)
qed

text \<open>A diagnostic token is good for a lab exactly when it is the token derived from the cluster
  secret for that lab: nothing else is accepted, and its scope cannot be edited.\<close>

theorem diagnosticScope_iff:
  "diagnosticScope mac secret tok = Some lab \<longleftrightarrow> tok = DiagnosticToken mac secret lab"
  by (auto simp: diagnosticScope_own) (auto simp: diagnosticScope_def Let_def split: if_splits option.splits)

subsection \<open>Who is admitted\<close>

text \<open>The principals authentication produces: a certificate's own identity, never a peer's, or one of
  the two identities of the insecure loopback mode.\<close>

lemma certificate_principal_valid:
  assumes "certificate_principal dl tls = Inr who"
  shows "valid_identity (rp_Identity who)" "id_Role (rp_Identity who) \<noteq> RolePeer"
    "rp_Diagnostic who \<longleftrightarrow> id_Role (rp_Identity who) = RoleDiagnostic"
  using assms
  by (auto simp: certificate_principal_def Let_def split: list.splits if_splits sum.splits option.splits
      dest: FromCertificate_valid)

lemma authenticated_roles:
  assumes "authenticateRequest mac s r = Inr who"
  shows "id_Role (rp_Identity who) \<noteq> RolePeer"
    and "rp_Diagnostic who \<longleftrightarrow> id_Role (rp_Identity who) = RoleDiagnostic"
    and "hr_TLS r \<noteq> None \<or> id_Role (rp_Identity who) = RoleOperator \<Longrightarrow> valid_identity (rp_Identity who)"
  using assms
  by (auto simp: authenticateRequest_def Let_def split: if_splits option.splits
      dest: certificate_principal_valid)

lemma authenticated_insecure:
  "\<lbrakk>authenticateRequest mac s r = Inr who; hr_TLS r = None\<rbrakk> \<Longrightarrow> insecureLoopbackMode s"
  by (auto simp: authenticateRequest_def Let_def split: if_splits)

lemma decide_Admitted:
  assumes "decide mac s p r = Admitted who sc r'"
  shows "authenticateRequest mac s (r\<lparr>hr_ScopeHeader := []\<rparr>) = Inr who"
    and "Allows (rp_Identity who) (sc_Lab sc) (ep_Action p)"
    and "sc_Action sc = ep_Action p"
    and "sc_Lab sc = ''*'' \<and> ep_AllowCluster p \<or> labNameRE (sc_Lab sc)"
    and "rp_Diagnostic who \<Longrightarrow> ep_Action p = ActionObserve \<and> sc_Lab sc \<noteq> ''*''"
    and "hr_ScopeHeader r' = (if rp_Diagnostic who then sc_Lab sc else [])"
    and "\<exists>f sc0. ep_ResolveRequest p = Some f \<and> f s (r\<lparr>hr_ScopeHeader := []\<rparr>) = Some sc0 \<and> sc_Lab sc = scope_lab p who sc0"
  using assms by (auto simp: decide_def Let_def split: sum.splits option.splits if_splits)


lemma audit_fields [simp]:
  "ev_Action (recordAuthorizationAudit s sc who res d) = sc_Action sc"
  "ev_Result (recordAuthorizationAudit s sc who res d) = res"
  by (simp_all add: recordAuthorizationAudit_def Let_def)

text \<open>Every request to a mutating route leaves exactly one audit event, refused or not; the event
  is ''denied'' exactly when the handler was not run, and carries the role and the route's action.\<close>

theorem mutations_are_audited:
  assumes "map_of routes path = Some p" "ep_Mutation p"
  shows "\<exists>ev. snd (authorize mac s p h r) = [ev] \<and> ev_Action ev = ep_Action p
    \<and> (ev_Result ev = ''denied'' \<longleftrightarrow> (\<exists>st sc who d. decide mac s p r = Denied st sc who d))
    \<and> (ev_Result ev = ''success'' \<longrightarrow> fst (authorize mac s p h r) < 400)"
proof (cases "decide mac s p r")
  case (Denied st sc who d)
  moreover have "sc_Action sc = ep_Action p"
    using Denied by (auto simp: decide_def Let_def split: sum.splits option.splits if_splits)
  ultimately show ?thesis
    using assms(2) by (simp add: authorize_def)
next
  case (Admitted who sc r')
  then show ?thesis
    using assms(2) decide_Admitted(3) [OF Admitted]
    by (auto simp: authorize_def Let_def)
qed

subsection \<open>Which lab the handler acts on\<close>

lemma struct_string_skip:
  "filter (\<lambda>kv. to_lower (fst kv) = name) kvs = [] \<Longrightarrow> struct_string name cur kvs = Some cur"
  by (induction name cur kvs rule: struct_string.induct) (auto split: if_splits)

lemma struct_string_only:
  "filter (\<lambda>kv. to_lower (fst kv) = name) kvs = [(k, JString v)] \<Longrightarrow> struct_string name cur kvs = Some v"
  by (induction name cur kvs rule: struct_string.induct) (auto simp: struct_string_skip split: if_splits)

lemma map_of_only:
  assumes "filter (\<lambda>kv. to_lower (fst kv) = name) kvs = [(k, v)]" "to_lower name = name"
  shows "map_of (rev kvs) name = (if k = name then Some v else None)"
proof -
  have eq: "{kv \<in> set kvs. to_lower (fst kv) = name} = {(k, v)}"
    using arg_cong [OF assms(1), of set] by simp
  then have mem: "(k, v) \<in> set kvs"
    by blast
  have only: "(k', v') = (k, v)" if "(k', v') \<in> set kvs" "to_lower k' = name" for k' v'
  proof -
    have "(k', v') \<in> {kv \<in> set kvs. to_lower (fst kv) = name}"
      using that by simp
    then show ?thesis
      unfolding eq by (rule singletonD)
  qed
  show ?thesis
  proof (cases "map_of (rev kvs) name")
    case None
    then show ?thesis
      using mem by (auto simp: map_of_eq_None_iff intro: rev_image_eqI)
  next
    case (Some w)
    then show ?thesis
      using only [of name w] assms(2) map_of_SomeD [OF Some] by simp
  qed
qed

text \<open>Where a body has only one member that a decoder could take for the lab, the lab a request
  was authorized for and the lab its handler decodes are the same up to surrounding space.\<close>

theorem authorized_lab_is_decoded_lab:
  assumes "decide mac s (policy a m False (scopeFromJSONLab a)) r = Admitted who sc r'"
    and "hr_Body r = Some (JObject kvs)"
    and "length (filter (\<lambda>kv. to_lower (fst kv) = ''lab'') kvs) = 1"
  shows "\<exists>lab. decode_string ''lab'' (JObject kvs) = Some lab \<and> trim_space lab = sc_Lab sc"
proof -
  obtain k v where kv: "filter (\<lambda>kv. to_lower (fst kv) = ''lab'') kvs = [(k, v)]"
    using assms(3) by (auto simp: length_Suc_conv)
  have low: "to_lower ''lab'' = ''lab''"
    by code_simp
  obtain sc0 where "scopeFromJSONLab a s (r\<lparr>hr_ScopeHeader := []\<rparr>) = Some sc0"
    and lab: "sc_Lab sc = scope_lab (policy a m False (scopeFromJSONLab a)) who sc0"
    using decide_Admitted(7) [OF assms(1)] by (auto simp: policy_def)
  then have ne: "jsonString (map_of (rev kvs) ''lab'') \<noteq> []" and "sc_Lab sc0 = jsonString (map_of (rev kvs) ''lab'')"
    using assms(2) by (auto simp: scopeFromJSONLab_def requestJSONObject_def Let_def split: if_splits)
  then have sc: "sc_Lab sc = jsonString (map_of (rev kvs) ''lab'')"
    using lab by (simp add: scope_lab_def)
  obtain x where "k = ''lab''" "v = JString x"
    using ne unfolding map_of_only [OF kv low]
    by (cases v) (auto simp: jsonString_def split: if_splits)
  then show ?thesis
    using sc kv by (simp add: map_of_only [OF kv low] jsonString_def decode_string_def struct_string_only)
qed

subsection \<open>Concrete requests\<close>

definition example_server :: auth_server where
  "example_server = \<lparr>as_Token = ''t'', as_Insecure = False, as_Loopback = False, as_Inspect = None, as_Committed = (\<lambda>_. [])\<rparr>"

definition example_certificate :: Certificate where
  "example_certificate = \<lparr>cert_URIs = [Some \<lparr>url_Scheme = claimScheme, url_Host = claimHost,
       url_Path = claimPath @ ''/'' @ RoleOperator,
       url_RawQuery = encode_values [(''action'', ''destroy''), (''lab'', ''mine'')]\<rparr>],
     cert_CommonName = ''alice'', cert_Serial = ''01''\<rparr>"

definition example_identity :: Identity where
  "example_identity = \<lparr>id_Role = RoleOperator, id_Labs = {|''mine''|}, id_Actions = {|''destroy''|}\<rparr>"

definition example_request :: "(string \<times> Json) list \<Rightarrow> http_request" where
  "example_request kvs = \<lparr>hr_Post = True, hr_Authorization = ''Bearer t'', hr_ScopeHeader = ''victim'',
     hr_TLS = Some \<lparr>tls_PeerCertificates = [example_certificate], tls_Verified = True\<rparr>, hr_RawQuery = [],
     hr_Body = Some (JObject kvs)\<rparr>"

definition example_policy :: endpointPolicy where
  "example_policy = policy ''destroy'' True False (scopeFromJSONLab ''destroy'')"

lemma example_route: "map_of routes ''POST /v1/destroy'' = Some example_policy"
  by (simp add: routes_def example_policy_def)

lemma example_FromCertificate: "FromCertificate (Some example_certificate) = Inr example_identity"
proof -
  have "canonical [''mine''] = [''mine'']" "canonical [''destroy''] = [''destroy'']"
    by code_simp+
  moreover from this have "URIs RoleOperator [''mine''] [''destroy''] =
    Inr [\<lparr>url_Scheme = claimScheme, url_Host = claimHost, url_Path = claimPath @ ''/'' @ RoleOperator,
       url_RawQuery = encode_values [(''action'', ''destroy''), (''lab'', ''mine'')]\<rparr>]"
    by (simp add: URIs_def roles_def validateScope_def role_defs KnownAction_def ActionPeerState_def)
  ultimately show ?thesis
    using FromCertificate_URIs [of RoleOperator "[''mine'']" "[''destroy'']" _ "''alice''" "''01''"]
    by (simp add: example_certificate_def example_identity_def)
qed

lemma example_trim: "trim_space ''mine'' = ''mine''"
  by (rule trim_space_id [of "CHR ''m''" "CHR ''e''" _ _ "''min''"]) simp_all

definition example_principal :: requestPrincipal where
  "example_principal = \<lparr>rp_Identity = example_identity, rp_Name = ''alice'', rp_CertificateSerial = ''01'',
     rp_Diagnostic = False, rp_Insecure = False\<rparr>"

lemma example_authenticate:
  "authenticateRequest mac example_server (example_request kvs\<lparr>hr_ScopeHeader := []\<rparr>) = Inr example_principal"
proof -
  have "diagnosticScope mac ''t'' ''t'' = None"
    by (simp add: diagnosticScope_def has_prefix_def diagPrefix_def)
  then show ?thesis
    by (simp add: authenticateRequest_def certificate_principal_def example_server_def example_request_def trim_prefix_def
        example_FromCertificate example_principal_def example_identity_def Let_def)
      (simp add: example_certificate_def)
qed

lemma example_decide:
  assumes "jsonString (map_of (rev kvs) ''lab'') = ''mine''"
  shows "\<exists>sc. decide mac example_server example_policy (example_request kvs)
      = Admitted example_principal sc (example_request kvs\<lparr>hr_ScopeHeader := []\<rparr>) \<and> sc_Lab sc = ''mine''"
proof -
  have "hr_Body (example_request kvs\<lparr>hr_ScopeHeader := []\<rparr>) = Some (JObject kvs)"
    by (simp add: example_request_def)
  moreover have "Allows example_identity ''mine'' ''destroy''" "labNameRE ''mine''"
    by (simp_all add: Allows_def example_identity_def role_defs alnum_def)
  ultimately show ?thesis
    using assms
    by (simp add: decide_def example_authenticate example_policy_def policy_def scopeFromJSONLab_def requestJSONObject_def
        scope_lab_def Let_def)
      (simp add: example_principal_def)
qed

definition plain_body :: "(string \<times> Json) list" where
  "plain_body = [(''lab'', JString ''mine'')]"

definition folded_body :: "(string \<times> Json) list" where
  "folded_body = [(''lab'', JString ''mine''), (''LAB'', JString ''victim'')]"

lemma plain_body_lab: "jsonString (map_of (rev plain_body) ''lab'') = ''mine''"
  by (simp add: plain_body_def jsonString_def example_trim)

lemma folded_body_lab: "jsonString (map_of (rev folded_body) ''lab'') = ''mine''"
  by (simp add: folded_body_def jsonString_def example_trim)


theorem mutations_are_audited_witness:
  "\<exists>ev. snd (authorize (\<lambda>_ _. []) example_server example_policy (\<lambda>_ _ _. 200) (example_request plain_body)) = [ev]
     \<and> ev_Action ev = ''destroy''"
  using mutations_are_audited [OF example_route, of "\<lambda>_ _. []" example_server "\<lambda>_ _ _. 200" "example_request plain_body"]
  by (auto simp: example_policy_def policy_def)

theorem authorized_lab_is_decoded_lab_witness:
  "decode_string ''lab'' (JObject plain_body) = Some ''mine''"
proof -
  obtain sc where d: "decide (\<lambda>_ _. []) example_server (policy ''destroy'' True False (scopeFromJSONLab ''destroy''))
      (example_request plain_body) = Admitted example_principal sc (example_request plain_body\<lparr>hr_ScopeHeader := []\<rparr>)"
    using example_decide [OF plain_body_lab] unfolding example_policy_def by blast
  have "hr_Body (example_request plain_body) = Some (JObject plain_body)"
    and "length (filter (\<lambda>kv. to_lower (fst kv) = ''lab'') plain_body) = 1"
    and "decode_string ''lab'' (JObject plain_body) = Some ''mine''"
    by (simp add: example_request_def, code_simp, code_simp)
  then show ?thesis
    using authorized_lab_is_decoded_lab [OF d] by simp
qed


subsection \<open>Peers\<close>

lemma peer_decide_roles:
  assumes "peer_decide r = Inr (who, sc)"
  shows "id_Role (rp_Identity who) = RolePeer" "labNameRE (sc_Lab sc)" "sc_Action sc = ActionPeerState"
  using assms
  by (auto simp: peer_decide_def peerRequestScope_def no_scope_def
      split: option.splits list.splits if_splits sum.splits)

text \<open>The replication API and the controller API never admit the same certificate: what the peer
  gate lets through, every other route refuses with 403.\<close>

theorem peer_and_controller_disjoint:
  assumes "peer_decide r = Inr (who, sc)"
    and "hr_Authorization r = ''Bearer '' @ as_Token s" "as_Token s \<noteq> []"
  shows "\<exists>sc' who' d. decide mac s p r = Denied 403 sc' who' d"
proof -
  obtain tls cert rest i where tls: "hr_TLS r = Some tls" "tls_PeerCertificates tls = cert # rest" "tls_Verified tls"
    "FromCertificate (Some cert) = Inr i" "id_Role i = RolePeer"
    using assms(1)
    by (auto simp: peer_decide_def split: option.splits list.splits if_splits sum.splits)
  then have "authenticateRequest mac s (r\<lparr>hr_ScopeHeader := []\<rparr>) = Inl PeerCertificate"
    using assms(2,3) by (simp add: authenticateRequest_def certificate_principal_def Let_def)
  then show ?thesis
    by (simp add: decide_def)
qed

end
