(* ===== verification/Place_Resources.thy ===== *)
theory Place_Resources
  imports Prelude Complex_Main
begin

text \<open>
  Resource requests and node capacities, \<open>internal/place/resources.go\<close> with the parts of
  \<open>internal/model\<close> and \<open>internal/runtime/memory.go\<close> it reads.  A floating-point number is a rational
  here: the arithmetic is exact where the code rounds.  Byte and process counts are integers; sums
  that would leave 64 bits are not modelled.
\<close>

type_synonym float64 = rat

section \<open>Memory quantities\<close>

definition is_letter :: "char \<Rightarrow> bool" where
  "is_letter c \<longleftrightarrow> (let n = of_char c :: nat in 65 \<le> n \<and> n \<le> 90 \<or> 97 \<le> n \<and> n \<le> 122)"

definition re_space :: "char \<Rightarrow> bool" where
  "re_space c \<longleftrightarrow> (of_char c :: nat) \<in> {9, 10, 12, 13, 32}"

definition memory_unit :: "string \<Rightarrow> int option" where
  "memory_unit u =
     (if u \<in> set [[], ''b''] then Some 1
      else if u \<in> set [''k'', ''kb'', ''ki'', ''kib''] then Some (2 ^ 10)
      else if u \<in> set [''m'', ''mb'', ''mi'', ''mib''] then Some (2 ^ 20)
      else if u \<in> set [''g'', ''gb'', ''gi'', ''gib''] then Some (2 ^ 30)
      else if u \<in> set [''t'', ''tb'', ''ti'', ''tib''] then Some (2 ^ 40)
      else None)"

definition decimal_value :: "string \<Rightarrow> string \<Rightarrow> rat" where
  "decimal_value ip fp = of_nat (digits_val ip) + of_nat (digits_val fp) / 10 ^ length fp"

text \<open>A product beyond 64 bits converts to the least integer on amd64, which is below the minimum.\<close>

definition ParseMemory :: "string \<Rightarrow> int option" where
  "ParseMemory s =
     (let t = trim_space s;
          ip = takeWhile is_digit t;
          r = dropWhile is_digit t;
          frac = (r \<noteq> [] \<and> hd r = CHR ''.'');
          fp = (if frac then takeWhile is_digit (tl r) else []);
          r' = (if frac then dropWhile is_digit (tl r) else r);
          u = dropWhile re_space r'
      in if t = [] then Some 0
         else if ip = [] \<or> (frac \<and> fp = []) \<or> \<not> list_all is_letter u then None
         else
           (case memory_unit (to_lower u) of
              None \<Rightarrow> None
            | Some factor \<Rightarrow>
                let bytes = \<lfloor>decimal_value ip fp * of_int factor\<rfloor>
                in if bytes < 6 * 2 ^ 20 \<or> bytes \<ge> 2 ^ 63 then None else Some bytes))"

section \<open>Demands\<close>

record demand =
  dm_Containers :: int
  dm_CPUs :: float64
  dm_MemoryBytes :: int
  dm_MemBytes :: int
  dm_DiskBytes :: int
  dm_Pids :: int
  dm_FileDescriptors :: int
  dm_NetDevices :: int

definition no_demand :: demand where
  "no_demand = \<lparr>dm_Containers = 0, dm_CPUs = 0, dm_MemoryBytes = 0, dm_MemBytes = 0, dm_DiskBytes = 0,
     dm_Pids = 0, dm_FileDescriptors = 0, dm_NetDevices = 0\<rparr>"

definition memoryBytes :: "demand \<Rightarrow> int" where
  "memoryBytes d = (if dm_MemoryBytes d \<noteq> 0 then dm_MemoryBytes d else dm_MemBytes d)"

definition add_demand :: "demand \<Rightarrow> demand \<Rightarrow> demand" where
  "add_demand d e =
     (let memory = memoryBytes d + memoryBytes e
      in \<lparr>dm_Containers = dm_Containers d + dm_Containers e, dm_CPUs = dm_CPUs d + dm_CPUs e,
          dm_MemoryBytes = memory, dm_MemBytes = memory, dm_DiskBytes = dm_DiskBytes d + dm_DiskBytes e,
          dm_Pids = dm_Pids d + dm_Pids e,
          dm_FileDescriptors = dm_FileDescriptors d + dm_FileDescriptors e,
          dm_NetDevices = dm_NetDevices d + dm_NetDevices e\<rparr>)"

definition sub_demand :: "demand \<Rightarrow> demand \<Rightarrow> demand" where
  "sub_demand d e =
     (let memory = memoryBytes d - memoryBytes e
      in \<lparr>dm_Containers = dm_Containers d - dm_Containers e, dm_CPUs = dm_CPUs d - dm_CPUs e,
          dm_MemoryBytes = memory, dm_MemBytes = memory, dm_DiskBytes = dm_DiskBytes d - dm_DiskBytes e,
          dm_Pids = dm_Pids d - dm_Pids e,
          dm_FileDescriptors = dm_FileDescriptors d - dm_FileDescriptors e,
          dm_NetDevices = dm_NetDevices d - dm_NetDevices e\<rparr>)"

definition empty_demand :: "demand \<Rightarrow> bool" where
  "empty_demand d \<longleftrightarrow> dm_Containers d = 0 \<and> dm_CPUs d = 0 \<and> memoryBytes d = 0 \<and> dm_DiskBytes d = 0
     \<and> dm_Pids d = 0 \<and> dm_FileDescriptors d = 0 \<and> dm_NetDevices d = 0"

definition nonNegative :: "demand \<Rightarrow> demand" where
  "nonNegative v =
     (let negative = memoryBytes v < 0
      in v\<lparr>dm_Containers := max 0 (dm_Containers v), dm_CPUs := max 0 (dm_CPUs v),
           dm_MemoryBytes := (if negative then 0 else dm_MemoryBytes v),
           dm_MemBytes := (if negative then 0 else dm_MemBytes v),
           dm_DiskBytes := max 0 (dm_DiskBytes v), dm_Pids := max 0 (dm_Pids v),
           dm_FileDescriptors := max 0 (dm_FileDescriptors v), dm_NetDevices := max 0 (dm_NetDevices v)\<rparr>)"

text \<open>The seven dimensions a node can run out of, read off a demand by one function.\<close>

datatype dimension = DContainers | DCPU | DMemory | DDisk | DPids | DFiles | DNetdevs

fun amount :: "dimension \<Rightarrow> demand \<Rightarrow> rat" where
  "amount DContainers d = of_int (dm_Containers d)"
| "amount DCPU d = dm_CPUs d"
| "amount DMemory d = of_int (memoryBytes d)"
| "amount DDisk d = of_int (dm_DiskBytes d)"
| "amount DPids d = of_int (dm_Pids d)"
| "amount DFiles d = of_int (dm_FileDescriptors d)"
| "amount DNetdevs d = of_int (dm_NetDevices d)"

lemma all_dimensions:
  "(\<forall>k. P k) \<longleftrightarrow> P DContainers \<and> P DCPU \<and> P DMemory \<and> P DDisk \<and> P DPids \<and> P DFiles \<and> P DNetdevs"
proof
  assume *: "P DContainers \<and> P DCPU \<and> P DMemory \<and> P DDisk \<and> P DPids \<and> P DFiles \<and> P DNetdevs"
  show "\<forall>k. P k"
  proof
    fix k
    show "P k"
      using * by (cases k) simp_all
  qed
qed simp

lemma amount_add [simp]: "amount k (add_demand d e) = amount k d + amount k e"
  by (cases k) (simp_all add: add_demand_def memoryBytes_def Let_def)

lemma amount_sub [simp]: "amount k (sub_demand d e) = amount k d - amount k e"
  by (cases k) (simp_all add: sub_demand_def memoryBytes_def Let_def)

lemma amount_none [simp]: "amount k no_demand = 0"
  by (cases k) (simp_all add: no_demand_def memoryBytes_def)

lemma amount_nonNegative [simp]: "amount k (nonNegative d) = max 0 (amount k d)"
  by (cases k) (auto simp: nonNegative_def memoryBytes_def Let_def max_def)

definition sum_demand :: "demand list \<Rightarrow> demand" where
  "sum_demand ds = foldl add_demand no_demand ds"

lemma amount_foldl_add: "amount k (foldl add_demand d ds) = amount k d + sum_list (map (amount k) ds)"
  by (induction ds arbitrary: d) (simp_all add: algebra_simps)

lemma amount_sum [simp]: "amount k (sum_demand ds) = sum_list (map (amount k) ds)"
  by (simp add: sum_demand_def amount_foldl_add)

section \<open>What a device requests\<close>

record ResourceRequest =
  rq_CPUs :: float64
  rq_Memory :: string
  rq_Pids :: int
  rq_EphemeralStorage :: string
  rq_Disk :: string
  rq_FileDescriptors :: int
  rq_NetDevices :: int

datatype DeviceKind = KindRouter | KindSwitch | KindService | KindP4 | KindController | KindHost | KindOther string

definition empty_request :: "ResourceRequest \<Rightarrow> bool" where
  "empty_request r \<longleftrightarrow> rq_CPUs r = 0 \<and> rq_Memory r = [] \<and> rq_Pids r = 0 \<and> rq_EphemeralStorage r = []
     \<and> rq_Disk r = [] \<and> rq_FileDescriptors r = 0 \<and> rq_NetDevices r = 0"

definition Storage :: "ResourceRequest \<Rightarrow> string" where
  "Storage r = (if rq_EphemeralStorage r \<noteq> [] then rq_EphemeralStorage r else rq_Disk r)"

definition resource_request :: "float64 \<Rightarrow> string \<Rightarrow> int \<Rightarrow> string \<Rightarrow> int \<Rightarrow> int \<Rightarrow> ResourceRequest" where
  "resource_request cpus memory pids storage fds netdevs =
     \<lparr>rq_CPUs = cpus, rq_Memory = memory, rq_Pids = pids, rq_EphemeralStorage = storage, rq_Disk = [],
      rq_FileDescriptors = fds, rq_NetDevices = netdevs\<rparr>"

fun DefaultResourceRequest :: "DeviceKind \<Rightarrow> ResourceRequest" where
  "DefaultResourceRequest KindRouter = resource_request (4 / 100) ''128Mi'' 64 ''256Mi'' 1024 8"
| "DefaultResourceRequest KindSwitch = resource_request (4 / 100) ''128Mi'' 512 ''128Mi'' 1024 8"
| "DefaultResourceRequest KindService = resource_request (10 / 100) ''128Mi'' 512 ''256Mi'' 1024 8"
| "DefaultResourceRequest KindP4 = resource_request (50 / 100) ''256Mi'' 96 ''512Mi'' 1024 16"
| "DefaultResourceRequest KindController = resource_request (25 / 100) ''128Mi'' 64 ''128Mi'' 1024 32"
| "DefaultResourceRequest _ = resource_request (2 / 100) ''64Mi'' 32 ''64Mi'' 256 2"

definition FRRControlResourceRequest :: ResourceRequest where
  "FRRControlResourceRequest = resource_request (8 / 100) ''256Mi'' 256 ''128Mi'' 1024 0"

definition DefaultNOS :: string where "DefaultNOS = ''frr''"

record Device =
  dv_ID :: string
  dv_Kind :: DeviceKind
  dv_ASN :: int
  dv_NOS :: string
  dv_CPUs :: float64
  dv_Memory :: string
  dv_Pids :: int
  dv_Requests :: ResourceRequest
  dv_PlacementGroup :: string
  dv_Node :: string
  dv_RuntimeClass :: string
  dv_UsernsMode :: string

definition EffectiveNOS :: "Device \<Rightarrow> string" where
  "EffectiveNOS d = (if dv_Kind d \<noteq> KindRouter then [] else if dv_NOS d = [] then DefaultNOS else dv_NOS d)"

definition bytes_of :: "string \<Rightarrow> int" where
  "bytes_of s = (case ParseMemory s of None \<Rightarrow> 0 | Some b \<Rightarrow> b)"

definition requestDemand :: "ResourceRequest \<Rightarrow> demand" where
  "requestDemand r =
     \<lparr>dm_Containers = 1, dm_CPUs = rq_CPUs r, dm_MemoryBytes = bytes_of (rq_Memory r),
      dm_MemBytes = bytes_of (rq_Memory r), dm_DiskBytes = bytes_of (Storage r), dm_Pids = rq_Pids r,
      dm_FileDescriptors = rq_FileDescriptors r, dm_NetDevices = rq_NetDevices r\<rparr>"

definition effective_request :: "Device \<Rightarrow> ResourceRequest" where
  "effective_request d =
     (let base = DefaultResourceRequest (dv_Kind d)
      in if \<not> empty_request (dv_Requests d) then dv_Requests d
         else if dv_CPUs d > 0 \<or> dv_Memory d \<noteq> [] \<or> dv_Pids d > 0
         then base\<lparr>rq_CPUs := (if dv_CPUs d > 0 then dv_CPUs d else rq_CPUs base),
                   rq_Memory := (if dv_Memory d \<noteq> [] then dv_Memory d else rq_Memory base),
                   rq_Pids := (if dv_Pids d > 0 then dv_Pids d else rq_Pids base)\<rparr>
         else base\<lparr>rq_CPUs := 5 / 100, rq_Memory := ''64Mi''\<rparr>)"

definition deviceDemand :: "Device option \<Rightarrow> demand" where
  "deviceDemand od =
     (case od of
        None \<Rightarrow> no_demand
      | Some d \<Rightarrow>
          let dem = requestDemand (effective_request d)
          in if dv_Kind d = KindRouter \<and> EffectiveNOS d = DefaultNOS
             then add_demand dem (requestDemand FRRControlResourceRequest)
             else dem)"

section \<open>Capacities\<close>

record Budget =
  bg_Request :: ResourceRequest
  bg_Containers :: int

record Capacity =
  cp_Containers :: "int option"
  cp_CPUs :: "float64 option"
  cp_MemoryBytes :: "int option"
  cp_DiskBytes :: "int option"
  cp_Pids :: "int option"
  cp_FileDescriptors :: "int option"
  cp_NetDevices :: "int option"

record NodeInventory =
  ni_Name :: string
  ni_Allocatable :: Capacity
  ni_Reserved :: demand
  ni_ReservedByLab :: "(string, demand) fmap"
  ni_Unlimited :: "string list"

record NodeSpec =
  ns_Name :: string
  ns_Pool :: string
  ns_Capacity :: "Budget option"
  ns_PlacementWeight :: float64
  ns_Front :: bool
  ns_RuntimeClass :: string
  ns_UsernsMode :: string

definition budgetDemand :: "Budget \<Rightarrow> demand" where
  "budgetDemand b = (requestDemand (bg_Request b))\<lparr>dm_Containers := bg_Containers b\<rparr>"

definition clampCapacity :: "demand \<Rightarrow> demand" where
  "clampCapacity v =
     (let negative = memoryBytes v < 0
      in v\<lparr>dm_Containers := (if dm_Containers v < 0 then - 1 else dm_Containers v),
           dm_CPUs := (if dm_CPUs v < 0 then - 1 else dm_CPUs v),
           dm_MemoryBytes := (if negative then - 1 else dm_MemoryBytes v),
           dm_MemBytes := (if negative then - 1 else dm_MemBytes v),
           dm_DiskBytes := (if dm_DiskBytes v < 0 then - 1 else dm_DiskBytes v),
           dm_Pids := (if dm_Pids v < 0 then - 1 else dm_Pids v),
           dm_FileDescriptors := (if dm_FileDescriptors v < 0 then - 1 else dm_FileDescriptors v),
           dm_NetDevices := (if dm_NetDevices v < 0 then - 1 else dm_NetDevices v)\<rparr>)"

text \<open>One dimension: its value, and whether it is missing, from the declared bound and the live
  figure.  The three closures of the code differ only in the number type.\<close>

definition choose_bound :: "'a::linordered_idom \<Rightarrow> 'a option \<Rightarrow> 'a option" where
  "choose_bound declared live =
     (if declared > 0
      then (case live of None \<Rightarrow> Some declared | Some l \<Rightarrow> Some (min declared l))
      else live)"

definition chosen :: "'a::linordered_idom option \<Rightarrow> 'a" where
  "chosen c = (case c of None \<Rightarrow> 0 | Some v \<Rightarrow> v)"

definition missing_dimension :: "string list \<Rightarrow> string \<Rightarrow> 'a option \<Rightarrow> string list" where
  "missing_dimension unlimited name c = (if c = None \<and> name \<notin> set unlimited then [name] else [])"

definition no_capacity :: Capacity where
  "no_capacity = \<lparr>cp_Containers = None, cp_CPUs = None, cp_MemoryBytes = None, cp_DiskBytes = None,
     cp_Pids = None, cp_FileDescriptors = None, cp_NetDevices = None\<rparr>"

definition effectiveCapacityOf ::
  "NodeSpec \<Rightarrow> (string, Budget) fmap \<Rightarrow> NodeInventory option \<Rightarrow> demand \<times> bool \<times> string list" where
  "effectiveCapacityOf n reserve inventory =
     (let live = (case inventory of None \<Rightarrow> no_capacity | Some i \<Rightarrow> ni_Allocatable i);
          unlimited = (case inventory of None \<Rightarrow> [] | Some i \<Rightarrow> ni_Unlimited i);
          decl = (case ns_Capacity n of None \<Rightarrow> no_demand | Some b \<Rightarrow> budgetDemand b);
          containers = choose_bound (dm_Containers decl) (cp_Containers live);
          cpus = choose_bound (dm_CPUs decl) (cp_CPUs live);
          memory = choose_bound (memoryBytes decl) (cp_MemoryBytes live);
          disk = choose_bound (dm_DiskBytes decl) (cp_DiskBytes live);
          pids = choose_bound (dm_Pids decl) (cp_Pids live);
          fds = choose_bound (dm_FileDescriptors decl) (cp_FileDescriptors live);
          netdevs = choose_bound (dm_NetDevices decl) (cp_NetDevices live);
          missing = missing_dimension unlimited ''containers'' containers @ missing_dimension unlimited ''cpu'' cpus
            @ missing_dimension unlimited ''memory'' memory @ missing_dimension unlimited ''ephemeral storage'' disk
            @ missing_dimension unlimited ''pids'' pids @ missing_dimension unlimited ''file descriptors'' fds
            @ missing_dimension unlimited ''netdevs'' netdevs;
          have = (containers \<noteq> None \<or> cpus \<noteq> None \<or> memory \<noteq> None \<or> disk \<noteq> None \<or> pids \<noteq> None
            \<or> fds \<noteq> None \<or> netdevs \<noteq> None);
          out = \<lparr>dm_Containers = chosen containers, dm_CPUs = chosen cpus, dm_MemoryBytes = chosen memory,
                 dm_MemBytes = chosen memory, dm_DiskBytes = chosen disk, dm_Pids = chosen pids,
                 dm_FileDescriptors = chosen fds, dm_NetDevices = chosen netdevs\<rparr>;
          out = (case fmlookup reserve (ns_Name n) of None \<Rightarrow> out | Some r \<Rightarrow> sub_demand out (budgetDemand r));
          out = clampCapacity out;
          exhausted = (\<lambda>name. name \<notin> set missing \<and> name \<notin> set unlimited);
          no_memory = (exhausted ''memory'' \<and> dm_MemoryBytes out = 0);
          out = out\<lparr>
            dm_Containers := (if exhausted ''containers'' \<and> dm_Containers out = 0 then - 1 else dm_Containers out),
            dm_CPUs := (if exhausted ''cpu'' \<and> dm_CPUs out = 0 then - 1 else dm_CPUs out),
            dm_MemoryBytes := (if no_memory then - 1 else dm_MemoryBytes out),
            dm_MemBytes := (if no_memory then - 1 else dm_MemBytes out),
            dm_DiskBytes := (if exhausted ''ephemeral storage'' \<and> dm_DiskBytes out = 0 then - 1 else dm_DiskBytes out),
            dm_Pids := (if exhausted ''pids'' \<and> dm_Pids out = 0 then - 1 else dm_Pids out),
            dm_FileDescriptors := (if exhausted ''file descriptors'' \<and> dm_FileDescriptors out = 0 then - 1
                                   else dm_FileDescriptors out),
            dm_NetDevices := (if exhausted ''netdevs'' \<and> dm_NetDevices out = 0 then - 1 else dm_NetDevices out)\<rparr>
      in (out, have, sort missing))"

section \<open>Fitting\<close>

definition fits :: "demand \<Rightarrow> demand \<Rightarrow> demand \<Rightarrow> bool \<Rightarrow> bool" where
  "fits load need cap has \<longleftrightarrow>
     (if \<not> has then True
      else if (dm_Containers cap < 0 \<and> dm_Containers need > 0) \<or> (dm_CPUs cap < 0 \<and> dm_CPUs need > 0)
        \<or> (memoryBytes cap < 0 \<and> memoryBytes need > 0) \<or> (dm_DiskBytes cap < 0 \<and> dm_DiskBytes need > 0)
        \<or> (dm_Pids cap < 0 \<and> dm_Pids need > 0) \<or> (dm_FileDescriptors cap < 0 \<and> dm_FileDescriptors need > 0)
        \<or> (dm_NetDevices cap < 0 \<and> dm_NetDevices need > 0)
      then False
      else if dm_Containers cap > 0 \<and> dm_Containers load + dm_Containers need > dm_Containers cap then False
      else if dm_CPUs cap > 0 \<and> dm_CPUs load + dm_CPUs need > dm_CPUs cap then False
      else if memoryBytes cap > 0 \<and> memoryBytes load + memoryBytes need > memoryBytes cap then False
      else if dm_DiskBytes cap > 0 \<and> dm_DiskBytes load + dm_DiskBytes need > dm_DiskBytes cap then False
      else if dm_Pids cap > 0 \<and> dm_Pids load + dm_Pids need > dm_Pids cap then False
      else if dm_FileDescriptors cap > 0 \<and> dm_FileDescriptors load + dm_FileDescriptors need > dm_FileDescriptors cap
      then False
      else if dm_NetDevices cap > 0 \<and> dm_NetDevices load + dm_NetDevices need > dm_NetDevices cap then False
      else True)"

definition pressure_of :: "float64 \<Rightarrow> float64 \<Rightarrow> float64 \<Rightarrow> float64" where
  "pressure_of worst load cap = (if cap > 0 then max worst (load / cap) else worst)"

definition pressure :: "demand \<Rightarrow> demand \<Rightarrow> bool \<Rightarrow> int \<Rightarrow> float64" where
  "pressure load cap has nominal =
     (if \<not> has then of_int (dm_Containers load) / of_int (if nominal \<le> 0 then 1 else nominal)
      else
        (let worst = pressure_of 0 (of_int (dm_Containers load)) (of_int (dm_Containers cap));
             worst = pressure_of worst (dm_CPUs load) (dm_CPUs cap);
             worst = pressure_of worst (of_int (memoryBytes load)) (of_int (memoryBytes cap));
             worst = pressure_of worst (of_int (dm_DiskBytes load)) (of_int (dm_DiskBytes cap));
             worst = pressure_of worst (of_int (dm_Pids load)) (of_int (dm_Pids cap));
             worst = pressure_of worst (of_int (dm_FileDescriptors load)) (of_int (dm_FileDescriptors cap))
         in pressure_of worst (of_int (dm_NetDevices load)) (of_int (dm_NetDevices cap))))"

definition placementPressure :: "demand \<Rightarrow> demand \<Rightarrow> bool \<Rightarrow> int \<Rightarrow> float64 \<Rightarrow> float64" where
  "placementPressure load cap has nominal weight =
     pressure load cap has nominal / (if weight \<le> 0 then 1 else weight)"

definition nominalCapacity :: "string list \<Rightarrow> (string \<Rightarrow> demand) \<Rightarrow> (string \<Rightarrow> bool) \<Rightarrow> int \<Rightarrow> int" where
  "nominalCapacity names caps hasCap devices =
     (let best = foldl (\<lambda>b n. if hasCap n \<and> dm_Containers (caps n) > b then dm_Containers (caps n) else b) 0 names;
          best = (if best = 0 \<and> names \<noteq> [] then (devices + int (length names) - 1) div int (length names) else best)
      in if best \<le> 0 then 1 else best)"

section \<open>Fitting by dimension\<close>

text \<open>A load is within a capacity when, in every dimension, an exhausted capacity carries nothing and a
  positive one is not exceeded.  Zero is a dimension that does not constrain.\<close>

definition within_cap :: "demand \<Rightarrow> demand \<Rightarrow> bool" where
  "within_cap cap load \<longleftrightarrow>
     (\<forall>k. (amount k cap < 0 \<longrightarrow> amount k load \<le> 0) \<and> (0 < amount k cap \<longrightarrow> amount k load \<le> amount k cap))"

definition demand_ok :: "demand \<Rightarrow> bool" where
  "demand_ok d \<longleftrightarrow> (\<forall>k. 0 \<le> amount k d)"

lemma demand_ok_none [simp]: "demand_ok no_demand"
  by (simp add: demand_ok_def)

lemma demand_ok_add [simp]: "\<lbrakk>demand_ok d; demand_ok e\<rbrakk> \<Longrightarrow> demand_ok (add_demand d e)"
  by (simp add: demand_ok_def)

lemma demand_ok_nonNegative [simp]: "demand_ok (nonNegative d)"
  by (simp add: demand_ok_def)

lemma demand_ok_sum: "(\<And>d. d \<in> set ds \<Longrightarrow> demand_ok d) \<Longrightarrow> demand_ok (sum_demand ds)"
  by (auto simp: demand_ok_def intro!: sum_list_nonneg)

lemma fits_iff:
  "fits load need cap has \<longleftrightarrow>
     (has \<longrightarrow> (\<forall>k. (amount k cap < 0 \<longrightarrow> amount k need \<le> 0)
                 \<and> (0 < amount k cap \<longrightarrow> amount k load + amount k need \<le> amount k cap)))"
proof -
  have int: "of_int a + of_int b \<le> (of_int c :: rat) \<longleftrightarrow> a + b \<le> c" for a b c
    by (metis of_int_add of_int_le_iff)
  have signs: "(of_int a < (0 :: rat)) = (a < 0)" "((0 :: rat) < of_int a) = (0 < a)" "(of_int a \<le> (0 :: rat)) = (a \<le> 0)" for a
    by simp_all
  have drop: "(if p then False else q) = (\<not> p \<and> q)" for p q
    by simp
  show ?thesis
    unfolding fits_def all_dimensions amount.simps int signs drop not_less
    by (cases has) (simp_all only: if_True if_False simp_thms de_Morgan_disj de_Morgan_conj not_less not_le
        imp_conv_disj conj_assoc conj_comms disj_comms conj_left_commute)
qed

lemma fits_alone: "fits no_demand need cap has \<longleftrightarrow> (has \<longrightarrow> within_cap cap need)"
  by (simp add: fits_iff within_cap_def)

lemma fits_within:
  assumes "fits load need cap True" "within_cap cap load"
  shows "within_cap cap (add_demand load need)"
  unfolding within_cap_def
proof (intro allI conjI impI)
  fix k
  show "amount k (add_demand load need) \<le> 0" if "amount k cap < 0"
    using assms that unfolding fits_iff within_cap_def by fastforce
  show "amount k (add_demand load need) \<le> amount k cap" if "0 < amount k cap"
    using assms(1) that unfolding fits_iff by simp
qed

lemma within_cap_smaller:
  assumes "within_cap cap load" "demand_ok need"
  shows "within_cap cap (sub_demand load need)"
proof -
  have "0 \<le> amount k need" for k
    using assms(2) by (simp add: demand_ok_def)
  moreover have "(amount k cap < 0 \<longrightarrow> amount k load \<le> 0) \<and> (0 < amount k cap \<longrightarrow> amount k load \<le> amount k cap)" for k
    using assms(1) by (simp add: within_cap_def)
  ultimately show ?thesis
    unfolding within_cap_def amount_sub by (meson diff_le_eq add_increasing2 order_trans le_add_same_cancel1)
qed

lemma within_cap_cong: "(\<And>k. amount k d = amount k e) \<Longrightarrow> within_cap cap d \<longleftrightarrow> within_cap cap e"
  by (simp add: within_cap_def)

section \<open>A reserve on an unlimited dimension\<close>

lemma effectiveCapacityOf_unlimited:
  assumes "ns_Capacity n = None" "''pids'' \<in> set (ni_Unlimited i)" "cp_Pids (ni_Allocatable i) = None"
  shows "dm_Pids (fst (effectiveCapacityOf n reserve (Some i)))
      = (case fmlookup reserve (ns_Name n) of
           None \<Rightarrow> 0
         | Some b \<Rightarrow> if 0 < rq_Pids (bg_Request b) then - 1 else - rq_Pids (bg_Request b))"
    and "''pids'' \<notin> set (snd (snd (effectiveCapacityOf n reserve (Some i))))"
  using assms
  by (auto simp: effectiveCapacityOf_def Let_def choose_bound_def chosen_def missing_dimension_def no_demand_def
      clampCapacity_def sub_demand_def budgetDemand_def requestDemand_def split: option.splits)


definition free_node :: NodeSpec where
  "free_node = \<lparr>ns_Name = ''n1'', ns_Pool = [], ns_Capacity = None, ns_PlacementWeight = 0, ns_Front = False,
     ns_RuntimeClass = [], ns_UsernsMode = []\<rparr>"

definition free_inventory :: NodeInventory where
  "free_inventory = \<lparr>ni_Name = ''n1'', ni_Allocatable = no_capacity\<lparr>cp_CPUs := Some 8\<rparr>, ni_Reserved = no_demand,
     ni_ReservedByLab = fmempty, ni_Unlimited = [''pids'']\<rparr>"

definition system_reserve :: "(string, Budget) fmap" where
  "system_reserve = fmap_of_list [(''n1'', \<lparr>bg_Request = resource_request 1 [] 100 [] 0 0, bg_Containers = 0\<rparr>)]"


end
