(* ===== verification/Place_Admission.thy ===== *)
theory Place_Admission
  imports Place_Resources
begin

text \<open>
  The expanded topology as the placer sees it, the capacity state of a cluster, strict admission and
  the packing of workloads into waves: \<open>internal/place/admission.go\<close>, \<open>internal/place/schedule.go\<close> and
  the accessors of \<open>internal/model/topology.go\<close>.  A pointer to a device is its identifier, which is
  unique in a topology.
\<close>

section \<open>The topology\<close>

record PinMatch =
  pm_AS :: "int option"
  pm_Role :: string
  pm_Service :: string
  pm_Region :: string

record PlaceLab =
  lb_Strategy :: string
  lb_Nodes :: "NodeSpec list"
  lb_NodePool :: string
  lb_Pin :: "(PinMatch \<times> string) list"
  lb_Reserve :: "(string, Budget) fmap"

record PlacementGroup =
  pg_ID :: string
  pg_Class :: string
  pg_Devices :: "string list"

record PlaceAS =
  as_Role :: string
  as_Region :: string
  as_Devices :: "string list"
  as_Node :: string
  as_Distributable :: bool
  as_PlacementGroups :: "PlacementGroup list"

record ServiceReplica =
  sr_ID :: string
  sr_HomeNode :: string
  sr_Device :: "string option"

record PlaceService =
  sv_Name :: string
  sv_Device :: "string option"
  sv_Replicas :: "ServiceReplica list"
  sv_PerNode :: bool
  sv_Node :: string

text \<open>A link's end is the device of its interface, None when either is nil.\<close>

type_synonym PlaceLink = "string option \<times> string option"

record PlaceTopology =
  tp_Lab :: PlaceLab
  tp_Name :: string
  tp_Devices :: "(string, Device) fmap"
  tp_Links :: "PlaceLink list"
  tp_ASes :: "(int, PlaceAS) fmap"
  tp_Services :: "(string, PlaceService) fmap"

definition FrontNode :: "PlaceLab \<Rightarrow> string" where
  "FrontNode l =
     (case filter ns_Front (lb_Nodes l) of
        n # _ \<Rightarrow> ns_Name n
      | [] \<Rightarrow> (case lb_Nodes l of n # _ \<Rightarrow> ns_Name n | [] \<Rightarrow> ''local''))"

definition NodeByName :: "PlaceLab \<Rightarrow> string \<Rightarrow> NodeSpec option" where
  "NodeByName l name = find (\<lambda>n. ns_Name n = name) (lb_Nodes l)"

definition device :: "PlaceTopology \<Rightarrow> string \<Rightarrow> Device option" where
  "device t x = fmlookup (tp_Devices t) x"

definition SortedDevices :: "PlaceTopology \<Rightarrow> string list" where
  "SortedDevices t = fm_keys (tp_Devices t)"

definition SortedASNs :: "PlaceTopology \<Rightarrow> int list" where
  "SortedASNs t = fm_keys (tp_ASes t)"

definition SortedServiceNames :: "PlaceTopology \<Rightarrow> string list" where
  "SortedServiceNames t = fm_keys (tp_Services t)"

definition SortedReplicas :: "PlaceService \<Rightarrow> ServiceReplica list" where
  "SortedReplicas s = sort_key sr_ID (sv_Replicas s)"

definition SortedPlacementGroups :: "PlaceAS \<Rightarrow> PlacementGroup list" where
  "SortedPlacementGroups a = sort_key pg_ID (as_PlacementGroups a)"

text \<open>\<open>ServiceByDevice\<close>: the first service, by name, one of whose replicas or whose device it is.\<close>

definition service_owner :: "PlaceService \<Rightarrow> string \<Rightarrow> ServiceReplica option option" where
  "service_owner s x =
     (case find (\<lambda>r. sr_Device r = Some x) (sv_Replicas s) of
        Some r \<Rightarrow> Some (Some r)
      | None \<Rightarrow> if sv_Device s = Some x then Some None else None)"

fun first_owner :: "PlaceService list \<Rightarrow> string \<Rightarrow> (PlaceService \<times> ServiceReplica option) option" where
  "first_owner [] x = None"
| "first_owner (s # ss) x =
     (case service_owner s x of Some r \<Rightarrow> Some (s, r) | None \<Rightarrow> first_owner ss x)"

definition ServiceByDevice :: "PlaceTopology \<Rightarrow> string \<Rightarrow> (PlaceService \<times> ServiceReplica option) option" where
  "ServiceByDevice t x = first_owner (List.map_filter (fmlookup (tp_Services t)) (SortedServiceNames t)) x"

section \<open>Assignments and options\<close>

record Assignment =
  a_ByAS :: "(int, string) fmap"
  a_ByGroup :: "(string, string) fmap"
  a_ByService :: "(string, string) fmap"
  a_ByServiceReplica :: "(string, string) fmap"

definition no_assignment :: Assignment where
  "no_assignment = \<lparr>a_ByAS = fmempty, a_ByGroup = fmempty, a_ByService = fmempty, a_ByServiceReplica = fmempty\<rparr>"

text \<open>A recorded placement has the fields of an assignment.\<close>

record PlaceOptions =
  po_Strategy :: string
  po_Fixed :: "Assignment option"
  po_Rebalance :: bool
  po_Inventory :: "NodeInventory list"
  po_Strict :: bool
  po_Overcommit :: bool
  po_Unavailable :: "string fset"

definition strictly :: "PlaceOptions \<Rightarrow> bool" where
  "strictly o1 \<longleftrightarrow> po_Strict o1 \<and> \<not> po_Overcommit o1"

type_synonym loads = "(string, demand) fmap"

abbreviation load_of :: "loads \<Rightarrow> string \<Rightarrow> demand" where
  "load_of m n \<equiv> get_or no_demand m n"

definition charge :: "string \<Rightarrow> demand \<Rightarrow> loads \<Rightarrow> loads" where
  "charge n d m = fmupd n (add_demand (load_of m n) d) m"

definition discharge :: "string \<Rightarrow> demand \<Rightarrow> loads \<Rightarrow> loads" where
  "discharge n d m = fmupd n (sub_demand (load_of m n) d) m"

section \<open>The capacity state\<close>

record capacityState =
  cs_names :: "string list"
  cs_caps :: "(string, demand) fmap"
  cs_hasCap :: "(string, bool) fmap"
  cs_baseline :: loads
  cs_unknown :: "(string, string list) fmap"
  cs_allNodeName :: "string fset"

abbreviation cap_of :: "capacityState \<Rightarrow> string \<Rightarrow> demand" where
  "cap_of st n \<equiv> get_or no_demand (cs_caps st) n"

abbreviation has_cap :: "capacityState \<Rightarrow> string \<Rightarrow> bool" where
  "has_cap st n \<equiv> get_or False (cs_hasCap st) n"

abbreviation unknown_of :: "capacityState \<Rightarrow> string \<Rightarrow> string list" where
  "unknown_of st n \<equiv> get_or [] (cs_unknown st) n"

definition inventories :: "NodeInventory list \<Rightarrow> string \<Rightarrow> NodeInventory option" where
  "inventories is name = (if name = [] then None else find (\<lambda>i. ni_Name i = name) (rev is))"

definition add_node :: "PlaceLab \<Rightarrow> string \<Rightarrow> PlaceOptions \<Rightarrow> capacityState \<Rightarrow> NodeSpec \<Rightarrow> capacityState" where
  "add_node l lab opts st node =
     (if lb_NodePool l \<noteq> [] \<and> ns_Pool node \<noteq> lb_NodePool l then st
      else if ns_Name node |\<in>| po_Unavailable opts then st
      else
        (let name = ns_Name node;
             inventory = inventories (po_Inventory opts) name;
             (cap, has, missing) = effectiveCapacityOf node (lb_Reserve l) inventory;
             st = st\<lparr>cs_allNodeName := finsert name (cs_allNodeName st), cs_caps := fmupd name cap (cs_caps st),
                     cs_hasCap := fmupd name has (cs_hasCap st)\<rparr>;
             st = (case inventory of
                     None \<Rightarrow> st
                   | Some i \<Rightarrow>
                       let base = (case fmlookup (ni_ReservedByLab i) lab of
                                     None \<Rightarrow> ni_Reserved i | Some own \<Rightarrow> sub_demand (ni_Reserved i) own)
                       in st\<lparr>cs_baseline := fmupd name (nonNegative base) (cs_baseline st)\<rparr>);
             st = (if missing \<noteq> [] then st\<lparr>cs_unknown := fmupd name missing (cs_unknown st)\<rparr> else st)
         in if strictly opts \<and> missing \<noteq> [] then st
            else st\<lparr>cs_names := cs_names st @ [name]\<rparr>))"

definition empty_state :: capacityState where
  "empty_state = \<lparr>cs_names = [], cs_caps = fmempty, cs_hasCap = fmempty, cs_baseline = fmempty,
     cs_unknown = fmempty, cs_allNodeName = {||}\<rparr>"

definition buildCapacityState :: "PlaceLab \<Rightarrow> string \<Rightarrow> PlaceOptions \<Rightarrow> capacityState" where
  "buildCapacityState l lab opts =
     (let st = foldl (add_node l lab opts) empty_state (lb_Nodes l)
      in st\<lparr>cs_names := sort (cs_names st)\<rparr>)"

section \<open>Strict admission\<close>

definition serviceReplicaNode :: "PlaceTopology \<Rightarrow> Assignment \<Rightarrow> string \<Rightarrow> string" where
  "serviceReplicaNode t a x =
     (case ServiceByDevice t x of
        None \<Rightarrow> []
      | Some (_, Some r) \<Rightarrow> get_or [] (a_ByServiceReplica a) (sr_ID r)
      | Some (s, None) \<Rightarrow> get_or [] (a_ByService a) (sv_Name s))"

definition nodeForAssignment :: "PlaceTopology \<Rightarrow> Assignment \<Rightarrow> string \<Rightarrow> string" where
  "nodeForAssignment t a x =
     (case device t x of
        None \<Rightarrow> []
      | Some d \<Rightarrow>
          if dv_ASN d \<noteq> 0
          then (if dv_PlacementGroup d \<noteq> [] \<and> get_or [] (a_ByGroup a) (dv_PlacementGroup d) \<noteq> []
                then get_or [] (a_ByGroup a) (dv_PlacementGroup d)
                else get_or [] (a_ByAS a) (dv_ASN d))
          else (let node = serviceReplicaNode t a x
                in if node \<noteq> [] then node else FrontNode (tp_Lab t)))"

definition charge_device :: "PlaceTopology \<Rightarrow> Assignment \<Rightarrow> loads \<Rightarrow> string \<Rightarrow> loads" where
  "charge_device t a m x =
     (let node = nodeForAssignment t a x
      in if node = [] then m else charge node (deviceDemand (device t x)) m)"

definition assignmentDemands :: "PlaceTopology \<Rightarrow> Assignment \<Rightarrow> loads \<Rightarrow> loads" where
  "assignmentDemands t a baseline = foldl (charge_device t a) baseline (SortedDevices t)"

definition over :: "demand \<Rightarrow> demand \<Rightarrow> dimension \<Rightarrow> bool" where
  "over c l k \<longleftrightarrow> (amount k c < 0 \<and> amount k l > 0) \<or> (amount k c > 0 \<and> amount k l > amount k c)"

definition dimensions :: "dimension list" where
  "dimensions = [DContainers, DCPU, DMemory, DDisk, DPids, DFiles, DNetdevs]"

definition overloads :: "PlaceTopology \<Rightarrow> Assignment \<Rightarrow> capacityState \<Rightarrow> (string \<times> dimension) list" where
  "overloads t a st =
     (let loads = assignmentDemands t a (cs_baseline st)
      in concat (map (\<lambda>name. if \<not> has_cap st name then []
                             else map (Pair name) (filter (over (cap_of st name) (load_of loads name)) dimensions))
                     (fm_keys loads)))"

datatype place_error =
    NoNodes
  | NoNodeInPool
  | NoCompleteInventory
  | GroupOnUnknownCapacity string string
  | PinnedToUnknownNode int string
  | PinnedToUnknownCapacity int string
  | ServiceWithoutNode string
  | ServicePinnedElsewhere string string
  | NoRoom int
  | UnknownStrategy string
  | NoAnchor int
  | Unresolved string
  | Undeclared string string
  | UnknownCapacity string string "string list"
  | Overloaded "(string \<times> dimension) list"
  | UnplacedDevice string
  | UnknownNode string string

definition device_refusal :: "PlaceTopology \<Rightarrow> Assignment \<Rightarrow> capacityState \<Rightarrow> string \<Rightarrow> place_error option" where
  "device_refusal t a st x =
     (let node = nodeForAssignment t a x
      in if node = [] then Some (Unresolved x)
         else if node |\<notin>| cs_allNodeName st then Some (Undeclared x node)
         else if unknown_of st node \<noteq> [] then Some (UnknownCapacity x node (unknown_of st node))
         else None)"

definition strictAssignmentError :: "PlaceTopology \<Rightarrow> Assignment \<Rightarrow> capacityState \<Rightarrow> place_error option" where
  "strictAssignmentError t a st =
     (case List.map_filter (device_refusal t a st) (SortedDevices t) of
        e # _ \<Rightarrow> Some e
      | [] \<Rightarrow> (case overloads t a st of [] \<Rightarrow> None | os \<Rightarrow> Some (Overloaded os)))"

text \<open>\<open>AdmitPlaced\<close> reads the assignment back off the devices.\<close>

definition read_back :: "PlaceTopology \<Rightarrow> Assignment \<Rightarrow> string \<Rightarrow> Assignment" where
  "read_back t a x =
     (case device t x of
        None \<Rightarrow> a
      | Some d \<Rightarrow>
          if dv_Node d = [] then a
          else if dv_ASN d \<noteq> 0
          then (let a = (if dv_PlacementGroup d \<noteq> []
                         then a\<lparr>a_ByGroup := fmupd (dv_PlacementGroup d) (dv_Node d) (a_ByGroup a)\<rparr> else a)
                in if fmlookup (a_ByAS a) (dv_ASN d) = None
                   then a\<lparr>a_ByAS := fmupd (dv_ASN d) (dv_Node d) (a_ByAS a)\<rparr> else a)
          else
            (case ServiceByDevice t x of
               None \<Rightarrow> a
             | Some (s, Some r) \<Rightarrow>
                 let a = a\<lparr>a_ByServiceReplica := fmupd (sr_ID r) (dv_Node d) (a_ByServiceReplica a)\<rparr>
                 in if get_or [] (a_ByService a) (sv_Name s) = []
                    then a\<lparr>a_ByService := fmupd (sv_Name s) (dv_Node d) (a_ByService a)\<rparr> else a
             | Some (s, None) \<Rightarrow> a\<lparr>a_ByService := fmupd (sv_Name s) (dv_Node d) (a_ByService a)\<rparr>))"

definition AdmitPlaced :: "PlaceTopology \<Rightarrow> NodeInventory list \<Rightarrow> bool \<Rightarrow> bool \<Rightarrow> place_error option" where
  "AdmitPlaced t inventory strict overcommit =
     (let a = foldl (read_back t) no_assignment (SortedDevices t);
          opts = \<lparr>po_Strategy = [], po_Fixed = None, po_Rebalance = False, po_Inventory = inventory,
                  po_Strict = strict, po_Overcommit = overcommit, po_Unavailable = {||}\<rparr>
      in if strictly opts then strictAssignmentError t a (buildCapacityState (tp_Lab t) (tp_Name t) opts) else None)"

section \<open>Waves\<close>

type_synonym Workload = "(string, demand) fmap"

definition workloadFits :: "capacityState \<Rightarrow> loads \<Rightarrow> Workload \<Rightarrow> bool" where
  "workloadFits st loads w \<longleftrightarrow>
     list_all (\<lambda>node. node |\<in>| cs_allNodeName st \<and> unknown_of st node = []
                 \<and> fits (load_of loads node) (load_of w node) (cap_of st node) (has_cap st node)) (fm_keys w)"

definition addWorkload :: "loads \<Rightarrow> Workload \<Rightarrow> loads" where
  "addWorkload loads w = fold (\<lambda>node m. charge node (load_of w node) m) (fm_keys w) loads"

type_synonym wave = "nat list \<times> loads"

fun place_in_wave :: "capacityState \<Rightarrow> int \<Rightarrow> nat \<Rightarrow> Workload \<Rightarrow> wave list \<Rightarrow> wave list option" where
  "place_in_wave st limit i w [] = None"
| "place_in_wave st limit i w ((is, loads) # ws) =
     (if int (length is) \<ge> limit \<or> \<not> workloadFits st loads w
      then map_option ((#) (is, loads)) (place_in_wave st limit i w ws)
      else Some ((is @ [i], addWorkload loads w) # ws))"

datatype wave_error = NoInventory | AlreadyOver string | NotAdmissible nat

fun pack_waves :: "capacityState \<Rightarrow> int \<Rightarrow> nat \<Rightarrow> Workload list \<Rightarrow> wave list \<Rightarrow> (wave_error, wave list) result" where
  "pack_waves st limit i [] ws = Inr ws"
| "pack_waves st limit i (w # rest) ws =
     (if \<not> workloadFits st (cs_baseline st) w then Inl (NotAdmissible i)
      else
        (case place_in_wave st limit i w ws of
           Some ws' \<Rightarrow> pack_waves st limit (Suc i) rest ws'
         | None \<Rightarrow> pack_waves st limit (Suc i) rest (ws @ [([i], addWorkload (cs_baseline st) w)])))"

definition scheduler_options :: "NodeInventory list \<Rightarrow> PlaceOptions" where
  "scheduler_options inventory = \<lparr>po_Strategy = [], po_Fixed = None, po_Rebalance = False,
     po_Inventory = inventory, po_Strict = True, po_Overcommit = False, po_Unavailable = {||}\<rparr>"

definition scheduler_state :: "PlaceLab \<Rightarrow> NodeInventory list \<Rightarrow> capacityState" where
  "scheduler_state l inventory = buildCapacityState l ''__harness_scheduler__'' (scheduler_options inventory)"

definition ScheduleWaves ::
  "PlaceLab \<Rightarrow> NodeInventory list \<Rightarrow> Workload list \<Rightarrow> int \<Rightarrow> (wave_error, nat list list) result" where
  "ScheduleWaves l inventory workloads limit =
     (let limit = (if limit \<le> 0 then 1 else limit);
          st = scheduler_state l inventory
      in if cs_names st = [] then Inl NoInventory
         else
           (case filter (\<lambda>n. \<not> fits no_demand (load_of (cs_baseline st) n) (cap_of st n) (has_cap st n)) (cs_names st) of
              n # _ \<Rightarrow> Inl (AlreadyOver n)
            | [] \<Rightarrow>
                bind_result (pack_waves st limit 0 workloads []) (\<lambda>ws. Inr (map fst ws))))"

definition SafeWorkerCount ::
  "PlaceLab \<Rightarrow> NodeInventory list \<Rightarrow> Workload list \<Rightarrow> int \<Rightarrow> (wave_error, int) result" where
  "SafeWorkerCount l inventory workloads requested =
     (if workloads = [] then Inr 0
      else
        (let requested = (if requested \<le> 0 \<or> requested > int (length workloads) then int (length workloads) else requested)
         in bind_result (ScheduleWaves l inventory workloads requested)
              (\<lambda>waves. Inr (case waves of [] \<Rightarrow> 0 | w # _ \<Rightarrow> int (length w)))))"

section \<open>Accounting\<close>

lemma amount_charge:
  "amount k (load_of (charge n d m) j) = amount k (load_of m j) + (if j = n then amount k d else 0)"
  by (simp add: charge_def)

lemma amount_discharge:
  "amount k (load_of (discharge n d m) j) = amount k (load_of m j) - (if j = n then amount k d else 0)"
  by (simp add: discharge_def)

lemma fm_keys_distinct [simp]: "distinct (fm_keys m)"
  by (simp add: fm_keys_def sorted_list_of_fset.rep_eq)

lemma amount_charge_all:
  assumes "distinct ns"
  shows "amount k (load_of (fold (\<lambda>n m. charge n (f n) m) ns m) j)
       = amount k (load_of m j) + (if j \<in> set ns then amount k (f j) else 0)"
  using assms by (induction ns arbitrary: m) (auto simp: amount_charge)

lemma amount_addWorkload:
  "amount k (load_of (addWorkload m w) j) = amount k (load_of m j) + amount k (load_of w j)"
proof -
  have "load_of w j = no_demand" if "j \<notin> set (fm_keys w)"
    using that by (simp add: get_or_def split: option.splits)
  then show ?thesis
    by (auto simp: addWorkload_def amount_charge_all)
qed

text \<open>What strict admission charges a node: its baseline and every device that resolves to it.\<close>

definition placed_on :: "(string \<Rightarrow> string) \<Rightarrow> string list \<Rightarrow> string \<Rightarrow> string list" where
  "placed_on node xs n = filter (\<lambda>x. node x = n) xs"

lemma amount_assignmentDemands:
  assumes "n \<noteq> []"
  shows "amount k (load_of (assignmentDemands t a base) n)
       = amount k (load_of base n)
         + sum_list (map (\<lambda>x. amount k (deviceDemand (device t x))) (placed_on (nodeForAssignment t a) (SortedDevices t) n))"
proof -
  have "amount k (load_of (foldl (charge_device t a) m xs) n) = amount k (load_of m n)
         + sum_list (map (\<lambda>x. amount k (deviceDemand (device t x))) (placed_on (nodeForAssignment t a) xs n))" for m xs
    using assms
    by (induction xs arbitrary: m) (auto simp: charge_device_def placed_on_def amount_charge Let_def)
  then show ?thesis
    by (simp add: assignmentDemands_def)
qed

lemma fmdom_assignmentDemands:
  assumes "x \<in> set (SortedDevices t)" "nodeForAssignment t a x \<noteq> []"
  shows "nodeForAssignment t a x \<in> set (fm_keys (assignmentDemands t a base))"
proof -
  have keep: "n \<in> set (fm_keys (foldl (charge_device t a) m xs))" if "n \<in> set (fm_keys m)" for n m xs
    using that by (induction xs arbitrary: m) (auto simp: charge_device_def charge_def Let_def)
  have here: "nodeForAssignment t a x \<in> set (fm_keys (charge_device t a m x))" for m
    using assms(2) by (simp add: charge_device_def charge_def Let_def)
  have "nodeForAssignment t a x \<in> set (fm_keys (foldl (charge_device t a) m xs))" if "x \<in> set xs" for m xs
    using that
  proof (induction xs arbitrary: m)
    case (Cons y xs)
    then show ?case
      using keep [OF here] by auto
  qed simp
  then show ?thesis
    using assms(1) by (simp add: assignmentDemands_def)
qed

lemma over_within: "filter (over c l) dimensions = [] \<longleftrightarrow> within_cap c l"
proof -
  have "filter (over c l) dimensions = [] \<longleftrightarrow> (\<forall>k. \<not> over c l k)"
    unfolding all_dimensions by (simp add: dimensions_def)
  then show ?thesis
    by (simp add: within_cap_def over_def not_less de_Morgan_disj imp_conv_disj)
qed

lemma overloads_Nil:
  "overloads t a st = [] \<longleftrightarrow>
     (\<forall>n\<in>set (fm_keys (assignmentDemands t a (cs_baseline st))).
        has_cap st n \<longrightarrow> within_cap (cap_of st n) (load_of (assignmentDemands t a (cs_baseline st)) n))"
proof -
  have "(if \<not> has_cap st n then [] else map (Pair n) (filter (over c l) dimensions)) = []
      \<longleftrightarrow> (has_cap st n \<longrightarrow> within_cap c l)" for n c l
    by (simp add: over_within)
  then show ?thesis
    unfolding overloads_def Let_def concat_eq_Nil_conv by (simp only: set_map Ball_def image_iff) blast
qed

lemma map_filter_Nil_iff: "List.map_filter f xs = [] \<longleftrightarrow> (\<forall>x\<in>set xs. f x = None)"
  by (induction xs) (auto simp: map_filter_simps split: option.splits)

lemma device_refusal_None:
  "device_refusal t a st x = None \<longleftrightarrow>
     nodeForAssignment t a x \<noteq> [] \<and> nodeForAssignment t a x |\<in>| cs_allNodeName st
     \<and> unknown_of st (nodeForAssignment t a x) = []"
  by (auto simp: device_refusal_def Let_def)

lemma strictAssignmentError_None:
  "strictAssignmentError t a st = None \<longleftrightarrow>
     (\<forall>x\<in>set (SortedDevices t). nodeForAssignment t a x \<noteq> [] \<and> nodeForAssignment t a x |\<in>| cs_allNodeName st
        \<and> unknown_of st (nodeForAssignment t a x) = [])
     \<and> overloads t a st = []"
proof -
  have "strictAssignmentError t a st = None \<longleftrightarrow>
      List.map_filter (device_refusal t a st) (SortedDevices t) = [] \<and> overloads t a st = []"
    by (simp add: strictAssignmentError_def split: list.splits)
  then show ?thesis
    by (simp add: map_filter_Nil_iff device_refusal_None)
qed

section \<open>The capacity state of a cluster\<close>

lemma add_node_names:
  assumes "set (cs_names st) \<subseteq> fset (cs_allNodeName st)"
  shows "set (cs_names (add_node l lab opts st nd)) \<subseteq> fset (cs_allNodeName (add_node l lab opts st nd))"
  using assms by (auto simp: add_node_def Let_def split: prod.splits option.splits if_splits)

lemma buildCapacityState_names: "set (cs_names (buildCapacityState l lab opts)) \<subseteq> fset (cs_allNodeName (buildCapacityState l lab opts))"
proof -
  have "set (cs_names (foldl (add_node l lab opts) st ns)) \<subseteq> fset (cs_allNodeName (foldl (add_node l lab opts) st ns))"
    if "set (cs_names st) \<subseteq> fset (cs_allNodeName st)" for st ns
    using that by (induction ns arbitrary: st) (simp_all add: add_node_names)
  from this [of empty_state "lb_Nodes l"] show ?thesis
    by (simp add: buildCapacityState_def empty_state_def Let_def)
qed

definition known_are_named :: "capacityState \<Rightarrow> bool" where
  "known_are_named st \<longleftrightarrow> (\<forall>n. n |\<in>| cs_allNodeName st \<and> unknown_of st n = [] \<longrightarrow> n \<in> set (cs_names st))"

lemma add_node_known:
  assumes "known_are_named st" "strictly opts"
  shows "known_are_named (add_node l lab opts st nd)"
  using assms by (auto simp: known_are_named_def add_node_def Let_def split: prod.splits option.splits if_splits)

lemma buildCapacityState_known:
  assumes "strictly opts"
  shows "known_are_named (buildCapacityState l lab opts)"
proof -
  have "known_are_named (foldl (add_node l lab opts) st ns)" if "known_are_named st" for st ns
    using that assms by (induction ns arbitrary: st) (simp_all add: add_node_known)
  from this [of empty_state "lb_Nodes l"] show ?thesis
    by (simp add: buildCapacityState_def empty_state_def known_are_named_def Let_def)
qed

section \<open>Waves are safe and complete\<close>

lemma workloadFits_within:
  assumes "workloadFits st loads w" "has_cap st n" "within_cap (cap_of st n) (load_of loads n)"
  shows "within_cap (cap_of st n) (load_of (addWorkload loads w) n)"
proof -
  have *: "within_cap (cap_of st n) (load_of (addWorkload loads w) n)
      \<longleftrightarrow> within_cap (cap_of st n) (add_demand (load_of loads n) (load_of w n))"
    by (rule within_cap_cong) (simp add: amount_addWorkload)
  show ?thesis
  proof (cases "n \<in> set (fm_keys w)")
    case True
    then have "fits (load_of loads n) (load_of w n) (cap_of st n) True"
      using assms(1,2) by (auto simp: workloadFits_def list_all_iff)
    then show ?thesis
      using assms(3) * fits_within by blast
  next
    case False
    then have "load_of w n = no_demand"
      by (simp add: get_or_def split: option.splits)
    then show ?thesis
      using assms(3) unfolding * by (simp add: within_cap_def)
  qed
qed

definition wave_ok :: "capacityState \<Rightarrow> int \<Rightarrow> Workload list \<Rightarrow> wave \<Rightarrow> bool" where
  "wave_ok st limit ws v \<longleftrightarrow>
     fst v \<noteq> [] \<and> int (length (fst v)) \<le> limit
     \<and> (\<forall>n k. amount k (load_of (snd v) n)
          = amount k (load_of (cs_baseline st) n) + (\<Sum>j\<leftarrow>fst v. amount k (load_of (ws ! j) n)))
     \<and> (\<forall>n\<in>set (cs_names st). has_cap st n \<longrightarrow> within_cap (cap_of st n) (load_of (snd v) n))"

definition baseline_ok :: "capacityState \<Rightarrow> bool" where
  "baseline_ok st \<longleftrightarrow>
     (\<forall>n\<in>set (cs_names st). has_cap st n \<longrightarrow> within_cap (cap_of st n) (load_of (cs_baseline st) n))"

lemma wave_ok_new:
  "\<lbrakk>baseline_ok st; workloadFits st (cs_baseline st) (ws ! i); 1 \<le> limit\<rbrakk>
     \<Longrightarrow> wave_ok st limit ws ([i], addWorkload (cs_baseline st) (ws ! i))"
  by (simp add: wave_ok_def baseline_ok_def amount_addWorkload workloadFits_within)

lemma wave_ok_add:
  "\<lbrakk>wave_ok st limit ws (is, loads); int (length is) < limit; workloadFits st loads (ws ! i)\<rbrakk>
     \<Longrightarrow> wave_ok st limit ws (is @ [i], addWorkload loads (ws ! i))"
  by (simp add: wave_ok_def amount_addWorkload workloadFits_within)

lemma place_in_wave_ok:
  assumes "place_in_wave st limit i (ws ! i) vs = Some vs'" "\<forall>v\<in>set vs. wave_ok st limit ws v"
  shows "(\<forall>v\<in>set vs'. wave_ok st limit ws v) \<and> mset (concat (map fst vs')) = add_mset i (mset (concat (map fst vs)))"
  using assms
proof (induction st limit i "ws ! i" vs arbitrary: vs' rule: place_in_wave.induct)
  case (2 st limit i "is" loads vs)
  show ?case
  proof (cases "int (length is) \<ge> limit \<or> \<not> workloadFits st loads (ws ! i)")
    case True
    then obtain vs'' where "place_in_wave st limit i (ws ! i) vs = Some vs''" "vs' = (is, loads) # vs''"
      using 2(2) by auto
    then show ?thesis
      using 2(1) [OF True] 2(3) by simp
  next
    case False
    then show ?thesis
      using 2(2,3) wave_ok_add [of st limit ws "is" loads i] by auto
  qed
qed simp

lemma pack_waves_ok:
  assumes "pack_waves st limit i (drop i ws) vs = Inr vs'" "i \<le> length ws" "baseline_ok st" "1 \<le> limit"
    and "\<forall>v\<in>set vs. wave_ok st limit ws v" "mset (concat (map fst vs)) = mset [0..<i]"
  shows "(\<forall>v\<in>set vs'. wave_ok st limit ws v) \<and> mset (concat (map fst vs')) = mset [0..<length ws]"
  using assms
proof (induction "length ws - i" arbitrary: i vs)
  case 0
  then show ?case
    by simp
next
  case (Suc m)
  then have i: "i < length ws"
    by simp
  then have d: "drop i ws = ws ! i # drop (Suc i) ws"
    by (simp add: Cons_nth_drop_Suc)
  have fit: "workloadFits st (cs_baseline st) (ws ! i)"
    using Suc.prems(1) by (auto simp: d split: if_splits)
  let ?vs = "case place_in_wave st limit i (ws ! i) vs of
      Some vs1 \<Rightarrow> vs1 | None \<Rightarrow> vs @ [([i], addWorkload (cs_baseline st) (ws ! i))]"
  have "pack_waves st limit (Suc i) (drop (Suc i) ws) ?vs = Inr vs'"
    using Suc.prems(1) fit by (auto simp: d split: option.splits)
  moreover have "(\<forall>v\<in>set ?vs. wave_ok st limit ws v) \<and> mset (concat (map fst ?vs)) = mset [0..<Suc i]"
    using Suc.prems(3-6) fit place_in_wave_ok [of st limit i ws vs] wave_ok_new [of st ws i limit]
    by (auto split: option.splits)
  ultimately show ?case
    using Suc.hyps(1) [of "Suc i" ?vs] Suc.hyps(2) Suc.prems(3,4) i by auto
qed

lemma ScheduleWaves_Inr:
  assumes "ScheduleWaves l inventory ws limit = Inr waves"
  shows "\<exists>vs. waves = map fst vs \<and> (\<forall>v\<in>set vs. wave_ok (scheduler_state l inventory) (max 1 limit) ws v)
    \<and> mset (concat waves) = mset [0..<length ws]"
proof -
  let ?st = "scheduler_state l inventory"
  have lim: "(if limit \<le> 0 then 1 else limit) = max 1 limit"
    by auto
  have "filter (\<lambda>n. \<not> fits no_demand (load_of (cs_baseline ?st) n) (cap_of ?st n) (has_cap ?st n)) (cs_names ?st) = []"
    and "\<exists>vs. pack_waves ?st (max 1 limit) 0 ws [] = Inr vs \<and> waves = map fst vs"
    using assms by (auto simp: ScheduleWaves_def Let_def lim bind_result_Inr_iff split: if_splits list.splits)
  moreover from this(1) have "baseline_ok ?st"
    by (auto simp: baseline_ok_def filter_empty_conv fits_alone)
  ultimately show ?thesis
    using pack_waves_ok [of ?st "max 1 limit" 0 ws "[]"] by auto
qed


section \<open>A small cluster\<close>

definition small_inventory :: "string \<Rightarrow> NodeInventory" where
  "small_inventory n = \<lparr>ni_Name = n,
     ni_Allocatable = \<lparr>cp_Containers = Some 4, cp_CPUs = Some 2, cp_MemoryBytes = Some (2 ^ 31), cp_DiskBytes = Some (2 ^ 31),
       cp_Pids = Some 4096, cp_FileDescriptors = Some 8192, cp_NetDevices = Some 64\<rparr>,
     ni_Reserved = no_demand, ni_ReservedByLab = fmempty, ni_Unlimited = []\<rparr>"

definition small_node :: "string \<Rightarrow> NodeSpec" where
  "small_node n = \<lparr>ns_Name = n, ns_Pool = [], ns_Capacity = None, ns_PlacementWeight = 0, ns_Front = False,
     ns_RuntimeClass = ''runc'', ns_UsernsMode = []\<rparr>"

definition small_lab :: PlaceLab where
  "small_lab = \<lparr>lb_Strategy = [], lb_Nodes = [small_node ''n1'', small_node ''n2''], lb_NodePool = [], lb_Pin = [],
     lb_Reserve = fmempty\<rparr>"

definition small_device :: "string \<Rightarrow> int \<Rightarrow> Device" where
  "small_device x asn = \<lparr>dv_ID = x, dv_Kind = KindHost, dv_ASN = asn, dv_NOS = [], dv_CPUs = 0, dv_Memory = [], dv_Pids = 0,
     dv_Requests = resource_request (1 / 10) [] 32 [] 256 2, dv_PlacementGroup = [], dv_Node = [], dv_RuntimeClass = [],
     dv_UsernsMode = []\<rparr>"

definition small_as :: "string \<Rightarrow> PlaceAS" where
  "small_as x = \<lparr>as_Role = [], as_Region = [], as_Devices = [x], as_Node = [], as_Distributable = False, as_PlacementGroups = []\<rparr>"

definition small_topology :: PlaceTopology where
  "small_topology = \<lparr>tp_Lab = small_lab, tp_Name = ''demo'',
     tp_Devices = fmap_of_list [(''a'', small_device ''a'' 1), (''b'', small_device ''b'' 2)],
     tp_Links = [(Some ''a'', Some ''b'')], tp_ASes = fmap_of_list [(1, small_as ''a''), (2, small_as ''b'')],
     tp_Services = fmempty\<rparr>"

definition small_options :: "Assignment option \<Rightarrow> PlaceOptions" where
  "small_options fixed = \<lparr>po_Strategy = [], po_Fixed = fixed, po_Rebalance = False,
     po_Inventory = [small_inventory ''n1'', small_inventory ''n2''], po_Strict = True, po_Overcommit = False,
     po_Unavailable = {||}\<rparr>"

definition small_workload :: "string \<Rightarrow> Workload" where
  "small_workload n = fmap_of_list [(n, no_demand\<lparr>dm_Containers := 3\<rparr>)]"

definition small_workloads :: "Workload list" where
  "small_workloads = [small_workload ''n1'', small_workload ''n1'', small_workload ''n2'']"

lemma small_waves:
  "ScheduleWaves small_lab [small_inventory ''n1'', small_inventory ''n2''] small_workloads 2 = Inr [[0, 2], [1]]"
  by code_simp


end
