(* ===== verification/Place_Search.thy ===== *)
theory Place_Search
  imports Place_Admission "HOL-Library.Product_Lexorder"
begin

text \<open>
  The search for a placement: the affinity graph, the order in which autonomous systems are placed, the
  greedy choice of a node and the local search that improves it.  \<open>internal/place/affinity.go\<close> and
  \<open>bestForLocality\<close> of \<open>internal/place/resources.go\<close>.  Loops over a Go map whose result does not depend on
  the order are loops over the sorted keys.
\<close>

section \<open>The affinity graph\<close>

record affinityGraph =
  ag_peers :: "(int, (int, int) fmap) fmap"
  ag_svc :: "(int, (string, int) fmap) fmap"
  ag_legacySvc :: "(int, int) fmap"

definition count_in :: "'b \<Rightarrow> ('b, int) fmap \<Rightarrow> ('b, int) fmap" where
  "count_in k m = fmupd k (get_or 0 m k + 1) m"

definition count_pair :: "'a \<Rightarrow> 'b \<Rightarrow> ('a, ('b, int) fmap) fmap \<Rightarrow> ('a, ('b, int) fmap) fmap" where
  "count_pair x y m = fmupd x (count_in y (get_or fmempty m x)) m"

definition service_pull :: "Device \<Rightarrow> int \<Rightarrow> affinityGraph \<Rightarrow> affinityGraph" where
  "service_pull service y g =
     (if dv_Node service \<noteq> [] then g\<lparr>ag_svc := count_pair y (dv_Node service) (ag_svc g)\<rparr>
      else g\<lparr>ag_legacySvc := count_in y (ag_legacySvc g)\<rparr>)"

definition add_link :: "PlaceTopology \<Rightarrow> affinityGraph \<Rightarrow> PlaceLink \<Rightarrow> affinityGraph" where
  "add_link t g l =
     (case (Option.bind (fst l) (device t), Option.bind (snd l) (device t)) of
        (Some a, Some b) \<Rightarrow>
          let x = dv_ASN a; y = dv_ASN b
          in if x = y then g
             else if x = 0 \<or> y = 0
             then (if x = 0 \<and> y \<noteq> 0 then service_pull a y g
                   else if y = 0 \<and> x \<noteq> 0 then service_pull b x g
                   else g)
             else g\<lparr>ag_peers := count_pair y x (count_pair x y (ag_peers g))\<rparr>
      | _ \<Rightarrow> g)"

definition buildAffinity :: "PlaceTopology \<Rightarrow> affinityGraph" where
  "buildAffinity t =
     foldl (add_link t) \<lparr>ag_peers = fmempty, ag_svc = fmempty, ag_legacySvc = fmempty\<rparr> (tp_Links t)"

definition peers_of :: "affinityGraph \<Rightarrow> int \<Rightarrow> (int, int) fmap" where
  "peers_of g x = get_or fmempty (ag_peers g) x"

definition peer_count :: "affinityGraph \<Rightarrow> int \<Rightarrow> int \<Rightarrow> int" where
  "peer_count g x y = get_or 0 (peers_of g x) y"

definition degree :: "affinityGraph \<Rightarrow> int \<Rightarrow> int" where
  "degree g asn = (\<Sum>p\<leftarrow>fm_keys (peers_of g asn). peer_count g asn p)"

definition svc_pull :: "affinityGraph \<Rightarrow> string \<Rightarrow> int \<Rightarrow> string \<Rightarrow> int" where
  "svc_pull g front asn n =
     get_or 0 (get_or fmempty (ag_svc g) asn) n + (if n = front then get_or 0 (ag_legacySvc g) asn else 0)"

definition pull :: "affinityGraph \<Rightarrow> int \<Rightarrow> string \<Rightarrow> (int, string) fmap \<Rightarrow> string \<Rightarrow> int" where
  "pull g asn n byAS front =
     (\<Sum>p\<leftarrow>fm_keys (peers_of g asn). if get_or [] byAS p = n then peer_count g asn p else 0) + svc_pull g front asn n"

section \<open>The order of placement\<close>

type_synonym weights = "(int, demand) fmap"

abbreviation weight_of :: "weights \<Rightarrow> int \<Rightarrow> demand" where
  "weight_of w x \<equiv> get_or no_demand w x"

record order_state =
  os_remaining :: "(int, bool) fmap"
  os_linked :: "(int, int) fmap"
  os_order :: "int list"

definition take_as :: "affinityGraph \<Rightarrow> int \<Rightarrow> order_state \<Rightarrow> order_state" where
  "take_as g x s =
     (let remaining = fmupd x False (os_remaining s)
      in s\<lparr>os_remaining := remaining, os_order := os_order s @ [x],
           os_linked := fold (\<lambda>p m. if get_or False remaining p then fmupd p (get_or 0 m p + peer_count g x p) m else m)
                             (fm_keys (peers_of g x)) (os_linked s)\<rparr>)"

definition better_next :: "weights \<Rightarrow> (int, int) fmap \<Rightarrow> int \<times> int \<times> int \<Rightarrow> int \<Rightarrow> int \<times> int \<times> int" where
  "better_next weight linked best asn =
     (case best of
        (next, bestLink, bestWeight) \<Rightarrow>
          let l = get_or 0 linked asn; w = dm_Containers (weight_of weight asn)
          in if l = 0 then best
             else if next = 0 \<or> l > bestLink \<or> (l = bestLink \<and> w > bestWeight)
               \<or> (l = bestLink \<and> w = bestWeight \<and> asn < next)
             then (asn, l, w) else best)"

definition next_as :: "weights \<Rightarrow> order_state \<Rightarrow> int" where
  "next_as weight s = fst (foldl (better_next weight (os_linked s)) (0, 0, 0) (fm_keys (os_remaining s)))"

text \<open>The inner loop, with fuel: None is a loop that has not ended.\<close>

fun grow :: "nat \<Rightarrow> affinityGraph \<Rightarrow> weights \<Rightarrow> order_state \<Rightarrow> order_state option" where
  "grow 0 g weight s = None"
| "grow (Suc fuel) g weight s =
     (let x = next_as weight s
      in if x = 0 then Some s
         else grow fuel g weight (take_as g x (s\<lparr>os_linked := fmdrop x (os_linked s)\<rparr>)))"

fun order_seeds :: "nat \<Rightarrow> affinityGraph \<Rightarrow> weights \<Rightarrow> int list \<Rightarrow> order_state \<Rightarrow> order_state option" where
  "order_seeds fuel g weight [] s = Some s"
| "order_seeds fuel g weight (x # xs) s =
     (if \<not> get_or False (os_remaining s) x then order_seeds fuel g weight xs s
      else (case grow fuel g weight (take_as g x s) of
              None \<Rightarrow> None
            | Some s' \<Rightarrow> order_seeds fuel g weight xs s'))"

definition orderForLocality :: "int list \<Rightarrow> affinityGraph \<Rightarrow> weights \<Rightarrow> int list option" where
  "orderForLocality free g weight =
     (let seeds = sort_key (\<lambda>x. (- degree g x, - dm_Containers (weight_of weight x), x)) free;
          s = \<lparr>os_remaining = fmap_of_list (map (\<lambda>x. (x, True)) free), os_linked = fmempty, os_order = []\<rparr>
      in map_option os_order (order_seeds (length free) g weight seeds s))"

section \<open>The greedy choice\<close>

record candidate_nodes =
  cl_names :: "string list"
  cl_caps :: "string \<Rightarrow> demand"
  cl_hasCap :: "string \<Rightarrow> bool"
  cl_weights :: "string \<Rightarrow> float64"
  cl_nominal :: int

definition node_pressure :: "candidate_nodes \<Rightarrow> demand \<Rightarrow> string \<Rightarrow> float64" where
  "node_pressure c l n = placementPressure l (cl_caps c n) (cl_hasCap c n) (cl_nominal c) (cl_weights c n)"

type_synonym candidate = "string \<times> float64 \<times> int"

definition candidates :: "candidate_nodes \<Rightarrow> loads \<Rightarrow> demand \<Rightarrow> (string \<Rightarrow> int) \<Rightarrow> candidate list" where
  "candidates c loads need localityOf =
     map (\<lambda>n. (n, node_pressure c (add_demand (load_of loads n) need) n, localityOf n))
       (filter (\<lambda>n. fits (load_of loads n) need (cl_caps c n) (cl_hasCap c n)) (cl_names c))"

fun least_pressure :: "candidate list \<Rightarrow> float64" where
  "least_pressure [] = 0"
| "least_pressure [(_, p, _)] = p"
| "least_pressure ((_, p, _) # cs) = min p (least_pressure cs)"

definition better_candidate :: "candidate option \<Rightarrow> candidate \<Rightarrow> candidate option" where
  "better_candidate best c =
     (case (best, c) of
        (None, _) \<Rightarrow> Some c
      | (Some (bn, bp, bl), (n, p, l)) \<Rightarrow>
          if l > bl \<or> (l = bl \<and> p < bp) \<or> (l = bl \<and> p = bp \<and> n < bn) then Some c else best)"

definition bestForLocality ::
  "candidate_nodes \<Rightarrow> loads \<Rightarrow> demand \<Rightarrow> float64 \<Rightarrow> (string \<Rightarrow> int) \<Rightarrow> string option" where
  "bestForLocality c loads need tolerance localityOf =
     (let cands = candidates c loads need localityOf;
          minP = least_pressure cands
      in if cands = [] then None
         else Some (case foldl better_candidate None (filter (\<lambda>(_, p, _). \<not> p > minP + tolerance) cands) of
                      None \<Rightarrow> [] | Some (n, _, _) \<Rightarrow> n))"

section \<open>Local search\<close>

record refine_state =
  rs_byAS :: "(int, string) fmap"
  rs_loads :: loads
  rs_moved :: nat
  rs_improved :: bool

definition at_most :: "candidate_nodes \<Rightarrow> float64 \<Rightarrow> demand \<Rightarrow> string \<Rightarrow> bool" where
  "at_most c ceil l n \<longleftrightarrow>
     fits no_demand l (cl_caps c n) (cl_hasCap c n) \<and> node_pressure c l n \<le> ceil + 1 / 10 ^ 9"

definition best_move ::
  "candidate_nodes \<Rightarrow> affinityGraph \<Rightarrow> weights \<Rightarrow> string \<Rightarrow> float64 \<Rightarrow> refine_state \<Rightarrow> int \<Rightarrow> int \<times> string" where
  "best_move c g weight front ceil s asn =
     (let from = get_or [] (rs_byAS s) asn
      in foldl (\<lambda>(gain, to) n.
                  if n = from then (gain, to)
                  else
                    (let delta = pull g asn n (rs_byAS s) front - pull g asn from (rs_byAS s) front
                     in if delta \<le> gain then (gain, to)
                        else if \<not> at_most c ceil (add_demand (load_of (rs_loads s) n) (weight_of weight asn)) n
                        then (gain, to)
                        else (delta, n)))
           (0, []) (cl_names c))"

definition move_as ::
  "candidate_nodes \<Rightarrow> affinityGraph \<Rightarrow> weights \<Rightarrow> string \<Rightarrow> float64 \<Rightarrow> int \<Rightarrow> refine_state \<Rightarrow> refine_state" where
  "move_as c g weight front ceil asn s =
     (let to = snd (best_move c g weight front ceil s asn);
          from = get_or [] (rs_byAS s) asn
      in if to = [] then s
         else s\<lparr>rs_byAS := fmupd asn to (rs_byAS s),
                rs_loads := charge to (weight_of weight asn) (discharge from (weight_of weight asn) (rs_loads s)),
                rs_improved := True, rs_moved := Suc (rs_moved s)\<rparr>)"

definition swap_as ::
  "candidate_nodes \<Rightarrow> affinityGraph \<Rightarrow> weights \<Rightarrow> string \<Rightarrow> float64 \<Rightarrow> int \<times> int \<Rightarrow> refine_state \<Rightarrow> refine_state" where
  "swap_as c g weight front ceil xy s =
     (let x = fst xy; y = snd xy;
          nx = get_or [] (rs_byAS s) x; ny = get_or [] (rs_byAS s) y
      in if nx = ny then s
         else
           (let old = pull g x nx (rs_byAS s) front + pull g y ny (rs_byAS s) front;
                swapped = fmupd y nx (fmupd x ny (rs_byAS s));
                new = pull g x ny swapped front + pull g y nx swapped front;
                lx = add_demand (sub_demand (load_of (rs_loads s) nx) (weight_of weight x)) (weight_of weight y);
                ly = add_demand (sub_demand (load_of (rs_loads s) ny) (weight_of weight y)) (weight_of weight x)
            in if new \<le> old then s
               else if \<not> at_most c ceil lx nx \<or> \<not> at_most c ceil ly ny then s
               else s\<lparr>rs_byAS := swapped, rs_loads := fmupd ny ly (fmupd nx lx (rs_loads s)),
                      rs_improved := True, rs_moved := Suc (rs_moved s)\<rparr>))"

fun ordered_pairs :: "'a list \<Rightarrow> ('a \<times> 'a) list" where
  "ordered_pairs [] = []"
| "ordered_pairs (x # xs) = map (Pair x) xs @ ordered_pairs xs"

definition refine_round ::
  "candidate_nodes \<Rightarrow> affinityGraph \<Rightarrow> weights \<Rightarrow> string \<Rightarrow> float64 \<Rightarrow> int list \<Rightarrow> refine_state \<Rightarrow> refine_state" where
  "refine_round c g weight front ceil movable s =
     fold (swap_as c g weight front ceil) (ordered_pairs movable)
       (fold (move_as c g weight front ceil) movable (s\<lparr>rs_improved := False\<rparr>))"

fun refine_rounds ::
  "nat \<Rightarrow> candidate_nodes \<Rightarrow> affinityGraph \<Rightarrow> weights \<Rightarrow> string \<Rightarrow> float64 \<Rightarrow> int list \<Rightarrow> refine_state \<Rightarrow> refine_state" where
  "refine_rounds 0 c g weight front ceil movable s = s"
| "refine_rounds (Suc r) c g weight front ceil movable s =
     (let s' = refine_round c g weight front ceil movable s
      in if \<not> rs_improved s' then s' else refine_rounds r c g weight front ceil movable s')"

definition refine ::
  "candidate_nodes \<Rightarrow> (int, string) fmap \<Rightarrow> affinityGraph \<Rightarrow> weights \<Rightarrow> loads \<Rightarrow> (int, string) fmap \<Rightarrow> string \<Rightarrow> float64
     \<Rightarrow> refine_state" where
  "refine c byAS g weight loads pinned front tolerance =
     (let movable = filter (\<lambda>x. fmlookup pinned x = None) (fm_keys byAS);
          ceil = foldl (\<lambda>m n. max m (node_pressure c (load_of loads n) n)) 0 (cl_names c) + tolerance;
          s = \<lparr>rs_byAS = byAS, rs_loads = loads, rs_moved = 0, rs_improved = False\<rparr>
      in if length movable < 2 then s
         else refine_rounds 8 c g weight front ceil movable s)"

section \<open>The order is a permutation\<close>

definition waiting :: "order_state \<Rightarrow> int set" where
  "waiting s = {x. get_or False (os_remaining s) x}"

definition order_inv :: "int set \<Rightarrow> order_state \<Rightarrow> bool" where
  "order_inv A s \<longleftrightarrow>
     set (fm_keys (os_remaining s)) = A \<and> waiting s \<subseteq> A
     \<and> distinct (os_order s) \<and> set (os_order s) = A - waiting s
     \<and> (\<forall>x. get_or 0 (os_linked s) x \<noteq> 0 \<longrightarrow> x \<in> waiting s)"

lemma better_next_fold:
  assumes "fst b = 0 \<or> P (fst b)" "\<And>x. x \<in> set xs \<Longrightarrow> get_or 0 linked x \<noteq> 0 \<Longrightarrow> P x"
  shows "fst (foldl (better_next weight linked) b xs) = 0 \<or> P (fst (foldl (better_next weight linked) b xs))"
  using assms by (induction xs arbitrary: b) (auto simp: better_next_def Let_def split: prod.splits)

lemma better_next_keeps:
  assumes "fst b \<noteq> 0" "0 \<notin> set xs"
  shows "fst (foldl (better_next weight linked) b xs) \<noteq> 0"
  using assms by (induction xs arbitrary: b) (auto simp: better_next_def Let_def split: prod.splits)

lemma better_next_finds:
  assumes "x \<in> set xs" "get_or 0 linked x \<noteq> 0" "0 \<notin> set xs"
  shows "fst (foldl (better_next weight linked) b xs) \<noteq> 0"
  using assms
proof (induction xs arbitrary: b)
  case (Cons y ys)
  show ?case
  proof (cases "y = x")
    case True
    have "fst (better_next weight linked b x) \<noteq> 0"
      using Cons.prems True by (cases b) (auto simp: better_next_def Let_def)
    then show ?thesis
      using better_next_keeps [of "better_next weight linked b x" ys] Cons.prems(3) True by simp
  qed (use Cons in auto)
qed simp

lemma next_as_waiting:
  assumes "order_inv A s" "next_as weight s \<noteq> 0"
  shows "next_as weight s \<in> waiting s"
  using better_next_fold [of "(0, 0, 0)" "\<lambda>x. x \<in> waiting s"] assms
  unfolding next_as_def order_inv_def by (metis fst_conv)

lemma order_inv_keys: "order_inv A s \<Longrightarrow> set (fm_keys (os_remaining s)) = A"
  unfolding order_inv_def by blast

lemma order_inv_linked: "\<lbrakk>order_inv A s; get_or 0 (os_linked s) x \<noteq> 0\<rbrakk> \<Longrightarrow> x \<in> waiting s"
  unfolding order_inv_def by blast

lemma order_inv_waiting: "order_inv A s \<Longrightarrow> waiting s \<subseteq> A"
  unfolding order_inv_def by blast

lemma next_as_none:
  assumes "order_inv A s" "next_as weight s = 0" "0 \<notin> A"
  shows "get_or 0 (os_linked s) x = 0"
proof (rule ccontr)
  assume *: "get_or 0 (os_linked s) x \<noteq> 0"
  then have "x \<in> set (fm_keys (os_remaining s))"
    using order_inv_linked [OF assms(1)] order_inv_waiting [OF assms(1)] order_inv_keys [OF assms(1)] by blast
  moreover have "0 \<notin> set (fm_keys (os_remaining s))"
    using assms(3) order_inv_keys [OF assms(1)] by blast
  ultimately show False
    using better_next_finds [OF _ *] assms(2) unfolding next_as_def by blast
qed

lemma linked_fold:
  assumes "get_or 0 (fold (\<lambda>p m. if get_or False remaining p then fmupd p (get_or 0 m p + f p) m else m) ps m) x \<noteq> (0::int)"
  shows "get_or 0 m x \<noteq> 0 \<or> get_or False remaining x"
  using assms
proof (induction ps arbitrary: m)
  case (Cons p ps)
  have "get_or 0 (if get_or False remaining p then fmupd p (get_or 0 m p + f p) m else m) x \<noteq> 0
      \<or> get_or False remaining x"
    by (rule Cons.IH [OF Cons.prems [unfolded fold_simps]])
  then show ?case
    by (cases "p = x") (simp_all split: if_splits)
qed simp

lemma waiting_take: "waiting (take_as g x s) = waiting s - {x}"
  by (auto simp: take_as_def waiting_def Let_def)

lemma linked_take:
  assumes "get_or 0 (os_linked (take_as g x s)) y \<noteq> 0"
  shows "get_or 0 (os_linked s) y \<noteq> 0 \<or> y \<in> waiting s - {x}"
proof -
  have "get_or 0 (os_linked s) y \<noteq> 0 \<or> get_or False (fmupd x False (os_remaining s)) y"
    by (rule linked_fold [of _ "peer_count g x" "fm_keys (peers_of g x)"]) (use assms in \<open>simp add: take_as_def Let_def\<close>)
  then show ?thesis
    by (cases "x = y") (simp_all add: waiting_def)
qed

lemma take_inv:
  assumes "order_inv A s" "x \<in> waiting s" "waiting s' = waiting s" "os_remaining s' = os_remaining s"
    and "os_order s' = os_order s" "\<And>y. get_or 0 (os_linked s') y \<noteq> 0 \<Longrightarrow> y \<in> waiting s - {x}"
  shows "order_inv A (take_as g x s')"
proof -
  have "y \<in> waiting s - {x}" if "get_or 0 (os_linked (take_as g x s')) y \<noteq> 0" for y
    using linked_take [OF that] assms(3,6) by blast
  moreover have "set (fm_keys (os_remaining (take_as g x s'))) = insert x A"
    using order_inv_keys [OF assms(1)] assms(4) by (auto simp: take_as_def Let_def)
  moreover have "insert x A = A" "set (os_order s) = A - waiting s" "distinct (os_order s)" "waiting s \<subseteq> A"
    using assms(1,2) unfolding order_inv_def by blast+
  moreover have "os_order (take_as g x s') = os_order s @ [x]"
    using assms(5) by (simp add: take_as_def Let_def)
  ultimately show ?thesis
    using assms(2,3) unfolding order_inv_def waiting_take by auto
qed

lemma take_as_inv:
  assumes "order_inv A s" "x \<in> waiting s"
  shows "order_inv A (take_as g x (s\<lparr>os_linked := fmdrop x (os_linked s)\<rparr>))"
proof (rule take_inv [OF assms])
  show "y \<in> waiting s - {x}" if "get_or 0 (os_linked (s\<lparr>os_linked := fmdrop x (os_linked s)\<rparr>)) y \<noteq> 0" for y
    using that order_inv_linked [OF assms(1)] by (simp split: if_splits)
qed (simp_all add: waiting_def)

lemma take_seed_inv:
  assumes "order_inv A s" "x \<in> waiting s" "get_or 0 (os_linked s) x = 0"
  shows "order_inv A (take_as g x s)"
proof (rule take_inv [OF assms(1,2)])
  show "y \<in> waiting s - {x}" if "get_or 0 (os_linked s) y \<noteq> 0" for y
    using that assms(3) order_inv_linked [OF assms(1)] by blast
qed simp_all

lemma waiting_finite: "order_inv A s \<Longrightarrow> finite (waiting s)"
  unfolding order_inv_def using finite_subset by (metis List.finite_set)

lemma grow_ends:
  assumes "order_inv A s" "0 \<notin> A" "card (waiting s) < fuel"
  shows "\<exists>s'. grow fuel g weight s = Some s' \<and> order_inv A s' \<and> (\<forall>x. get_or 0 (os_linked s') x = 0)
    \<and> waiting s' \<subseteq> waiting s"
  using assms
proof (induction fuel arbitrary: s)
  case (Suc fuel)
  let ?x = "next_as weight s"
  show ?case
  proof (cases "?x = 0")
    case True
    then show ?thesis
      using Suc.prems next_as_none by (auto simp: Let_def)
  next
    case False
    let ?s = "take_as g ?x (s\<lparr>os_linked := fmdrop ?x (os_linked s)\<rparr>)"
    have x: "?x \<in> waiting s"
      using next_as_waiting [OF Suc.prems(1) False] .
    have w: "waiting ?s = waiting s - {?x}"
      unfolding waiting_take by (simp add: waiting_def)
    have "card (waiting ?s) < fuel"
      using Suc.prems(3) x waiting_finite [OF Suc.prems(1)] card_Diff1_less [of "waiting s" ?x] unfolding w by simp
    then show ?thesis
      using Suc.IH [OF take_as_inv [OF Suc.prems(1) x] Suc.prems(2)] w False by (fastforce simp: Let_def)
  qed
qed simp

lemma order_seeds_ends:
  assumes "order_inv A s" "0 \<notin> A" "card A \<le> fuel" "\<forall>x. get_or 0 (os_linked s) x = 0"
  shows "\<exists>s'. order_seeds fuel g weight xs s = Some s' \<and> order_inv A s' \<and> waiting s' \<subseteq> waiting s - set xs"
  using assms(1,4)
proof (induction xs arbitrary: s)
  case (Cons x xs)
  show ?case
  proof (cases "x \<in> waiting s")
    case True
    have A: "finite A"
      using Cons.prems(1) unfolding order_inv_def by (metis List.finite_set)
    have i: "order_inv A (take_as g x s)"
      using take_seed_inv [OF Cons.prems(1) True] Cons.prems(2) by simp
    have "waiting s - {x} \<subset> A"
      using order_inv_waiting [OF Cons.prems(1)] True by blast
    then have "card (waiting (take_as g x s)) < card A"
      unfolding waiting_take by (rule psubset_card_mono [OF A])
    then have "card (waiting (take_as g x s)) < fuel"
      using assms(3) by simp
    then obtain s1 where s1: "grow fuel g weight (take_as g x s) = Some s1" "order_inv A s1"
      "\<forall>x. get_or 0 (os_linked s1) x = 0" "waiting s1 \<subseteq> waiting s - {x}"
      using grow_ends [OF i assms(2)] unfolding waiting_take by blast
    then show ?thesis
      using Cons.IH [OF s1(2,3)] True by (auto simp: waiting_def)
  next
    case False
    then show ?thesis
      using Cons.IH [OF Cons.prems] by (auto simp: waiting_def)
  qed
qed simp

lemma orderForLocality_permutes:
  assumes "distinct free" "0 \<notin> set free"
  shows "\<exists>order. orderForLocality free g weight = Some order \<and> mset order = mset free"
proof -
  let ?s = "\<lparr>os_remaining = fmap_of_list (map (\<lambda>x. (x, True)) free), os_linked = fmempty, os_order = []\<rparr>"
  let ?seeds = "sort_key (\<lambda>x. (- degree g x, - dm_Containers (weight_of weight x), x)) free"
  have look: "fmlookup (fmap_of_list (map (\<lambda>x. (x, True)) free)) x = (if x \<in> set free then Some True else None)" for x
    by (simp add: fmap_of_list.rep_eq map_of_map_restrict [unfolded restrict_map_def] map_of_map o_def)
  have w: "waiting ?s = set free"
    by (auto simp: waiting_def get_or_def look split: if_splits)
  have "order_inv (set free) ?s"
    using w by (auto simp: order_inv_def look split: if_splits)
  then obtain s' where s': "order_seeds (length free) g weight ?seeds ?s = Some s'" "order_inv (set free) s'"
    "waiting s' \<subseteq> waiting ?s - set ?seeds"
    using order_seeds_ends [of "set free" ?s "length free" g weight ?seeds] assms
    by (auto simp: distinct_card)
  then have "waiting s' = {}"
    by (simp add: w)
  then have "distinct (os_order s')" "set (os_order s') = set free"
    using s'(2) by (auto simp: order_inv_def)
  then have "mset (os_order s') = mset free"
    using assms(1) set_eq_iff_mset_eq_distinct by blast
  then show ?thesis
    using s'(1) by (simp add: orderForLocality_def Let_def)
qed

section \<open>The affinity graph is symmetric\<close>

definition symmetric :: "affinityGraph \<Rightarrow> bool" where
  "symmetric g \<longleftrightarrow> (\<forall>x y. peer_count g x y = peer_count g y x) \<and> (\<forall>x. peer_count g x x = 0)"

lemma get_count_pair:
  "get_or 0 (get_or fmempty (count_pair x y m) u) v = get_or 0 (get_or fmempty m u) v + (if u = x \<and> v = y then 1 else 0)"
  by (simp add: count_pair_def count_in_def)

lemma peer_count_count:
  "peer_count (g\<lparr>ag_peers := count_pair y x (count_pair x y (ag_peers g))\<rparr>) u v
     = peer_count g u v + (if u = x \<and> v = y then 1 else 0) + (if u = y \<and> v = x then 1 else 0)"
  by (simp add: peer_count_def peers_of_def get_count_pair)

lemma peer_count_service [simp]: "peer_count (service_pull d y g) = peer_count g"
  by (intro ext) (simp add: service_pull_def peer_count_def peers_of_def)

lemma symmetric_service: "symmetric (service_pull d y g) \<longleftrightarrow> symmetric g"
  by (simp add: symmetric_def)

lemma symmetric_count:
  "\<lbrakk>symmetric g; x \<noteq> y\<rbrakk> \<Longrightarrow> symmetric (g\<lparr>ag_peers := count_pair y x (count_pair x y (ag_peers g))\<rparr>)"
  unfolding symmetric_def peer_count_count by simp

lemma add_link_symmetric: "symmetric g \<Longrightarrow> symmetric (add_link t g l)"
  unfolding add_link_def Let_def
  by (split option.split prod.split | simp add: symmetric_service symmetric_count)+

lemma buildAffinity_symmetric: "symmetric (buildAffinity t)"
proof -
  have "symmetric (foldl (add_link t) g ls)" if "symmetric g" for g ls
    using that by (induction ls arbitrary: g) (simp_all add: add_link_symmetric)
  then show ?thesis
    by (simp add: buildAffinity_def symmetric_def peer_count_def peers_of_def)
qed

section \<open>Local search keeps more links local\<close>

text \<open>Links kept inside a node, each counted from both of its ends; a service link counts twice.\<close>

definition kept :: "affinityGraph \<Rightarrow> string \<Rightarrow> (int, string) fmap \<Rightarrow> int" where
  "kept g front byAS =
     (\<Sum>x\<leftarrow>fm_keys byAS. pull g x (get_or [] byAS x) byAS front + svc_pull g front x (get_or [] byAS x))"

lemma sum_fun_upd:
  fixes h :: "'b \<Rightarrow> 'a \<Rightarrow> 'c::ab_group_add"
  assumes "finite A" "x \<in> A"
  shows "(\<Sum>u\<in>A. h (if u = x then m else f u) u) = (\<Sum>u\<in>A. h (f u) u) - h (f x) x + h m x"
  using assms by (simp add: sum.remove [OF assms])

lemma sum_list_keys: "(\<Sum>x\<leftarrow>fm_keys m. f x) = (\<Sum>x\<in>set (fm_keys m). f x)"
  using sum_list_distinct_conv_sum_set [OF fm_keys_distinct] by blast

lemma get_or_upd_fun: "get_or z (fmupd x n m) = (\<lambda>u. if u = x then n else get_or z m u)"
  by auto

lemma pull_upd:
  "pull g y m (fmupd x n byAS) front
     = pull g y m byAS front - (if get_or [] byAS x = m then peer_count g y x else 0) + (if n = m then peer_count g y x else 0)"
proof (cases "x \<in> set (fm_keys (peers_of g y))")
  case True
  then show ?thesis
    unfolding pull_def sum_list_keys get_or_upd_fun
    by (simp only: sum_fun_upd [OF List.finite_set True, of "\<lambda>a p. if a = m then peer_count g y p else 0" n "get_or [] byAS"])
next
  case False
  then have "peer_count g y x = 0"
    by (simp add: peer_count_def get_or_def split: option.splits)
  moreover have "(\<Sum>p\<leftarrow>fm_keys (peers_of g y). if get_or [] (fmupd x n byAS) p = m then peer_count g y p else 0)
      = (\<Sum>p\<leftarrow>fm_keys (peers_of g y). if get_or [] byAS p = m then peer_count g y p else 0)"
    using False by (intro arg_cong [of _ _ sum_list] map_cong) auto
  ultimately show ?thesis
    unfolding pull_def by simp
qed

lemma pull_over_keys:
  assumes "n \<noteq> []"
  shows "pull g x n byAS front
       = (\<Sum>p\<in>set (fm_keys byAS). if get_or [] byAS p = n then peer_count g x p else 0) + svc_pull g front x n"
proof -
  let ?f = "\<lambda>p. if get_or [] byAS p = n then peer_count g x p else 0"
  have out: "?f p = 0" if "p \<notin> set (fm_keys byAS)" for p
    using that assms by (auto simp: get_or_def split: option.splits)
  have out': "?f p = 0" if "p \<notin> set (fm_keys (peers_of g x))" for p
    using that by (auto simp: peer_count_def get_or_def split: option.splits)
  have "sum ?f (set (fm_keys (peers_of g x))) = sum ?f (set (fm_keys (peers_of g x)) \<inter> set (fm_keys byAS))"
    by (rule sum.mono_neutral_right) (use out in blast)+
  also have "\<dots> = sum ?f (set (fm_keys byAS))"
    by (rule sum.mono_neutral_left) (use out' in blast)+
  finally show ?thesis
    unfolding pull_def sum_list_keys by simp
qed

lemma kept_move:
  assumes g: "symmetric g" and x: "x \<in> set (fm_keys byAS)" and n: "n \<noteq> []" "get_or [] byAS x \<noteq> []"
  shows "kept g front (fmupd x n byAS)
       = kept g front byAS + 2 * (pull g x n byAS front - pull g x (get_or [] byAS x) byAS front)"
proof -
  let ?at = "get_or [] byAS" and ?A = "set (fm_keys byAS)"
  let ?h = "\<lambda>a u. pull g u a byAS front + svc_pull g front u a"
  let ?in = "\<lambda>m. \<Sum>u\<in>?A. if ?at u = m then peer_count g x u else 0"
  have keys: "set (fm_keys (fmupd x n byAS)) = ?A"
    using x by auto
  have self: "peer_count g x x = 0" and sym: "peer_count g u x = peer_count g x u" for u
    using g by (simp_all add: symmetric_def)
  have "kept g front (fmupd x n byAS) = (\<Sum>u\<in>?A. ?h (if u = x then n else ?at u) u
      + ((if n = (if u = x then n else ?at u) then peer_count g x u else 0)
         - (if ?at x = (if u = x then n else ?at u) then peer_count g x u else 0)))"
    unfolding kept_def sum_list_keys keys pull_upd get_or_upd_fun sym by (simp add: algebra_simps)
  also have "\<dots> = (\<Sum>u\<in>?A. ?h (if u = x then n else ?at u) u) + (?in n - ?in (?at x))"
    unfolding sum.distrib sum_subtractf by (intro arg_cong2 [of _ _ _ _ "(+)"] arg_cong2 [of _ _ _ _ "(-)"] sum.cong refl) (auto simp: self)
  also have "(\<Sum>u\<in>?A. ?h (if u = x then n else ?at u) u) = kept g front byAS - ?h (?at x) x + ?h n x"
    unfolding kept_def sum_list_keys by (rule sum_fun_upd [OF List.finite_set x, of ?h n ?at])
  finally show ?thesis
    using pull_over_keys [OF n(1), of g x byAS front] pull_over_keys [OF n(2), of g x byAS front] by simp
qed

lemma pull_swap:
  assumes g: "symmetric g" and xy: "get_or [] byAS x \<noteq> get_or [] byAS y"
    and k: "x \<in> set (fm_keys byAS)" "y \<in> set (fm_keys byAS)" "get_or [] byAS x \<noteq> []" "get_or [] byAS y \<noteq> []"
  defines "swapped \<equiv> fmupd y (get_or [] byAS x) (fmupd x (get_or [] byAS y) byAS)"
  shows "kept g front swapped = kept g front byAS
    + 2 * (pull g x (get_or [] byAS y) swapped front + pull g y (get_or [] byAS x) swapped front
           - (pull g x (get_or [] byAS x) byAS front + pull g y (get_or [] byAS y) byAS front))"
proof -
  let ?nx = "get_or [] byAS x" and ?ny = "get_or [] byAS y"
  let ?one = "fmupd x ?ny byAS"
  have ne: "x \<noteq> y"
    using xy by auto
  have self: "peer_count g u u = 0" and sym: "peer_count g y x = peer_count g x y" for u
    using g by (simp_all add: symmetric_def)
  have one: "kept g front ?one = kept g front byAS + 2 * (pull g x ?ny byAS front - pull g x ?nx byAS front)"
    by (rule kept_move [OF g k(1,4,3)])
  have y: "get_or [] ?one y = ?ny"
    using ne by simp
  have "y \<in> set (fm_keys ?one)"
    using k(2) by auto
  then have "kept g front swapped = kept g front ?one + 2 * (pull g y ?nx ?one front - pull g y ?ny ?one front)"
    using kept_move [OF g, of y ?one ?nx front] k(3,4) ne unfolding swapped_def y by simp
  moreover have "pull g x ?ny swapped front = pull g x ?ny byAS front - peer_count g x y"
    unfolding swapped_def pull_upd using xy ne by (simp add: self)
  moreover have "pull g y ?nx swapped front = pull g y ?nx ?one front"
    unfolding swapped_def pull_upd [of _ _ _ y] by (simp add: self)
  moreover have "pull g y ?ny ?one front = pull g y ?ny byAS front + peer_count g x y"
    unfolding pull_upd using xy by (simp add: sym)
  ultimately show ?thesis
    using one by (simp add: algebra_simps)
qed

text \<open>What a run of local search owes: the same autonomous systems, those that may not move where they
  were, every other on a node that was in use or is a candidate; each node's load changed by exactly the
  systems that came and went; at least two more ends of links kept local for every move; and no node
  taken over its capacity.\<close>

definition charged :: "weights \<Rightarrow> (int, string) fmap \<Rightarrow> dimension \<Rightarrow> string \<Rightarrow> rat" where
  "charged weight byAS k n = (\<Sum>x\<in>set (fm_keys byAS). if get_or [] byAS x = n then amount k (weight_of weight x) else 0)"

definition all_placed :: "int set \<Rightarrow> refine_state \<Rightarrow> bool" where
  "all_placed A s \<longleftrightarrow> set (fm_keys (rs_byAS s)) = A \<and> (\<forall>x\<in>A. get_or [] (rs_byAS s) x \<noteq> [])"

definition within_all :: "candidate_nodes \<Rightarrow> loads \<Rightarrow> bool" where
  "within_all c loads \<longleftrightarrow> (\<forall>n. cl_hasCap c n \<longrightarrow> within_cap (cl_caps c n) (load_of loads n))"

definition improves ::
  "candidate_nodes \<Rightarrow> affinityGraph \<Rightarrow> weights \<Rightarrow> string \<Rightarrow> int set \<Rightarrow> int set \<Rightarrow> refine_state \<Rightarrow> refine_state \<Rightarrow> bool" where
  "improves c g weight front A M s s' \<longleftrightarrow>
     (all_placed A s \<longrightarrow>
        all_placed A s'
        \<and> (\<forall>x. x \<notin> M \<longrightarrow> get_or [] (rs_byAS s') x = get_or [] (rs_byAS s) x)
        \<and> (\<forall>x\<in>A. get_or [] (rs_byAS s') x \<in> set (cl_names c) \<union> get_or [] (rs_byAS s) ` A)
        \<and> (\<forall>k n. amount k (load_of (rs_loads s') n) - charged weight (rs_byAS s') k n
              = amount k (load_of (rs_loads s) n) - charged weight (rs_byAS s) k n)
        \<and> rs_moved s \<le> rs_moved s'
        \<and> kept g front (rs_byAS s) + 2 * (int (rs_moved s') - int (rs_moved s)) \<le> kept g front (rs_byAS s')
        \<and> (within_all c (rs_loads s) \<longrightarrow> within_all c (rs_loads s')))"

lemma improves_refl [simp]: "improves c g weight front A M s s"
  by (auto simp: improves_def)

lemma improves_trans:
  assumes "improves c g weight front A M s s'" "improves c g weight front A M s' s''"
  shows "improves c g weight front A M s s''"
  unfolding improves_def
proof
  assume p: "all_placed A s"
  note one = assms(1) [unfolded improves_def, THEN mp, OF p]
  note two = assms(2) [unfolded improves_def, THEN mp, OF conjunct1 [OF one]]
  have n1: "\<forall>x\<in>A. get_or [] (rs_byAS s') x \<in> set (cl_names c) \<union> get_or [] (rs_byAS s) ` A"
    using one by (elim conjE)
  have n2: "\<forall>x\<in>A. get_or [] (rs_byAS s'') x \<in> set (cl_names c) \<union> get_or [] (rs_byAS s') ` A"
    using two by (elim conjE)
  have "\<forall>x\<in>A. get_or [] (rs_byAS s'') x \<in> set (cl_names c) \<union> get_or [] (rs_byAS s) ` A"
  proof
    fix x
    assume "x \<in> A"
    then consider "get_or [] (rs_byAS s'') x \<in> set (cl_names c)" | y where "y \<in> A" "get_or [] (rs_byAS s'') x = get_or [] (rs_byAS s') y"
      using n2 by auto
    then show "get_or [] (rs_byAS s'') x \<in> set (cl_names c) \<union> get_or [] (rs_byAS s) ` A"
      using n1 by cases simp_all
  qed
  then show "all_placed A s''
      \<and> (\<forall>x. x \<notin> M \<longrightarrow> get_or [] (rs_byAS s'') x = get_or [] (rs_byAS s) x)
      \<and> (\<forall>x\<in>A. get_or [] (rs_byAS s'') x \<in> set (cl_names c) \<union> get_or [] (rs_byAS s) ` A)
      \<and> (\<forall>k n. amount k (load_of (rs_loads s'') n) - charged weight (rs_byAS s'') k n
            = amount k (load_of (rs_loads s) n) - charged weight (rs_byAS s) k n)
      \<and> rs_moved s \<le> rs_moved s''
      \<and> kept g front (rs_byAS s) + 2 * (int (rs_moved s'') - int (rs_moved s)) \<le> kept g front (rs_byAS s'')
      \<and> (within_all c (rs_loads s) \<longrightarrow> within_all c (rs_loads s''))"
    using one two by simp
qed

lemma improves_fold:
  assumes "\<And>x s. x \<in> set xs \<Longrightarrow> improves c g weight front A M s (f x s)"
  shows "improves c g weight front A M s (fold f xs s)"
  using assms by (induction xs arbitrary: s) (auto intro: improves_trans)

lemma improves_flag [simp]:
  "improves c g weight front A M s (s'\<lparr>rs_improved := b\<rparr>) \<longleftrightarrow> improves c g weight front A M s s'"
  "improves c g weight front A M (s\<lparr>rs_improved := b\<rparr>) s' \<longleftrightarrow> improves c g weight front A M s s'"
  by (simp_all add: improves_def all_placed_def)

lemma charged_upd:
  assumes "x \<in> set (fm_keys byAS)"
  shows "charged weight (fmupd x m byAS) k n = charged weight byAS k n
    - (if get_or [] byAS x = n then amount k (weight_of weight x) else 0) + (if m = n then amount k (weight_of weight x) else 0)"
proof -
  have keys: "set (fm_keys (fmupd x m byAS)) = set (fm_keys byAS)"
    using assms by auto
  show ?thesis
    unfolding charged_def keys get_or_upd_fun
    by (rule sum_fun_upd [OF List.finite_set assms, of "\<lambda>a u. if a = n then amount k (weight_of weight u) else 0"])
qed

lemma best_move_spec:
  assumes "snd (best_move c g weight front ceil s asn) \<noteq> []"
  defines "to \<equiv> snd (best_move c g weight front ceil s asn)" and "from \<equiv> get_or [] (rs_byAS s) asn"
  shows "to \<in> set (cl_names c) \<and> to \<noteq> from
    \<and> pull g asn from (rs_byAS s) front < pull g asn to (rs_byAS s) front
    \<and> at_most c ceil (add_demand (load_of (rs_loads s) to) (weight_of weight asn)) to"
proof -
  let ?step = "\<lambda>(gain, to) n.
      if n = from then (gain, to)
      else
        (let delta = pull g asn n (rs_byAS s) front - pull g asn from (rs_byAS s) front
         in if delta \<le> gain then (gain, to)
            else if \<not> at_most c ceil (add_demand (load_of (rs_loads s) n) (weight_of weight asn)) n then (gain, to)
            else (delta, n))"
  let ?good = "\<lambda>b. 0 \<le> fst b \<and> (snd b \<noteq> [] \<longrightarrow> snd b \<in> set (cl_names c) \<and> snd b \<noteq> from
      \<and> pull g asn from (rs_byAS s) front < pull g asn (snd b) (rs_byAS s) front
      \<and> at_most c ceil (add_demand (load_of (rs_loads s) (snd b)) (weight_of weight asn)) (snd b))"
  have good: "?good (foldl ?step b ns)" if "?good b" "set ns \<subseteq> set (cl_names c)" for b ns
    using that
  proof (induction ns arbitrary: b)
    case (Cons n ns)
    have "?good (?step b n)"
      using Cons.prems by (cases b) (auto simp: Let_def)
    then show ?case
      using Cons.IH Cons.prems(2) by simp
  qed simp
  have "?good (foldl ?step (0, []) (cl_names c))"
    by (rule good) simp_all
  then show ?thesis
    using assms(1) unfolding best_move_def to_def from_def Let_def by simp
qed

lemma move_as_improves:
  assumes "symmetric g" "asn \<in> M" "M \<subseteq> A" "\<And>x. demand_ok (weight_of weight x)"
  shows "improves c g weight front A M s (move_as c g weight front ceil asn s)"
proof (cases "snd (best_move c g weight front ceil s asn) = []")
  case True
  then show ?thesis
    by (simp add: move_as_def)
next
  case False
  let ?to = "snd (best_move c g weight front ceil s asn)" and ?from = "get_or [] (rs_byAS s) asn"
  let ?w = "weight_of weight asn"
  let ?s = "move_as c g weight front ceil asn s"
  note spec = best_move_spec [OF False]
  have s': "rs_byAS ?s = fmupd asn ?to (rs_byAS s)" "rs_moved ?s = Suc (rs_moved s)"
    "rs_loads ?s = charge ?to ?w (discharge ?from ?w (rs_loads s))"
    using False by (simp_all add: move_as_def Let_def)
  show ?thesis
    unfolding improves_def
  proof (intro impI conjI)
    assume placed: "all_placed A s"
    then have asn: "asn \<in> set (fm_keys (rs_byAS s))" and old: "?from \<noteq> []"
      using assms(2,3) unfolding all_placed_def by blast+
    show "all_placed A ?s"
      using placed asn False unfolding all_placed_def s' by auto
    show "\<forall>x. x \<notin> M \<longrightarrow> get_or [] (rs_byAS ?s) x = get_or [] (rs_byAS s) x"
      using assms(2) unfolding s' by auto
    show "\<forall>x\<in>A. get_or [] (rs_byAS ?s) x \<in> set (cl_names c) \<union> get_or [] (rs_byAS s) ` A"
      using spec unfolding s' by auto
    show "\<forall>k n. amount k (load_of (rs_loads ?s) n) - charged weight (rs_byAS ?s) k n
        = amount k (load_of (rs_loads s) n) - charged weight (rs_byAS s) k n"
      unfolding s' charged_upd [OF asn] amount_charge amount_discharge by auto
    show "rs_moved s \<le> rs_moved ?s"
      unfolding s' by simp
    show "kept g front (rs_byAS s) + 2 * (int (rs_moved ?s) - int (rs_moved s)) \<le> kept g front (rs_byAS ?s)"
      using spec unfolding s' kept_move [OF assms(1) asn False old] by simp
    assume w: "within_all c (rs_loads s)"
    show "within_all c (rs_loads ?s)"
      unfolding within_all_def
    proof (intro allI impI)
      fix n
      assume has: "cl_hasCap c n"
      show "within_cap (cl_caps c n) (load_of (rs_loads ?s) n)"
        using has w spec assms(4) [of asn] within_cap_smaller
        by (auto simp: s' charge_def discharge_def within_all_def at_most_def fits_alone)
    qed
  qed
qed

lemma swap_as_improves:
  assumes "symmetric g" "x \<in> M" "y \<in> M" "M \<subseteq> A"
  shows "improves c g weight front A M s (swap_as c g weight front ceil (x, y) s)"
proof (cases "swap_as c g weight front ceil (x, y) s = s")
  case True
  then show ?thesis
    by simp
next
  case False
  let ?nx = "get_or [] (rs_byAS s) x" and ?ny = "get_or [] (rs_byAS s) y"
  let ?wx = "weight_of weight x" and ?wy = "weight_of weight y"
  let ?lx = "add_demand (sub_demand (load_of (rs_loads s) ?nx) ?wx) ?wy"
  let ?ly = "add_demand (sub_demand (load_of (rs_loads s) ?ny) ?wy) ?wx"
  let ?swapped = "fmupd y ?nx (fmupd x ?ny (rs_byAS s))"
  let ?s = "swap_as c g weight front ceil (x, y) s"
  have ne: "?nx \<noteq> ?ny"
    and gain: "pull g x ?nx (rs_byAS s) front + pull g y ?ny (rs_byAS s) front
      < pull g x ?ny ?swapped front + pull g y ?nx ?swapped front"
    and room: "at_most c ceil ?lx ?nx" "at_most c ceil ?ly ?ny"
    and s': "rs_byAS ?s = ?swapped" "rs_moved ?s = Suc (rs_moved s)" "rs_loads ?s = fmupd ?ny ?ly (fmupd ?nx ?lx (rs_loads s))"
    using False by (auto simp: swap_as_def Let_def split: if_splits)
  show ?thesis
    unfolding improves_def
  proof (intro impI conjI)
    assume placed: "all_placed A s"
    then have keys: "x \<in> set (fm_keys (rs_byAS s))" "y \<in> set (fm_keys (rs_byAS s))" "?nx \<noteq> []" "?ny \<noteq> []"
      using assms(2-4) unfolding all_placed_def by blast+
    have y: "y \<in> set (fm_keys (fmupd x ?ny (rs_byAS s)))" and yx: "get_or [] (fmupd x ?ny (rs_byAS s)) y = ?ny"
      using keys(2) by auto
    show "all_placed A ?s"
      using placed keys unfolding all_placed_def s' by auto
    show "\<forall>z. z \<notin> M \<longrightarrow> get_or [] (rs_byAS ?s) z = get_or [] (rs_byAS s) z"
      using assms(2,3) unfolding s' by auto
    show "\<forall>z\<in>A. get_or [] (rs_byAS ?s) z \<in> set (cl_names c) \<union> get_or [] (rs_byAS s) ` A"
      using assms(2-4) unfolding s' by auto
    show "\<forall>k n. amount k (load_of (rs_loads ?s) n) - charged weight (rs_byAS ?s) k n
        = amount k (load_of (rs_loads s) n) - charged weight (rs_byAS s) k n"
      unfolding s' charged_upd [OF y] charged_upd [OF keys(1)] yx using ne by auto
    show "rs_moved s \<le> rs_moved ?s"
      unfolding s' by simp
    show "kept g front (rs_byAS s) + 2 * (int (rs_moved ?s) - int (rs_moved s)) \<le> kept g front (rs_byAS ?s)"
      using gain unfolding s' pull_swap [OF assms(1) ne keys] by simp
    assume "within_all c (rs_loads s)"
    then show "within_all c (rs_loads ?s)"
      using room unfolding within_all_def s' by (auto simp: at_most_def fits_alone)
  qed
qed

lemma set_pairs: "set (ordered_pairs xs) \<subseteq> set xs \<times> set xs"
  by (induction xs) auto

lemma refine_round_improves:
  assumes "symmetric g" "set movable = M" "M \<subseteq> A" "\<And>x. demand_ok (weight_of weight x)"
  shows "improves c g weight front A M s (refine_round c g weight front ceil movable s)"
proof -
  have "improves c g weight front A M s (fold (move_as c g weight front ceil) movable (s\<lparr>rs_improved := False\<rparr>))"
    using improves_fold [of movable c g weight front A M "move_as c g weight front ceil" "s\<lparr>rs_improved := False\<rparr>"]
      move_as_improves assms by auto
  moreover have "improves c g weight front A M s' (fold (swap_as c g weight front ceil) (ordered_pairs movable) s')" for s'
  proof (rule improves_fold)
    fix xy s
    assume "xy \<in> set (ordered_pairs movable)"
    then have "fst xy \<in> M" "snd xy \<in> M"
      using set_pairs [of movable] assms(2) by auto
    then show "improves c g weight front A M s (swap_as c g weight front ceil xy s)"
      using swap_as_improves [OF assms(1) _ _ assms(3), of "fst xy" "snd xy"] by simp
  qed
  ultimately show ?thesis
    unfolding refine_round_def using improves_trans by blast
qed

lemma refine_rounds_improves:
  assumes "symmetric g" "set movable = M" "M \<subseteq> A" "\<And>x. demand_ok (weight_of weight x)"
  shows "improves c g weight front A M s (refine_rounds r c g weight front ceil movable s)"
proof (induction r arbitrary: s)
  case (Suc r)
  have "improves c g weight front A M s (refine_round c g weight front ceil movable s)"
    by (rule refine_round_improves [OF assms])
  then show ?case
    using improves_trans [OF _ Suc.IH] by (simp add: Let_def)
qed simp

lemma refine_improves:
  assumes "symmetric g" "\<And>x. demand_ok (weight_of weight x)"
  shows "improves c g weight front (set (fm_keys byAS)) {x \<in> set (fm_keys byAS). fmlookup pinned x = None}
    \<lparr>rs_byAS = byAS, rs_loads = loads, rs_moved = 0, rs_improved = False\<rparr>
    (refine c byAS g weight loads pinned front tolerance)"
proof -
  let ?movable = "filter (\<lambda>x. fmlookup pinned x = None) (fm_keys byAS)"
  have m: "set ?movable = {x \<in> set (fm_keys byAS). fmlookup pinned x = None}"
    by (rule set_filter)
  have "improves c g weight front (set (fm_keys byAS)) {x \<in> set (fm_keys byAS). fmlookup pinned x = None} s
      (refine_rounds r c g weight front ceil ?movable s)" for r ceil s
    by (rule refine_rounds_improves [OF assms(1) m _ assms(2)]) blast
  then show ?thesis
    unfolding refine_def Let_def by (simp del: set_fm_keys)
qed


definition small_cluster :: candidate_nodes where
  "small_cluster = \<lparr>cl_names = [''n1'', ''n2''], cl_caps = (\<lambda>_. no_demand\<lparr>dm_Containers := 4\<rparr>), cl_hasCap = (\<lambda>_. True),
     cl_weights = (\<lambda>_. 1), cl_nominal = 4\<rparr>"

definition small_byAS :: "(int, string) fmap" where
  "small_byAS = fmap_of_list [(1, ''n1''), (2, ''n2'')]"

definition small_weights :: weights where
  "small_weights = fmap_of_list [(1, no_demand\<lparr>dm_Containers := 1\<rparr>), (2, no_demand\<lparr>dm_Containers := 1\<rparr>)]"

definition small_loads :: loads where
  "small_loads = fmap_of_list [(''n1'', no_demand\<lparr>dm_Containers := 1\<rparr>), (''n2'', no_demand\<lparr>dm_Containers := 1\<rparr>)]"

definition small_refined :: refine_state where
  "small_refined = refine small_cluster small_byAS (buildAffinity small_topology) small_weights small_loads fmempty ''n1'' 1"


section \<open>The greedy choice is sound\<close>

lemma better_candidate_in:
  "foldl better_candidate b cs = Some x \<Longrightarrow> x \<in> set cs \<or> b = Some x"
  by (induction cs arbitrary: b) (auto simp: better_candidate_def split: option.splits prod.splits if_splits)

lemma better_candidate_Some:
  "b \<noteq> None \<or> cs \<noteq> [] \<Longrightarrow> foldl better_candidate b cs \<noteq> None"
proof (induction cs arbitrary: b)
  case (Cons x cs)
  have "better_candidate b x \<noteq> None"
    by (cases x; cases b) (auto simp: better_candidate_def)
  then show ?case
    using Cons.IH by simp
qed simp

lemma least_pressure_attained: "cs \<noteq> [] \<Longrightarrow> \<exists>c\<in>set cs. fst (snd c) = least_pressure cs"
  by (induction cs rule: least_pressure.induct) (auto simp: min_def)

text \<open>The node chosen is a candidate and has room.\<close>

lemma bestForLocality_fits:
  assumes "bestForLocality c loads need tolerance f = Some n" "0 \<le> tolerance"
  shows "n \<in> set (cl_names c) \<and> fits (load_of loads n) need (cl_caps c n) (cl_hasCap c n)"
proof -
  let ?cs = "candidates c loads need f"
  let ?near = "filter (\<lambda>(_, p, _). \<not> p > least_pressure ?cs + tolerance) ?cs"
  have ne: "?cs \<noteq> []"
    using assms(1) by (auto simp: bestForLocality_def Let_def split: if_splits)
  obtain x where "x \<in> set ?cs" "fst (snd x) = least_pressure ?cs"
    using least_pressure_attained [OF ne] by blast
  then have "x \<in> set ?near"
    using assms(2) by (cases x) auto
  then have "?near \<noteq> []"
    by (rule list.set_cases) simp_all
  then obtain y where y: "foldl better_candidate None ?near = Some y"
    using better_candidate_Some [of None ?near] by blast
  then have "y \<in> set ?cs"
    using better_candidate_in [OF y] by auto
  moreover have "n = fst y"
    using assms(1) y ne by (auto simp: bestForLocality_def Let_def split: prod.splits)
  ultimately show ?thesis
    by (auto simp: candidates_def)
qed

lemma bestForLocality_None:
  "bestForLocality c loads need tolerance f = None \<longleftrightarrow>
     (\<forall>n\<in>set (cl_names c). \<not> fits (load_of loads n) need (cl_caps c n) (cl_hasCap c n))"
  by (auto simp: bestForLocality_def Let_def candidates_def filter_empty_conv)

end
