(* ===== verification/Placement.thy ===== *)
theory Placement
  imports Place_Search
begin

text \<open>
  \<open>Place\<close> and what it calls: services and their replicas, pins and recorded placements, the greedy pass
  with its local search, the controlled split of a distributable fabric, strict admission and the
  stamping of devices.  \<open>internal/place/place.go\<close>, \<open>services.go\<close> and \<open>groups.go\<close>.
\<close>

section \<open>Choosing a node by pressure\<close>

definition lighter :: "candidate_nodes \<Rightarrow> loads \<Rightarrow> demand \<Rightarrow> (string \<times> float64) option \<Rightarrow> string \<Rightarrow> (string \<times> float64) option" where
  "lighter c loads need best n =
     (let p = node_pressure c (add_demand (load_of loads n) need) n
      in case best of
           None \<Rightarrow> Some (n, p)
         | Some (b, bp) \<Rightarrow> if p < bp then Some (n, p) else best)"

definition bestGroupNode :: "candidate_nodes \<Rightarrow> loads \<Rightarrow> demand \<Rightarrow> string" where
  "bestGroupNode c loads need =
     (case foldl (lighter c loads need) None
             (filter (\<lambda>n. fits (load_of loads n) need (cl_caps c n) (cl_hasCap c n)) (cl_names c)) of
        Some (n, _) \<Rightarrow> n
      | None \<Rightarrow>
          (case foldl (lighter c loads need) None (cl_names c) of
             Some (n, _) \<Rightarrow> n
           | None \<Rightarrow> []))"

definition bestServiceNode :: "candidate_nodes \<Rightarrow> loads \<Rightarrow> demand \<Rightarrow> string" where
  "bestServiceNode c loads need = bestGroupNode (c\<lparr>cl_weights := (\<lambda>_. 0)\<rparr>) loads need"

section \<open>Services\<close>

datatype moved_entry =
    MovedAS int string
  | MovedService string string string
  | MovedGroup string string

definition stringsFirstReplica :: "string \<Rightarrow> bool" where
  "stringsFirstReplica replica \<longleftrightarrow> has_suffix replica ''/replica-001'' \<or> has_suffix replica ''/shard-001''"

definition recorded_service :: "Assignment \<Rightarrow> string \<Rightarrow> string \<Rightarrow> string" where
  "recorded_service fixed service replica =
     (if replica \<noteq> []
      then (let recorded = get_or [] (a_ByServiceReplica fixed) replica
            in if recorded = [] \<and> get_or [] (a_ByService fixed) service \<noteq> [] \<and> stringsFirstReplica replica
               then get_or [] (a_ByService fixed) service else recorded)
      else get_or [] (a_ByService fixed) service)"

definition serviceNode ::
  "candidate_nodes \<Rightarrow> PlaceOptions \<Rightarrow> string \<Rightarrow> loads \<Rightarrow> string \<Rightarrow> string \<Rightarrow> string \<Rightarrow> string \<Rightarrow> demand
     \<Rightarrow> (place_error, string \<times> moved_entry list) result" where
  "serviceNode c opts front loads service replica home pin need =
     (let recorded = (case po_Fixed opts of
                        None \<Rightarrow> []
                      | Some fixed \<Rightarrow> if po_Rebalance opts then [] else recorded_service fixed service replica)
      in if cl_names c = [] then Inl (ServiceWithoutNode service)
         else if pin \<noteq> []
         then (if pin \<notin> set (cl_names c) then Inl (ServicePinnedElsewhere service pin) else Inr (pin, []))
         else if recorded \<noteq> []
         then (if recorded \<in> set (cl_names c) then Inr (recorded, [])
               else Inr (bestServiceNode c loads need, [MovedService service replica recorded]))
         else if home \<noteq> [] \<and> home \<in> set (cl_names c) \<and> fits (load_of loads home) need (cl_caps c home) (cl_hasCap c home)
         then Inr (home, [])
         else if replica = [] \<and> front \<noteq> [] \<and> front \<in> set (cl_names c) then Inr (front, [])
         else Inr (bestServiceNode c loads need, []))"

record place_state =
  ps_a :: Assignment
  ps_loads :: loads
  ps_moved :: "moved_entry list"

definition device_of :: "PlaceTopology \<Rightarrow> string option \<Rightarrow> demand" where
  "device_of t od = deviceDemand (Option.bind od (device t))"

definition charge_present :: "PlaceTopology \<Rightarrow> string \<Rightarrow> string option \<Rightarrow> loads \<Rightarrow> loads" where
  "charge_present t n od m = (case od of None \<Rightarrow> m | Some x \<Rightarrow> charge n (deviceDemand (device t x)) m)"

definition placeReplica ::
  "PlaceTopology \<Rightarrow> candidate_nodes \<Rightarrow> PlaceOptions \<Rightarrow> string \<Rightarrow> string \<Rightarrow> PlaceService \<Rightarrow> string \<Rightarrow> place_state \<Rightarrow> ServiceReplica
     \<Rightarrow> (place_error, place_state) result" where
  "placeReplica t c opts front name service pin s r =
     (let home = (if po_Rebalance opts \<and> \<not> sv_PerNode service then [] else sr_HomeNode r)
      in bind_result (serviceNode c opts front (ps_loads s) name (sr_ID r) home pin (device_of t (sr_Device r)))
           (\<lambda>(node, moved).
              let a = ps_a s;
                  a = a\<lparr>a_ByServiceReplica := fmupd (sr_ID r) node (a_ByServiceReplica a)\<rparr>;
                  a = (if get_or [] (a_ByService a) name = [] then a\<lparr>a_ByService := fmupd name node (a_ByService a)\<rparr> else a)
              in Inr \<lparr>ps_a = a, ps_loads = charge_present t node (sr_Device r) (ps_loads s),
                      ps_moved = ps_moved s @ moved\<rparr>))"

fun fold_result :: "('s \<Rightarrow> 'x \<Rightarrow> ('e, 's) result) \<Rightarrow> 's \<Rightarrow> 'x list \<Rightarrow> ('e, 's) result" where
  "fold_result f s [] = Inr s"
| "fold_result f s (x # xs) = bind_result (f s x) (\<lambda>s'. fold_result f s' xs)"

definition placeService ::
  "PlaceTopology \<Rightarrow> candidate_nodes \<Rightarrow> PlaceOptions \<Rightarrow> string \<Rightarrow> (string, string) fmap \<Rightarrow> place_state \<Rightarrow> string
     \<Rightarrow> (place_error, place_state) result" where
  "placeService t c opts front pinned s name =
     (case fmlookup (tp_Services t) name of
        None \<Rightarrow> Inr s
      | Some service \<Rightarrow>
          let pin = (if get_or [] pinned name = [] then sv_Node service else get_or [] pinned name);
              replicas = SortedReplicas service
          in if replicas = []
             then bind_result (serviceNode c opts front (ps_loads s) name [] [] pin (device_of t (sv_Device service)))
                    (\<lambda>(node, moved).
                       Inr \<lparr>ps_a = (ps_a s)\<lparr>a_ByService := fmupd name node (a_ByService (ps_a s))\<rparr>,
                            ps_loads = charge_present t node (sv_Device service) (ps_loads s),
                            ps_moved = ps_moved s @ moved\<rparr>)
             else fold_result (placeReplica t c opts front name service pin) s replicas)"

definition placeServices ::
  "PlaceTopology \<Rightarrow> candidate_nodes \<Rightarrow> PlaceOptions \<Rightarrow> string \<Rightarrow> (string, string) fmap \<Rightarrow> place_state
     \<Rightarrow> (place_error, place_state) result" where
  "placeServices t c opts front pinned s = fold_result (placeService t c opts front pinned) s (SortedServiceNames t)"

definition serviceDevices :: "PlaceService \<Rightarrow> string list" where
  "serviceDevices s =
     (if sv_Replicas s = [] then (case sv_Device s of None \<Rightarrow> [] | Some x \<Rightarrow> [x])
      else List.map_filter sr_Device (SortedReplicas s))"

section \<open>Placement groups\<close>

definition devices_demand :: "PlaceTopology \<Rightarrow> string list \<Rightarrow> demand" where
  "devices_demand t xs = sum_demand (map (\<lambda>x. deviceDemand (device t x)) xs)"

definition groupDemand :: "PlaceTopology \<Rightarrow> PlacementGroup \<Rightarrow> demand" where
  "groupDemand t g = devices_demand t (pg_Devices g)"

definition placementAnchorDemand :: "PlaceTopology \<Rightarrow> PlaceAS \<Rightarrow> demand" where
  "placementAnchorDemand t a =
     (let out = sum_demand (map (groupDemand t) (filter (\<lambda>g. pg_Class g \<noteq> ''leaf'') (as_PlacementGroups a)))
      in if empty_demand out then foldl add_demand out (map (\<lambda>x. deviceDemand (device t x)) (as_Devices a)) else out)"

definition charge_as :: "PlaceTopology \<Rightarrow> Assignment \<Rightarrow> loads \<Rightarrow> int \<Rightarrow> loads" where
  "charge_as t a m asn =
     (case fmlookup (tp_ASes t) asn of
        None \<Rightarrow> m
      | Some as \<Rightarrow> foldl (\<lambda>m x. charge (get_or [] (a_ByAS a) asn) (deviceDemand (device t x)) m) m (as_Devices as))"

definition charge_service :: "PlaceTopology \<Rightarrow> Assignment \<Rightarrow> loads \<Rightarrow> string \<Rightarrow> loads" where
  "charge_service t a m name =
     (case fmlookup (tp_Services t) name of
        None \<Rightarrow> m
      | Some s \<Rightarrow> foldl (\<lambda>m x. charge (serviceReplicaNode t a x) (deviceDemand (device t x)) m) m (serviceDevices s))"

definition placementDemands :: "PlaceTopology \<Rightarrow> Assignment \<Rightarrow> loads \<Rightarrow> loads" where
  "placementDemands t a baseline =
     foldl (charge_service t a) (foldl (charge_as t a) baseline (SortedASNs t)) (SortedServiceNames t)"

definition recorded_group :: "PlaceOptions \<Rightarrow> string \<Rightarrow> string option" where
  "recorded_group opts gid =
     (case po_Fixed opts of
        None \<Rightarrow> None
      | Some fixed \<Rightarrow> if po_Rebalance opts then None else fmlookup (a_ByGroup fixed) gid)"

definition recorded_as :: "PlaceOptions \<Rightarrow> int \<Rightarrow> string option" where
  "recorded_as opts asn =
     (case po_Fixed opts of
        None \<Rightarrow> None
      | Some fixed \<Rightarrow> if po_Rebalance opts then None else fmlookup (a_ByAS fixed) asn)"

definition fixed_group :: "candidate_nodes \<Rightarrow> PlaceOptions \<Rightarrow> string \<Rightarrow> string option" where
  "fixed_group c opts gid =
     (case recorded_group opts gid of
        None \<Rightarrow> None
      | Some n \<Rightarrow> if n \<in> set (cl_names c) then Some n else None)"

definition moved_groups :: "candidate_nodes \<Rightarrow> PlaceOptions \<Rightarrow> PlacementGroup list \<Rightarrow> moved_entry list" where
  "moved_groups c opts gs =
     List.map_filter (\<lambda>g. case recorded_group opts (pg_ID g) of
                            None \<Rightarrow> None
                          | Some n \<Rightarrow> if n \<in> set (cl_names c) then None else Some (MovedGroup (pg_ID g) n)) gs"

text \<open>The loops over the anchor groups and over the leaf groups of one fabric.\<close>

fun place_anchors ::
  "PlaceTopology \<Rightarrow> candidate_nodes \<Rightarrow> PlaceOptions \<Rightarrow> PlacementGroup list \<Rightarrow> string \<Rightarrow> place_state \<Rightarrow> string \<times> place_state" where
  "place_anchors t c opts [] anchor s = (anchor, s)"
| "place_anchors t c opts (g # gs) anchor s =
     (let n = (case fixed_group c opts (pg_ID g) of Some r \<Rightarrow> r | None \<Rightarrow> anchor)
      in place_anchors t c opts gs n
           (s\<lparr>ps_a := (ps_a s)\<lparr>a_ByGroup := fmupd (pg_ID g) n (a_ByGroup (ps_a s))\<rparr>,
              ps_loads := charge n (groupDemand t g) (ps_loads s)\<rparr>))"

fun place_leaves ::
  "PlaceTopology \<Rightarrow> candidate_nodes \<Rightarrow> PlaceOptions \<Rightarrow> PlacementGroup list \<Rightarrow> place_state \<Rightarrow> place_state" where
  "place_leaves t c opts [] s = s"
| "place_leaves t c opts (g # gs) s =
     (let n = (case fixed_group c opts (pg_ID g) of
                 Some r \<Rightarrow> r
               | None \<Rightarrow> bestGroupNode c (ps_loads s) (groupDemand t g))
      in place_leaves t c opts gs
           (s\<lparr>ps_a := (ps_a s)\<lparr>a_ByGroup := fmupd (pg_ID g) n (a_ByGroup (ps_a s))\<rparr>,
              ps_loads := charge n (groupDemand t g) (ps_loads s)\<rparr>))"

definition splitAS ::
  "PlaceTopology \<Rightarrow> candidate_nodes \<Rightarrow> PlaceOptions \<Rightarrow> int fset \<Rightarrow> place_state \<Rightarrow> int \<Rightarrow> (place_error, place_state) result" where
  "splitAS t c opts explicitPinned s asn =
     (case fmlookup (tp_ASes t) asn of
        None \<Rightarrow> Inr s
      | Some as \<Rightarrow>
          let groups = SortedPlacementGroups as
          in if \<not> as_Distributable as \<or> length groups < 2 then Inr s
             else
               (let s = s\<lparr>ps_moved := ps_moved s @ moved_groups c opts groups\<rparr>;
                    hasFixedGroup = list_ex (\<lambda>g. recorded_group opts (pg_ID g) \<noteq> None) groups;
                    hasFixedAS = (recorded_as opts asn \<noteq> None)
                in if asn |\<in>| explicitPinned \<or> (hasFixedAS \<and> \<not> hasFixedGroup) then Inr s
                   else
                     (case fmlookup (a_ByAS (ps_a s)) asn of
                        None \<Rightarrow> Inl (NoAnchor asn)
                      | Some anchor \<Rightarrow>
                          if anchor \<notin> set (cl_names c) then Inl (NoAnchor asn)
                          else
                            (let s = s\<lparr>ps_loads := foldl (\<lambda>m g. discharge anchor (groupDemand t g) m) (ps_loads s) groups\<rparr>;
                                 anchors = filter (\<lambda>g. pg_Class g \<noteq> ''leaf'') groups;
                                 leaves = filter (\<lambda>g. pg_Class g = ''leaf'') groups;
                                 (anchors, leaves) = (if anchors = [] then (take 1 groups, drop 1 groups) else (anchors, leaves));
                                 (anchor, s) = place_anchors t c opts anchors anchor s;
                                 s = s\<lparr>ps_a := (ps_a s)\<lparr>a_ByAS := fmupd asn anchor (a_ByAS (ps_a s))\<rparr>\<rparr>
                             in Inr (place_leaves t c opts leaves s)))))"

definition distributePlacementGroups ::
  "PlaceTopology \<Rightarrow> candidate_nodes \<Rightarrow> PlaceOptions \<Rightarrow> int fset \<Rightarrow> loads \<Rightarrow> Assignment
     \<Rightarrow> (place_error, Assignment \<times> moved_entry list) result" where
  "distributePlacementGroups t c opts explicitPinned baseline a =
     (if length (cl_names c) < 2 then Inr (a, [])
      else
        bind_result (fold_result (splitAS t c opts explicitPinned)
            \<lparr>ps_a = a, ps_loads = placementDemands t a baseline, ps_moved = []\<rparr> (SortedASNs t))
          (\<lambda>s. Inr (ps_a s, ps_moved s)))"

section \<open>Stamping devices\<close>

definition finish_node :: "PlaceTopology \<Rightarrow> Assignment \<Rightarrow> string \<Rightarrow> Device \<Rightarrow> (place_error, string) result" where
  "finish_node t a x d =
     (if dv_ASN d > 0
      then (case fmlookup (a_ByGroup a) (dv_PlacementGroup d) of
              Some n \<Rightarrow> Inr n
            | None \<Rightarrow>
                (case fmlookup (a_ByAS a) (dv_ASN d) of
                   Some n \<Rightarrow> Inr n
                 | None \<Rightarrow> Inl (UnplacedDevice x)))
      else (let node = serviceReplicaNode t a x in Inr (if node \<noteq> [] then node else FrontNode (tp_Lab t))))"

definition stamp :: "PlaceTopology \<Rightarrow> Assignment \<Rightarrow> PlaceTopology \<Rightarrow> string \<Rightarrow> (place_error, PlaceTopology) result" where
  "stamp t a t' x =
     (case device t' x of
        None \<Rightarrow> Inr t'
      | Some d \<Rightarrow>
          bind_result (finish_node t a x d)
            (\<lambda>n. Inr (t'\<lparr>tp_Devices := fmupd x (d\<lparr>dv_Node := n\<rparr>) (tp_Devices t')\<rparr>)))"

definition harden :: "PlaceTopology \<Rightarrow> string \<Rightarrow> (place_error, PlaceTopology) result" where
  "harden t x =
     (case device t x of
        None \<Rightarrow> Inr t
      | Some d \<Rightarrow>
          (case NodeByName (tp_Lab t) (dv_Node d) of
             None \<Rightarrow> Inl (UnknownNode x (dv_Node d))
           | Some node \<Rightarrow>
               let d = (if dv_RuntimeClass d = [] then d\<lparr>dv_RuntimeClass := ns_RuntimeClass node\<rparr> else d);
                   d = (if dv_UsernsMode d = [] then d\<lparr>dv_UsernsMode := ns_UsernsMode node\<rparr> else d)
               in Inr (t\<lparr>tp_Devices := fmupd x d (tp_Devices t)\<rparr>)))"

definition finish :: "PlaceTopology \<Rightarrow> Assignment \<Rightarrow> (place_error, PlaceTopology) result" where
  "finish t a =
     bind_result (fold_result (stamp t a) t (SortedDevices t))
       (\<lambda>t'. fold_result harden t' (SortedDevices t'))"

section \<open>Place\<close>

definition nodeInPool :: "PlaceLab \<Rightarrow> string \<Rightarrow> bool" where
  "nodeInPool l name =
     (case NodeByName l name of
        None \<Rightarrow> False
      | Some node \<Rightarrow> lb_NodePool l = [] \<or> ns_Pool node = lb_NodePool l)"

definition usable :: "PlaceLab \<Rightarrow> PlaceOptions \<Rightarrow> string \<Rightarrow> bool" where
  "usable l opts n \<longleftrightarrow> n |\<notin>| po_Unavailable opts \<and> nodeInPool l n"

definition front_of :: "PlaceLab \<Rightarrow> PlaceOptions \<Rightarrow> string" where
  "front_of l opts =
     (if usable l opts (FrontNode l) then FrontNode l
      else (case find (\<lambda>n. usable l opts (ns_Name n)) (lb_Nodes l) of
              Some n \<Rightarrow> ns_Name n
            | None \<Rightarrow> FrontNode l))"

definition strategy_of :: "PlaceLab \<Rightarrow> PlaceOptions \<Rightarrow> string" where
  "strategy_of l opts =
     (if po_Strategy opts \<noteq> [] then po_Strategy opts
      else if lb_Strategy l \<noteq> [] then lb_Strategy l else ''pack-by-as'')"

definition nodePlacementWeight :: "PlaceLab \<Rightarrow> string list \<Rightarrow> string \<Rightarrow> float64" where
  "nodePlacementWeight l names n =
     (if n \<notin> set names then 0
      else (case NodeByName l n of
              None \<Rightarrow> 1
            | Some node \<Rightarrow> if ns_PlacementWeight node > 0 then ns_PlacementWeight node else 1))"

definition cluster_of :: "PlaceTopology \<Rightarrow> capacityState \<Rightarrow> candidate_nodes" where
  "cluster_of t st =
     \<lparr>cl_names = cs_names st, cl_caps = get_or no_demand (cs_caps st), cl_hasCap = get_or False (cs_hasCap st),
      cl_weights = nodePlacementWeight (tp_Lab t) (cs_names st),
      cl_nominal = nominalCapacity (cs_names st) (get_or no_demand (cs_caps st)) (get_or False (cs_hasCap st))
                     (int (length (SortedDevices t)))\<rparr>"

definition pin_matches :: "PinMatch \<Rightarrow> int \<Rightarrow> PlaceAS \<Rightarrow> bool" where
  "pin_matches m asn as \<longleftrightarrow>
     \<not> (pm_AS m \<noteq> None \<and> pm_AS m \<noteq> Some asn) \<and> \<not> (pm_Role m \<noteq> [] \<and> pm_Role m \<noteq> as_Role as)
     \<and> \<not> (pm_Region m \<noteq> [] \<and> pm_Region m \<noteq> as_Region as)
     \<and> \<not> (pm_AS m = None \<and> pm_Role m = [] \<and> pm_Region m = [])"

definition pin_as :: "PlaceTopology \<Rightarrow> PinMatch \<times> string \<Rightarrow> (int, string) fmap \<Rightarrow> int \<Rightarrow> (int, string) fmap" where
  "pin_as t p m asn =
     (case fmlookup (tp_ASes t) asn of
        None \<Rightarrow> m
      | Some as \<Rightarrow> if pin_matches (fst p) asn as then fmupd asn (snd p) m else m)"

definition self_pin :: "PlaceTopology \<Rightarrow> (int, string) fmap \<Rightarrow> int \<Rightarrow> (int, string) fmap" where
  "self_pin t m asn =
     (case fmlookup (tp_ASes t) asn of
        None \<Rightarrow> m
      | Some as \<Rightarrow> if as_Node as \<noteq> [] then fmupd asn (as_Node as) m else m)"

definition explicit_pins :: "PlaceTopology \<Rightarrow> (int, string) fmap" where
  "explicit_pins t =
     foldl (self_pin t) (foldl (\<lambda>m p. foldl (pin_as t p) m (SortedASNs t)) fmempty (lb_Pin (tp_Lab t))) (SortedASNs t)"

definition service_pins :: "PlaceTopology \<Rightarrow> (string, string) fmap" where
  "service_pins t =
     foldl (\<lambda>m p. if pm_Service (fst p) = [] then m
                  else foldl (\<lambda>m s. if pm_Service (fst p) = ''*'' \<or> pm_Service (fst p) = s then fmupd s (snd p) m else m)
                         m (SortedServiceNames t))
       fmempty (lb_Pin (tp_Lab t))"

definition keep_recorded ::
  "capacityState \<Rightarrow> PlaceOptions \<Rightarrow> (int, string) fmap \<times> moved_entry list \<Rightarrow> int \<Rightarrow> (int, string) fmap \<times> moved_entry list" where
  "keep_recorded st opts pm asn =
     (case recorded_as opts asn of
        None \<Rightarrow> pm
      | Some n \<Rightarrow>
          if fmlookup (fst pm) asn \<noteq> None then pm
          else if n |\<notin>| cs_allNodeName st then (fst pm, snd pm @ [MovedAS asn n])
          else (fmupd asn n (fst pm), snd pm))"

definition group_on_unknown :: "capacityState \<Rightarrow> PlaceOptions \<Rightarrow> place_error option" where
  "group_on_unknown st opts =
     (case po_Fixed opts of
        None \<Rightarrow> None
      | Some fixed \<Rightarrow>
          if po_Rebalance opts \<or> \<not> strictly opts then None
          else
            (case filter (\<lambda>g. get_or [] (a_ByGroup fixed) g |\<in>| cs_allNodeName st
                            \<and> unknown_of st (get_or [] (a_ByGroup fixed) g) \<noteq> []) (fm_keys (a_ByGroup fixed)) of
               [] \<Rightarrow> None
             | g # _ \<Rightarrow> Some (GroupOnUnknownCapacity g (get_or [] (a_ByGroup fixed) g))))"

definition as_weight :: "PlaceTopology \<Rightarrow> int \<Rightarrow> demand" where
  "as_weight t asn =
     (case fmlookup (tp_ASes t) asn of
        None \<Rightarrow> no_demand
      | Some as \<Rightarrow> if as_Distributable as then placementAnchorDemand t as else devices_demand t (as_Devices as))"

definition as_weights :: "PlaceTopology \<Rightarrow> weights" where
  "as_weights t = fmap_of_list (map (\<lambda>asn. (asn, as_weight t asn)) (SortedASNs t))"

definition put_as :: "int \<Rightarrow> string \<Rightarrow> demand \<Rightarrow> place_state \<Rightarrow> place_state" where
  "put_as asn n w s =
     s\<lparr>ps_a := (ps_a s)\<lparr>a_ByAS := fmupd asn n (a_ByAS (ps_a s))\<rparr>, ps_loads := charge n w (ps_loads s)\<rparr>"

definition place_pinned ::
  "capacityState \<Rightarrow> PlaceOptions \<Rightarrow> weights \<Rightarrow> (int, string) fmap \<Rightarrow> place_state \<times> int list \<Rightarrow> int
     \<Rightarrow> (place_error, place_state \<times> int list) result" where
  "place_pinned st opts weight pinned sf asn =
     (case fmlookup pinned asn of
        None \<Rightarrow> Inr (fst sf, snd sf @ [asn])
      | Some n \<Rightarrow>
          if n |\<notin>| cs_allNodeName st then Inl (PinnedToUnknownNode asn n)
          else if strictly opts \<and> unknown_of st n \<noteq> [] then Inl (PinnedToUnknownCapacity asn n)
          else Inr (put_as asn n (weight_of weight asn) (fst sf), snd sf))"

definition place_free ::
  "candidate_nodes \<Rightarrow> affinityGraph \<Rightarrow> weights \<Rightarrow> string \<Rightarrow> float64 \<Rightarrow> place_state \<Rightarrow> int \<Rightarrow> (place_error, place_state) result" where
  "place_free c g weight front tolerance s asn =
     (case bestForLocality c (ps_loads s) (weight_of weight asn) tolerance
             (\<lambda>node. pull g asn node (a_ByAS (ps_a s)) front) of
        None \<Rightarrow> Inl (NoRoom asn)
      | Some n \<Rightarrow> Inr (put_as asn n (weight_of weight asn) s))"

definition tolerance_of :: "string \<Rightarrow> float64 option" where
  "tolerance_of strategy =
     (if strategy = ''pack-by-as'' then Some (1 / 10) else if strategy = ''spread-by-as'' then Some 0 else None)"

text \<open>The pass over the free systems and the local search after it.  A fuel of one step per free system is
  enough for the order; \<open>NoRoom 0\<close> stands for a loop that has not ended and never comes out.\<close>

definition place_ases ::
  "PlaceTopology \<Rightarrow> candidate_nodes \<Rightarrow> string \<Rightarrow> float64 \<Rightarrow> (int, string) fmap \<Rightarrow> place_state \<times> int list
     \<Rightarrow> (place_error, Assignment) result" where
  "place_ases t c front tolerance pinned sf =
     (let g = buildAffinity t; weight = as_weights t
      in case orderForLocality (snd sf) g weight of
           None \<Rightarrow> Inl (NoRoom 0)
         | Some order \<Rightarrow>
             bind_result (fold_result (place_free c g weight front tolerance) (fst sf) order)
               (\<lambda>s. let r = refine c (a_ByAS (ps_a s)) g weight (ps_loads s) pinned front tolerance
                    in Inr ((ps_a s)\<lparr>a_ByAS := rs_byAS r\<rparr>)))"

definition single_node :: "PlaceTopology \<Rightarrow> string \<Rightarrow> Assignment" where
  "single_node t front =
     \<lparr>a_ByAS = fmap_of_list (map (\<lambda>asn. (asn, front)) (SortedASNs t)), a_ByGroup = fmempty,
      a_ByService = fmap_of_list (map (\<lambda>s. (s, front)) (SortedServiceNames t)),
      a_ByServiceReplica = fmap_of_list (map (\<lambda>r. (sr_ID r, front))
        (concat (map SortedReplicas (List.map_filter (fmlookup (tp_Services t)) (SortedServiceNames t)))))\<rparr>"

record placement_result =
  pr_topology :: PlaceTopology
  pr_assignment :: Assignment
  pr_moved :: "moved_entry list"
  pr_overloaded :: "(string \<times> dimension) list"

definition conclude ::
  "PlaceTopology \<Rightarrow> PlaceOptions \<Rightarrow> capacityState \<Rightarrow> Assignment \<times> moved_entry list \<Rightarrow> (place_error, placement_result) result" where
  "conclude t opts st am =
     (case (if strictly opts then strictAssignmentError t (fst am) st else None) of
        Some e \<Rightarrow> Inl e
      | None \<Rightarrow>
          bind_result (finish t (fst am))
            (\<lambda>t'. Inr \<lparr>pr_topology = t', pr_assignment = fst am, pr_moved = snd am,
                       pr_overloaded = overloads t (fst am) st\<rparr>))"

definition place_all ::
  "PlaceTopology \<Rightarrow> PlaceOptions \<Rightarrow> capacityState \<Rightarrow> string \<Rightarrow> string \<Rightarrow> (place_error, Assignment \<times> moved_entry list) result" where
  "place_all t opts st front strategy =
     (let c = cluster_of t st;
          explicit = explicit_pins t;
          (pinned, moved) = foldl (keep_recorded st opts) (explicit, []) (SortedASNs t);
          s0 = \<lparr>ps_a = no_assignment, ps_loads = cs_baseline st, ps_moved = moved\<rparr>
      in case group_on_unknown st opts of
           Some e \<Rightarrow> Inl e
         | None \<Rightarrow>
             bind_result (placeServices t c opts front (service_pins t) s0)
               (\<lambda>s. bind_result (fold_result (place_pinned st opts (as_weights t) pinned) (s, []) (SortedASNs t))
                 (\<lambda>sf. case tolerance_of strategy of
                         None \<Rightarrow> Inl (UnknownStrategy strategy)
                       | Some tolerance \<Rightarrow>
                           bind_result (place_ases t c front tolerance pinned sf)
                             (\<lambda>a. bind_result (distributePlacementGroups t c opts (fmdom explicit) (cs_baseline st) a)
                               (\<lambda>(a', moved'). Inr (a', ps_moved s @ moved'))))))"

definition Place :: "PlaceTopology \<Rightarrow> PlaceOptions \<Rightarrow> (place_error, placement_result) result" where
  "Place t opts =
     (let l = tp_Lab t;
          front = front_of l opts;
          strategy = strategy_of l opts;
          st = buildCapacityState l (tp_Name t) opts
      in if lb_Nodes l = [] then Inl NoNodes
         else if \<not> usable l opts front then Inl NoNodeInPool
         else if strategy = ''single-node'' then conclude t opts st (single_node t front, [])
         else if cs_names st = [] then Inl (if strictly opts then NoCompleteInventory else NoNodes)
         else bind_result (place_all t opts st front strategy) (conclude t opts st))"

section \<open>Folds that may fail\<close>

lemma fold_result_invariant:
  assumes "fold_result f s xs = Inr s'" "I s" "\<And>x s s'. \<lbrakk>x \<in> set xs; I s; f s x = Inr s'\<rbrakk> \<Longrightarrow> I s'"
  shows "I s'"
  using assms
proof (induction xs arbitrary: s)
  case (Cons x xs)
  then obtain s1 where "f s x = Inr s1" "fold_result f s1 xs = Inr s'"
    by (auto simp: bind_result_Inr_iff)
  then show ?case
    using Cons.IH [of s1] Cons.prems(2,3) by auto
qed simp

lemma fold_result_each:
  assumes "fold_result f s xs = Inr s'" "x \<in> set xs"
    and "\<And>s s'. f s x = Inr s' \<Longrightarrow> P s'" "\<And>y s s'. \<lbrakk>y \<in> set xs; P s; f s y = Inr s'\<rbrakk> \<Longrightarrow> P s'"
  shows "P s'"
  using assms
proof (induction xs arbitrary: s)
  case (Cons y xs)
  obtain s1 where s1: "f s y = Inr s1" "fold_result f s1 xs = Inr s'"
    using Cons.prems(1) by (auto simp: bind_result_Inr_iff)
  show ?case
  proof (cases "y = x")
    case True
    then have "P s1"
      using Cons.prems(3) s1(1) by simp
    then show ?thesis
      by (rule fold_result_invariant [OF s1(2), of P]) (rule Cons.prems(4), simp_all)
  next
    case False
    then have "x \<in> set xs"
      using Cons.prems(2) by simp
    then show ?thesis
      by (rule Cons.IH [OF s1(2)]) (erule Cons.prems(3), rule Cons.prems(4), simp_all)
  qed
qed simp

section \<open>Stamping\<close>

lemma stamp_facts:
  assumes "stamp t a t1 x = Inr t2"
  shows "tp_Lab t2 = tp_Lab t1" "fmdom (tp_Devices t2) = fmdom (tp_Devices t1)"
    and "\<And>y. y \<noteq> x \<Longrightarrow> device t2 y = device t1 y"
    and "\<And>d. device t1 x = Some d \<Longrightarrow> \<exists>n. finish_node t a x d = Inr n \<and> device t2 x = Some (d\<lparr>dv_Node := n\<rparr>)"
  using assms by (auto simp: stamp_def device_def bind_result_Inr_iff split: option.splits) (auto intro: fmdomI)

lemma harden_facts:
  assumes "harden t1 x = Inr t2"
  shows "tp_Lab t2 = tp_Lab t1" "fmdom (tp_Devices t2) = fmdom (tp_Devices t1)"
    and "\<And>y. y \<noteq> x \<Longrightarrow> device t2 y = device t1 y"
    and "\<And>d. device t1 x = Some d \<Longrightarrow> \<exists>c u. device t2 x = Some (d\<lparr>dv_RuntimeClass := c, dv_UsernsMode := u\<rparr>)"
proof -
  show "\<exists>c u. device t2 x = Some (d\<lparr>dv_RuntimeClass := c, dv_UsernsMode := u\<rparr>)" if "device t1 x = Some d" for d
    using assms that
    by (cases d) (auto simp: harden_def device_def Let_def split: option.splits)
qed (use assms in \<open>auto simp: harden_def device_def Let_def split: option.splits intro: fmdomI\<close>)

text \<open>A stamped device is the device with a node and its runtime class filled in: it asks for the same.\<close>

definition stamped :: "PlaceTopology \<Rightarrow> Assignment \<Rightarrow> string \<Rightarrow> Device \<Rightarrow> Device \<Rightarrow> bool" where
  "stamped t a x d d' \<longleftrightarrow>
     finish_node t a x d = Inr (dv_Node d') \<and> (\<exists>n c u. d' = d\<lparr>dv_Node := n, dv_RuntimeClass := c, dv_UsernsMode := u\<rparr>)"

lemma deviceDemand_stamped:
  "deviceDemand (Some (d\<lparr>dv_Node := n, dv_RuntimeClass := c, dv_UsernsMode := u\<rparr>)) = deviceDemand (Some d)"
  by (simp add: deviceDemand_def effective_request_def EffectiveNOS_def Let_def cong: if_cong)

lemma finish_node_same: "finish_node t a x (d\<lparr>dv_Node := n\<rparr>) = finish_node t a x d"
  by (simp add: finish_node_def split: option.split)

lemma SortedDevices_device: "x \<in> set (SortedDevices t) \<longleftrightarrow> device t x \<noteq> None"
  by (auto simp: SortedDevices_def device_def)

lemma stamp_all:
  assumes "fold_result (stamp t a) t1 xs = Inr t2" "distinct xs"
    and "\<And>x. x \<in> set xs \<Longrightarrow> device t1 x = device t x"
  shows "tp_Lab t2 = tp_Lab t1 \<and> fmdom (tp_Devices t2) = fmdom (tp_Devices t1)
    \<and> (\<forall>x. x \<notin> set xs \<longrightarrow> device t2 x = device t1 x)
    \<and> (\<forall>x d. x \<in> set xs \<longrightarrow> device t x = Some d \<longrightarrow>
          (\<exists>n. finish_node t a x d = Inr n \<and> device t2 x = Some (d\<lparr>dv_Node := n\<rparr>)))"
  using assms
proof (induction xs arbitrary: t1)
  case (Cons y ys)
  obtain t' where t': "stamp t a t1 y = Inr t'" "fold_result (stamp t a) t' ys = Inr t2"
    using Cons.prems(1) by (auto simp: bind_result_Inr_iff)
  note st = stamp_facts [OF t'(1)]
  have same: "device t' x = device t x" if "x \<in> set ys" for x
    using that st(3) [of x] Cons.prems(2,3) by auto
  note ih = Cons.IH [OF t'(2) _ same]
  have "device t1 y = device t y"
    using Cons.prems(3) by simp
  then show ?case
    using ih st(1,2) st(3) st(4) Cons.prems(2) by auto
qed simp

lemma harden_all:
  assumes "fold_result harden t1 xs = Inr t2" "distinct xs"
  shows "tp_Lab t2 = tp_Lab t1 \<and> fmdom (tp_Devices t2) = fmdom (tp_Devices t1)
    \<and> (\<forall>x. x \<notin> set xs \<longrightarrow> device t2 x = device t1 x)
    \<and> (\<forall>x d. x \<in> set xs \<longrightarrow> device t1 x = Some d \<longrightarrow>
          (\<exists>c u. device t2 x = Some (d\<lparr>dv_RuntimeClass := c, dv_UsernsMode := u\<rparr>)))"
  using assms
proof (induction xs arbitrary: t1)
  case (Cons y ys)
  obtain t' where t': "harden t1 y = Inr t'" "fold_result harden t' ys = Inr t2"
    using Cons.prems(1) by (auto simp: bind_result_Inr_iff)
  note h = harden_facts [OF t'(1)]
  have same: "device t' x = device t1 x" if "x \<in> set ys" for x
    using that h(3) [of x] Cons.prems(2) by auto
  note ih = Cons.IH [OF t'(2)]
  show ?case
    using ih h(1,2) h(3) h(4) same Cons.prems(2) by auto
qed simp

lemma SortedDevices_distinct [simp]: "distinct (SortedDevices t)"
  by (simp add: SortedDevices_def)

lemma finish_stamps:
  assumes "finish t a = Inr t'"
  shows "SortedDevices t' = SortedDevices t"
    and "device t x = Some d \<Longrightarrow> \<exists>d'. device t' x = Some d' \<and> stamped t a x d d'"
proof -
  obtain t1 where t1: "fold_result (stamp t a) t (SortedDevices t) = Inr t1" "fold_result harden t1 (SortedDevices t1) = Inr t'"
    using assms by (auto simp: finish_def bind_result_Inr_iff)
  note one = stamp_all [OF t1(1) SortedDevices_distinct refl] and two = harden_all [OF t1(2) SortedDevices_distinct]
  have dom: "SortedDevices t1 = SortedDevices t" "SortedDevices t' = SortedDevices t1"
    using one two by (simp_all add: SortedDevices_def fm_keys_def)
  then show "SortedDevices t' = SortedDevices t"
    by simp
  assume d: "device t x = Some d"
  then have x: "x \<in> set (SortedDevices t)"
    by (simp add: SortedDevices_device)
  have "\<exists>n. finish_node t a x d = Inr n \<and> device t1 x = Some (d\<lparr>dv_Node := n\<rparr>)"
    using one d x by blast
  then obtain n where n: "finish_node t a x d = Inr n" "device t1 x = Some (d\<lparr>dv_Node := n\<rparr>)"
    by blast
  have "\<exists>c u. device t' x = Some (d\<lparr>dv_Node := n, dv_RuntimeClass := c, dv_UsernsMode := u\<rparr>)"
    using two n(2) x unfolding dom(1) by blast
  then obtain c u where "device t' x = Some (d\<lparr>dv_Node := n, dv_RuntimeClass := c, dv_UsernsMode := u\<rparr>)"
    by blast
  then show "\<exists>d'. device t' x = Some d' \<and> stamped t a x d d'"
    using n(1) by (auto simp: stamped_def)
qed

section \<open>Where groups are placed\<close>

lemma lighter_in: "foldl (lighter c loads need) b ns = Some (n, p) \<Longrightarrow> n \<in> set ns \<or> (\<exists>q. b = Some (n, q))"
proof (induction ns arbitrary: b)
  case (Cons m ns)
  then have "n \<in> set ns \<or> (\<exists>q. lighter c loads need b m = Some (n, q))"
    by simp
  then show ?case
    by (auto simp: lighter_def Let_def split: option.splits if_splits)
qed simp

lemma lighter_Some: "b \<noteq> None \<or> ns \<noteq> [] \<Longrightarrow> foldl (lighter c loads need) b ns \<noteq> None"
proof (induction ns arbitrary: b)
  case (Cons n ns)
  have "lighter c loads need b n \<noteq> None"
    by (cases b) (auto simp: lighter_def Let_def)
  then show ?case
    using Cons.IH by simp
qed simp

lemma bestGroupNode_in:
  assumes "cl_names c \<noteq> []"
  shows "bestGroupNode c loads need \<in> set (cl_names c)"
proof -
  obtain n p where "foldl (lighter c loads need) None (cl_names c) = Some (n, p)"
    using lighter_Some [of None "cl_names c" c loads need] assms by fastforce
  then show ?thesis
    by (auto simp: bestGroupNode_def split: option.splits dest: lighter_in)
qed

text \<open>Every group the splitter places is a group of the topology, on a candidate node; only the systems it
  splits change theirs.\<close>

definition groups_ok :: "PlaceTopology \<Rightarrow> candidate_nodes \<Rightarrow> Assignment \<Rightarrow> bool" where
  "groups_ok t c a \<longleftrightarrow>
     (\<forall>g n. fmlookup (a_ByGroup a) g = Some n \<longrightarrow> n \<in> set (cl_names c)
        \<and> (\<exists>asn as. fmlookup (tp_ASes t) asn = Some as \<and> as_Distributable as \<and> g \<in> pg_ID ` set (as_PlacementGroups as)))"

lemma groups_ok_add:
  assumes "groups_ok t c a" "n \<in> set (cl_names c)" "fmlookup (tp_ASes t) asn = Some as" "as_Distributable as"
    and "g \<in> set (as_PlacementGroups as)"
  shows "groups_ok t c (a\<lparr>a_ByGroup := fmupd (pg_ID g) n (a_ByGroup a)\<rparr>)"
  using assms by (auto simp: groups_ok_def)

lemma fixed_group_in: "fixed_group c opts g = Some n \<Longrightarrow> n \<in> set (cl_names c)"
  by (auto simp: fixed_group_def split: option.splits if_splits)

lemma place_anchors_ok:
  assumes "place_anchors t c opts gs anchor s = (anchor', s')" "anchor \<in> set (cl_names c)" "groups_ok t c (ps_a s)"
    and "fmlookup (tp_ASes t) asn = Some as" "as_Distributable as" "set gs \<subseteq> set (as_PlacementGroups as)"
  shows "anchor' \<in> set (cl_names c) \<and> groups_ok t c (ps_a s') \<and> a_ByAS (ps_a s') = a_ByAS (ps_a s)"
  using assms
proof (induction gs arbitrary: anchor s)
  case (Cons g gs)
  let ?n = "case fixed_group c opts (pg_ID g) of Some r \<Rightarrow> r | None \<Rightarrow> anchor"
  have n: "?n \<in> set (cl_names c)"
    using Cons.prems(2) by (auto split: option.splits dest: fixed_group_in)
  show ?case
    using Cons.IH [of ?n "s\<lparr>ps_a := (ps_a s)\<lparr>a_ByGroup := fmupd (pg_ID g) ?n (a_ByGroup (ps_a s))\<rparr>,
        ps_loads := charge ?n (groupDemand t g) (ps_loads s)\<rparr>"] n Cons.prems groups_ok_add [OF Cons.prems(3) n Cons.prems(4,5)]
    by (simp add: Let_def)
qed simp

lemma place_leaves_ok:
  assumes "cl_names c \<noteq> []" "groups_ok t c (ps_a s)" "fmlookup (tp_ASes t) asn = Some as" "as_Distributable as"
    and "set gs \<subseteq> set (as_PlacementGroups as)"
  shows "groups_ok t c (ps_a (place_leaves t c opts gs s)) \<and> a_ByAS (ps_a (place_leaves t c opts gs s)) = a_ByAS (ps_a s)"
  using assms
proof (induction gs arbitrary: s)
  case (Cons g gs)
  let ?n = "case fixed_group c opts (pg_ID g) of Some r \<Rightarrow> r | None \<Rightarrow> bestGroupNode c (ps_loads s) (groupDemand t g)"
  have n: "?n \<in> set (cl_names c)"
    using bestGroupNode_in [OF assms(1)] by (auto split: option.splits dest: fixed_group_in)
  show ?case
    using Cons.IH [of "s\<lparr>ps_a := (ps_a s)\<lparr>a_ByGroup := fmupd (pg_ID g) ?n (a_ByGroup (ps_a s))\<rparr>,
        ps_loads := charge ?n (groupDemand t g) (ps_loads s)\<rparr>"] Cons.prems groups_ok_add [OF Cons.prems(2) n Cons.prems(3,4)]
    by (simp add: Let_def)
qed simp

definition splittable :: "PlaceTopology \<Rightarrow> int fset \<Rightarrow> int \<Rightarrow> bool" where
  "splittable t explicitPinned asn \<longleftrightarrow>
     asn |\<notin>| explicitPinned \<and> (\<exists>as. fmlookup (tp_ASes t) asn = Some as \<and> as_Distributable as)"

definition split_inv :: "PlaceTopology \<Rightarrow> candidate_nodes \<Rightarrow> int fset \<Rightarrow> Assignment \<Rightarrow> place_state \<Rightarrow> bool" where
  "split_inv t c explicitPinned a0 s \<longleftrightarrow>
     groups_ok t c (ps_a s)
     \<and> (\<forall>x. \<not> splittable t explicitPinned x \<longrightarrow> fmlookup (a_ByAS (ps_a s)) x = fmlookup (a_ByAS a0) x)"

lemma split_groups_ok:
  assumes "fmlookup (tp_ASes t) asn = Some as" "anchor \<in> set (cl_names c)" "groups_ok t c (ps_a s)"
    and dist: "as_Distributable as" and "set anchors \<subseteq> set (as_PlacementGroups as)" "set leaves \<subseteq> set (as_PlacementGroups as)"
    and "place_anchors t c opts anchors anchor s = (anchor', s1)"
    and "s2 = place_leaves t c opts leaves (s1\<lparr>ps_a := (ps_a s1)\<lparr>a_ByAS := fmupd asn anchor' (a_ByAS (ps_a s1))\<rparr>\<rparr>)"
  shows "groups_ok t c (ps_a s2) \<and> a_ByAS (ps_a s2) = fmupd asn anchor' (a_ByAS (ps_a s))"
proof -
  have ne: "cl_names c \<noteq> []"
    using assms(2) by auto
  note one = place_anchors_ok [OF assms(7,2,3,1,4,5)]
  then have "groups_ok t c ((ps_a s1)\<lparr>a_ByAS := fmupd asn anchor' (a_ByAS (ps_a s1))\<rparr>)"
    by (simp add: groups_ok_def)
  then show ?thesis
    using place_leaves_ok [OF ne _ assms(1,4,6), of "s1\<lparr>ps_a := (ps_a s1)\<lparr>a_ByAS := fmupd asn anchor' (a_ByAS (ps_a s1))\<rparr>\<rparr>" opts]
      one assms(8) by simp
qed

lemma splitAS_inv:
  assumes "splitAS t c opts explicitPinned s asn = Inr s'" "split_inv t c explicitPinned a0 s"
  shows "split_inv t c explicitPinned a0 s'"
proof (cases "ps_a s' = ps_a s")
  case True
  then show ?thesis
    using assms(2) by (simp add: split_inv_def)
next
  case False
  obtain as where as: "fmlookup (tp_ASes t) asn = Some as"
    using assms(1) False by (cases "fmlookup (tp_ASes t) asn") (auto simp: splitAS_def)
  let ?gs = "SortedPlacementGroups as"
  have gs: "set ?gs = set (as_PlacementGroups as)"
    by (simp add: SortedPlacementGroups_def)
  let ?anchors = "filter (\<lambda>g. pg_Class g \<noteq> ''leaf'') ?gs" and ?leaves = "filter (\<lambda>g. pg_Class g = ''leaf'') ?gs"
  have split: "splittable t explicitPinned asn"
    using assms(1) False as by (auto simp: splitAS_def splittable_def Let_def split: if_splits)
  moreover have "as_Distributable as"
    using split as by (simp add: splittable_def)
  moreover obtain anchor where "anchor \<in> set (cl_names c)"
    and eq: "Inr s' = (let s = s\<lparr>ps_moved := ps_moved s @ moved_groups c opts ?gs\<rparr>;
        s = s\<lparr>ps_loads := foldl (\<lambda>m g. discharge anchor (groupDemand t g) m) (ps_loads s) ?gs\<rparr>;
        (anchors, leaves) = (if ?anchors = [] then (take 1 ?gs, drop 1 ?gs) else (?anchors, ?leaves));
        (anchor', s) = place_anchors t c opts anchors anchor s;
        s = s\<lparr>ps_a := (ps_a s)\<lparr>a_ByAS := fmupd asn anchor' (a_ByAS (ps_a s))\<rparr>\<rparr>
      in (Inr (place_leaves t c opts leaves s) :: (place_error, place_state) result))"
    using assms(1) False as by (auto simp: splitAS_def Let_def split: if_splits option.splits)
  moreover define s0 where "s0 = s\<lparr>ps_moved := ps_moved s @ moved_groups c opts ?gs,
      ps_loads := foldl (\<lambda>m g. discharge anchor (groupDemand t g) m) (ps_loads s) ?gs\<rparr>"
  moreover define anchors leaves where "anchors = (if ?anchors = [] then take 1 ?gs else ?anchors)"
    and "leaves = (if ?anchors = [] then drop 1 ?gs else ?leaves)"
  moreover obtain anchor' s1 where "place_anchors t c opts anchors anchor s0 = (anchor', s1)"
    by (cases "place_anchors t c opts anchors anchor s0")
  moreover have "set anchors \<subseteq> set (as_PlacementGroups as)" "set leaves \<subseteq> set (as_PlacementGroups as)"
    using gs set_take_subset [of 1 ?gs] set_drop_subset [of 1 ?gs] by (auto simp: anchors_def leaves_def)
  moreover have "groups_ok t c (ps_a s0)"
    using assms(2) by (simp add: split_inv_def s0_def)
  ultimately have "groups_ok t c (ps_a s') \<and> a_ByAS (ps_a s') = fmupd asn anchor' (a_ByAS (ps_a s0))"
    by (intro split_groups_ok [OF as, where anchors = anchors and leaves = leaves]) (auto simp: Let_def split: if_splits)
  then show ?thesis
    using assms(2) split by (auto simp: split_inv_def s0_def)
qed

lemma distribute_inv:
  assumes "distributePlacementGroups t c opts explicitPinned baseline a = Inr (a', moved)" "a_ByGroup a = fmempty"
  shows "groups_ok t c a' \<and> (\<forall>x. \<not> splittable t explicitPinned x \<longrightarrow> fmlookup (a_ByAS a') x = fmlookup (a_ByAS a) x)"
proof (cases "length (cl_names c) < 2")
  case True
  then show ?thesis
    using assms by (auto simp: distributePlacementGroups_def groups_ok_def)
next
  case False
  let ?s = "\<lparr>ps_a = a, ps_loads = placementDemands t a baseline, ps_moved = []\<rparr>"
  obtain s where s: "fold_result (splitAS t c opts explicitPinned) ?s (SortedASNs t) = Inr s" "a' = ps_a s"
    using assms(1) False by (auto simp: distributePlacementGroups_def bind_result_Inr_iff)
  have "split_inv t c explicitPinned a ?s"
    using assms(2) by (simp add: split_inv_def groups_ok_def)
  then have "split_inv t c explicitPinned a s"
    by (rule fold_result_invariant [OF s(1)]) (rule splitAS_inv)
  then show ?thesis
    using s(2) by (simp add: split_inv_def)
qed

section \<open>What the earlier passes leave alone\<close>

lemma placeReplica_kept:
  "placeReplica t c opts front name service pin s r = Inr s'
     \<Longrightarrow> a_ByGroup (ps_a s') = a_ByGroup (ps_a s) \<and> a_ByAS (ps_a s') = a_ByAS (ps_a s)"
  by (auto simp: placeReplica_def Let_def bind_result_Inr_iff split: prod.splits)

lemma placeService_kept:
  assumes "placeService t c opts front pinned s name = Inr s'"
  shows "a_ByGroup (ps_a s') = a_ByGroup (ps_a s) \<and> a_ByAS (ps_a s') = a_ByAS (ps_a s)"
proof -
  have "a_ByGroup (ps_a s'') = a_ByGroup (ps_a s) \<and> a_ByAS (ps_a s'') = a_ByAS (ps_a s)"
    if "fold_result (placeReplica t c opts front name service pin) s rs = Inr s''" for service pin rs s''
    by (rule fold_result_invariant [OF that]) (auto dest!: placeReplica_kept)
  then show ?thesis
    using assms by (auto simp: placeService_def Let_def bind_result_Inr_iff split: option.splits if_splits prod.splits)
qed

lemma placeServices_kept:
  assumes "placeServices t c opts front pinned s = Inr s'"
  shows "a_ByGroup (ps_a s') = a_ByGroup (ps_a s) \<and> a_ByAS (ps_a s') = a_ByAS (ps_a s)"
  by (rule fold_result_invariant [OF assms [unfolded placeServices_def]]) (auto dest!: placeService_kept)

lemma place_pinned_kept:
  "place_pinned st opts weight pinned sf asn = Inr sf' \<Longrightarrow> a_ByGroup (ps_a (fst sf')) = a_ByGroup (ps_a (fst sf))"
  by (auto simp: place_pinned_def put_as_def split: option.splits if_splits)

lemma place_free_kept:
  "place_free c g weight front tolerance s asn = Inr s' \<Longrightarrow> a_ByGroup (ps_a s') = a_ByGroup (ps_a s)"
  by (auto simp: place_free_def put_as_def split: option.splits)

lemma place_ases_kept:
  assumes "place_ases t c front tolerance pinned sf = Inr a"
  shows "a_ByGroup a = a_ByGroup (ps_a (fst sf))"
proof -
  obtain order s where f: "fold_result (place_free c (buildAffinity t) (as_weights t) front tolerance) (fst sf) order = Inr s"
    and a: "a_ByGroup a = a_ByGroup (ps_a s)"
    using assms by (auto simp: place_ases_def Let_def bind_result_Inr_iff split: option.splits)
  have "a_ByGroup (ps_a s) = a_ByGroup (ps_a (fst sf))"
    by (rule fold_result_invariant [OF f]) (auto dest!: place_free_kept)
  then show ?thesis
    using a by simp
qed

text \<open>The stages of a placement that is not on a single node.\<close>

lemma place_all_stages:
  assumes "place_all t opts st front strategy = Inr am"
  obtains pinned moved s sf tolerance a moved' where
    "foldl (keep_recorded st opts) (explicit_pins t, []) (SortedASNs t) = (pinned, moved)"
    "placeServices t (cluster_of t st) opts front (service_pins t)
       \<lparr>ps_a = no_assignment, ps_loads = cs_baseline st, ps_moved = moved\<rparr> = Inr s"
    "fold_result (place_pinned st opts (as_weights t) pinned) (s, []) (SortedASNs t) = Inr sf"
    "tolerance_of strategy = Some tolerance"
    "place_ases t (cluster_of t st) front tolerance pinned sf = Inr a"
    "distributePlacementGroups t (cluster_of t st) opts (fmdom (explicit_pins t)) (cs_baseline st) a = Inr (fst am, moved')"
    "snd am = ps_moved s @ moved'"
proof -
  obtain pinned moved where pm: "foldl (keep_recorded st opts) (explicit_pins t, []) (SortedASNs t) = (pinned, moved)"
    by (cases "foldl (keep_recorded st opts) (explicit_pins t, []) (SortedASNs t)")
  show thesis
    using assms pm that
    by (auto simp: place_all_def Let_def bind_result_Inr_iff split: option.splits prod.splits)
qed

lemma place_all_groups:
  assumes "place_all t opts st front strategy = Inr am"
  shows "groups_ok t (cluster_of t st) (fst am)"
proof (rule place_all_stages [OF assms])
  fix pinned moved s sf tolerance a moved'
  assume s: "placeServices t (cluster_of t st) opts front (service_pins t)
       \<lparr>ps_a = no_assignment, ps_loads = cs_baseline st, ps_moved = moved\<rparr> = Inr s"
    and sf: "fold_result (place_pinned st opts (as_weights t) pinned) (s, []) (SortedASNs t) = Inr sf"
    and a: "place_ases t (cluster_of t st) front tolerance pinned sf = Inr a"
    and d: "distributePlacementGroups t (cluster_of t st) opts (fmdom (explicit_pins t)) (cs_baseline st) a = Inr (fst am, moved')"
  have "a_ByGroup (ps_a s) = fmempty"
    using placeServices_kept [OF s] by (simp add: no_assignment_def)
  then have "a_ByGroup (ps_a (fst sf)) = fmempty"
    by (intro fold_result_invariant [OF sf, where I = "\<lambda>sf. a_ByGroup (ps_a (fst sf)) = fmempty"])
      (auto dest: place_pinned_kept)
  then show ?thesis
    using distribute_inv [OF d] place_ases_kept [OF a] by simp
qed

section \<open>A strict placement fits\<close>

definition wf_topology :: "PlaceTopology \<Rightarrow> bool" where
  "wf_topology t \<longleftrightarrow>
     (\<forall>node\<in>set (lb_Nodes (tp_Lab t)). ns_Name node \<noteq> [])
     \<and> (\<forall>asn as. fmlookup (tp_ASes t) asn = Some as \<longrightarrow> 0 < asn \<and> (\<forall>g\<in>set (as_PlacementGroups as). pg_ID g \<noteq> []))
     \<and> (\<forall>x d. device t x = Some d \<longrightarrow> 0 \<le> dv_ASN d)"

definition node_on :: "PlaceTopology \<Rightarrow> string \<Rightarrow> string" where
  "node_on t x = (case device t x of None \<Rightarrow> [] | Some d \<Rightarrow> dv_Node d)"

definition eligible :: "PlaceLab \<Rightarrow> PlaceOptions \<Rightarrow> string \<Rightarrow> bool" where
  "eligible l opts n \<longleftrightarrow>
     (\<exists>node\<in>set (lb_Nodes l). ns_Name node = n \<and> (lb_NodePool l = [] \<or> ns_Pool node = lb_NodePool l))
     \<and> n |\<notin>| po_Unavailable opts"

lemma buildCapacityState_eligible:
  assumes "n |\<in>| cs_allNodeName (buildCapacityState l lab opts)"
  shows "eligible l opts n"
proof -
  have "\<forall>n. n |\<in>| cs_allNodeName (foldl (add_node l lab opts) st ns) \<longrightarrow> eligible l opts n"
    if "\<forall>n. n |\<in>| cs_allNodeName st \<longrightarrow> eligible l opts n" "set ns \<subseteq> set (lb_Nodes l)" for st ns
    using that
  proof (induction ns arbitrary: st)
    case (Cons nd ns)
    have "\<forall>n. n |\<in>| cs_allNodeName (add_node l lab opts st nd) \<longrightarrow> eligible l opts n"
      using Cons.prems
      by (auto simp: add_node_def Let_def eligible_def split: prod.splits option.splits if_splits)
    then show ?case
      using Cons.IH [of "add_node l lab opts st nd"] Cons.prems(2) by simp
  qed simp
  from this [of empty_state "lb_Nodes l"] show ?thesis
    using assms by (simp add: buildCapacityState_def empty_state_def Let_def)
qed

definition proper_groups :: "Assignment \<Rightarrow> bool" where
  "proper_groups a \<longleftrightarrow> (\<forall>g m. fmlookup (a_ByGroup a) g = Some m \<longrightarrow> g \<noteq> [] \<and> m \<noteq> [])"

lemma nodeForAssignment_finish:
  assumes "device t x = Some d" "finish_node t a x d = Inr n" "0 \<le> dv_ASN d" "proper_groups a"
  shows "nodeForAssignment t a x = n"
proof (cases "dv_ASN d = 0")
  case True
  then show ?thesis
    using assms(1,2) by (auto simp: nodeForAssignment_def finish_node_def Let_def)
next
  case False
  then show ?thesis
    using assms
    by (cases "fmlookup (a_ByGroup a) (dv_PlacementGroup d)")
      (auto simp: nodeForAssignment_def finish_node_def get_or_def proper_groups_def split: option.splits)
qed

lemma conclude_strict:
  assumes "conclude t opts st am = Inr r" "strictly opts" "wf_topology t" "proper_groups (fst am)"
  shows "strictAssignmentError t (fst am) st = None"
    and "SortedDevices (pr_topology r) = SortedDevices t"
    and "\<And>x. node_on (pr_topology r) x = (if x \<in> set (SortedDevices t) then nodeForAssignment t (fst am) x else [])"
    and "\<And>x. deviceDemand (device (pr_topology r) x) = deviceDemand (device t x)"
proof -
  have fin: "finish t (fst am) = Inr (pr_topology r)" and ok: "strictAssignmentError t (fst am) st = None"
    using assms(1,2) by (auto simp: conclude_def bind_result_Inr_iff split: option.splits if_splits)
  show "strictAssignmentError t (fst am) st = None"
    by (rule ok)
  show dom: "SortedDevices (pr_topology r) = SortedDevices t"
    by (rule finish_stamps(1) [OF fin])
  fix x
  have out: "device (pr_topology r) x = None" if "device t x = None"
    using that SortedDevices_device [of x t] SortedDevices_device [of x "pr_topology r"] dom by simp
  have into: "\<exists>d'. device (pr_topology r) x = Some d' \<and> stamped t (fst am) x d d'" if "device t x = Some d" for d
    by (rule finish_stamps(2) [OF fin that])
  show "deviceDemand (device (pr_topology r) x) = deviceDemand (device t x)"
    using out into by (cases "device t x") (auto simp: stamped_def deviceDemand_stamped)
  show "node_on (pr_topology r) x = (if x \<in> set (SortedDevices t) then nodeForAssignment t (fst am) x else [])"
  proof (cases "device t x")
    case None
    then show ?thesis
      using out by (simp add: node_on_def SortedDevices_device)
  next
    case (Some d)
    then obtain d' where "device (pr_topology r) x = Some d'" "finish_node t (fst am) x d = Inr (dv_Node d')"
      using into by (auto simp: stamped_def)
    moreover have "0 \<le> dv_ASN d"
      using assms(3) Some by (simp add: wf_topology_def)
    ultimately show ?thesis
      using Some nodeForAssignment_finish [OF Some _ _ assms(4)] by (simp add: node_on_def SortedDevices_device)
  qed
qed

lemma Place_conclude:
  assumes "Place t opts = Inr r" "wf_topology t"
  obtains am where "conclude t opts (buildCapacityState (tp_Lab t) (tp_Name t) opts) am = Inr r"
    "proper_groups (fst am)"
proof -
  let ?st = "buildCapacityState (tp_Lab t) (tp_Name t) opts"
  have names: "n \<noteq> []" if "n \<in> set (cs_names ?st)" for n
  proof -
    have "eligible (tp_Lab t) opts n"
      using that buildCapacityState_names buildCapacityState_eligible by blast
    then show ?thesis
      using assms(2) by (auto simp: eligible_def wf_topology_def)
  qed
  consider (single) front where "conclude t opts ?st (single_node t front, []) = Inr r"
    | (all) front strategy am where "place_all t opts ?st front strategy = Inr am" "conclude t opts ?st am = Inr r"
    using assms(1) by (auto simp: Place_def Let_def bind_result_Inr_iff split: if_splits)
  then show thesis
  proof cases
    case single
    then show ?thesis
      using that by (fastforce simp: single_node_def proper_groups_def)
  next
    case all
    have "proper_groups (fst am)"
      using place_all_groups [OF all(1)] names assms(2)
      by (fastforce simp: proper_groups_def groups_ok_def cluster_of_def wf_topology_def)
    then show ?thesis
      using that all(2) by blast
  qed
qed


section \<open>A recorded placement is kept\<close>

lemma keep_recorded_lookup:
  assumes "foldl (keep_recorded st opts) (p0, m0) xs = (p, m)"
  shows "fmlookup p0 x = Some n \<Longrightarrow> fmlookup p x = Some n"
    and "\<lbrakk>fmlookup p0 x = None; x \<in> set xs; recorded_as opts x = Some n; n |\<in>| cs_allNodeName st\<rbrakk> \<Longrightarrow> fmlookup p x = Some n"
proof -
  have keep: "fmlookup (fst (foldl (keep_recorded st opts) pm xs)) x = Some n" if "fmlookup (fst pm) x = Some n" for pm xs
    using that by (induction xs arbitrary: pm) (auto simp: keep_recorded_def split: option.splits)
  show "fmlookup p x = Some n" if "fmlookup p0 x = Some n"
    using keep [of "(p0, m0)" xs] that assms by simp
  have "fmlookup (fst (foldl (keep_recorded st opts) pm xs)) x = Some n"
    if "x \<in> set xs" "fmlookup (fst pm) x = None" "recorded_as opts x = Some n" "n |\<in>| cs_allNodeName st" for pm
    using that(1,2)
  proof (induction xs arbitrary: pm)
    case (Cons y ys)
    show ?case
    proof (cases "y = x")
      case True
      have "fmlookup (fst (keep_recorded st opts pm y)) x = Some n"
        using Cons.prems(2) that(3,4) True by (simp add: keep_recorded_def)
      then show ?thesis
        using keep by simp
    next
      case False
      then have "fmlookup (fst (keep_recorded st opts pm y)) x = None"
        using Cons.prems(2) by (auto simp: keep_recorded_def split: option.splits)
      then show ?thesis
        using Cons.IH Cons.prems(1) False by simp
    qed
  qed simp
  then show "fmlookup p x = Some n"
    if "fmlookup p0 x = None" "x \<in> set xs" "recorded_as opts x = Some n" "n |\<in>| cs_allNodeName st"
    using that assms by (metis fst_conv)
qed

definition pins_placed :: "(int, string) fmap \<Rightarrow> int set \<Rightarrow> place_state \<times> int list \<Rightarrow> bool" where
  "pins_placed pinned A sf \<longleftrightarrow>
     set (fm_keys (a_ByAS (ps_a (fst sf)))) = {x \<in> A. fmlookup pinned x \<noteq> None}
     \<and> (\<forall>x\<in>A. \<forall>n. fmlookup pinned x = Some n \<longrightarrow> fmlookup (a_ByAS (ps_a (fst sf))) x = Some n)
     \<and> set (snd sf) = {x \<in> A. fmlookup pinned x = None}"

lemma pins_placed_fold:
  assumes "fold_result (place_pinned st opts weight pinned) sf xs = Inr sf'" "pins_placed pinned A sf"
  shows "pins_placed pinned (A \<union> set xs) sf'"
  using assms
proof (induction xs arbitrary: sf A)
  case (Cons x xs)
  obtain sf1 where sf1: "place_pinned st opts weight pinned sf x = Inr sf1"
    "fold_result (place_pinned st opts weight pinned) sf1 xs = Inr sf'"
    using Cons.prems(1) by (auto simp: bind_result_Inr_iff)
  have "pins_placed pinned (insert x A) sf1"
    using sf1(1) Cons.prems(2)
    by (auto simp: place_pinned_def put_as_def pins_placed_def split: option.splits if_splits)
  then have "pins_placed pinned (insert x A \<union> set xs) sf'"
    by (rule Cons.IH [OF sf1(2)])
  then show ?case
    by simp
qed simp

lemma place_pinned_free:
  assumes "fold_result (place_pinned st opts weight pinned) sf xs = Inr sf'"
  shows "snd sf' = snd sf @ filter (\<lambda>x. fmlookup pinned x = None) xs"
  using assms
proof (induction xs arbitrary: sf)
  case (Cons x xs)
  obtain sf1 where sf1: "place_pinned st opts weight pinned sf x = Inr sf1"
    "fold_result (place_pinned st opts weight pinned) sf1 xs = Inr sf'"
    using Cons.prems(1) by (auto simp: bind_result_Inr_iff)
  have "snd sf1 = snd sf @ (if fmlookup pinned x = None then [x] else [])"
    using sf1(1) by (auto simp: place_pinned_def split: option.splits if_splits)
  then show ?case
    using Cons.IH [OF sf1(2)] by simp
qed simp

lemma place_free_fold:
  assumes "fold_result (place_free c g weight front tolerance) s xs = Inr s'" "x \<notin> set xs"
  shows "fmlookup (a_ByAS (ps_a s')) x = fmlookup (a_ByAS (ps_a s)) x"
  by (rule fold_result_invariant [OF assms(1)])
    (use assms(2) in \<open>auto simp: place_free_def put_as_def split: option.splits\<close>)

lemma requestDemand_ok:
  "\<lbrakk>0 \<le> rq_CPUs r; 0 \<le> rq_Pids r; 0 \<le> rq_FileDescriptors r; 0 \<le> rq_NetDevices r\<rbrakk> \<Longrightarrow> demand_ok (requestDemand r)"
proof -
  have "0 \<le> bytes_of s" for s
    by (auto simp: bytes_of_def ParseMemory_def Let_def not_less split: option.splits if_splits)
  then show "\<lbrakk>0 \<le> rq_CPUs r; 0 \<le> rq_Pids r; 0 \<le> rq_FileDescriptors r; 0 \<le> rq_NetDevices r\<rbrakk> \<Longrightarrow> demand_ok (requestDemand r)"
    unfolding demand_ok_def all_dimensions by (simp add: requestDemand_def memoryBytes_def)
qed

lemma refine_pinned:
  assumes "fmlookup pinned x \<noteq> None"
  shows "fmlookup (rs_byAS (refine c byAS g weight loads pinned front tolerance)) x = fmlookup byAS x"
proof -
  have step: "fmlookup (rs_byAS (fold f xs s)) x = fmlookup (rs_byAS s) x"
    if "\<And>y s. y \<in> set xs \<Longrightarrow> fmlookup (rs_byAS (f y s)) x = fmlookup (rs_byAS s) x"
    for f :: "'z \<Rightarrow> refine_state \<Rightarrow> refine_state" and xs s
    using that by (induction xs arbitrary: s) auto
  have round: "fmlookup (rs_byAS (refine_round c g weight front ceil movable s)) x = fmlookup (rs_byAS s) x"
    if "x \<notin> set movable" for ceil movable s
  proof -
    have "fmlookup (rs_byAS (fold (swap_as c g weight front ceil) (ordered_pairs movable) s)) x = fmlookup (rs_byAS s) x" for s
      by (rule step) (use that set_pairs [of movable] in \<open>auto simp: swap_as_def Let_def\<close>)
    moreover have "fmlookup (rs_byAS (fold (move_as c g weight front ceil) movable s)) x = fmlookup (rs_byAS s) x" for s
      by (rule step) (use that in \<open>auto simp: move_as_def Let_def\<close>)
    ultimately show ?thesis
      by (simp add: refine_round_def)
  qed
  have "fmlookup (rs_byAS (refine_rounds k c g weight front ceil movable s)) x = fmlookup (rs_byAS s) x"
    if "x \<notin> set movable" for k ceil movable s
    by (induction k arbitrary: s) (simp_all add: round [OF that] Let_def)
  then show ?thesis
    using assms by (simp add: refine_def Let_def)
qed

definition groups_owned :: "PlaceTopology \<Rightarrow> bool" where
  "groups_owned t \<longleftrightarrow>
     (\<forall>x d asn as. device t x = Some d \<longrightarrow> fmlookup (tp_ASes t) asn = Some as
        \<longrightarrow> dv_PlacementGroup d \<in> pg_ID ` set (as_PlacementGroups as) \<longrightarrow> asn = dv_ASN d)"

lemma SortedASNs_set: "asn \<in> set (SortedASNs t) \<longleftrightarrow> fmlookup (tp_ASes t) asn \<noteq> None"
  by (auto simp: SortedASNs_def)

lemma place_all_keeps:
  assumes wf: "wf_topology t" and all: "place_all t opts st front strategy = Inr am"
    and asn: "fmlookup (tp_ASes t) asn = Some as" "\<not> as_Distributable as"
    and n: "fmlookup (explicit_pins t) asn = Some n
      \<or> fmlookup (explicit_pins t) asn = None \<and> recorded_as opts asn = Some n \<and> n |\<in>| cs_allNodeName st"
  shows "fmlookup (a_ByAS (fst am)) asn = Some n"
proof (rule place_all_stages [OF all])
  fix pinned moved s sf tolerance a moved'
  assume k: "foldl (keep_recorded st opts) (explicit_pins t, []) (SortedASNs t) = (pinned, moved)"
    and s: "placeServices t (cluster_of t st) opts front (service_pins t)
       \<lparr>ps_a = no_assignment, ps_loads = cs_baseline st, ps_moved = moved\<rparr> = Inr s"
    and sf: "fold_result (place_pinned st opts (as_weights t) pinned) (s, []) (SortedASNs t) = Inr sf"
    and a: "place_ases t (cluster_of t st) front tolerance pinned sf = Inr a"
    and d: "distributePlacementGroups t (cluster_of t st) opts (fmdom (explicit_pins t)) (cs_baseline st) a = Inr (fst am, moved')"
  have mem: "asn \<in> set (SortedASNs t)"
    using asn(1) by (simp add: SortedASNs_set)
  have pin: "fmlookup pinned asn = Some n"
    using n keep_recorded_lookup [OF k] mem by blast
  have "pins_placed pinned {} (s, [])"
    using placeServices_kept [OF s] by (simp add: pins_placed_def no_assignment_def)
  then have pp: "pins_placed pinned (set (SortedASNs t)) sf"
    using pins_placed_fold [OF sf] by fastforce
  then have at: "fmlookup (a_ByAS (ps_a (fst sf))) asn = Some n" and free: "asn \<notin> set (snd sf)"
    using pin mem by (auto simp: pins_placed_def)
  obtain order s1 where o: "orderForLocality (snd sf) (buildAffinity t) (as_weights t) = Some order"
    and s1: "fold_result (place_free (cluster_of t st) (buildAffinity t) (as_weights t) front tolerance) (fst sf) order = Inr s1"
    and a': "a_ByAS a = rs_byAS (refine (cluster_of t st) (a_ByAS (ps_a s1)) (buildAffinity t) (as_weights t) (ps_loads s1) pinned front tolerance)"
    and g: "a_ByGroup a = a_ByGroup (ps_a s1)"
    using a by (auto simp: place_ases_def Let_def bind_result_Inr_iff split: option.splits)
  have "snd sf = filter (\<lambda>x. fmlookup pinned x = None) (SortedASNs t)"
    using place_pinned_free [OF sf] by simp
  moreover have "0 \<notin> set (SortedASNs t)"
    using wf by (fastforce simp: SortedASNs_set wf_topology_def)
  moreover have "distinct (SortedASNs t)"
    by (simp add: SortedASNs_def)
  ultimately have "mset order = mset (snd sf)"
    using orderForLocality_permutes [of "snd sf" "buildAffinity t" "as_weights t"] o by auto
  then have "asn \<notin> set order"
    using free mset_eq_setD by blast
  then have "fmlookup (a_ByAS a) asn = Some n"
    unfolding a' using place_free_fold [OF s1] at pin by (simp add: refine_pinned)
  moreover have "a_ByGroup (ps_a s) = fmempty"
    using placeServices_kept [OF s] by (simp add: no_assignment_def)
  then have "a_ByGroup (ps_a (fst sf)) = fmempty"
    by (intro fold_result_invariant [OF sf, where I = "\<lambda>sf. a_ByGroup (ps_a (fst sf)) = fmempty"])
      (auto dest: place_pinned_kept)
  moreover have "\<not> splittable t (fmdom (explicit_pins t)) asn"
    using asn by (simp add: splittable_def)
  ultimately show ?thesis
    using distribute_inv [OF d] place_ases_kept [OF a] by simp
qed


section \<open>Placing the small topology\<close>

lemma small_strict: "strictly (small_options fixed)"
  by (simp add: strictly_def small_options_def)

lemma small_wf: "wf_topology small_topology"
  by (auto simp: wf_topology_def small_topology_def small_lab_def small_node_def small_as_def small_device_def device_def
      fmlookup_of_list split: if_splits)

lemma small_owned: "groups_owned small_topology"
  by (auto simp: groups_owned_def small_topology_def small_as_def fmlookup_of_list split: if_splits)


definition small_record :: Assignment where
  "small_record = no_assignment\<lparr>a_ByAS := fmap_of_list [(1, ''n2'')]\<rparr>"


end
