(* ===== verification/Spec2Isabelle.thy ===== *)
theory Spec2Isabelle
  imports Contract Alloc Durability Cluster_Atomic Tunnels Lifespan Typed Housekeeping Plan_Exec Ipam Limiter
    Authorization Placement
begin

text \<open>
  A verification development of Twinet, a platform that runs network laboratories as containers on
  a cluster of machines.

  \<^bold>\<open>The program.\<close>  A controller (\<open>src/internal/client\<close>, \<open>src/internal/cli\<close>) expands a manifest into a
  topology, gives its links overlay identifiers (\<open>src/internal/alloc\<close>) and its subnets addresses
  (\<open>src/internal/ipam\<close>), places its devices on nodes (\<open>src/internal/place\<close>) and deploys it over the
  agents of those nodes by a two-phase commit under a fenced lease.  Each agent
  (\<open>src/internal/agent\<close>) admits a request by the identity in the caller's certificate
  (\<open>src/internal/authz\<close>), keeps its leases, claims, transactions and generations in a journal, runs
  the plan of a deployment (\<open>src/internal/plan\<close>) within node-wide budgets (\<open>src/internal/limiter\<close>),
  repairs what breaks, reclaims disposable labs and collects leftovers.

  \<^bold>\<open>Conventions.\<close>  A Go struct is a record, an enumeration a datatype, a map a finite map (\<open>fmap\<close>), a
  function that returns an error a function into \<open>result\<close> whose left values are errors; a string is
  a byte string.  A critical section of the agent is a function on the record \<open>Server\<close>; the clock and
  the outcome of a disk write are its arguments.  A hash or message authentication code, the
  container runtime, the host network and the encoding of a topology are arguments as well.  A loop
  over a Go map whose result does not depend on the order is a loop over its sorted keys.

  \<^bold>\<open>The node agent.\<close>
  \<^item> \<open>Agent_State\<close>: the state of a server and its journal (\<open>coordination.go\<close>, \<open>agent.go\<close>).
  \<^item> \<open>Leases\<close>: mutation leases and fences; the locales \<open>fenced_op\<close> and \<open>journalled_op\<close> are the contract
    of every operation under a fence, interpreted for each of them in \<open>Generations\<close>, \<open>Overlays\<close>,
    \<open>Recovery\<close> and \<open>Node_System\<close>.
  \<^item> \<open>Journal\<close> and \<open>Restart\<close>: what a starting agent reads back and how it completes it.
  \<^item> \<open>Overlays\<close> and \<open>Gc_Fence\<close>: reservation, promotion, release of overlay identifiers, and the fence
    between them and the collector (\<open>gc_fence.go\<close>, \<open>gc.go\<close>).
  \<^item> \<open>Generations\<close>, \<open>Recovery\<close> and \<open>Deployments\<close>: the transaction of a deployment on a node, its recovery
    and the records around it (\<open>coordination.go\<close>, \<open>recovery.go\<close>, \<open>apply_transaction.go\<close>).
  \<^item> \<open>Operations\<close>, \<open>Holds\<close>, \<open>Lifetimes\<close>, \<open>Repair\<close>: the operation lease of a lab, grading holds and
    exemptions, lifetimes of disposable labs, pacing of repairs (\<open>agent.go\<close>, \<open>hold.go\<close>, \<open>exempt.go\<close>,
    \<open>ephemeral.go\<close>, \<open>reconcile.go\<close>).
  \<^item> \<open>Node_System\<close>: all of these as requests of one node, in any order, with crashes and restarts
    between any two.  The newest fence is the only one accepted, fences only increase, and a stale
    controller changes nothing.
  \<^item> \<open>Durability\<close>, \<open>Two_Phase\<close>, \<open>Tunnels\<close>, \<open>Lifespan\<close>, \<open>Typed\<close>, \<open>Housekeeping\<close>: what every reachable state
    guarantees.  An acknowledged request is on disk and a commit survives a restart; the records of a
    deployment agree and refine a state machine of four states; two labs never share a tunnel and
    the collector never takes a claimed one; a disposable lab cannot outlive its ceiling; every
    transaction is well-formed.  \<open>Frames\<close> holds the locales by which a request that does not touch a
    part of the state is dismissed at once.

  \<^bold>\<open>The handlers and the cluster.\<close>
  \<^item> \<open>Handlers\<close> and \<open>Recover_Handlers\<close>: the prepare, apply, commit, finalize, abort, status and recovery
    requests as the sequences of critical sections their source runs, with every early return.
  \<^item> \<open>Handler_Effects\<close>, \<open>Recovery_Effects\<close>, \<open>Inventory_Effects\<close>: which of them can move the committed
    generation or the recorded inventory, and from where to where.
  \<^item> \<open>Cluster_Recovery\<close>, \<open>Cluster\<close>: the controller's lease, deployment and recovery over all nodes, with
    calls and replies that may be lost (\<open>client/coordination.go\<close>, \<open>recovery.go\<close>, \<open>split_commit.go\<close>).
  \<^item> \<open>Cluster_Effects\<close>, \<open>Cluster_Demo\<close>, \<open>Cluster_Atomic\<close>: a deployment that is reported as successful is
    committed on every node; after a recovery that is reported as complete all nodes agree; what is
    reported as committed is live; and no node commits before all have applied.

  \<^bold>\<open>Admission.\<close>
  \<^item> \<open>Identity\<close> (\<open>authz/identity.go\<close>): the identity an issuer writes into a certificate is the one every
    agent reads.
  \<^item> \<open>Authorization\<close> (\<open>authorization.go\<close>, the tokens of \<open>diagnostic.go\<close>, the peer gate of \<open>durability.go\<close>,
    the route table of \<open>agent.go\<close>): no handler runs outside its caller's certificate; and the lab a body
    is authorized for can differ from the lab its handler decodes.

  \<^bold>\<open>Placement.\<close>
  \<^item> \<open>Place_Resources\<close> (\<open>place/resources.go\<close>): demands, capacities, fitting and pressure.
  \<^item> \<open>Place_Admission\<close> (\<open>place/admission.go\<close>, \<open>schedule.go\<close>): the capacity state, strict admission, and
    waves that are safe and complete.
  \<^item> \<open>Place_Search\<close> (\<open>place/affinity.go\<close>): the order is a permutation, the greedy choice fits, and local
    search only improves.
  \<^item> \<open>Placement\<close> (\<open>place/place.go\<close>, \<open>services.go\<close>, \<open>groups.go\<close>): a strict placement fits on its nodes, and a
    recorded placement is kept.

  \<^bold>\<open>Other components.\<close>
  \<^item> \<open>Contract\<close> (\<open>contract/version.go\<close>), \<open>Alloc\<close> (\<open>alloc/alloc.go\<close>), \<open>Ipam\<close> (\<open>ipam\<close>): compatibility ranges,
    identifiers that are distinct within a lab and across labs, the overlap sweep and subnets.
  \<^item> \<open>Deploy_Plan\<close>, \<open>Plan_Exec\<close> (\<open>plan/plan.go\<close>): validation is exact; in every interleaving a step waits
    for its needs, the run ends, and failures stay in their scope.
  \<^item> \<open>Limiter\<close> (\<open>limiter/limiter.go\<close>): budgets are never exceeded and ordered acquisition cannot deadlock.

  \<^bold>\<open>Bounds.\<close>  The search for a free overlay identifier has no bound in the source and is a partial
  function; that it returns is proved under a count of the candidates.  The depth-first search and
  the closure of a plan are total functions.  The inner loop of the placement order has one unit of
  fuel for each free system, which is shown to be enough.  Local search runs at most eight rounds, as
  in the source.  A \<open>float64\<close> of the placer is a rational, so its arithmetic is exact where the code
  rounds, and its byte counts do not wrap; identifiers and addresses are kept at their width.

  \<^bold>\<open>Not modelled.\<close>  What acts on the host or renders text: the deployment engine (\<open>deploy\<close>), container
  backends (\<open>runtime\<close>), host networking (\<open>netx\<close>, the wiring files of \<open>agent\<close>), configuration and its
  parsers (\<open>render\<close>, \<open>nos\<close>, \<open>netstate\<close>), probes and marks (\<open>grade\<close>, \<open>harness\<close>), faults (\<open>fault\<close>), the
  control daemons and semantic probes, metrics, events and inventory of the agent, transport and
  timing of the client, \<open>cli\<close>, \<open>web\<close>, \<open>svc\<close>, \<open>access\<close>, \<open>pki\<close>, \<open>images\<close>, \<open>integrity\<close>, \<open>schema\<close>, \<open>manifest\<close> and the
  programs under \<open>cmd\<close>.  Manifest expansion (\<open>expand\<close>) and the reattachment of service links after
  placement (\<open>service\<close>) build the pointer graph that the modelled components start from.
\<close>

end
